(* ===== verification/Prelude.thy ===== *)
theory Prelude
  imports Main "HOL-Library.Word" "HOL-Library.Monad_Syntax"
begin

text \<open>
  Shared material: names for the machine types the C sources use, the collections of facts
  the component proofs draw on, and generic lemmas on words, natural numbers and the option
  monad.  A C function that may abort (a failing \<open>assert\<close>, which the default build keeps, or
  undefined behaviour) returns an \<open>option\<close> in the model, with \<open>None\<close> for the abort; every
  other failure is a return code, as in the C.
\<close>

unbundle bit_operations_syntax

type_synonym u8 = "8 word"
type_synonym u32 = "32 word"
type_synonym u64 = "64 word"
type_synonym bytes = "8 word list"

named_theorems code_defs \<open>unfolding equations of the modelled operations\<close>
named_theorems num_val \<open>the value of a 128 bit operation as a natural number\<close>

subsection \<open>The option monad\<close>

definition assert_that :: "bool \<Rightarrow> unit option" where
  "assert_that b = (if b then Some () else None)"

lemma assert_that_Some [simp]: "assert_that b = Some u \<longleftrightarrow> b"
  by (simp add: assert_that_def)

lemma assert_that_None [simp]: "assert_that b = None \<longleftrightarrow> \<not> b"
  by (simp add: assert_that_def)

lemma assert_that_True [simp]: "assert_that True = Some ()"
  by (simp add: assert_that_def)

lemma assert_that_False [simp]: "assert_that False = None"
  by (simp add: assert_that_def)

subsection \<open>Words read as natural numbers\<close>

lemma unat_mask_less: "unat (x :: 'a::len word) < 2 ^ LENGTH('a)"
  by (rule unsigned_less)

lemma unat_drop_bit: "unat (drop_bit n x :: 'a::len word) = unat x div 2 ^ n"
  by (simp only: unat_drop_bit_eq) (simp only: drop_bit_eq_div)

lemma unat_push_bit: "unat (push_bit n x :: 'a::len word) = unat x * 2 ^ n mod 2 ^ LENGTH('a)"
  by (simp only: unsigned_push_bit_eq) (simp only: take_bit_eq_mod push_bit_eq_mult)

lemma or_disjoint_add:
  fixes a b :: "'a::len word"
  assumes "a AND b = 0"
  shows "a OR b = a + b"
  using assms by (simp add: disjunctive_add_eq_or)

lemma unat_add_no_wrap:
  fixes a b :: "'a::len word"
  assumes "unat a + unat b < 2 ^ LENGTH('a)"
  shows "unat (a + b) = unat a + unat b"
  using assms by (simp add: unat_word_ariths)

lemma unat_shl1_or:
  fixes x y :: u64
  shows "unat (push_bit 1 x OR drop_bit 63 y) = 2 * unat x mod 2 ^ 64 + unat y div 2 ^ 63"
proof -
  have d: "push_bit 1 x AND drop_bit 63 y = 0"
  proof (rule bit_eqI)
    fix n
    show "bit (push_bit 1 x AND drop_bit 63 y) n = bit (0 :: u64) n"
      using bit_imp_le_length [of y "63 + n"]
      by (simp only: bit_and_iff bit_push_bit_iff bit_drop_bit_eq comp_def) auto
  qed
  have a: "unat (push_bit 1 x) = 2 * unat x mod 2 ^ 64"
    by (simp only: unat_push_bit) (simp add: mult.commute)
  have b: "unat (drop_bit 63 y) = unat y div 2 ^ 63"
    by (rule unat_drop_bit)
  have "unat y div 2 ^ 63 < 2"
    using unat_mask_less [of y] by (simp add: less_mult_imp_div_less)
  moreover have "2 * unat x mod 2 ^ 64 = 2 * (unat x mod 2 ^ 63)"
    using mult_mod_right [of 2 "unat x" "2 ^ 63"] by simp
  moreover have "unat x mod 2 ^ 63 < 2 ^ 63" by simp
  ultimately have "2 * unat x mod 2 ^ 64 + unat y div 2 ^ 63 < 2 ^ 64"
    by (simp only:) simp
  then have "unat (push_bit 1 x) + unat (drop_bit 63 y) < 2 ^ LENGTH(64)"
    unfolding a b by simp
  then show ?thesis
    by (simp only: or_disjoint_add [OF d] unat_add_no_wrap a b)
qed

lemma unat_shr1_or:
  fixes x y :: u64
  shows "unat (drop_bit 1 x OR push_bit 63 y) = unat x div 2 + (unat y mod 2) * 2 ^ 63"
proof -
  have d: "drop_bit 1 x AND push_bit 63 y = 0"
  proof (rule bit_eqI)
    fix n
    show "bit (drop_bit 1 x AND push_bit 63 y) n = bit (0 :: u64) n"
      using bit_imp_le_length [of x "1 + n"]
      by (simp only: bit_and_iff bit_push_bit_iff bit_drop_bit_eq comp_def) auto
  qed
  have a: "unat (drop_bit 1 x) = unat x div 2"
    by (simp only: unat_drop_bit power_one_right)
  have b: "unat (push_bit 63 y) = (unat y mod 2) * 2 ^ 63"
    using mult_mod_right [of "2 ^ 63" "unat y" 2]
    by (simp only: unat_push_bit) (simp add: mult.commute)
  have "unat x div 2 < 2 ^ 63"
    using unat_mask_less [of x] by (simp add: less_mult_imp_div_less)
  moreover have "(unat y mod 2) * 2 ^ 63 \<le> 2 ^ 63"
    by (cases "even (unat y)") (simp_all add: even_iff_mod_2_eq_zero odd_iff_mod_2_eq_one)
  ultimately have "unat (drop_bit 1 x) + unat (push_bit 63 y) < 2 ^ LENGTH(64)"
    unfolding a b by simp
  then show ?thesis
    by (simp only: or_disjoint_add [OF d] unat_add_no_wrap a b)
qed

lemma two_digit_mod: "(v div M mod M) * M + v mod M = v mod (M * M)" for v M :: nat
  using mod_mult2_eq [of v M M] by (simp add: mult.commute)

lemma double_split: "2 * l = (l div H) * (2 * H) + 2 * (l mod H)" for l H :: nat
proof -
  have "2 * (l div H * H + l mod H) = (l div H) * (2 * H) + 2 * (l mod H)"
    by (simp only: distrib_left mult.assoc mult.left_commute)
  then show ?thesis by (simp only: div_mult_mod_eq)
qed

lemma half_split: "h * H = (h div 2) * (2 * H) + (h mod 2) * H" for h H :: nat
proof -
  have "(h div 2 * 2 + h mod 2) * H = (h div 2) * (2 * H) + (h mod 2) * H"
    by (simp only: distrib_right mult.assoc mult.left_commute)
  then show ?thesis by (simp only: div_mult_mod_eq)
qed

lemma digit_div: "r < M \<Longrightarrow> (q * M + r) div M = q" for q r M :: nat
  by (metis add.right_neutral div_less div_mult_self3 gr_zeroI not_less0)

lemma digit_mod: "r < M \<Longrightarrow> (q * M + r) mod M = r" for q r M :: nat
  by simp

lemma double_digits:
  fixes h l H M :: nat
  assumes M: "M = 2 * H" and H: "0 < H" and l: "l < M"
  shows "2 * (h * M + l) mod (M * M) = (2 * h mod M + l div H) * M + 2 * (l mod H)"
proof -
  let ?v = "(2 * h + l div H) * M + 2 * (l mod H)"
  have small: "2 * (l mod H) < M" using H M by simp
  have q: "l div H < 2" using l M by (simp add: less_mult_imp_div_less)
  have "2 * h mod M = 2 * (h mod H)" unfolding M by (rule mult_mod_right [symmetric])
  then have "2 * h mod M + l div H < M" using q H M mod_less_divisor [OF H, of h] by linarith
  then have carry: "(2 * h + l div H) mod M = 2 * h mod M + l div H"
    by (metis mod_add_left_eq mod_less)
  have "2 * (h * M + l) = ?v"
    using double_split [of l H] unfolding M by (simp add: algebra_simps)
  then show ?thesis
    using two_digit_mod [of ?v M] unfolding digit_div [OF small] digit_mod [OF small] carry by simp
qed

lemma mod_add_if:
  fixes x y M :: nat
  assumes "x < M" "y < M"
  shows "(x + y) mod M = (if x + y < M then x + y else x + y - M)"
  using assms by (simp add: mod_if)

lemma mod_double_if:
  fixes x M :: nat
  assumes "x < M"
  shows "2 * x mod M = (if 2 * x < M then 2 * x else 2 * x - M)"
  using assms by (simp add: mod_if)

lemma even_double_mod: "even (2 * x mod 2 ^ 64)" for x :: nat
proof -
  have "2 * x mod (2 * 2 ^ 63) = 2 * (x mod 2 ^ 63)" by (rule mult_mod_right [symmetric])
  then have "even (2 * x mod (2 * 2 ^ 63))" by (simp only: dvd_triv_left)
  then show ?thesis by simp
qed

lemma unat_add_if:
  fixes x y :: u64
  shows "unat (x + y) = (if unat x + unat y < 2 ^ 64 then unat x + unat y
                         else unat x + unat y - 2 ^ 64)"
  using mod_add_if [OF unat_mask_less [of x] unat_mask_less [of y]] by (simp add: unat_word_ariths)

lemma unat_sub_if:
  fixes x y :: u64
  shows "unat (x - y) = (if unat y \<le> unat x then unat x - unat y
                         else 2 ^ 64 + unat x - unat y)"
  using unat_mask_less [of x] unat_mask_less [of y]
  by (auto simp: unat_sub_if_size word_size word_le_nat_alt)

lemma digits_eq_iff:
  fixes x y x' y' M :: nat
  assumes "y < M" "y' < M"
  shows "x * M + y = x' * M + y' \<longleftrightarrow> y = y' \<and> x = x'"
  using digit_div [OF assms(1), of x] digit_div [OF assms(2), of x']
    digit_mod [OF assms(1), of x] digit_mod [OF assms(2), of x'] by metis

lemma digits_less_iff:
  fixes x y x' y' M :: nat
  assumes "y < M" "y' < M"
  shows "x * M + y < x' * M + y' \<longleftrightarrow> x < x' \<or> (x = x' \<and> y < y')"
proof (cases x x' rule: linorder_cases)
  case less
  then have "x * M + M \<le> x' * M" by (metis Suc_leI add.commute mult_Suc mult_le_mono1)
  with less assms show ?thesis by linarith
next
  case equal
  with assms show ?thesis by simp
next
  case greater
  then have "x' * M + M \<le> x * M" by (metis Suc_leI add.commute mult_Suc mult_le_mono1)
  with greater assms show ?thesis by linarith
qed

lemma unat_of_nat_lt: "x < 2 ^ LENGTH('a) \<Longrightarrow> unat (of_nat x :: 'a::len word) = x"
  by (simp only: unsigned_of_nat take_bit_nat_eq_self of_nat_id)

lemma less_8: "(x :: nat) < 8 \<Longrightarrow> x \<in> {0, 1, 2, 3, 4, 5, 6, 7}"
  unfolding insert_iff empty_iff by arith

subsection \<open>The interface of an encoder and its decoder\<close>

text \<open>
  \<open>enc\<close> may abort and \<open>dec\<close> may refuse; on the values that are \<open>ok\<close> the encoder gives a text
  that the decoder reads back.  The number formats, the hexadecimal keys and the entries of
  the state file provide this interface.
\<close>

locale codec =
  fixes enc :: "'a \<Rightarrow> 'b option" and dec :: "'b \<Rightarrow> 'a option" and ok :: "'a \<Rightarrow> bool"
  assumes enc_total: "ok x \<Longrightarrow> \<exists>s. enc x = Some s"
    and dec_enc: "ok x \<Longrightarrow> enc x = Some s \<Longrightarrow> dec s = Some x"
begin

lemma roundtrip: "ok x \<Longrightarrow> Option.bind (enc x) dec = Some x"
  using enc_total [of x] dec_enc [of x] by auto

lemma enc_inject: "ok x \<Longrightarrow> ok y \<Longrightarrow> enc x = enc y \<Longrightarrow> x = y"
  by (metis enc_total dec_enc option.inject)

lemma dec_image: "ok x \<Longrightarrow> x \<in> {y. \<exists>s. dec s = Some y}"
  using enc_total dec_enc by blast

end

end
