(* ===== verification/Libc.thy ===== *)
theory Libc
  imports Prelude
begin

text \<open>
  What the sources use of the C library: the character classes of \<open>ctype.h\<close> in the C locale,
  the conversions of \<open>printf\<close> (\<open>%u\<close>, \<open>%x\<close>, \<open>%02X\<close>) and \<open>sscanf\<close> (\<open>%u\<close>, \<open>%x\<close>, \<open>%02X\<close>),
  and the byte order of a little-endian \<open>memcpy\<close>.  A C string is the list of its characters
  up to the terminating NUL.
\<close>

subsection \<open>Characters\<close>

definition code :: "char \<Rightarrow> nat" where
  "code c = of_char c"

lemma code_char_of [simp]: "n < 256 \<Longrightarrow> code (char_of n) = n"
  by (simp add: code_def)

lemma code_less [simp]: "code c < 256"
  by (simp add: code_def)

lemma code_inject: "code c = code d \<longleftrightarrow> c = d"
  by (simp add: code_def)

definition isdigit :: "char \<Rightarrow> bool" where
  "isdigit c \<longleftrightarrow> 48 \<le> code c \<and> code c \<le> 57"

definition isupper :: "char \<Rightarrow> bool" where
  "isupper c \<longleftrightarrow> 65 \<le> code c \<and> code c \<le> 90"

definition islower :: "char \<Rightarrow> bool" where
  "islower c \<longleftrightarrow> 97 \<le> code c \<and> code c \<le> 122"

definition isalnum :: "char \<Rightarrow> bool" where
  "isalnum c \<longleftrightarrow> isdigit c \<or> isupper c \<or> islower c"

definition isspace :: "char \<Rightarrow> bool" where
  "isspace c \<longleftrightarrow> code c = 32 \<or> (9 \<le> code c \<and> code c \<le> 13)"

definition isascii :: "char \<Rightarrow> bool" where
  "isascii c \<longleftrightarrow> code c < 128"

definition isgraph :: "char \<Rightarrow> bool" where
  "isgraph c \<longleftrightarrow> 33 \<le> code c \<and> code c \<le> 126"

definition tolower :: "char \<Rightarrow> char" where
  "tolower c = (if isupper c then char_of (code c + 32) else c)"

lemmas ctype_defs = isdigit_def isupper_def islower_def isalnum_def isspace_def isascii_def
  isgraph_def

subsection \<open>Digits\<close>

definition upper_digit :: "nat \<Rightarrow> char" where
  "upper_digit n = (if n \<le> 9 then char_of (n + 48) else char_of (n - 10 + 65))"

definition lower_digit :: "nat \<Rightarrow> char" where
  "lower_digit n = (if n \<le> 9 then char_of (n + 48) else char_of (n - 10 + 97))"

definition hex_val :: "char \<Rightarrow> nat option" where
  "hex_val c =
     (if 48 \<le> code c \<and> code c \<le> 57 then Some (code c - 48)
      else if 65 \<le> code c \<and> code c \<le> 70 then Some (10 + code c - 65)
      else if 97 \<le> code c \<and> code c \<le> 102 then Some (10 + code c - 97)
      else None)"

definition digit_in :: "nat \<Rightarrow> char \<Rightarrow> bool" where
  "digit_in b c \<longleftrightarrow> (case hex_val c of Some d \<Rightarrow> d < b | None \<Rightarrow> False)"

definition digit_val :: "char \<Rightarrow> nat" where
  "digit_val c = (case hex_val c of Some d \<Rightarrow> d | None \<Rightarrow> 0)"

definition str_val :: "nat \<Rightarrow> nat \<Rightarrow> string \<Rightarrow> nat" where
  "str_val b v s = foldl (\<lambda>v c. v * b + digit_val c) v s"

lemma str_val_Nil [simp]: "str_val b v [] = v"
  by (simp add: str_val_def)

lemma str_val_Cons [simp]: "str_val b v (c # s) = str_val b (v * b + digit_val c) s"
  by (simp add: str_val_def)

lemma str_val_append: "str_val b v (s @ t) = str_val b (str_val b v s) t"
  by (simp add: str_val_def)

lemma str_val_ge: "1 \<le> b \<Longrightarrow> v \<le> str_val b v s"
proof (induction s arbitrary: v)
  case (Cons c s)
  have "v \<le> v * b + digit_val c" using Cons.prems by (simp add: trans_le_add1)
  also have "\<dots> \<le> str_val b (v * b + digit_val c) s" using Cons by blast
  finally show ?case by simp
qed simp

lemma hex_val_upper_digit [simp]: "n < 16 \<Longrightarrow> hex_val (upper_digit n) = Some n"
  by (auto simp: hex_val_def upper_digit_def)

lemma hex_val_lower_digit [simp]: "n < 16 \<Longrightarrow> hex_val (lower_digit n) = Some n"
  by (auto simp: hex_val_def lower_digit_def)

lemma hex_val_bound: "hex_val c = Some d \<Longrightarrow> d < 16"
  by (auto simp: hex_val_def split: if_splits)

lemma digit_upper [simp]:
  "n < b \<Longrightarrow> b \<le> 16 \<Longrightarrow> digit_in b (upper_digit n)" "n < 16 \<Longrightarrow> digit_val (upper_digit n) = n"
  by (simp_all add: digit_in_def digit_val_def)

lemma digit_lower [simp]:
  "n < b \<Longrightarrow> b \<le> 16 \<Longrightarrow> digit_in b (lower_digit n)" "n < 16 \<Longrightarrow> digit_val (lower_digit n) = n"
  by (simp_all add: digit_in_def digit_val_def)

lemma digit_in_10: "digit_in 10 c \<longleftrightarrow> isdigit c"
  by (auto simp: digit_in_def hex_val_def isdigit_def)

lemma digit_val_10: "isdigit c \<Longrightarrow> digit_val c = code c - 48"
  by (auto simp: digit_val_def hex_val_def isdigit_def)

subsection \<open>Printing\<close>

fun nat_str :: "(nat \<Rightarrow> char) \<Rightarrow> nat \<Rightarrow> nat \<Rightarrow> string" where
  "nat_str dig b n =
     (if n < b \<or> b < 2 then [dig n] else nat_str dig b (n div b) @ [dig (n mod b)])"

declare nat_str.simps [simp del]

lemma nat_str_nonempty [simp]: "nat_str dig b n \<noteq> []"
  by (subst nat_str.simps) simp

lemma nat_str_digits:
  assumes "2 \<le> b" and "\<And>n. n < b \<Longrightarrow> P (dig n)"
  shows "list_all P (nat_str dig b n)"
proof (induction n rule: less_induct)
  case (less n)
  show ?case
    using assms less [of "n div b"] by (subst nat_str.simps) (auto simp: not_less)
qed

lemma nat_str_val:
  assumes "2 \<le> b" and "\<And>n. n < b \<Longrightarrow> digit_val (dig n) = n"
  shows "str_val b 0 (nat_str dig b n) = n"
proof (induction n rule: less_induct)
  case (less n)
  show ?case
    using assms less [of "n div b"]
    by (subst nat_str.simps) (auto simp: not_less str_val_append)
qed

lemma nat_str_length:
  assumes "2 \<le> b"
  shows "n < b ^ Suc k \<Longrightarrow> length (nat_str dig b n) \<le> Suc k"
proof (induction k arbitrary: n)
  case 0
  then show ?case by (subst nat_str.simps) simp
next
  case (Suc k)
  have "n div b < b ^ Suc k"
    using Suc.prems assms by (simp add: less_mult_imp_div_less mult.commute)
  then show ?case
    using Suc.IH [of "n div b"] by (subst nat_str.simps) auto
qed

definition print_u :: "u32 \<Rightarrow> string" where
  "print_u w = nat_str upper_digit 10 (unat w)"

definition print_x :: "u32 \<Rightarrow> string" where
  "print_x w = nat_str lower_digit 16 (unat w)"

definition print_umax :: "u64 \<Rightarrow> string" where
  "print_umax w = nat_str upper_digit 10 (unat w)"

definition print_02X :: "u8 \<Rightarrow> string" where
  "print_02X w = [upper_digit (unat w div 16), upper_digit (unat w mod 16)]"

subsection \<open>Scanning\<close>

text \<open>
  \<open>scan_num b w s\<close> is the conversion of \<open>sscanf\<close> to an unsigned number in base \<open>b\<close> with the
  field width \<open>w\<close>: white space, an optional sign, \<open>0x\<close> in base 16, and at least one digit.  The
  value is stored as \<open>strtoul\<close> gives it: limited to 64 bits, negated where a sign asks for it,
  and cut down to the width of the target.
\<close>

definition scan_num :: "nat \<Rightarrow> nat \<Rightarrow> string \<Rightarrow> (bool \<times> nat) option" where
  "scan_num b w s =
     (let s = dropWhile isspace s;
          (neg, w, s) =
            (case s of [] \<Rightarrow> (False, w, s)
             | c # t \<Rightarrow> if 0 < w \<and> c = CHR ''-'' then (True, w - 1, t)
                        else if 0 < w \<and> c = CHR ''+'' then (False, w - 1, t)
                        else (False, w, s));
          (w, s) =
            (if b = 16 \<and> 2 \<le> w \<and> take 1 s = ''0'' \<and> (take 1 (drop 1 s) = ''x'' \<or> take 1 (drop 1 s) = ''X'')
             then (w - 2, drop 2 s) else (w, s));
          ds = takeWhile (digit_in b) (take w s)
      in if ds = [] then None else Some (neg, str_val b 0 ds))"

definition strtoul_val :: "bool \<times> nat \<Rightarrow> u64" where
  "strtoul_val r =
     (if snd r \<ge> 2 ^ 64 then - 1 else if fst r then - of_nat (snd r) else of_nat (snd r))"

definition scan_u32 :: "nat \<Rightarrow> string \<Rightarrow> u32 option" where
  "scan_u32 b s = map_option (\<lambda>r. ucast (strtoul_val r)) (scan_num b (length s) s)"

definition scan_umax :: "string \<Rightarrow> u64 option" where
  "scan_umax s = map_option strtoul_val (scan_num 10 (length s) s)"

definition scan_02X :: "string \<Rightarrow> u8 option" where
  "scan_02X s = map_option (\<lambda>r. ucast (strtoul_val r)) (scan_num 16 2 s)"

text \<open>
  \<open>sscanf(s, "%d", &arg)\<close>: the result (\<open>EOF\<close> is -1) and the number, limited to a \<open>long\<close> and cut
  down to an \<open>int\<close>.
\<close>

definition to_int32 :: "int \<Rightarrow> int" where
  "to_int32 i = sint (word_of_int i :: u32)"

definition scan_d :: "string \<Rightarrow> int \<times> int" where
  "scan_d s =
     (let s = dropWhile isspace s
      in if s = [] then (-1, 0)
         else case scan_num 10 (length s) s of
                None \<Rightarrow> (0, 0)
              | Some (neg, n) \<Rightarrow>
                  (1, to_int32 (if neg then - int (min n (2 ^ 63)) else int (min n (2 ^ 63 - 1)))))"

lemma digit_not_special:
  assumes "digit_in b c"
  shows "\<not> isspace c" "c \<noteq> CHR ''-''" "c \<noteq> CHR ''+''" "c \<noteq> CHR ''x''" "c \<noteq> CHR ''X''"
    "c \<noteq> CHR '':''" "c \<noteq> CHR 0x0A" "c \<noteq> CHR 0x00"
  using assms by (auto simp: digit_in_def hex_val_def isspace_def code_def split: if_splits)

lemma scan_num_digits:
  assumes "s \<noteq> []" and "list_all (digit_in b) s" and "length s \<le> w"
  shows "scan_num b w s = Some (False, str_val b 0 s)"
proof -
  obtain c t where s: "s = c # t" using assms(1) by (cases s) auto
  have c: "digit_in b c" and t: "list_all (digit_in b) t" using assms(2) s by auto
  have x: "take 1 t \<noteq> ''x'' \<and> take 1 t \<noteq> ''X''"
    using t digit_not_special [of b "hd t"] by (cases t) auto
  have tw: "takeWhile (digit_in b) s = s"
    using assms(2) by (simp add: list_all_iff takeWhile_eq_all_conv)
  show ?thesis
    using digit_not_special [OF c] x assms(3) tw
    by (auto simp: scan_num_def s Let_def)
qed

lemma ucast_of_nat_unat:
  fixes w :: "'a::len word"
  assumes "LENGTH('a) \<le> 64"
  shows "ucast (of_nat (unat w) :: u64) = w"
proof -
  have "unat w < 2 ^ 64"
    using order.strict_trans2 [OF unat_mask_less [of w] power_increasing [OF assms, of 2]] by simp
  then have "unat (of_nat (unat w) :: u64) = unat w"
    by (simp add: unsigned_ucast_eq take_bit_nat_eq_self)
  then have "unat (ucast (of_nat (unat w) :: u64) :: 'a word) = take_bit LENGTH('a) (unat w)"
    by (simp only: unsigned_ucast_eq)
  also have "\<dots> = unat w" by (rule take_bit_nat_eq_self [OF unat_mask_less])
  finally show ?thesis by (simp only: word_unat_eq_iff)
qed

lemma scan_u32_digits:
  assumes "2 \<le> b" "b \<le> 16" and "\<And>n. n < b \<Longrightarrow> digit_in b (dig n) \<and> digit_val (dig n) = n"
  shows "scan_u32 b (nat_str dig b (unat w)) = Some w"
proof -
  have "scan_num b (length (nat_str dig b (unat w))) (nat_str dig b (unat w)) = Some (False, unat w)"
    using assms by (simp add: scan_num_digits nat_str_digits nat_str_val)
  moreover have w: "unat w < 2 ^ 64" using unat_mask_less [of w] by simp
  moreover have "ucast (of_nat (unat w) :: u64) = w"
    by (rule ucast_of_nat_unat) simp
  ultimately show ?thesis by (simp add: scan_u32_def strtoul_val_def)
qed

lemma scan_print_u [simp]: "scan_u32 10 (print_u w) = Some w"
  unfolding print_u_def by (rule scan_u32_digits) auto

lemma scan_print_x [simp]: "scan_u32 16 (print_x w) = Some w"
  unfolding print_x_def by (rule scan_u32_digits) auto

lemma scan_print_umax [simp]: "scan_umax (print_umax w) = Some w"
proof -
  have "scan_num 10 (length (print_umax w)) (print_umax w) = Some (False, unat w)"
    unfolding print_umax_def by (simp add: scan_num_digits nat_str_digits nat_str_val)
  then show ?thesis using unat_mask_less [of w] by (simp add: scan_umax_def strtoul_val_def)
qed

lemma scan_num_two:
  assumes "digit_in 16 c" "digit_in 16 d"
  shows "scan_num 16 2 (c # d # s) = Some (False, digit_val c * 16 + digit_val d)"
  using assms digit_not_special [OF assms(1)] digit_not_special [OF assms(2)]
  by (simp add: scan_num_def Let_def)

lemma byte_hex_digits:
  "digit_in 16 (upper_digit (unat (w :: u8) div 16))" "digit_in 16 (upper_digit (unat w mod 16))"
  "digit_val (upper_digit (unat w div 16)) * 16 + digit_val (upper_digit (unat w mod 16)) = unat w"
proof -
  have d: "unat w div 16 < 16" using unat_mask_less [of w] by (simp add: less_mult_imp_div_less)
  then show "digit_in 16 (upper_digit (unat w div 16))" "digit_in 16 (upper_digit (unat w mod 16))"
    by simp_all
  show "digit_val (upper_digit (unat w div 16)) * 16 + digit_val (upper_digit (unat w mod 16)) = unat w"
    using d by simp
qed

lemma scan_print_02X [simp]: "scan_02X (print_02X w @ s) = Some w"
proof -
  have "scan_num 16 2 (print_02X w @ s) = Some (False, unat w)"
    unfolding print_02X_def using scan_num_two byte_hex_digits by simp
  moreover have "unat w < 2 ^ 64" using unat_mask_less [of w] by simp
  moreover have "ucast (of_nat (unat w) :: u64) = w" by (rule ucast_of_nat_unat) simp
  ultimately show ?thesis by (simp add: scan_02X_def strtoul_val_def)
qed

subsection \<open>Little-endian memory\<close>

fun le_bytes :: "nat \<Rightarrow> u64 \<Rightarrow> bytes" where
  "le_bytes 0 w = []"
| "le_bytes (Suc n) w = ucast w # le_bytes n (drop_bit 8 w)"

fun le_val :: "bytes \<Rightarrow> nat" where
  "le_val [] = 0"
| "le_val (b # bs) = unat b + 256 * le_val bs"

lemma length_le_bytes [simp]: "length (le_bytes n w) = n"
  by (induction n arbitrary: w) auto

lemma le_val_le_bytes: "le_val (le_bytes n w) = unat w mod 256 ^ n"
proof (induction n arbitrary: w)
  case (Suc n)
  have "unat (ucast w :: u8) = unat w mod 256"
    by (simp add: unsigned_ucast_eq take_bit_eq_mod)
  moreover have "unat (drop_bit 8 w) = unat w div 256"
    by (simp only: unat_drop_bit) simp
  ultimately show ?case
    using Suc by (simp add: mod_mult2_eq)
qed simp

lemma le_val_less: "le_val bs < 256 ^ length bs"
proof (induction bs)
  case (Cons b bs)
  have "unat b < 256" using unat_mask_less [of b] by simp
  with Cons show ?case by simp
qed simp

lemma le_val_inject: "length bs = length cs \<Longrightarrow> le_val bs = le_val cs \<longleftrightarrow> bs = cs"
proof (induction bs cs rule: list_induct2)
  case (Cons b bs c cs)
  have "unat b < 256" "unat c < 256"
    using unat_mask_less [of b] unat_mask_less [of c] by simp_all
  then have "unat b + 256 * le_val bs = unat c + 256 * le_val cs \<longleftrightarrow>
      unat b = unat c \<and> le_val bs = le_val cs"
    using digits_eq_iff [of "unat b" 256 "unat c" "le_val bs" "le_val cs"]
    by (simp only: mult.commute [of 256] add.commute [of "unat _"])
  with Cons show ?case by (simp add: word_unat_eq_iff)
qed simp

lemma le_val_append: "le_val (bs @ cs) = le_val bs + 256 ^ length bs * le_val cs"
  by (induction bs) (simp_all add: algebra_simps)

end
