(* ===== verification/Os.thy ===== *)
theory Os
  imports Libc
begin

text \<open>
  The operating system as the sources use it: files with an owner and a mode, the password
  database, the process credentials, the random devices, the clock and record locks.  A call
  that may fail for a reason outside the program takes the next entry of \<open>w_faults\<close>, so a
  statement for every world covers every pattern of failures.  \<open>print\<close> only logs and is not
  modelled.
\<close>

record passwd =
  pw_uid :: u32
  pw_gid :: u32
  pw_dir :: "string option"

datatype file_kind = Regular | Directory

record inode =
  f_kind :: file_kind
  f_mode :: u32
  f_uid :: u32
  f_gid :: u32
  f_data :: string

record world =
  w_files :: "string \<rightharpoonup> inode"
  w_pwnam :: "string \<rightharpoonup> passwd"
  w_pwuid :: "u32 \<rightharpoonup> string"
  w_uid :: u32
  w_euid :: u32
  w_egid :: u32
  w_umask :: u32
  w_devs :: "string \<rightharpoonup> bytes"
  w_now :: u64
  w_fd :: int
  w_locks :: "int \<rightharpoonup> string"
  w_faults :: "bool list"

definition fault :: "world \<Rightarrow> bool \<times> world" where
  "fault w = (case w_faults w of [] \<Rightarrow> (False, w) | b # bs \<Rightarrow> (b, w\<lparr>w_faults := bs\<rparr>))"

subsection \<open>Files\<close>

definition os_stat :: "string \<Rightarrow> world \<Rightarrow> inode option \<times> world" where
  "os_stat p w = (let (bad, w) = fault w in (if bad then None else w_files w p, w))"

datatype fopen_result = Opened string | Fopen_enoent | Fopen_error

definition os_fopen_r :: "string \<Rightarrow> world \<Rightarrow> fopen_result \<times> world" where
  "os_fopen_r p w =
     (let (bad, w) = fault w
      in (if bad then Fopen_error
          else case w_files w p of None \<Rightarrow> Fopen_enoent | Some f \<Rightarrow> Opened (f_data f), w))"

definition os_fopen_w :: "string \<Rightarrow> world \<Rightarrow> bool \<times> world" where
  "os_fopen_w p w =
     (let (bad, w) = fault w
      in case w_files w p of
           None \<Rightarrow>
             if bad then (False, w)
             else (True, w\<lparr>w_files := (w_files w)(p \<mapsto>
                     \<lparr>f_kind = Regular, f_mode = 0x1B6 AND NOT (w_umask w), f_uid = w_euid w,
                      f_gid = w_egid w, f_data = []\<rparr>)\<rparr>)
         | Some f \<Rightarrow>
             if bad \<or> f_kind f = Directory then (False, w)
             else (True, w\<lparr>w_files := (w_files w)(p \<mapsto> f\<lparr>f_data := []\<rparr>)\<rparr>))"

definition os_fputs :: "string \<Rightarrow> string \<Rightarrow> world \<Rightarrow> bool \<times> world" where
  "os_fputs p s w =
     (let (bad, w) = fault w
      in if bad then (False, w)
         else (True, case w_files w p of None \<Rightarrow> w
                     | Some f \<Rightarrow> w\<lparr>w_files := (w_files w)(p \<mapsto> f\<lparr>f_data := f_data f @ s\<rparr>)\<rparr>))"

definition os_unlink :: "string \<Rightarrow> world \<Rightarrow> bool \<times> world" where
  "os_unlink p w =
     (let (bad, w) = fault w
      in if bad \<or> w_files w p = None then (False, w)
         else (True, w\<lparr>w_files := (w_files w)(p := None)\<rparr>))"

definition os_rename :: "string \<Rightarrow> string \<Rightarrow> world \<Rightarrow> bool \<times> world" where
  "os_rename p q w =
     (let (bad, w) = fault w
      in if bad \<or> w_files w p = None then (False, w)
         else (True, w\<lparr>w_files := (w_files w)(p := None, q := w_files w p)\<rparr>))"

definition os_chown :: "string \<Rightarrow> u32 \<Rightarrow> u32 \<Rightarrow> world \<Rightarrow> bool \<times> world" where
  "os_chown p u g w =
     (let (bad, w) = fault w
      in case w_files w p of
           None \<Rightarrow> (False, w)
         | Some f \<Rightarrow> if bad then (False, w)
                     else (True, w\<lparr>w_files := (w_files w)(p \<mapsto> f\<lparr>f_uid := u, f_gid := g\<rparr>)\<rparr>))"

text \<open>
  \<open>open(p, O_WRONLY | O_CREAT, 0600)\<close> gives the lowest free descriptor; a lock taken with it is
  recorded under that descriptor until it is closed.
\<close>

definition os_open_lck :: "string \<Rightarrow> world \<Rightarrow> int option \<times> world" where
  "os_open_lck p w =
     (let (bad, w) = fault w
      in if bad then (None, w)
         else (Some (w_fd w),
               if w_files w p = None
               then w\<lparr>w_files := (w_files w)(p \<mapsto>
                      \<lparr>f_kind = Regular, f_mode = 0x180 AND NOT (w_umask w), f_uid = w_euid w,
                       f_gid = w_egid w, f_data = []\<rparr>)\<rparr>
               else w))"

definition os_setlk :: "int \<Rightarrow> string \<Rightarrow> world \<Rightarrow> bool \<times> world" where
  "os_setlk fd p w =
     (let (bad, w) = fault w
      in if bad then (False, w) else (True, w\<lparr>w_locks := (w_locks w)(fd \<mapsto> p)\<rparr>))"

definition os_unlk :: "int \<Rightarrow> world \<Rightarrow> bool \<times> world" where
  "os_unlk fd w =
     (let (bad, w) = fault w
      in if bad then (False, w) else (True, w\<lparr>w_locks := (w_locks w)(fd := None)\<rparr>))"

definition os_close :: "int \<Rightarrow> world \<Rightarrow> world" where
  "os_close fd w = w\<lparr>w_locks := (w_locks w)(fd := None)\<rparr>"

lemmas os_defs = fault_def os_stat_def os_fopen_r_def os_fopen_w_def os_fputs_def os_unlink_def
  os_rename_def os_chown_def os_open_lck_def os_setlk_def os_unlk_def os_close_def

subsection \<open>What a call leaves alone\<close>

text \<open>
  The part of the world no call of the program changes: who runs it, the password database,
  the umask and the clock.
\<close>

definition same_env :: "world \<Rightarrow> world \<Rightarrow> bool" where
  "same_env w w' \<longleftrightarrow> w_pwnam w' = w_pwnam w \<and> w_pwuid w' = w_pwuid w \<and> w_uid w' = w_uid w \<and> w_euid w' = w_euid w \<and>
     w_egid w' = w_egid w \<and> w_umask w' = w_umask w \<and> w_fd w' = w_fd w \<and> w_now w' = w_now w"

lemma same_env_refl [simp]: "same_env w w"
  by (simp add: same_env_def)

lemma same_env_trans: "same_env v w \<Longrightarrow> same_env w x \<Longrightarrow> same_env v x"
  by (simp add: same_env_def)

lemma fault_frame:
  "fault w = (b, w') \<Longrightarrow> w_files w' = w_files w \<and> w_locks w' = w_locks w \<and> w_devs w' = w_devs w \<and> same_env w w'"
  by (auto simp: fault_def same_env_def split: list.splits)

lemma fault_ok [simp]: "w_faults w = [] \<Longrightarrow> fault w = (False, w)"
  by (simp add: fault_def)

lemma os_frames:
  "os_stat p w = (f, w') \<Longrightarrow> w_files w' = w_files w \<and> w_locks w' = w_locks w \<and> w_devs w' = w_devs w \<and> same_env w w'"
  "os_fopen_r p w = (r, w') \<Longrightarrow> w_files w' = w_files w \<and> w_locks w' = w_locks w \<and> w_devs w' = w_devs w \<and> same_env w w'"
  "os_fopen_w p w = (b, w') \<Longrightarrow> (\<forall>q. q \<noteq> p \<longrightarrow> w_files w' q = w_files w q) \<and> w_locks w' = w_locks w \<and> w_devs w' = w_devs w \<and> same_env w w'"
  "os_fputs p s w = (b, w') \<Longrightarrow> (\<forall>q. q \<noteq> p \<longrightarrow> w_files w' q = w_files w q) \<and> w_locks w' = w_locks w \<and> w_devs w' = w_devs w \<and> same_env w w'"
  "os_unlink p w = (b, w') \<Longrightarrow> (\<forall>q. q \<noteq> p \<longrightarrow> w_files w' q = w_files w q) \<and> w_locks w' = w_locks w \<and> w_devs w' = w_devs w \<and> same_env w w'"
  "os_chown p u g w = (b, w') \<Longrightarrow> (\<forall>q. q \<noteq> p \<longrightarrow> w_files w' q = w_files w q) \<and> w_locks w' = w_locks w \<and> w_devs w' = w_devs w \<and> same_env w w'"
  "os_rename p q w = (b, w') \<Longrightarrow> w_locks w' = w_locks w \<and> w_devs w' = w_devs w \<and> same_env w w'"
  "os_open_lck p w = (fd, w') \<Longrightarrow> (\<forall>q. q \<noteq> p \<longrightarrow> w_files w' q = w_files w q) \<and> w_locks w' = w_locks w \<and> w_devs w' = w_devs w \<and> same_env w w'"
  "os_setlk n p w = (b, w') \<Longrightarrow> w_files w' = w_files w \<and> w_devs w' = w_devs w \<and> same_env w w'"
  "os_unlk n w = (b, w') \<Longrightarrow> w_files w' = w_files w \<and> w_devs w' = w_devs w \<and> same_env w w'"
  by (auto simp: os_defs same_env_def Let_def split: list.splits option.splits if_splits)

subsection \<open>Reading lines\<close>

definition c_str :: "string \<Rightarrow> string" where
  "c_str s = takeWhile (\<lambda>c. c \<noteq> CHR 0x00) s"

definition fgets_len :: "nat \<Rightarrow> string \<Rightarrow> nat" where
  "fgets_len n s =
     (let t = take (n - 1) s; l = length (takeWhile (\<lambda>c. c \<noteq> CHR 0x0A) t)
      in if l < length t then Suc l else l)"

lemma fgets_len_pos: "2 \<le> n \<Longrightarrow> s \<noteq> [] \<Longrightarrow> 0 < fgets_len n s"
  by (cases s) (auto simp: fgets_len_def Let_def)

lemma fgets_len_le: "fgets_len n s \<le> length s" "fgets_len n s \<le> n - 1"
  using length_takeWhile_le [of "\<lambda>c. c \<noteq> CHR 0x0A" "take (n - 1) s"]
  by (auto simp: fgets_len_def Let_def min_def split: if_splits)

text \<open>A line that fits is read with its newline.\<close>

lemma fgets_line:
  assumes "CHR 0x0A \<notin> set l" and "Suc (length l) < n"
  shows "fgets_len n (l @ CHR 0x0A # s) = Suc (length l)"
proof -
  define k where "k = n - 1 - Suc (length l)"
  have k: "n - 1 = Suc (length l) + k" using assms(2) by (simp add: k_def)
  have "take (n - 1) (l @ CHR 0x0A # s) = l @ CHR 0x0A # take k s"
    unfolding k by simp
  moreover have "takeWhile (\<lambda>c. c \<noteq> CHR 0x0A) (l @ CHR 0x0A # take k s) = l"
    using assms(1) by (subst takeWhile_append2) auto
  ultimately show ?thesis by (simp add: fgets_len_def Let_def)
qed

end
