(* ===== verification/Config.thy ===== *)
theory Config
  imports Os
begin

text \<open>
  \<open>src/src/libotp/config.c\<close> and \<open>config.h\<close>: the options, their defaults, the parser of
  \<open>/etc/otpasswd/otpasswd.conf\<close> and the check of its permissions.  The option record \<open>cfg_t\<close> is
  built up in three steps that follow the three sections of the C structure; the field \<open>show\<close>
  of the C is \<open>show_policy\<close> here.  The parser is one function per section of the long
  \<open>else if\<close> chain; each says whether it knows the option and, if so, gives the new options or
  \<open>None\<close> for \<open>goto error\<close>.
\<close>

subsection \<open>Constants\<close>

abbreviation (input) CONFIG_DB_GLOBAL :: int where "CONFIG_DB_GLOBAL \<equiv> 0"
abbreviation (input) CONFIG_DB_USER :: int where "CONFIG_DB_USER \<equiv> 1"
abbreviation (input) CONFIG_DB_MYSQL :: int where "CONFIG_DB_MYSQL \<equiv> 2"
abbreviation (input) CONFIG_DB_LDAP :: int where "CONFIG_DB_LDAP \<equiv> 3"
abbreviation (input) CONFIG_DB_UNCONFIGURED :: int where "CONFIG_DB_UNCONFIGURED \<equiv> 10"

abbreviation (input) CONFIG_DISALLOW :: int where "CONFIG_DISALLOW \<equiv> 0"
abbreviation (input) CONFIG_ALLOW :: int where "CONFIG_ALLOW \<equiv> 1"
abbreviation (input) CONFIG_ENFORCE :: int where "CONFIG_ENFORCE \<equiv> 2"
abbreviation (input) CONFIG_ENABLED :: int where "CONFIG_ENABLED \<equiv> 0"
abbreviation (input) CONFIG_DISABLED :: int where "CONFIG_DISABLED \<equiv> 1"

abbreviation (input) PPP_ERROR :: int where "PPP_ERROR \<equiv> 3000"
abbreviation (input) PPP_ERROR_CONFIG_OWNERSHIP :: int where "PPP_ERROR_CONFIG_OWNERSHIP \<equiv> 3009"
abbreviation (input) PPP_ERROR_CONFIG_PERMISSIONS :: int where "PPP_ERROR_CONFIG_PERMISSIONS \<equiv> 3010"

abbreviation (input) CONFIG_MAX_LINE_LEN :: nat where "CONFIG_MAX_LINE_LEN \<equiv> 200"
abbreviation (input) CONFIG_PATH_LEN :: nat where "CONFIG_PATH_LEN \<equiv> 100"
abbreviation (input) CONFIG_SQL_LEN :: nat where "CONFIG_SQL_LEN \<equiv> 50"
abbreviation (input) CONFIG_ALPHABET_LEN :: nat where "CONFIG_ALPHABET_LEN \<equiv> 90"
abbreviation (input) CONFIG_DIR :: string where "CONFIG_DIR \<equiv> ''/etc/otpasswd/''"
abbreviation (input) CONFIG_PATH :: string where "CONFIG_PATH \<equiv> ''/etc/otpasswd/otpasswd.conf''"

subsection \<open>Options\<close>

record cfg_general =
  user_uid :: u32
  user_gid :: u32
  db :: int
  global_db_path :: string
  user_db_path :: string
  sql_host :: string
  sql_database :: string
  sql_user :: string
  sql_pass :: string
  ldap_host :: string
  ldap_dn :: string
  ldap_user :: string
  ldap_pass :: string

record cfg_pam = cfg_general +
  pam_enforce :: int
  pam_enforce_policy :: int
  pam_logging :: int
  pam_silent :: int
  pam_retry :: int
  pam_retries :: int
  pam_key_regeneration_prompt :: int
  pam_failure_warning :: int
  pam_failure_boundary :: int
  pam_failure_delay :: int
  pam_spass_require :: int
  pam_oob :: int
  pam_oob_path :: string
  pam_oob_uid :: u32
  pam_oob_gid :: u32
  pam_oob_delay :: int

record cfg_t = cfg_pam +
  key_generation :: int
  key_regeneration :: int
  disabling :: int
  sourced_key_generation :: int
  key_removal :: int
  shell_auth :: int
  skipping :: int
  passcode_print :: int
  key_print :: int
  state_export :: int
  state_import :: int
  contact_change :: int
  label_change :: int
  passcode_def_length :: int
  passcode_min_length :: int
  passcode_max_length :: int
  alphabet_change :: int
  alphabet_def :: int
  alphabet_min_length :: int
  alphabet_max_length :: int
  alphabet_custom :: string
  spass_change :: int
  spass_min_length :: int
  spass_require_digit :: int
  spass_require_special :: int
  spass_require_uppercase :: int
  salt :: int
  salt_def :: int
  show_policy :: int
  show_def :: int
subsection \<open>Helpers\<close>

fun alphabet_check_loop :: "string \<Rightarrow> char set \<Rightarrow> int" where
  "alphabet_check_loop [] count = 0"
| "alphabet_check_loop (c # s) count =
     (if \<not> isascii c then 1
      else if \<not> isgraph c then 1
      else if c \<in> count then 1
      else alphabet_check_loop s (insert c count))"

definition alphabet_check :: "string \<Rightarrow> int" where
  "alphabet_check alphabet = alphabet_check_loop alphabet {}"

fun trim_loop :: "string \<Rightarrow> string" where
  "trim_loop (c # d # s) = (if isspace c then trim_loop (d # s) else c # d # s)"
| "trim_loop s = s"

definition right_trim :: "string \<Rightarrow> string" where
  "right_trim arg = rev (trim_loop (rev arg))"

definition EQ :: "string \<Rightarrow> string \<Rightarrow> bool" where
  "EQ a b \<longleftrightarrow> map tolower a = map tolower b"

definition config_defaults :: cfg_t where
  "config_defaults =
     \<lparr>user_uid = -1, user_gid = -1, db = CONFIG_DB_UNCONFIGURED,
      global_db_path = ''/etc/otpasswd/otshadow'', user_db_path = ''.otpasswd'',
      sql_host = ''localhost'', sql_database = ''otpasswd'', sql_user = '''', sql_pass = '''',
      ldap_host = ''localhost'', ldap_dn = '''', ldap_user = '''', ldap_pass = '''',
      pam_enforce = CONFIG_DISABLED, pam_enforce_policy = CONFIG_ENABLED, pam_logging = 2,
      pam_silent = CONFIG_DISABLED, pam_retry = 0, pam_retries = 3,
      pam_key_regeneration_prompt = 0, pam_failure_warning = 1, pam_failure_boundary = 3,
      pam_failure_delay = 5, pam_spass_require = 0, pam_oob = 0,
      pam_oob_path = ''/etc/otpasswd/otpasswd_oob.sh'', pam_oob_uid = -1, pam_oob_gid = -1,
      pam_oob_delay = 10,
      key_generation = CONFIG_ALLOW, key_regeneration = CONFIG_ALLOW, disabling = CONFIG_DISALLOW,
      sourced_key_generation = CONFIG_DISALLOW, key_removal = CONFIG_ALLOW, shell_auth = CONFIG_ALLOW,
      skipping = CONFIG_ALLOW, passcode_print = CONFIG_ALLOW, key_print = CONFIG_ALLOW,
      state_export = CONFIG_ALLOW, state_import = CONFIG_DISALLOW, contact_change = CONFIG_ALLOW,
      label_change = CONFIG_ALLOW,
      passcode_def_length = 4, passcode_min_length = 2, passcode_max_length = 16,
      alphabet_change = CONFIG_ALLOW, alphabet_def = 1, alphabet_min_length = 32,
      alphabet_max_length = 88, alphabet_custom = ''0123456789'',
      spass_change = CONFIG_ALLOW, spass_min_length = 7, spass_require_digit = 1,
      spass_require_special = 1, spass_require_uppercase = 1,
      salt = CONFIG_ALLOW, salt_def = CONFIG_ENABLED, show_policy = CONFIG_ENABLED,
      show_def = CONFIG_ALLOW\<rparr>"

text \<open>
  An argument is a pair of \<open>arg_state\<close> (1: a number, 2: allow, disallow or enforce, 3: enabled or
  disabled, others: none of these) and \<open>arg\<close>.
\<close>

type_synonym cfg_arg = "int \<times> int"

definition parse_arg :: "string \<Rightarrow> cfg_arg" where
  "parse_arg equality =
     (let (arg_state, arg) = scan_d equality
      in if arg_state = 0
         then if EQ equality ''enabled'' then (3, CONFIG_ENABLED)
              else if EQ equality ''disabled'' then (3, CONFIG_DISABLED)
              else if EQ equality ''disallow'' then (2, CONFIG_DISALLOW)
              else if EQ equality ''allow'' then (2, CONFIG_ALLOW)
              else if EQ equality ''enforce'' then (2, CONFIG_ENFORCE)
              else (arg_state, arg)
         else (arg_state, arg))"

definition REQUIRE_INT_ARG :: "cfg_arg \<Rightarrow> int \<Rightarrow> int \<Rightarrow> (int \<Rightarrow> cfg_t) \<Rightarrow> cfg_t option" where
  "REQUIRE_INT_ARG a lo_lim hi_lim upd =
     (if fst a \<noteq> 1 then None
      else if snd a < lo_lim \<or> snd a > hi_lim then None
      else Some (upd (snd a)))"

definition REQUIRE_ED_ARG :: "cfg_arg \<Rightarrow> (int \<Rightarrow> cfg_t) \<Rightarrow> cfg_t option" where
  "REQUIRE_ED_ARG a upd = (if fst a \<noteq> 3 then None else Some (upd (snd a)))"

definition REQUIRE_DAE_ARG :: "cfg_arg \<Rightarrow> bool \<Rightarrow> (int \<Rightarrow> cfg_t) \<Rightarrow> cfg_t option" where
  "REQUIRE_DAE_ARG a x upd =
     (if fst a \<noteq> 2 then None
      else if \<not> x \<and> snd a = CONFIG_ENFORCE then None
      else Some (upd (snd a)))"

definition COPY :: "nat \<Rightarrow> string \<Rightarrow> (string \<Rightarrow> cfg_t) \<Rightarrow> cfg_t option" where
  "COPY sz from upd = (if length from > sz - 1 then None else Some (upd (right_trim from)))"

subsection \<open>The sections of the option chain\<close>

definition parse_general :: "(string \<rightharpoonup> passwd) \<Rightarrow> string \<Rightarrow> string \<Rightarrow> cfg_t \<Rightarrow> cfg_t option option" where
  "parse_general getpwnam name equality cfg =
     (if EQ name ''user'' then Some
        (if db cfg \<noteq> CONFIG_DB_USER
         then case getpwnam equality of
                None \<Rightarrow> None
              | Some pwd \<Rightarrow>
                  let cfg = cfg\<lparr>user_uid := pw_uid pwd, user_gid := pw_gid pwd\<rparr>
                  in if user_uid cfg = 0 then None else Some cfg
         else Some cfg)
      else if EQ name ''db'' then Some
        (let equality = right_trim equality
         in if EQ equality ''global'' then Some (cfg\<lparr>db := CONFIG_DB_GLOBAL\<rparr>)
            else if EQ equality ''user'' then Some (cfg\<lparr>db := CONFIG_DB_USER\<rparr>)
            else if EQ equality ''mysql'' then Some (cfg\<lparr>db := CONFIG_DB_MYSQL\<rparr>)
            else if EQ equality ''ldap'' then Some (cfg\<lparr>db := CONFIG_DB_LDAP\<rparr>)
            else None)
      else if EQ name ''db_user'' then Some
        (if CHR ''/'' \<in> set equality then None
         else COPY CONFIG_PATH_LEN equality (\<lambda>v. cfg\<lparr>user_db_path := v\<rparr>))
      else None)"

definition parse_sql_ldap :: "string \<Rightarrow> string \<Rightarrow> cfg_t \<Rightarrow> cfg_t option option" where
  "parse_sql_ldap name equality cfg =
     (if EQ name ''sql_host'' then Some (COPY CONFIG_SQL_LEN equality (\<lambda>v. cfg\<lparr>sql_host := v\<rparr>))
      else if EQ name ''sql_database'' then Some (COPY CONFIG_SQL_LEN equality (\<lambda>v. cfg\<lparr>sql_database := v\<rparr>))
      else if EQ name ''sql_user'' then Some (COPY CONFIG_SQL_LEN equality (\<lambda>v. cfg\<lparr>sql_user := v\<rparr>))
      else if EQ name ''sql_pass'' then Some (COPY CONFIG_SQL_LEN equality (\<lambda>v. cfg\<lparr>sql_pass := v\<rparr>))
      else if EQ name ''ldap_host'' then Some (COPY CONFIG_SQL_LEN equality (\<lambda>v. cfg\<lparr>ldap_host := v\<rparr>))
      else if EQ name ''ldap_user'' then Some (COPY CONFIG_SQL_LEN equality (\<lambda>v. cfg\<lparr>ldap_user := v\<rparr>))
      else if EQ name ''ldap_pass'' then Some (COPY CONFIG_SQL_LEN equality (\<lambda>v. cfg\<lparr>ldap_pass := v\<rparr>))
      else if EQ name ''ldap_dn'' then Some (COPY CONFIG_SQL_LEN equality (\<lambda>v. cfg\<lparr>ldap_dn := v\<rparr>))
      else None)"

definition parse_pam :: "(string \<rightharpoonup> passwd) \<Rightarrow> string \<Rightarrow> string \<Rightarrow> cfg_arg \<Rightarrow> cfg_t \<Rightarrow> cfg_t option option" where
  "parse_pam getpwnam name equality a cfg =
     (if EQ name ''pam_enforce'' then Some (REQUIRE_ED_ARG a (\<lambda>v. cfg\<lparr>pam_enforce := v\<rparr>))
      else if EQ name ''pam_enforce_policy'' then Some (REQUIRE_ED_ARG a (\<lambda>v. cfg\<lparr>pam_enforce_policy := v\<rparr>))
      else if EQ name ''pam_retry'' then Some (REQUIRE_INT_ARG a 0 3 (\<lambda>v. cfg\<lparr>pam_retry := v\<rparr>))
      else if EQ name ''pam_retries'' then Some (REQUIRE_INT_ARG a 2 5 (\<lambda>v. cfg\<lparr>pam_retries := v\<rparr>))
      else if EQ name ''pam_logging'' then Some (REQUIRE_INT_ARG a 0 3 (\<lambda>v. cfg\<lparr>pam_logging := v\<rparr>))
      else if EQ name ''pam_silent'' then Some (REQUIRE_ED_ARG a (\<lambda>v. cfg\<lparr>pam_silent := v\<rparr>))
      else if EQ name ''pam_oob'' then Some (REQUIRE_INT_ARG a 0 3 (\<lambda>v. cfg\<lparr>pam_oob := v\<rparr>))
      else if EQ name ''pam_oob_delay'' then Some (REQUIRE_INT_ARG a 0 172800 (\<lambda>v. cfg\<lparr>pam_oob_delay := v\<rparr>))
      else if EQ name ''pam_oob_user'' then Some 
        (case getpwnam equality of
           None \<Rightarrow> None
         | Some pwd \<Rightarrow>
             let cfg = cfg\<lparr>pam_oob_uid := pw_uid pwd, pam_oob_gid := pw_gid pwd\<rparr>
             in if pam_oob_uid cfg = 0 then None else Some cfg)
      else if EQ name ''pam_oob_path'' then Some (COPY CONFIG_PATH_LEN equality (\<lambda>v. cfg\<lparr>pam_oob_path := v\<rparr>))
      else if EQ name ''pam_key_regeneration_prompt'' then Some (REQUIRE_ED_ARG a (\<lambda>v. cfg\<lparr>pam_key_regeneration_prompt := v\<rparr>))
      else if EQ name ''pam_failure_warning'' then Some (REQUIRE_ED_ARG a (\<lambda>v. cfg\<lparr>pam_failure_warning := v\<rparr>))
      else if EQ name ''pam_failure_boundary'' then Some (REQUIRE_INT_ARG a 0 500 (\<lambda>v. cfg\<lparr>pam_failure_boundary := v\<rparr>))
      else if EQ name ''pam_failure_delay'' then Some (REQUIRE_INT_ARG a 0 500 (\<lambda>v. cfg\<lparr>pam_failure_delay := v\<rparr>))
      else if EQ name ''pam_spass_require'' then Some (REQUIRE_ED_ARG a (\<lambda>v. cfg\<lparr>pam_spass_require := v\<rparr>))
      else None)"

definition parse_policy :: "string \<Rightarrow> cfg_arg \<Rightarrow> cfg_t \<Rightarrow> cfg_t option option" where
  "parse_policy name a cfg =
     (if EQ name ''key_generation'' then Some (REQUIRE_DAE_ARG a False (\<lambda>v. cfg\<lparr>key_generation := v\<rparr>))
      else if EQ name ''key_regeneration'' then Some (REQUIRE_DAE_ARG a False (\<lambda>v. cfg\<lparr>key_regeneration := v\<rparr>))
      else if EQ name ''disabling'' then Some (REQUIRE_DAE_ARG a False (\<lambda>v. cfg\<lparr>disabling := v\<rparr>))
      else if EQ name ''sourced_key_generation'' then Some (REQUIRE_DAE_ARG a False (\<lambda>v. cfg\<lparr>sourced_key_generation := v\<rparr>))
      else if EQ name ''key_removal'' then Some (REQUIRE_DAE_ARG a False (\<lambda>v. cfg\<lparr>key_removal := v\<rparr>))
      else if EQ name ''skipping'' then Some (REQUIRE_DAE_ARG a False (\<lambda>v. cfg\<lparr>skipping := v\<rparr>))
      else if EQ name ''backward_skipping'' then Some None
      else if EQ name ''verbose_output'' then Some None
      else if EQ name ''shell_auth'' then Some (REQUIRE_DAE_ARG a False (\<lambda>v. cfg\<lparr>shell_auth := v\<rparr>))
      else if EQ name ''passcode_print'' then Some (REQUIRE_DAE_ARG a False (\<lambda>v. cfg\<lparr>passcode_print := v\<rparr>))
      else if EQ name ''key_print'' then Some (REQUIRE_DAE_ARG a False (\<lambda>v. cfg\<lparr>key_print := v\<rparr>))
      else if EQ name ''salt'' then Some (REQUIRE_DAE_ARG a True (\<lambda>v. cfg\<lparr>salt := v\<rparr>))
      else if EQ name ''salt_def'' then Some (REQUIRE_ED_ARG a (\<lambda>v. cfg\<lparr>salt_def := v\<rparr>))
      else if EQ name ''show'' then Some (REQUIRE_DAE_ARG a True (\<lambda>v. cfg\<lparr>show_policy := v\<rparr>))
      else if EQ name ''show_def'' then Some (REQUIRE_ED_ARG a (\<lambda>v. cfg\<lparr>show_def := v\<rparr>))
      else if EQ name ''state_import'' then Some (REQUIRE_DAE_ARG a False (\<lambda>v. cfg\<lparr>state_import := v\<rparr>))
      else if EQ name ''state_export'' then Some (REQUIRE_DAE_ARG a False (\<lambda>v. cfg\<lparr>state_export := v\<rparr>))
      else if EQ name ''contact_change'' then Some (REQUIRE_DAE_ARG a False (\<lambda>v. cfg\<lparr>contact_change := v\<rparr>))
      else if EQ name ''label_change'' then Some (REQUIRE_DAE_ARG a False (\<lambda>v. cfg\<lparr>label_change := v\<rparr>))
      else None)"

definition parse_passcode :: "string \<Rightarrow> string \<Rightarrow> cfg_arg \<Rightarrow> cfg_t \<Rightarrow> cfg_t option option" where
  "parse_passcode name equality a cfg =
     (if EQ name ''passcode_def_length'' then Some (REQUIRE_INT_ARG a 2 16 (\<lambda>v. cfg\<lparr>passcode_def_length := v\<rparr>))
      else if EQ name ''passcode_min_length'' then Some (REQUIRE_INT_ARG a 2 16 (\<lambda>v. cfg\<lparr>passcode_min_length := v\<rparr>))
      else if EQ name ''passcode_max_length'' then Some (REQUIRE_INT_ARG a 2 16 (\<lambda>v. cfg\<lparr>passcode_max_length := v\<rparr>))
      else if EQ name ''alphabet_change'' then Some (REQUIRE_DAE_ARG a False (\<lambda>v. cfg\<lparr>alphabet_change := v\<rparr>))
      else if EQ name ''alphabet_def'' then Some (REQUIRE_INT_ARG a 1 2 (\<lambda>v. cfg\<lparr>alphabet_def := v\<rparr>))
      else if EQ name ''alphabet_min_length'' then Some (REQUIRE_INT_ARG a 5 88 (\<lambda>v. cfg\<lparr>alphabet_min_length := v\<rparr>))
      else if EQ name ''alphabet_max_length'' then Some (REQUIRE_INT_ARG a 5 88 (\<lambda>v. cfg\<lparr>alphabet_max_length := v\<rparr>))
      else if EQ name ''alphabet_custom'' then Some 
        (if alphabet_check equality \<noteq> 0 then None
         else COPY CONFIG_ALPHABET_LEN equality (\<lambda>v. cfg\<lparr>alphabet_custom := v\<rparr>))
      else if EQ name ''spass_change'' then Some (REQUIRE_DAE_ARG a False (\<lambda>v. cfg\<lparr>spass_change := v\<rparr>))
      else if EQ name ''spass_min_length'' then Some (REQUIRE_INT_ARG a 4 500 (\<lambda>v. cfg\<lparr>spass_min_length := v\<rparr>))
      else if EQ name ''spass_require_digit'' then Some (REQUIRE_INT_ARG a 0 20 (\<lambda>v. cfg\<lparr>spass_require_digit := v\<rparr>))
      else if EQ name ''spass_require_special'' then Some (REQUIRE_INT_ARG a 0 20 (\<lambda>v. cfg\<lparr>spass_require_special := v\<rparr>))
      else if EQ name ''spass_require_uppercase'' then Some (REQUIRE_INT_ARG a 0 20 (\<lambda>v. cfg\<lparr>spass_require_uppercase := v\<rparr>))
      else None)"

definition parse_option :: "(string \<rightharpoonup> passwd) \<Rightarrow> string \<Rightarrow> string \<Rightarrow> cfg_t \<Rightarrow> cfg_t option option" where
  "parse_option getpwnam name equality cfg =
     (let a = parse_arg equality
      in case parse_general getpwnam name equality cfg of
           Some r \<Rightarrow> Some r
         | None \<Rightarrow>
         (case parse_sql_ldap name equality cfg of
            Some r \<Rightarrow> Some r
          | None \<Rightarrow>
          (case parse_pam getpwnam name equality a cfg of
             Some r \<Rightarrow> Some r
           | None \<Rightarrow>
           (case parse_policy name a cfg of
              Some r \<Rightarrow> Some r
            | None \<Rightarrow> parse_passcode name equality a cfg))))"

subsection \<open>The parser\<close>

text \<open>
  \<open>cfg_lines\<close> is the loop over the lines.  \<open>Goto_error\<close> is \<open>goto error\<close> with \<open>retval = 1\<close>, where
  the caller discards the options; \<open>Parsed\<close> has the count of unknown names so far and the
  options.  \<open>None\<close> is the access before the start of the buffer for a line that begins with a
  NUL.
\<close>

datatype cfg_result = Goto_error | Parsed nat cfg_t

definition cfg_line :: "(string \<rightharpoonup> passwd) \<Rightarrow> string \<Rightarrow> nat \<Rightarrow> cfg_t \<Rightarrow> cfg_result" where
  "cfg_line getpwnam line_buf fail cfg =
     (if take 1 line_buf = ''#'' then Parsed fail cfg
      else if dropWhile (\<lambda>c. c = CHR '' '' \<or> c = CHR 0x09) line_buf = [] then Parsed fail cfg
      else let name = takeWhile (\<lambda>c. c \<noteq> CHR ''='') line_buf;
               rest = dropWhile (\<lambda>c. c \<noteq> CHR ''='') line_buf
           in if rest = [] then Goto_error
              else case parse_option getpwnam name (tl rest) cfg of
                     None \<Rightarrow> Parsed (Suc fail) cfg
                   | Some None \<Rightarrow> Goto_error
                   | Some (Some cfg) \<Rightarrow> Parsed fail cfg)"

function cfg_lines :: "(string \<rightharpoonup> passwd) \<Rightarrow> string \<Rightarrow> nat \<Rightarrow> cfg_t \<Rightarrow> cfg_result option" where
  "cfg_lines getpwnam f fail cfg =
     (if f = [] then Some (Parsed fail cfg)
      else let n = fgets_len CONFIG_MAX_LINE_LEN f;
               line_buf = c_str (take n f);
               line_length = length line_buf
           in if line_length = 0 then None
              else if line_length = CONFIG_MAX_LINE_LEN - 1 \<and> last line_buf \<noteq> CHR 0x0A then Some Goto_error
              else case cfg_line getpwnam (butlast line_buf) fail cfg of
                     Goto_error \<Rightarrow> Some Goto_error
                   | Parsed fail cfg \<Rightarrow> cfg_lines getpwnam (drop n f) fail cfg)"
  by pat_completeness auto
termination
  by (relation "measure (\<lambda>(g, f, n, c). length f)")
     (use fgets_len_pos [of CONFIG_MAX_LINE_LEN] in auto)

declare cfg_lines.simps [simp del]

definition cfg_consistent :: "cfg_t \<Rightarrow> bool" where
  "cfg_consistent cfg \<longleftrightarrow>
     \<not> (show_policy cfg = CONFIG_DISALLOW \<and> show_def cfg = CONFIG_ENABLED) \<and>
     \<not> (show_policy cfg = CONFIG_ENFORCE \<and> show_def cfg = CONFIG_DISABLED) \<and>
     \<not> (salt cfg = CONFIG_DISALLOW \<and> salt_def cfg = CONFIG_ENABLED) \<and>
     \<not> (salt cfg = CONFIG_ENFORCE \<and> salt_def cfg = CONFIG_DISABLED) \<and>
     \<not> (passcode_def_length cfg > passcode_max_length cfg \<or>
        passcode_def_length cfg < passcode_min_length cfg)"

definition config_parse :: "(string \<rightharpoonup> passwd) \<Rightarrow> string option \<Rightarrow> cfg_t \<Rightarrow> (int \<times> cfg_t) option" where
  "config_parse getpwnam file cfg =
     (case file of
        None \<Rightarrow> Some (1, cfg)
      | Some f \<Rightarrow>
          map_option (\<lambda>r. case r of
              Goto_error \<Rightarrow> (1, cfg)
            | Parsed fail cfg \<Rightarrow>
                (if \<not> cfg_consistent cfg then 2
                 else if fail \<noteq> 0 then 1
                 else if db cfg = CONFIG_DB_UNCONFIGURED then 5 else 0, cfg))
            (cfg_lines getpwnam f 0 cfg))"

definition config_init :: "(string \<rightharpoonup> passwd) \<Rightarrow> string option \<Rightarrow> (int \<times> cfg_t) option" where
  "config_init getpwnam file =
     map_option (\<lambda>(retval, cfg). (retval, if retval \<noteq> 0 then config_defaults else cfg))
       (config_parse getpwnam file config_defaults)"

text \<open>\<open>cfg_get\<close>: the inner \<open>None\<close> is its NULL.\<close>

definition cfg_get :: "world \<Rightarrow> cfg_t option option" where
  "cfg_get w =
     map_option (\<lambda>(retval, cfg). if retval \<noteq> 0 \<and> retval \<noteq> 5 then None else Some cfg)
       (config_init (w_pwnam w) (map_option f_data (w_files w CONFIG_PATH)))"

definition cfg_permissions :: "cfg_t option \<Rightarrow> world \<Rightarrow> int \<times> world" where
  "cfg_permissions cfg w =
     (case cfg of
        None \<Rightarrow> (PPP_ERROR, w)
      | Some cfg \<Rightarrow>
          let (st, w) = os_stat CONFIG_PATH w
          in (case st of
                None \<Rightarrow> PPP_ERROR
              | Some st \<Rightarrow>
                  if f_uid st \<noteq> 0 \<or> f_gid st \<noteq> 0 then PPP_ERROR_CONFIG_OWNERSHIP
                  else if db cfg = CONFIG_DB_MYSQL \<or> db cfg = CONFIG_DB_LDAP
                  then if f_mode st AND 7 \<noteq> 0 then PPP_ERROR_CONFIG_PERMISSIONS else 0
                  else 0, w))"

subsection \<open>Well-formed options\<close>

definition alphabet_ok :: "string \<Rightarrow> bool" where
  "alphabet_ok s \<longleftrightarrow> distinct s \<and> list_all isgraph s"

definition pam_ok :: "cfg_t \<Rightarrow> bool" where
  "pam_ok cfg \<longleftrightarrow>
     pam_enforce cfg \<in> {0, 1} \<and> pam_enforce_policy cfg \<in> {0, 1} \<and> pam_silent cfg \<in> {0, 1} \<and>
     pam_key_regeneration_prompt cfg \<in> {0, 1} \<and> pam_failure_warning cfg \<in> {0, 1} \<and>
     pam_spass_require cfg \<in> {0, 1} \<and> pam_logging cfg \<in> {0..3} \<and> pam_retry cfg \<in> {0..3} \<and>
     pam_retries cfg \<in> {2..5} \<and> pam_failure_boundary cfg \<in> {0..500} \<and>
     pam_failure_delay cfg \<in> {0..500} \<and> pam_oob cfg \<in> {0..3} \<and>
     pam_oob_delay cfg \<in> {0..172800} \<and> pam_oob_uid cfg \<noteq> 0 \<and>
     length (pam_oob_path cfg) < CONFIG_PATH_LEN"

definition policy_ok :: "cfg_t \<Rightarrow> bool" where
  "policy_ok cfg \<longleftrightarrow>
     (\<forall>f \<in> {key_generation, key_regeneration, disabling, sourced_key_generation, key_removal,
             shell_auth, skipping, passcode_print, key_print, state_export, state_import,
             contact_change, label_change, alphabet_change, spass_change}.
        f cfg \<in> {CONFIG_DISALLOW, CONFIG_ALLOW}) \<and>
     salt cfg \<in> {0, 1, 2} \<and> show_policy cfg \<in> {0, 1, 2} \<and> salt_def cfg \<in> {0, 1} \<and> show_def cfg \<in> {0, 1}"

definition passcode_ok :: "cfg_t \<Rightarrow> bool" where
  "passcode_ok cfg \<longleftrightarrow>
     passcode_def_length cfg \<in> {2..16} \<and> passcode_min_length cfg \<in> {2..16} \<and>
     passcode_max_length cfg \<in> {2..16} \<and> alphabet_def cfg \<in> {1..2} \<and>
     alphabet_min_length cfg \<in> {5..88} \<and> alphabet_max_length cfg \<in> {5..88} \<and>
     alphabet_ok (alphabet_custom cfg) \<and> length (alphabet_custom cfg) < CONFIG_ALPHABET_LEN \<and>
     spass_min_length cfg \<in> {4..500} \<and> spass_require_digit cfg \<in> {0..20} \<and>
     spass_require_special cfg \<in> {0..20} \<and> spass_require_uppercase cfg \<in> {0..20}"

definition general_ok :: "cfg_t \<Rightarrow> bool" where
  "general_ok cfg \<longleftrightarrow>
     db cfg \<in> {0, 1, 2, 3, CONFIG_DB_UNCONFIGURED} \<and> user_uid cfg \<noteq> 0 \<and>
     global_db_path cfg = ''/etc/otpasswd/otshadow'' \<and>
     CHR ''/'' \<notin> set (user_db_path cfg) \<and> length (user_db_path cfg) < CONFIG_PATH_LEN \<and>
     length (sql_host cfg) < CONFIG_SQL_LEN \<and> length (sql_database cfg) < CONFIG_SQL_LEN \<and>
     length (sql_user cfg) < CONFIG_SQL_LEN \<and> length (sql_pass cfg) < CONFIG_SQL_LEN \<and>
     length (ldap_host cfg) < CONFIG_SQL_LEN \<and> length (ldap_dn cfg) < CONFIG_SQL_LEN \<and>
     length (ldap_user cfg) < CONFIG_SQL_LEN \<and> length (ldap_pass cfg) < CONFIG_SQL_LEN"

definition cfg_ok :: "cfg_t \<Rightarrow> bool" where
  "cfg_ok cfg \<longleftrightarrow> general_ok cfg \<and> pam_ok cfg \<and> policy_ok cfg \<and> passcode_ok cfg"

subsection \<open>The parser keeps the options well formed\<close>

lemma alphabet_check_loop_ok:
  "alphabet_check_loop s cnt = 0 \<longleftrightarrow> distinct s \<and> list_all isgraph s \<and> set s \<inter> cnt = {}"
  by (induction s arbitrary: cnt) (auto simp: ctype_defs)

lemma alphabet_check_ok: "alphabet_check s = 0 \<longleftrightarrow> alphabet_ok s"
  by (auto simp: alphabet_check_def alphabet_check_loop_ok alphabet_ok_def)

lemma trim_loop_suffix: "\<exists>p. s = p @ trim_loop s"
proof (induction s rule: trim_loop.induct)
  case (1 c d s)
  then obtain p where "d # s = p @ trim_loop (d # s)" if "isspace c" by blast
  then show ?case by (cases "isspace c") (auto intro: exI [of _ "c # p"])
qed auto

lemma right_trim_prefix: "\<exists>p. s = right_trim s @ p"
proof -
  obtain p where "rev s = p @ trim_loop (rev s)" using trim_loop_suffix by blast
  then have "s = rev (trim_loop (rev s)) @ rev p" by (metis rev_append rev_rev_ident)
  then show ?thesis by (auto simp: right_trim_def)
qed

lemma right_trim_set: "set (right_trim s) \<subseteq> set s" and right_trim_length: "length (right_trim s) \<le> length s"
  using right_trim_prefix [of s] by (metis Un_upper1 set_append, metis le_add1 length_append)

lemma alphabet_ok_trim: "alphabet_ok s \<Longrightarrow> alphabet_ok (right_trim s)"
  using right_trim_prefix [of s] unfolding alphabet_ok_def
  by (metis distinct_append list_all_append)

lemma scan_d_state: "fst (scan_d s) \<in> {-1, 0, 1}"
  by (auto simp: scan_d_def Let_def split: option.splits prod.splits)

lemma parse_arg_ranges:
  "fst (parse_arg e) = 3 \<Longrightarrow> snd (parse_arg e) \<in> {0, 1}"
  "fst (parse_arg e) = 2 \<Longrightarrow> snd (parse_arg e) \<in> {0, 1, 2}"
  using scan_d_state [of e] by (auto simp: parse_arg_def split: prod.splits if_splits)

lemma int_arg_ok:
  "REQUIRE_INT_ARG a l h upd = Some c \<Longrightarrow> (\<And>v. l \<le> v \<Longrightarrow> v \<le> h \<Longrightarrow> P (upd v)) \<Longrightarrow> P c"
  by (auto simp: REQUIRE_INT_ARG_def split: if_splits)

lemma ed_arg_ok:
  "REQUIRE_ED_ARG (parse_arg e) upd = Some c \<Longrightarrow> (\<And>v. v = 0 \<or> v = 1 \<Longrightarrow> P (upd v)) \<Longrightarrow> P c"
  using parse_arg_ranges(1) [of e] by (auto simp: REQUIRE_ED_ARG_def split: if_splits)

lemma dae_arg_ok:
  "REQUIRE_DAE_ARG (parse_arg e) x upd = Some c \<Longrightarrow>
   (\<And>v. v = 0 \<or> v = 1 \<or> (x \<and> v = 2) \<Longrightarrow> P (upd v)) \<Longrightarrow> P c"
  using parse_arg_ranges(2) [of e] by (auto simp: REQUIRE_DAE_ARG_def split: if_splits)

lemma copy_ok:
  "COPY n s upd = Some c \<Longrightarrow> (\<And>v. length v \<le> n - 1 \<Longrightarrow> v = right_trim s \<Longrightarrow> P (upd v)) \<Longrightarrow> P c"
  using right_trim_length [of s] by (auto simp: COPY_def split: if_splits)

lemmas arg_oks = int_arg_ok [where P = cfg_ok] ed_arg_ok [where P = cfg_ok]
  dae_arg_ok [where P = cfg_ok] copy_ok [where P = cfg_ok]

lemmas cfg_ok_defs = cfg_ok_def general_ok_def pam_ok_def policy_ok_def passcode_ok_def

lemma if_chain:
  "(if b then Some x else y) = Some (Some c) \<Longrightarrow> (x = Some c \<Longrightarrow> P) \<Longrightarrow> (y = Some (Some c) \<Longrightarrow> P) \<Longrightarrow> P"
  by (cases b) auto

lemma None_chain: "None = Some (Some c) \<Longrightarrow> P"
  by simp

lemma parse_general_ok:
  "parse_general g name e cfg = Some (Some c) \<Longrightarrow> cfg_ok cfg \<Longrightarrow> cfg_ok c"
  unfolding parse_general_def
proof (elim if_chain None_chain)
  assume c: "cfg_ok cfg"
  {
    assume "(if db cfg \<noteq> CONFIG_DB_USER
       then case g e of None \<Rightarrow> None
         | Some pwd \<Rightarrow> let cfg = cfg\<lparr>user_uid := pw_uid pwd, user_gid := pw_gid pwd\<rparr>
             in if user_uid cfg = 0 then None else Some cfg
       else Some cfg) = Some c"
    then have "c = cfg \<or> (\<exists>u gid. u \<noteq> 0 \<and> c = cfg\<lparr>user_uid := u, user_gid := gid\<rparr>)"
      by (auto simp: Let_def split: if_splits option.splits)
    then show "cfg_ok c" using c by (elim disjE exE conjE) (simp_all add: cfg_ok_defs)
  next
    assume "(let e = right_trim e
       in if EQ e ''global'' then Some (cfg\<lparr>db := CONFIG_DB_GLOBAL\<rparr>)
          else if EQ e ''user'' then Some (cfg\<lparr>db := CONFIG_DB_USER\<rparr>)
          else if EQ e ''mysql'' then Some (cfg\<lparr>db := CONFIG_DB_MYSQL\<rparr>)
          else if EQ e ''ldap'' then Some (cfg\<lparr>db := CONFIG_DB_LDAP\<rparr>) else None) = Some c"
    then have "\<exists>d \<in> {0, 1, 2, 3}. c = cfg\<lparr>db := d\<rparr>"
      by (auto simp: Let_def split: if_splits)
    then show "cfg_ok c" using c by (elim bexE insertE emptyE) (simp_all add: cfg_ok_defs)
  next
    assume "(if CHR ''/'' \<in> set e then None
       else COPY CONFIG_PATH_LEN e (\<lambda>v. cfg\<lparr>user_db_path := v\<rparr>)) = Some c"
    then have "\<exists>v. length v \<le> CONFIG_PATH_LEN - 1 \<and> CHR ''/'' \<notin> set v \<and> c = cfg\<lparr>user_db_path := v\<rparr>"
      using right_trim_set [of e] right_trim_length [of e]
      by (intro exI [of _ "right_trim e"]) (auto simp: COPY_def split: if_splits)
    then show "cfg_ok c" using c by (elim exE conjE) (simp add: cfg_ok_defs)
  }
qed

lemma parse_sql_ldap_ok:
  "parse_sql_ldap name e cfg = Some (Some c) \<Longrightarrow> cfg_ok cfg \<Longrightarrow> cfg_ok c"
  unfolding parse_sql_ldap_def
  by (elim if_chain None_chain; erule copy_ok [where P = cfg_ok]; simp add: cfg_ok_defs)

lemma oob_user_ok:
  assumes "(case g e of None \<Rightarrow> None
       | Some pwd \<Rightarrow> let cfg = cfg\<lparr>pam_oob_uid := pw_uid pwd, pam_oob_gid := pw_gid pwd\<rparr>
           in if pam_oob_uid cfg = 0 then None else Some cfg) = Some c" and "cfg_ok cfg"
  shows "cfg_ok c"
proof -
  have "\<exists>u gid. u \<noteq> 0 \<and> c = cfg\<lparr>pam_oob_uid := u, pam_oob_gid := gid\<rparr>"
    using assms(1) by (auto simp: Let_def split: if_splits option.splits)
  then show "cfg_ok c" using assms(2) by (elim exE conjE) (simp add: cfg_ok_defs)
qed

lemma parse_pam_ok:
  "parse_pam g name e (parse_arg e) cfg = Some (Some c) \<Longrightarrow> cfg_ok cfg \<Longrightarrow> cfg_ok c"
  unfolding parse_pam_def
  by (elim if_chain None_chain; (erule (1) oob_user_ok)?; (elim arg_oks)?; simp add: cfg_ok_defs)

lemma parse_policy_ok:
  "parse_policy name (parse_arg e) cfg = Some (Some c) \<Longrightarrow> cfg_ok cfg \<Longrightarrow> cfg_ok c"
  unfolding parse_policy_def
  by (elim if_chain None_chain; (elim arg_oks)?; (elim disjE conjE)?; simp add: cfg_ok_defs)

lemma alphabet_custom_ok:
  assumes "(if alphabet_check e \<noteq> 0 then None
      else COPY CONFIG_ALPHABET_LEN e (\<lambda>v. cfg\<lparr>alphabet_custom := v\<rparr>)) = Some c" and "cfg_ok cfg"
  shows "cfg_ok c"
proof -
  have "\<exists>v. alphabet_ok v \<and> length v \<le> CONFIG_ALPHABET_LEN - 1 \<and> c = cfg\<lparr>alphabet_custom := v\<rparr>"
    using assms(1) right_trim_length [of e] alphabet_ok_trim [of e]
    by (intro exI [of _ "right_trim e"]) (auto simp: COPY_def alphabet_check_ok split: if_splits)
  then show "cfg_ok c" using assms(2) by (elim exE conjE) (simp add: cfg_ok_defs)
qed

lemma parse_passcode_ok:
  "parse_passcode name e (parse_arg e) cfg = Some (Some c) \<Longrightarrow> cfg_ok cfg \<Longrightarrow> cfg_ok c"
  unfolding parse_passcode_def
  by (elim if_chain None_chain; (erule (1) alphabet_custom_ok)?; (elim arg_oks)?; (elim disjE)?;
      simp add: cfg_ok_defs)

lemma parse_option_ok:
  "parse_option g name e cfg = Some (Some c) \<Longrightarrow> cfg_ok cfg \<Longrightarrow> cfg_ok c"
  by (auto simp: parse_option_def Let_def split: option.splits
      intro: parse_general_ok parse_sql_ldap_ok parse_pam_ok parse_policy_ok parse_passcode_ok)

lemma cfg_line_ok: "cfg_line g l fail cfg = Parsed n c \<Longrightarrow> cfg_ok cfg \<Longrightarrow> cfg_ok c"
  by (auto simp: cfg_line_def Let_def split: if_splits option.splits intro: parse_option_ok)

lemma cfg_line_fail: "cfg_line g l fail cfg = Parsed n c \<Longrightarrow> fail \<le> n"
  by (auto simp: cfg_line_def Let_def split: if_splits option.splits)

lemma cfg_lines_Parsed:
  assumes "cfg_lines g f fail cfg = Some (Parsed n c)" and "P fail cfg"
    and "\<And>l m d n c. cfg_line g l m d = Parsed n c \<Longrightarrow> P m d \<Longrightarrow> P n c"
  shows "P n c"
  using assms(1,2)
proof (induction "length f" arbitrary: f fail cfg rule: less_induct)
  case less
  let ?n = "fgets_len CONFIG_MAX_LINE_LEN f"
  show ?case
  proof (cases "f = []")
    case True
    with less.prems show ?thesis by (simp add: cfg_lines.simps)
  next
    case False
    with less.prems(1) obtain m d where
      l: "cfg_line g (butlast (c_str (take ?n f))) fail cfg = Parsed m d" and
      r: "cfg_lines g (drop ?n f) m d = Some (Parsed n c)"
      by (subst (asm) cfg_lines.simps) (auto simp: Let_def split: if_splits cfg_result.splits)
    have "length (drop ?n f) < length f" using False fgets_len_pos [of CONFIG_MAX_LINE_LEN f] by simp
    then show ?thesis using less.hyps [OF _ r] assms(3) [OF l less.prems(2)] by simp
  qed
qed

lemma cfg_lines_ok: "cfg_lines g f fail cfg = Some (Parsed n c) \<Longrightarrow> cfg_ok cfg \<Longrightarrow> cfg_ok c"
  by (rule cfg_lines_Parsed [where P = "\<lambda>_. cfg_ok"]) (auto intro: cfg_line_ok)

lemma cfg_lines_fail_mono: "cfg_lines g f fail cfg = Some (Parsed n c) \<Longrightarrow> fail \<le> n"
  by (rule cfg_lines_Parsed [where P = "\<lambda>m _. fail \<le> m"]) (auto dest: cfg_line_fail)

lemma config_defaults_ok: "cfg_ok config_defaults"
  by (simp add: cfg_ok_defs config_defaults_def alphabet_ok_def isgraph_def code_def)

lemma config_defaults_consistent: "cfg_consistent config_defaults"
  by (simp add: cfg_consistent_def config_defaults_def)

lemma config_parse_ok:
  assumes "config_parse g f config_defaults = Some (0, c)"
  shows "cfg_ok c \<and> cfg_consistent c \<and> db c \<noteq> CONFIG_DB_UNCONFIGURED"
proof -
  obtain x where f: "f = Some x" using assms by (auto simp: config_parse_def split: option.splits)
  obtain r where r: "cfg_lines g x 0 config_defaults = Some r"
    using assms by (auto simp: config_parse_def f)
  have "r = Parsed 0 c \<and> cfg_consistent c \<and> db c \<noteq> CONFIG_DB_UNCONFIGURED"
    using assms by (cases r) (auto simp: config_parse_def f r split: if_splits)
  then show ?thesis using cfg_lines_ok [OF _ config_defaults_ok] r by simp
qed

lemma config_init_ok:
  assumes "config_init g f = Some (r, c)"
  shows "cfg_ok c \<and> cfg_consistent c \<and> (r = 0 \<longrightarrow> db c \<noteq> CONFIG_DB_UNCONFIGURED)"
  using assms config_parse_ok config_defaults_ok config_defaults_consistent
  by (auto simp: config_init_def split: if_splits)

lemma cfg_get_ok: "cfg_get w = Some (Some c) \<Longrightarrow> cfg_ok c \<and> cfg_consistent c"
  using config_init_ok by (auto simp: cfg_get_def split: if_splits)

end
