(* ===== verification/Num128.thy ===== *)
theory Num128
  imports Prelude
begin

text \<open>
  The 128 bit numbers of \<open>src/src/common/num.c\<close> and \<open>num.h\<close>, two 64 bit words: shifts, comparison,
  addition and subtraction with carry, multiplication and division by a word.  \<open>nval\<close> is the number
  that is represented; every operation computes exactly on it, up to the wrap-around at \<open>2 ^ 128\<close>
  that the overflow flag records.
\<close>

record num_t =
  hi :: u64
  lo :: u64

definition nval :: "num_t \<Rightarrow> nat" where
  "nval n = unat (hi n) * 2 ^ 64 + unat (lo n)"

definition num_of :: "nat \<Rightarrow> num_t" where
  "num_of v = \<lparr>hi = of_nat (v div 2 ^ 64), lo = of_nat v\<rparr>"

definition num_ii :: "u64 \<Rightarrow> u64 \<Rightarrow> num_t" where
  "num_ii arg1 arg2 = \<lparr>hi = arg1, lo = arg2\<rparr>"

abbreviation num_i :: "u64 \<Rightarrow> num_t" where
  "num_i x \<equiv> num_ii 0 x"

abbreviation num_zero :: num_t where
  "num_zero \<equiv> num_ii 0 0"

definition num_lshift :: "num_t \<Rightarrow> num_t" where
  "num_lshift arg = \<lparr>hi = push_bit 1 (hi arg) OR drop_bit 63 (lo arg), lo = push_bit 1 (lo arg)\<rparr>"

definition num_rshift :: "num_t \<Rightarrow> num_t" where
  "num_rshift arg = \<lparr>hi = drop_bit 1 (hi arg), lo = drop_bit 1 (lo arg) OR push_bit 63 (hi arg)\<rparr>"

definition num_and :: "num_t \<Rightarrow> num_t \<Rightarrow> num_t" where
  "num_and arg1 arg2 = \<lparr>hi = hi arg1 AND hi arg2, lo = lo arg1 AND lo arg2\<rparr>"

definition num_cmp_i :: "num_t \<Rightarrow> u64 \<Rightarrow> int" where
  "num_cmp_i arg1 arg2 =
     (if hi arg1 \<noteq> 0 \<or> lo arg1 > arg2 then 1
      else if lo arg1 = arg2 then 0
      else -1)"

definition num_cmp :: "num_t \<Rightarrow> num_t \<Rightarrow> int" where
  "num_cmp arg1 arg2 =
     (if hi arg1 > hi arg2 then 1
      else if hi arg1 < hi arg2 then -1
      else if lo arg1 > lo arg2 then 1
      else if lo arg1 < lo arg2 then -1
      else 0)"

text \<open>Operations with the static flag \<open>num_overflow\<close>\<close>

definition num_add_ov :: "num_t \<Rightarrow> num_t \<Rightarrow> bool \<Rightarrow> num_t \<times> bool" where
  "num_add_ov arg1 arg2 ov =
     (let rlo = lo arg1 + lo arg2;
          rhi = hi arg1 + hi arg2;
          ov = (if rhi < hi arg1 then True else ov)
      in if rlo < lo arg1
         then (let rhi = rhi + 1;
                   ov = (if rhi < 1 then True else ov)
               in (\<lparr>hi = rhi, lo = rlo\<rparr>, ov))
         else (\<lparr>hi = rhi, lo = rlo\<rparr>, ov))"

definition num_sub_ov :: "num_t \<Rightarrow> num_t \<Rightarrow> bool \<Rightarrow> num_t \<times> bool" where
  "num_sub_ov arg1 arg2 ov =
     (let rlo = lo arg1 - lo arg2;
          rhi = hi arg1 - hi arg2;
          ov = (if rhi > hi arg1 then True else ov)
      in if rlo > lo arg1
         then (let tmp = rhi - 1;
                   ov = (if tmp > rhi then True else ov)
               in (\<lparr>hi = tmp, lo = rlo\<rparr>, ov))
         else (\<lparr>hi = rhi, lo = rlo\<rparr>, ov))"

definition num_add :: "num_t \<Rightarrow> num_t \<Rightarrow> num_t" where
  "num_add a b = fst (num_add_ov a b False)"

definition num_sub :: "num_t \<Rightarrow> num_t \<Rightarrow> num_t" where
  "num_sub a b = fst (num_sub_ov a b False)"

fun num_mul_loop ::
  "nat \<Rightarrow> num_t \<Rightarrow> num_t \<Rightarrow> num_t \<Rightarrow> bool \<Rightarrow> bool \<Rightarrow> num_t \<times> bool" where
  "num_mul_loop 0 arg1 reply r can_overflow ov = (reply, ov)"
| "num_mul_loop (Suc n) arg1 reply r can_overflow ov =
     (let (reply, ov) =
            (if lo arg1 AND 1 \<noteq> 0
             then num_add_ov reply r (ov \<or> can_overflow)
             else (reply, ov));
          can_overflow = (if hi r AND 0x8000000000000000 \<noteq> 0 then True else can_overflow)
      in num_mul_loop n (num_rshift arg1) reply (num_lshift r) can_overflow ov)"

definition num_mul_i_ov :: "num_t \<Rightarrow> u64 \<Rightarrow> bool \<Rightarrow> num_t \<times> bool" where
  "num_mul_i_ov arg1 arg2 ov = num_mul_loop 128 arg1 num_zero (num_i arg2) False ov"

definition num_mul_i :: "num_t \<Rightarrow> u64 \<Rightarrow> num_t" where
  "num_mul_i a b = fst (num_mul_i_ov a b False)"

definition num_div_step :: "u64 \<Rightarrow> u64 \<times> num_t \<Rightarrow> u64 \<times> num_t" where
  "num_div_step divby = (\<lambda>(remainder, result).
     (let overflow = (remainder AND 0x8000000000000000 \<noteq> 0);
          remainder = push_bit 1 remainder;
          remainder = (if hi result AND 0x8000000000000000 \<noteq> 0
                       then remainder OR 1 else remainder);
          result = num_lshift result
      in if overflow
         then (0xFFFFFFFFFFFFFFFF - divby + 1 + remainder, result\<lparr>lo := lo result OR 1\<rparr>)
         else if remainder \<ge> divby
         then (remainder - divby, result\<lparr>lo := lo result OR 1\<rparr>)
         else (remainder, result)))"

fun num_div_loop :: "nat \<Rightarrow> u64 \<Rightarrow> u64 \<times> num_t \<Rightarrow> u64 \<times> num_t" where
  "num_div_loop 0 divby st = st"
| "num_div_loop (Suc n) divby st = num_div_loop n divby (num_div_step divby st)"

definition num_div_i :: "num_t \<Rightarrow> u64 \<Rightarrow> num_t \<times> u64" where
  "num_div_i divwhat divby =
     (let (remainder, result) = num_div_loop 128 divby (0, divwhat) in (result, remainder))"

subsection \<open>Values\<close>

lemma nval_less: "nval n < 2 ^ 128"
  using unat_mask_less [of "hi n"] unat_mask_less [of "lo n"] by (simp add: nval_def)

lemma nval_inject: "nval a = nval b \<longleftrightarrow> a = b"
proof
  assume eq: "nval a = nval b"
  have l: "unat (lo a) < 2 ^ 64" "unat (lo b) < 2 ^ 64"
    using unat_mask_less [of "lo a"] unat_mask_less [of "lo b"] by simp_all
  have "unat (lo a) = unat (lo b)"
    using arg_cong [OF eq, of "\<lambda>x. x mod 2 ^ 64"] l by (simp add: nval_def)
  moreover have "unat (hi a) = unat (hi b)"
    using arg_cong [OF eq, of "\<lambda>x. x div 2 ^ 64"] l by (simp add: nval_def)
  ultimately show "a = b" by (simp add: word_unat_eq_iff)
qed simp

lemma nval_num_ii [num_val]: "nval (num_ii a b) = unat a * 2 ^ 64 + unat b"
  by (simp add: nval_def num_ii_def)

lemma nval_num_of [num_val]: "nval (num_of v) = v mod 2 ^ 128"
proof -
  have "nval (num_of v) = (2 ^ 64) * (v div 2 ^ 64 mod 2 ^ 64) + v mod 2 ^ 64"
    by (simp add: nval_def num_of_def unat_of_nat)
  also have "\<dots> = v mod (2 ^ 64 * 2 ^ 64)"
    by (rule mod_mult2_eq [symmetric])
  finally show ?thesis by simp
qed

lemma num_of_nval [simp]: "num_of (nval n) = n"
proof -
  have "nval (num_of (nval n)) = nval n"
    using nval_less [of n] by (simp only: nval_num_of mod_less)
  then show ?thesis by (simp only: nval_inject)
qed

lemma num_eqI: "nval a = nval b \<Longrightarrow> a = b"
  by (simp only: nval_inject)

subsection \<open>Comparison, shifts and masks\<close>

lemma nval_less_iff:
  "nval a < nval b \<longleftrightarrow> hi a < hi b \<or> (hi a = hi b \<and> lo a < lo b)"
  using digits_less_iff [of "unat (lo a)" "2 ^ 64" "unat (lo b)"]
    unat_mask_less [of "lo a"] unat_mask_less [of "lo b"]
  by (simp add: nval_def word_less_nat_alt word_unat_eq_iff)

lemma num_cmp_val:
  "num_cmp a b = (if nval a > nval b then 1 else if nval a < nval b then -1 else 0)"
  unfolding num_cmp_def nval_less_iff by auto

lemma num_cmp_i_val:
  "num_cmp_i a b = (if nval a > unat b then 1 else if nval a = unat b then 0 else -1)"
proof -
  have b: "unat b < 2 ^ 64" using unat_mask_less [of b] by simp
  show ?thesis
  proof (cases "hi a = 0")
    case True
    then show ?thesis
      by (auto simp: num_cmp_i_def nval_def word_less_nat_alt word_unat_eq_iff)
  next
    case False
    then have "unat (hi a) \<ge> 1" by (simp add: unat_gt_0 Suc_le_eq)
    then have "unat (hi a) * 2 ^ 64 + unat (lo a) > unat b" using b by simp
    with False show ?thesis by (simp add: num_cmp_i_def nval_def)
  qed
qed

lemma nval_lshift [num_val]: "nval (num_lshift a) = 2 * nval a mod 2 ^ 128"
proof -
  let ?h = "unat (hi a)" and ?l = "unat (lo a)"
  have l: "?l < 2 ^ 64" using unat_mask_less [of "lo a"] by simp
  have "unat (push_bit 1 (lo a)) = 2 * (?l mod 2 ^ 63)"
    using mult_mod_right [of 2 ?l "2 ^ 63"]
    by (simp only: unat_push_bit) (simp add: mult.commute)
  then have "nval (num_lshift a) = (2 * ?h mod 2 ^ 64 + ?l div 2 ^ 63) * 2 ^ 64 + 2 * (?l mod 2 ^ 63)"
    by (simp only: nval_def num_lshift_def num_t.simps unat_shl1_or)
  also have "\<dots> = 2 * (?h * 2 ^ 64 + ?l) mod (2 ^ 64 * 2 ^ 64)"
    by (rule double_digits [symmetric]) (simp_all add: l [simplified])
  finally show ?thesis by (simp add: nval_def)
qed

lemma nval_rshift [num_val]: "nval (num_rshift a) = nval a div 2"
proof -
  let ?h = "unat (hi a)" and ?l = "unat (lo a)"
  have "nval (num_rshift a) = (?h div 2) * 2 ^ 64 + (?l div 2 + (?h mod 2) * 2 ^ 63)"
    by (simp only: nval_def num_rshift_def num_t.simps unat_shr1_or unat_drop_bit power_one_right)
  also have "\<dots> = ?h * 2 ^ 63 + ?l div 2"
    using half_split [of ?h "2 ^ 63"] by simp
  also have "\<dots> = (?h * 2 ^ 64 + ?l) div 2"
    by simp
  finally show ?thesis by (simp only: nval_def)
qed

lemma bit_u64_less: "bit (w :: u64) n \<Longrightarrow> n < 64"
  using bit_imp_le_length [of w n] by simp

lemma nval_bits: "nval a = push_bit 64 (unat (hi a)) OR unat (lo a)"
proof -
  have "push_bit 64 (unat (hi a)) AND unat (lo a) = 0"
    by (rule bit_eqI) (auto simp: bit_and_iff bit_push_bit_iff bit_unsigned_iff
        dest: bit_u64_less simp del: push_bit_eq_mult)
  then show ?thesis
    by (simp only: disjunctive_add_eq_or [symmetric] nval_def) (simp only: push_bit_eq_mult)
qed

lemma nval_and [num_val]: "nval (num_and a b) = nval a AND nval b"
proof (rule bit_eqI)
  fix n
  show "bit (nval (num_and a b)) n = bit (nval a AND nval b) n"
    using bit_u64_less [of "lo a" n] bit_u64_less [of "lo b" n]
    unfolding nval_bits num_and_def num_t.simps
    by (cases "n < 64")
       (auto simp: bit_and_iff bit_or_iff bit_push_bit_iff bit_unsigned_iff)
qed

subsection \<open>Addition and subtraction\<close>

lemma num_add_ov_val:
  assumes "num_add_ov a b ov = (r, ov')"
  shows "nval r = (nval a + nval b) mod 2 ^ 128"
    and "ov' \<longleftrightarrow> ov \<or> nval a + nval b \<ge> 2 ^ 128"
proof -
  note bnd = unat_mask_less [of "hi a"] unat_mask_less [of "lo a"]
    unat_mask_less [of "hi b"] unat_mask_less [of "lo b"]
  have sum: "(nval a + nval b) mod 2 ^ 128 =
      (if nval a + nval b < 2 ^ 128 then nval a + nval b else nval a + nval b - 2 ^ 128)"
    by (rule mod_add_if [OF nval_less nval_less])
  show "nval r = (nval a + nval b) mod 2 ^ 128"
    unfolding sum using assms bnd
    by (auto simp: num_add_ov_def nval_def Let_def word_less_nat_alt unat_add_if split: if_splits)
  show "ov' \<longleftrightarrow> ov \<or> nval a + nval b \<ge> 2 ^ 128"
    using assms bnd
    by (auto simp: num_add_ov_def nval_def Let_def word_less_nat_alt unat_add_if split: if_splits)
qed

lemma u64_sub_borrow: "x < x - y \<longleftrightarrow> x < y" for x y :: u64
  using unat_mask_less [of y] by (simp add: word_less_nat_alt unat_sub_if) linarith

lemma u64_sub_1_borrow: "x < x - 1 \<longleftrightarrow> x = 0" for x :: u64
  by (simp add: u64_sub_borrow word_less_1)

lemma num_sub_ov_flag:
  assumes "num_sub_ov a b ov = (r, ov')"
  shows "ov' \<longleftrightarrow> ov \<or> nval a < nval b"
  using assms
  by (auto simp: num_sub_ov_def Let_def u64_sub_borrow u64_sub_1_borrow nval_less_iff
      split: if_splits)

lemma num_sub_ov_result:
  assumes "num_sub_ov a b ov = (r, ov')"
  shows "lo r = lo a - lo b" and "hi r = hi a - hi b - (if lo a < lo b then 1 else 0)"
  using assms by (auto simp: num_sub_ov_def Let_def u64_sub_borrow split: if_splits)

lemma num_sub_ov_val:
  assumes "num_sub_ov a b ov = (r, ov')"
  shows "nval r = (if nval b \<le> nval a then nval a - nval b else 2 ^ 128 + nval a - nval b)"
proof -
  note bnd = unat_mask_less [of "hi a"] unat_mask_less [of "lo a"]
    unat_mask_less [of "hi b"] unat_mask_less [of "lo b"]
  have le: "nval b \<le> nval a \<longleftrightarrow> hi b < hi a \<or> (hi a = hi b \<and> lo b \<le> lo a)"
    using nval_less_iff [of a b] by (auto simp: not_less [symmetric])
  show ?thesis
    unfolding le nval_def num_sub_ov_result [OF assms] using bnd
    by (cases "lo a < lo b"; cases "hi a" "hi b" rule: linorder_cases)
       (auto simp: word_less_nat_alt word_le_nat_alt word_unat_eq_iff unat_sub_if)
qed

lemma nval_add [num_val]: "nval (num_add a b) = (nval a + nval b) mod 2 ^ 128"
  by (cases "num_add_ov a b False") (simp only: num_add_def fst_conv num_add_ov_val(1))

lemma nval_sub [num_val]:
  "nval (num_sub a b) = (if nval b \<le> nval a then nval a - nval b else 2 ^ 128 + nval a - nval b)"
  by (cases "num_sub_ov a b False") (simp only: num_sub_def fst_conv num_sub_ov_val)

lemma num_add_ov_fst: "fst (num_add_ov a b ov) = num_add a b"
proof -
  have "nval (fst (num_add_ov a b ov)) = nval (num_add a b)"
    by (cases "num_add_ov a b ov") (simp only: fst_conv num_add_ov_val(1) nval_add)
  then show ?thesis by (rule num_eqI)
qed

lemma num_add_ov_snd: "snd (num_add_ov a b ov) \<longleftrightarrow> ov \<or> nval a + nval b \<ge> 2 ^ 128"
  by (cases "num_add_ov a b ov") (simp only: snd_conv num_add_ov_val(2))

subsection \<open>Multiplication\<close>

lemma u64_lsb: "x AND 1 \<noteq> 0 \<longleftrightarrow> odd (unat x)" for x :: u64
proof -
  have "x AND 1 = 0 \<longleftrightarrow> unat (x mod 2) = 0" by (simp only: and_one_eq unat_eq_0)
  then show ?thesis by (simp add: unat_mod odd_iff_mod_2_eq_one)
qed

lemma u64_msb: "x AND 0x8000000000000000 \<noteq> 0 \<longleftrightarrow> 2 ^ 63 \<le> unat x" for x :: u64
proof -
  have "x AND push_bit 63 1 \<noteq> 0 \<longleftrightarrow> bit x 63"
    by (metis and_exp_eq_0_iff_not_bit push_bit_of_1)
  also have "\<dots> \<longleftrightarrow> bit (unat x) 63" by (simp add: bit_unsigned_iff)
  also have "\<dots> \<longleftrightarrow> odd (unat x div 2 ^ 63)" by (simp only: bit_iff_odd)
  also have "\<dots> \<longleftrightarrow> 2 ^ 63 \<le> unat x"
  proof -
    have "unat x div 2 ^ 63 < 2"
      using unat_mask_less [of x] by (simp add: less_mult_imp_div_less)
    then have "odd (unat x div 2 ^ 63) \<longleftrightarrow> unat x div 2 ^ 63 \<noteq> 0"
      by (auto simp: less_2_cases_iff)
    also have "\<dots> \<longleftrightarrow> 2 ^ 63 \<le> unat x" by (simp add: div_eq_0_iff not_less)
    finally show ?thesis .
  qed
  finally show ?thesis by simp
qed

lemma nval_lsb: "lo a AND 1 \<noteq> 0 \<longleftrightarrow> odd (nval a)"
  by (simp add: u64_lsb nval_def)

lemma nval_msb: "hi a AND 0x8000000000000000 \<noteq> 0 \<longleftrightarrow> 2 ^ 127 \<le> nval a"
  using unat_mask_less [of "lo a"] by (simp add: u64_msb nval_def) linarith

text \<open>
  The loop of \<open>num_mul_i\<close>: \<open>T\<close> is the addend the loop would hold without the 128 bit limit
  and \<open>S\<close> the unlimited sum so far.
\<close>

lemma num_mul_loop_val:
  assumes "nval arg < 2 ^ n"
    and "nval r = T mod 2 ^ 128" and "co \<longleftrightarrow> T \<ge> 2 ^ 128"
    and "nval reply = S mod 2 ^ 128" and "ov \<longleftrightarrow> ov0 \<or> S \<ge> 2 ^ 128"
    and "num_mul_loop n arg reply r co ov = (p, ov')"
  shows "nval p = (S + nval arg * T) mod 2 ^ 128 \<and>
    (ov' \<longleftrightarrow> ov0 \<or> S + nval arg * T \<ge> 2 ^ 128)"
  using assms
proof (induction n arbitrary: arg reply r co ov T S)
  case 0
  then show ?case by simp
next
  case (Suc n)
  let ?odd = "odd (nval arg)"
  let ?S = "if ?odd then S + T else S"
  define reply' where "reply' = (if ?odd then num_add reply r else reply)"
  define ov1 where "ov1 = (if ?odd then snd (num_add_ov reply r (ov \<or> co)) else ov)"
  define co' where "co' = (if 2 ^ 127 \<le> nval r then True else co)"
  have run: "num_mul_loop n (num_rshift arg) reply' (num_lshift r) co' ov1 = (p, ov')"
    using Suc.prems(6)
    by (simp only: num_mul_loop.simps nval_lsb nval_msb reply'_def ov1_def co'_def Let_def
        num_add_ov_fst [of reply r "ov \<or> co", symmetric] split_beta)
       (auto split: if_splits)
  have arg': "nval (num_rshift arg) < 2 ^ n"
    using Suc.prems(1) by (simp add: nval_rshift less_mult_imp_div_less)
  have T2: "nval (num_lshift r) = (2 * T) mod 2 ^ 128"
    using Suc.prems(2) by (simp add: nval_lshift mod_mult_right_eq)
  have T_lt: "T < 2 ^ 128" if "\<not> co" using that Suc.prems(3) by simp
  have co2: "co' \<longleftrightarrow> 2 * T \<ge> 2 ^ 128"
    using T_lt Suc.prems(2,3) by (cases co) (auto simp: co'_def)
  have S2: "nval reply' = ?S mod 2 ^ 128"
    using Suc.prems(2,4) by (simp add: reply'_def nval_add mod_add_eq)
  have ov2: "ov1 \<longleftrightarrow> ov0 \<or> ?S \<ge> 2 ^ 128"
    using Suc.prems(2,3,4,5) by (cases "S \<ge> 2 ^ 128"; cases "T \<ge> 2 ^ 128")
      (auto simp: ov1_def num_add_ov_snd)
  have S_T: "?S + nval (num_rshift arg) * (2 * T) = S + nval arg * T"
  proof (cases ?odd)
    case True
    then obtain k where "nval arg = 2 * k + 1" by (rule oddE)
    then show ?thesis by (simp add: nval_rshift algebra_simps)
  next
    case False
    then obtain k where "nval arg = 2 * k" by (auto elim: evenE)
    then show ?thesis by (simp add: nval_rshift algebra_simps)
  qed
  show ?case
    using Suc.IH [OF arg' T2 co2 S2 ov2 run] unfolding S_T .
qed

lemma num_mul_i_ov_val:
  assumes "num_mul_i_ov a b ov = (p, ov')"
  shows "nval p = (nval a * unat b) mod 2 ^ 128"
    and "ov' \<longleftrightarrow> ov \<or> nval a * unat b \<ge> 2 ^ 128"
proof -
  have b: "unat b < 2 ^ 128" using unat_mask_less [of b] by simp
  have "nval p = (0 + nval a * unat b) mod 2 ^ 128 \<and> (ov' \<longleftrightarrow> ov \<or> 0 + nval a * unat b \<ge> 2 ^ 128)"
    by (rule num_mul_loop_val [where T = "unat b" and S = 0 and ov = ov and co = False
          and reply = num_zero and r = "num_i b" and n = 128])
       (use nval_less [of a] b assms in \<open>simp_all add: nval_num_ii num_mul_i_ov_def\<close>)
  then show "nval p = (nval a * unat b) mod 2 ^ 128"
    and "ov' \<longleftrightarrow> ov \<or> nval a * unat b \<ge> 2 ^ 128" by simp_all
qed

lemma nval_mul_i [num_val]: "nval (num_mul_i a b) = (nval a * unat b) mod 2 ^ 128"
  by (cases "num_mul_i_ov a b False") (simp only: num_mul_i_def fst_conv num_mul_i_ov_val(1))

subsection \<open>Division\<close>

lemma u64_or_1: "even (unat x) \<Longrightarrow> unat (x OR 1) = unat x + 1" for x :: u64
proof -
  assume "even (unat x)"
  then have "x AND 1 = 0" using u64_lsb [of x] by simp
  then have "x OR 1 = x + 1" by (rule or_disjoint_add)
  moreover obtain k where "unat x = 2 * k" using \<open>even (unat x)\<close> by (rule evenE)
  then have "unat x + 1 < 2 ^ LENGTH(64)" using unat_mask_less [of x] by simp
  ultimately show ?thesis by (simp add: unat_add_no_wrap)
qed

lemma unat_shl1: "unat (push_bit 1 x) = 2 * unat x mod 2 ^ 64" for x :: u64
  by (simp only: unat_push_bit) (simp add: mult.commute)

text \<open>
  One iteration on values: the remainder (as an unlimited number) is doubled with the top bit
  of the register shifted in, and \<open>divby\<close> is taken off when it fits, which the shifted
  register records in its lowest bit.
\<close>

lemma num_div_step_val:
  assumes "unat rem < unat d" and "num_div_step d (rem, R) = (rem', R')"
  shows "unat rem' < unat d \<and> (\<exists>c \<le> 1. unat rem' * 2 ^ 128 + nval R' + c * (unat d * 2 ^ 128)
      = 2 * (unat rem * 2 ^ 128 + nval R) + c)"
proof -
  let ?b = "if 2 ^ 127 \<le> nval R then 1 else 0 :: nat"
  define r1 where "r1 = (if 2 ^ 127 \<le> nval R then push_bit 1 rem OR 1 else push_bit 1 rem)"
  define R1 where "R1 = num_lshift R"
  have dbl: "2 * unat rem mod 2 ^ 64 =
      (if 2 ^ 63 \<le> unat rem then 2 * unat rem - 2 ^ 64 else 2 * unat rem)"
    using mod_double_if [OF unat_mask_less [of rem]] by auto
  have r1: "unat r1 = 2 * unat rem mod 2 ^ 64 + ?b"
    by (simp only: r1_def unat_shl1 u64_or_1 even_double_mod split: if_split) simp
  note r1 = r1 [unfolded dbl]
  have R1: "nval R1 + ?b * 2 ^ 128 = 2 * nval R"
    using mod_double_if [OF nval_less [of R]] by (auto simp: R1_def nval_lshift)
  have "even (unat (lo R1))"
    unfolding R1_def num_lshift_def num_t.simps unat_shl1 by (rule even_double_mod)
  then have R1': "nval (R1\<lparr>lo := lo R1 OR 1\<rparr>) = nval R1 + 1"
    by (simp add: nval_def u64_or_1)
  have neg: "0xFFFFFFFFFFFFFFFF - d + 1 + r1 = r1 - d" by simp
  have step: "(rem', R') =
      (if 2 ^ 63 \<le> unat rem \<or> d \<le> r1 then (r1 - d, R1\<lparr>lo := lo R1 OR 1\<rparr>) else (r1, R1))"
    using assms(2) unfolding num_div_step_def split Let_def nval_msb
    unfolding u64_msb r1_def [symmetric] R1_def [symmetric] neg by (auto split: if_splits)
  show ?thesis
  proof (cases "2 ^ 63 \<le> unat rem \<or> d \<le> r1")
    case True
    then have "unat rem' + unat d = 2 * unat rem + ?b" and "nval R' = nval R1 + 1"
      and "unat rem' < unat d"
      using step r1 R1' assms(1) unat_mask_less [of d]
      by (auto simp: unat_sub_if word_le_nat_alt split: if_splits)
    then show ?thesis using R1 by (intro conjI exI [of _ 1]) simp_all
  next
    case False
    then have "unat rem' = 2 * unat rem + ?b" and "nval R' = nval R1"
      and "unat rem' < unat d"
      using step r1 assms(1) by (auto simp: word_le_nat_alt split: if_splits)
    then show ?thesis using R1 by (intro conjI exI [of _ 0]) simp_all
  qed
qed

lemma num_div_loop_val:
  assumes "unat rem < unat d" and "num_div_loop n d (rem, R) = (rem', R')"
  shows "unat rem' < unat d \<and> (\<exists>q < 2 ^ n. unat rem' * 2 ^ 128 + nval R' + q * (unat d * 2 ^ 128)
      = 2 ^ n * (unat rem * 2 ^ 128 + nval R) + q)"
  using assms
proof (induction n arbitrary: rem R)
  case 0
  then show ?case by simp
next
  case (Suc n)
  obtain rem1 R1 where st: "num_div_step d (rem, R) = (rem1, R1)" by fastforce
  from num_div_step_val [OF Suc.prems(1) st] obtain c where r1: "unat rem1 < unat d" and c: "c \<le> 1"
    and e1: "unat rem1 * 2 ^ 128 + nval R1 + c * (unat d * 2 ^ 128) = 2 * (unat rem * 2 ^ 128 + nval R) + c"
    by blast
  from Suc.prems(2) st have "num_div_loop n d (rem1, R1) = (rem', R')" by simp
  from Suc.IH [OF r1 this] obtain q where r': "unat rem' < unat d" and q: "q < 2 ^ n"
    and e2: "unat rem' * 2 ^ 128 + nval R' + q * (unat d * 2 ^ 128) = 2 ^ n * (unat rem1 * 2 ^ 128 + nval R1) + q"
    by blast
  have "unat rem' * 2 ^ 128 + nval R' + (2 ^ n * c + q) * (unat d * 2 ^ 128) =
      2 ^ n * (unat rem1 * 2 ^ 128 + nval R1 + c * (unat d * 2 ^ 128)) + q"
    using e2 by (simp only: distrib_right distrib_left mult.assoc)
  also have "\<dots> = 2 ^ Suc n * (unat rem * 2 ^ 128 + nval R) + (2 ^ n * c + q)"
    unfolding e1 by (simp only: distrib_left power_Suc mult.assoc mult.left_commute [of 2])
  finally have e: "unat rem' * 2 ^ 128 + nval R' + (2 ^ n * c + q) * (unat d * 2 ^ 128) =
      2 ^ Suc n * (unat rem * 2 ^ 128 + nval R) + (2 ^ n * c + q)" .
  have "2 ^ n * c \<le> 2 ^ n" using c by (metis mult_le_mono2 mult.right_neutral)
  then have "2 ^ n * c + q < 2 ^ Suc n" using q unfolding power_Suc by linarith
  with e r' show ?case by blast
qed

lemma num_div_i_val:
  assumes "0 < unat d" and "num_div_i a d = (q, r)"
  shows "nval q = nval a div unat d" and "unat r = nval a mod unat d"
proof -
  obtain r0 q0 where "num_div_loop 128 d (0, a) = (r0, q0)" by fastforce
  with assms(2) have "num_div_loop 128 d (0, a) = (r, q)" by (simp add: num_div_i_def)
  from num_div_loop_val [OF _ this] assms(1)
  obtain k where r: "unat r < unat d" and k: "k < 2 ^ 128"
    and e: "unat r * 2 ^ 128 + nval q + k * (unat d * 2 ^ 128) = 2 ^ 128 * nval a + k"
    by auto
  have "(unat r + k * unat d) * 2 ^ 128 + nval q = nval a * 2 ^ 128 + k"
    using e by (simp add: algebra_simps)
  then have "nval a = unat r + k * unat d" and "nval q = k"
    using digit_div [OF k, of "nval a"] digit_mod [OF k, of "nval a"]
      digit_div [OF nval_less [of q], of "unat r + k * unat d"]
      digit_mod [OF nval_less [of q], of "unat r + k * unat d"] by simp_all
  with r show "nval q = nval a div unat d" and "unat r = nval a mod unat d"
    by simp_all
qed

subsection \<open>Properties\<close>

text \<open>
  C15: the two-word addition, subtraction, shift-and-add multiplication and comparison compute
  on the represented number modulo \<open>2 ^ 128\<close>, and the shift-and-subtract division gives the
  exact quotient and remainder for every divisor but zero.
\<close>

theorem num_arithmetic:
  assumes "0 < unat d"
  shows "nval (num_add a b) = (nval a + nval b) mod 2 ^ 128 \<and>
    nval (num_sub a b) = (if nval b \<le> nval a then nval a - nval b else 2 ^ 128 + nval a - nval b) \<and>
    nval (num_mul_i a k) = nval a * unat k mod 2 ^ 128 \<and>
    num_cmp a b = (if nval a > nval b then 1 else if nval a < nval b then -1 else 0) \<and>
    nval (fst (num_div_i a d)) = nval a div unat d \<and> unat (snd (num_div_i a d)) = nval a mod unat d"
proof -
  have "nval (fst (num_div_i a d)) = nval a div unat d" "unat (snd (num_div_i a d)) = nval a mod unat d"
    using num_div_i_val [OF assms, of a] by (cases "num_div_i a d"; simp)+
  then show ?thesis by (intro conjI nval_add nval_sub nval_mul_i num_cmp_val)
qed

theorem num_arithmetic_witness:
  "nval (fst (num_div_i (num_ii 3 7) 10)) = nval (num_ii 3 7) div 10 \<and>
   unat (snd (num_div_i (num_ii 3 7) 10)) = nval (num_ii 3 7) mod 10"
  using num_arithmetic [of 10 "num_ii 3 7"] by simp

end
