(* ===== verification/Num_Conv.thy ===== *)
theory Num_Conv
  imports Num128 Libc
begin

text \<open>
  The conversions of \<open>src/common/num.c\<close>: decimal and hexadecimal text, the hexadecimal text of
  the PPPv3 tools, and the 16 bytes that are enciphered.  An output buffer is the string the
  code leaves in it; a parser gives its return code together with \<open>*arg\<close>.
\<close>

datatype num_str_type = NUM_FORMAT_DEC | NUM_FORMAT_HEX | NUM_FORMAT_PPP_HEX | NUM_FORMAT_BIN

subsection \<open>Printing\<close>

definition num_get_digit :: "u64 \<Rightarrow> u64 \<Rightarrow> char" where
  "num_get_digit base rest =
     (if base = 10 then char_of (unat (rest + 48))
      else if rest \<le> 9 then char_of (unat (rest + 48))
      else char_of (unat (rest - 10 + 65)))"

text \<open>
  The loop prepends a digit to the buffer until the value is zero.  It divides by a base of at
  least 2, so the value shrinks; the guard on \<open>base\<close> makes the recursion well founded for the
  arguments the assertion of the caller excludes.
\<close>

function num_get_loop :: "num_t \<Rightarrow> u64 \<Rightarrow> string \<Rightarrow> string" where
  "num_get_loop value base buf =
     (if num_cmp_i value 0 = 0 \<or> base < 2 then buf
      else let (q, rest) = num_div_i value base
           in num_get_loop q base (num_get_digit base rest # buf))"
  by pat_completeness auto
termination
proof (relation "measure (\<lambda>(value, base, buf). nval value)", goal_cases)
  case 1
  then show ?case by simp
next
  case (2 v base buf z q rest)
  have b: "2 \<le> unat base" using "2"(1) by (simp add: word_le_nat_alt not_less)
  then have "nval q = nval v div unat base"
    using num_div_i_val(1) [of base v q rest] "2"(2,3) by simp
  moreover have "0 < nval v" using "2"(1) by (auto simp: num_cmp_i_val split: if_splits)
  ultimately show ?case using b by (simp add: div_less_dividend)
qed

declare num_get_loop.simps [simp del]

definition num_get_str :: "num_t \<Rightarrow> u64 \<Rightarrow> string option" where
  "num_get_str arg base =
     do { assert_that (base = 16 \<or> base = 10);
          if num_cmp_i arg 0 = 0 then Some ''0'' else Some (num_get_loop arg base []) }"

definition num_to_bin :: "num_t \<Rightarrow> bytes" where
  "num_to_bin num = le_bytes 8 (lo num) @ le_bytes 8 (hi num)"

definition num_export :: "num_t \<Rightarrow> num_str_type \<Rightarrow> string option" where
  "num_export num t =
     (case t of
        NUM_FORMAT_DEC \<Rightarrow> num_get_str num 10
      | NUM_FORMAT_PPP_HEX \<Rightarrow>
          Some (concat (map (\<lambda>i. print_02X (num_to_bin num ! i)) [0..<16]))
      | NUM_FORMAT_HEX \<Rightarrow>
          Some (concat (map (\<lambda>i. print_02X (num_to_bin num ! (15 - i))) [0..<16]))
      | NUM_FORMAT_BIN \<Rightarrow> Some (map (\<lambda>b. char_of (unat b)) (num_to_bin num)))"

subsection \<open>Parsing\<close>

fun num_set_dec :: "nat \<Rightarrow> string \<Rightarrow> num_t \<Rightarrow> bool \<Rightarrow> int \<times> num_t" where
  "num_set_dec i [] arg ov = (if i > 39 \<or> i < 1 then 1 else 0, arg)"
| "num_set_dec i (c # str) arg ov =
     (if i < 39
      then if code c < 48 \<or> code c > 57 then (1, arg)
           else let (arg, ov) = num_mul_i_ov arg 10 ov;
                    (arg, ov) = num_add_ov arg (num_i (of_nat (code c - 48))) ov
                in if ov then (1, arg) else num_set_dec (Suc i) str arg ov
      else (1, arg))"

fun num_set_hex :: "nat \<Rightarrow> string \<Rightarrow> num_t \<Rightarrow> int \<times> num_t" where
  "num_set_hex i [] arg = (if i > 32 \<or> i < 1 then 1 else 0, arg)"
| "num_set_hex i (c # str) arg =
     (if i < 32
      then let arg = num_lshift (num_lshift (num_lshift (num_lshift arg)))
           in if 48 \<le> code c \<and> code c \<le> 57
              then num_set_hex (Suc i) str (num_add arg (num_i (of_nat (code c - 48))))
              else if 65 \<le> code c \<and> code c \<le> 70
              then num_set_hex (Suc i) str (num_add arg (num_i (of_nat (10 + code c - 65))))
              else if 97 \<le> code c \<and> code c \<le> 102
              then num_set_hex (Suc i) str (num_add arg (num_i (of_nat (10 + code c - 97))))
              else (1, arg)
      else (1, arg))"

definition num_of_bin :: "bytes \<Rightarrow> num_t" where
  "num_of_bin b = \<lparr>hi = of_nat (le_val (take 8 (drop 8 b))), lo = of_nat (le_val (take 8 b))\<rparr>"

definition num_import :: "string \<Rightarrow> num_str_type \<Rightarrow> int \<times> num_t" where
  "num_import buff t =
     (case t of
        NUM_FORMAT_DEC \<Rightarrow> num_set_dec 0 buff num_zero False
      | NUM_FORMAT_PPP_HEX \<Rightarrow> num_set_hex 0 buff num_zero
      | NUM_FORMAT_HEX \<Rightarrow> num_set_hex 0 buff num_zero
      | NUM_FORMAT_BIN \<Rightarrow> (0, num_of_bin (map (\<lambda>c. of_nat (code c)) buff)))"

subsection \<open>Decimal text\<close>

lemma code_diff_less: "code c - k < 256"
  using code_less [of c] by (simp add: less_imp_diff_less del: code_less)

lemma isdigit_val:
  assumes "isdigit c"
  shows "digit_val c < 10" and "unat (of_nat (code c - 48) :: u64) = digit_val c"
proof -
  show "digit_val c < 10" using assms by (auto simp: isdigit_def digit_val_def hex_val_def)
  have "unat (of_nat (code c - 48) :: u64) = code c - 48"
    by (rule unat_of_nat_lt) (simp add: order.strict_trans2 [OF code_diff_less])
  then show "unat (of_nat (code c - 48) :: u64) = digit_val c"
    using assms by (simp only: digit_val_10)
qed

lemma num_set_dec_step:
  assumes "isdigit c"
  shows "num_set_dec i (c # str) arg False =
    (if i < 39 \<and> nval arg * 10 + digit_val c < 2 ^ 128
     then num_set_dec (Suc i) str (num_of (nval arg * 10 + digit_val c)) False
     else (1, snd (num_set_dec i (c # str) arg False)))"
proof -
  define w :: u64 where "w = of_nat (code c - 48)"
  obtain m o1 where m: "num_mul_i_ov arg 10 False = (m, o1)" by fastforce
  obtain a o2 where a: "num_add_ov m (num_i w) o1 = (a, o2)" by fastforce
  note mv = num_mul_i_ov_val [OF m] and av = num_add_ov_val [OF a]
  have d: "nval (num_i w) = digit_val c"
    using isdigit_val(2) [OF assms] by (simp add: nval_num_ii w_def del: of_nat_diff)
  have o2: "o2 \<longleftrightarrow> \<not> nval arg * 10 + digit_val c < 2 ^ 128"
  proof (cases o1)
    case True
    with mv(2) av(2) show ?thesis by simp
  next
    case False
    with mv have "nval m = nval arg * 10" by simp
    with False d av(2) show ?thesis by (simp add: not_less)
  qed
  have av': "\<not> o2 \<Longrightarrow> a = num_of (nval arg * 10 + digit_val c)"
  proof -
    assume "\<not> o2"
    then have "nval m = nval arg * 10" using mv av(2) by simp
    with \<open>\<not> o2\<close> o2 d av(1) show ?thesis by (intro num_eqI) (simp add: nval_num_of)
  qed
  show ?thesis
    using assms o2 av' by (simp add: m a isdigit_def flip: w_def del: of_nat_diff)
qed

lemma num_set_dec_iff:
  assumes "i \<le> 39"
  shows "num_set_dec i s arg False = (0, n) \<longleftrightarrow>
    (s \<noteq> [] \<or> 1 \<le> i) \<and> i + length s \<le> 39 \<and> list_all isdigit s \<and>
    str_val 10 (nval arg) s < 2 ^ 128 \<and> nval n = str_val 10 (nval arg) s"
  using assms
proof (induction s arbitrary: i arg)
  case Nil
  have "nval arg < 2 ^ 128" by (rule nval_less)
  with Nil show ?case by (auto simp: nval_inject)
next
  case (Cons c s)
  show ?case
  proof (cases "isdigit c")
    case False
    then have "num_set_dec i (c # s) arg False = (1, arg)" by (auto simp: isdigit_def)
    with False show ?thesis by simp
  next
    case True
    let ?v = "nval arg * 10 + digit_val c"
    show ?thesis
    proof (cases "i < 39 \<and> ?v < 2 ^ 128")
      case T: True
      then have "num_set_dec i (c # s) arg False = num_set_dec (Suc i) s (num_of ?v) False"
        using num_set_dec_step [OF True, of i s arg] by simp
      moreover have "nval (num_of ?v) = ?v" using T by (simp only: nval_num_of mod_less)
      ultimately show ?thesis using Cons.IH [of "Suc i" "num_of ?v"] T True by auto
    next
      case F: False
      then have "fst (num_set_dec i (c # s) arg False) = 1"
        using num_set_dec_step [OF True, of i s arg] by (metis fst_conv)
      moreover have "\<not> (i + length (c # s) \<le> 39 \<and> str_val 10 ?v s < 2 ^ 128)"
        using F str_val_ge [of 10 ?v s] by auto
      ultimately show ?thesis using True by (cases "num_set_dec i (c # s) arg False") auto
    qed
  qed
qed

lemma num_import_dec_iff:
  "num_import s NUM_FORMAT_DEC = (0, n) \<longleftrightarrow>
    s \<noteq> [] \<and> length s \<le> 39 \<and> list_all isdigit s \<and> str_val 10 0 s < 2 ^ 128 \<and>
    nval n = str_val 10 0 s"
  using num_set_dec_iff [of 0 s num_zero n] by (simp add: num_import_def nval_num_ii)

lemma num_get_digit_upper:
  assumes "base = 10 \<and> unat rest < 10 \<or> base = 16 \<and> unat rest < 16"
  shows "num_get_digit base rest = upper_digit (unat rest)"
proof -
  have "unat (rest + 48) = unat rest + 48"
    using assms by (intro unat_add_no_wrap [THEN trans]) auto
  moreover have "unat (rest - 10 + 65) = unat rest - 10 + 65" if "\<not> rest \<le> 9"
  proof -
    have "unat (rest - 10) = unat rest - 10"
      using that by (simp add: unat_sub_if word_le_nat_alt)
    then show ?thesis using assms that by (auto simp: unat_add_if word_le_nat_alt)
  qed
  ultimately show ?thesis
    using assms by (auto simp: num_get_digit_def upper_digit_def word_le_nat_alt)
qed

lemma num_get_loop_str:
  assumes "base = 10 \<or> base = 16" and "0 < nval v"
  shows "num_get_loop v base buf = nat_str upper_digit (unat base) (nval v) @ buf"
  using assms
proof (induction v base buf rule: num_get_loop.induct)
  case (1 v base buf)
  obtain q r where qr: "num_div_i v base = (q, r)" by fastforce
  have b: "2 \<le> unat base" "\<not> base < 2" using "1.prems"(1) by (auto simp: word_less_nat_alt)
  then have q: "nval q = nval v div unat base" and r: "unat r = nval v mod unat base"
    using num_div_i_val [OF _ qr] by simp_all
  have nz: "\<not> (num_cmp_i v 0 = 0 \<or> base < 2)" using "1.prems" b by (simp add: num_cmp_i_val)
  have dig: "num_get_digit base r = upper_digit (nval v mod unat base)"
    using "1.prems"(1) r by (subst num_get_digit_upper) auto
  have step: "num_get_loop v base buf = num_get_loop q base (num_get_digit base r # buf)"
    using nz by (subst num_get_loop.simps) (simp add: qr)
  show ?case
  proof (cases "nval v < unat base")
    case True
    then have "num_cmp_i q 0 = 0" using q by (simp add: num_cmp_i_val)
    then have "num_get_loop q base (num_get_digit base r # buf) = num_get_digit base r # buf"
      by (subst num_get_loop.simps) simp
    with True show ?thesis by (subst nat_str.simps) (simp add: step dig)
  next
    case False
    then have "0 < nval q" using q b by (simp add: div_greater_zero_iff)
    then have "num_get_loop q base (num_get_digit base r # buf) =
        nat_str upper_digit (unat base) (nval q) @ num_get_digit base r # buf"
      using "1.IH" [OF nz qr [symmetric] refl "1.prems"(1)] by simp
    with False b show ?thesis by (subst nat_str.simps) (simp add: step dig q)
  qed
qed

lemma num_get_str_val:
  assumes "base = 10 \<or> base = 16"
  shows "num_get_str arg base = Some (nat_str upper_digit (unat base) (nval arg))"
proof (cases "nval arg = 0")
  case True
  have "''0'' = [upper_digit 0]" by (simp add: upper_digit_def char_of_def bit_0)
  with True show ?thesis
    using assms by (subst nat_str.simps) (auto simp: num_get_str_def num_cmp_i_val)
next
  case False
  then show ?thesis
    using assms num_get_loop_str [OF assms, of arg "[]"]
    by (auto simp: num_get_str_def num_cmp_i_val)
qed

lemma num_export_dec: "num_export n NUM_FORMAT_DEC = Some (nat_str upper_digit 10 (nval n))"
  by (simp add: num_export_def num_get_str_val)

lemma dec_str_length: "length (nat_str upper_digit 10 (nval n)) \<le> 39"
  using nat_str_length [of 10 "nval n" 38 upper_digit] nval_less [of n] by simp

lemma num_dec_roundtrip:
  "num_export n NUM_FORMAT_DEC = Some s \<Longrightarrow> num_import s NUM_FORMAT_DEC = (0, n)"
proof -
  have "list_all isdigit (nat_str upper_digit 10 (nval n))"
    by (rule nat_str_digits) (auto simp: digit_in_10 [symmetric])
  moreover have "str_val 10 0 (nat_str upper_digit 10 (nval n)) = nval n"
    by (rule nat_str_val) auto
  moreover assume "num_export n NUM_FORMAT_DEC = Some s"
  ultimately show ?thesis
    using dec_str_length [of n] nval_less [of n]
    by (auto simp: num_import_dec_iff num_export_dec simp del: One_nat_def)
qed

subsection \<open>Hexadecimal text\<close>

lemma num_lshift4:
  assumes "nval n * 16 < 2 ^ 128"
  shows "nval (num_lshift (num_lshift (num_lshift (num_lshift n)))) = nval n * 16"
  using assms by (simp add: nval_lshift)

lemma hex_digit_cases:
  "hex_val c = (if 48 \<le> code c \<and> code c \<le> 57 then Some (code c - 48)
     else if 65 \<le> code c \<and> code c \<le> 70 then Some (10 + code c - 65)
     else if 97 \<le> code c \<and> code c \<le> 102 then Some (10 + code c - 97) else None)"
  by (rule hex_val_def)

lemma num_set_hex_step:
  "num_set_hex i (c # str) arg =
    (let arg' = num_lshift (num_lshift (num_lshift (num_lshift arg)))
     in if i < 32
        then case hex_val c of
               Some d \<Rightarrow> num_set_hex (Suc i) str (num_add arg' (num_i (of_nat d)))
             | None \<Rightarrow> (1, arg')
        else (1, arg))"
  by (auto simp: hex_val_def Let_def simp del: of_nat_diff of_nat_add)

lemma num_set_hex_iff:
  assumes "i \<le> 32" "nval arg < 16 ^ i"
  shows "num_set_hex i s arg = (0, n) \<longleftrightarrow>
    (s \<noteq> [] \<or> 1 \<le> i) \<and> i + length s \<le> 32 \<and> list_all (digit_in 16) s \<and>
    nval n = str_val 16 (nval arg) s"
  using assms
proof (induction s arbitrary: i arg)
  case Nil
  then show ?case by (auto simp: nval_inject)
next
  case (Cons c s)
  show ?case
  proof (cases "i < 32 \<and> digit_in 16 c")
    case False
    then show ?thesis
      using hex_val_bound [of c]
      by (auto simp: num_set_hex_step digit_in_def Let_def split: option.splits simp del: num_set_hex.simps)
  next
    case True
    then obtain d where d: "hex_val c = Some d" "d < 16" "digit_val c = d"
      by (auto simp: digit_in_def digit_val_def split: option.splits)
    let ?a = "num_add (num_lshift (num_lshift (num_lshift (num_lshift arg)))) (num_i (of_nat d))"
    have "nval arg * 16 + 16 \<le> 16 ^ Suc i" using Cons.prems(2) by simp
    moreover have "(16 :: nat) ^ Suc i \<le> 16 ^ 32"
      by (rule power_increasing) (use True in auto)
    ultimately have b: "nval arg * 16 + d < 16 ^ Suc i" "nval arg * 16 + 16 \<le> 2 ^ 128"
      using d(2) by simp_all
    have "unat (of_nat d :: u64) = d" by (rule unat_of_nat_lt) (use d(2) in simp)
    then have v: "nval ?a = nval arg * 16 + d"
      using b(2) d(2) by (simp add: nval_add num_lshift4 nval_num_ii)
    show ?thesis
      using Cons.IH [of "Suc i" ?a] True b(1) v d
      by (simp add: num_set_hex_step Let_def del: num_set_hex.simps)
  qed
qed

lemma num_import_hex_iff:
  "num_import s NUM_FORMAT_HEX = (0, n) \<longleftrightarrow>
    s \<noteq> [] \<and> length s \<le> 32 \<and> list_all (digit_in 16) s \<and> nval n = str_val 16 0 s"
  using num_set_hex_iff [of 0 num_zero s n] by (simp add: num_import_def nval_num_ii)

text \<open>The digits of a byte string, most significant byte first, read as its value.\<close>

definition hex_bytes :: "bytes \<Rightarrow> string" where
  "hex_bytes b = concat (map print_02X b)"

lemma hex_bytes_digits [simp]: "list_all (digit_in 16) (hex_bytes b)"
  by (induction b) (simp_all add: hex_bytes_def print_02X_def byte_hex_digits)

lemma length_hex_bytes [simp]: "length (hex_bytes b) = 2 * length b"
  by (induction b) (simp_all add: hex_bytes_def print_02X_def)

lemma str_val_byte: "str_val 16 v (print_02X b) = v * 256 + unat b"
  using byte_hex_digits(3) [of b] by (simp add: print_02X_def algebra_simps)

lemma str_val_hex_bytes: "str_val 16 v (hex_bytes b) = v * 256 ^ length b + le_val (rev b)"
proof (induction b arbitrary: v)
  case (Cons x b)
  have "str_val 16 v (hex_bytes (x # b)) = str_val 16 (v * 256 + unat x) (hex_bytes b)"
    by (simp add: hex_bytes_def str_val_append str_val_byte)
  then show ?case using Cons by (simp add: le_val_append algebra_simps)
qed (simp add: hex_bytes_def)

lemma length_num_to_bin [simp]: "length (num_to_bin n) = 16"
  by (simp add: num_to_bin_def)

lemma le_val_num_to_bin [simp]: "le_val (num_to_bin n) = nval n"
proof -
  have "unat (lo n) < 2 ^ 64" "unat (hi n) < 2 ^ 64"
    using unat_mask_less [of "lo n"] unat_mask_less [of "hi n"] by simp_all
  then show ?thesis by (simp add: num_to_bin_def le_val_append le_val_le_bytes nval_def)
qed

lemma num_to_bin_inject: "num_to_bin m = num_to_bin n \<longleftrightarrow> m = n"
  by (metis le_val_num_to_bin nval_inject)

lemma num_of_bin_to_bin [simp]: "num_of_bin (num_to_bin n) = n"
  using unat_mask_less [of "lo n"] unat_mask_less [of "hi n"]
  by (simp add: num_of_bin_def num_to_bin_def le_val_le_bytes)

lemma num_to_bin_of_bin: "length b = 16 \<Longrightarrow> num_to_bin (num_of_bin b) = b"
proof -
  assume l: "length b = 16"
  define x y where "x = take 8 b" and "y = drop 8 b"
  have xy: "b = x @ y" "length x = 8" "length y = 8" using l by (simp_all add: x_def y_def)
  have v: "unat (of_nat (le_val z) :: u64) = le_val z" if "length z = 8" for z
    by (rule unat_of_nat_lt) (use le_val_less [of z] that in simp)
  have "le_val (num_to_bin (num_of_bin b)) = le_val b"
    using xy v [of x] v [of y]
    by (simp add: num_of_bin_def nval_def le_val_append)
  then show ?thesis
    using le_val_inject [of "num_to_bin (num_of_bin b)" b] l by (simp only: length_num_to_bin)
qed

lemma num_export_ppp_hex: "num_export n NUM_FORMAT_PPP_HEX = Some (hex_bytes (num_to_bin n))"
proof -
  have "map (\<lambda>i. num_to_bin n ! i) [0..<16] = num_to_bin n"
    by (rule nth_equalityI) simp_all
  then have "map (\<lambda>i. print_02X (num_to_bin n ! i)) [0..<16] = map print_02X (num_to_bin n)"
    by (metis (no_types, lifting) comp_apply map_eq_conv map_map)
  then show ?thesis by (simp only: num_export_def num_str_type.case hex_bytes_def)
qed

lemma num_export_hex: "num_export n NUM_FORMAT_HEX = Some (hex_bytes (rev (num_to_bin n)))"
proof -
  have "map (\<lambda>i. num_to_bin n ! (15 - i)) [0..<16] = rev (num_to_bin n)"
    by (rule nth_equalityI) (simp_all add: rev_nth)
  then have "map (\<lambda>i. print_02X (num_to_bin n ! (15 - i))) [0..<16] = map print_02X (rev (num_to_bin n))"
    by (metis (no_types, lifting) comp_apply map_eq_conv map_map)
  then show ?thesis by (simp only: num_export_def num_str_type.case hex_bytes_def)
qed

lemma num_hex_roundtrip:
  "num_export n NUM_FORMAT_HEX = Some s \<Longrightarrow> num_import s NUM_FORMAT_HEX = (0, n)"
proof -
  have "hex_bytes (rev (num_to_bin n)) \<noteq> []"
    using length_hex_bytes [of "rev (num_to_bin n)"] by (metis length_num_to_bin length_rev
        list.size(3) mult_is_0 zero_neq_numeral)
  moreover assume "num_export n NUM_FORMAT_HEX = Some s"
  ultimately show ?thesis
    by (auto simp: num_export_hex num_import_hex_iff str_val_hex_bytes)
qed

text \<open>
  The PPPv3 text is least significant byte first, but is parsed most significant digit first.
\<close>

lemma num_import_ppp_hex:
  "num_export n NUM_FORMAT_PPP_HEX = Some s \<Longrightarrow>
   num_import s NUM_FORMAT_PPP_HEX = (0, num_of_bin (rev (num_to_bin n)))"
proof -
  assume s: "num_export n NUM_FORMAT_PPP_HEX = Some s"
  have "num_export (num_of_bin (rev (num_to_bin n))) NUM_FORMAT_HEX = Some s"
    using s by (simp add: num_export_hex num_export_ppp_hex num_to_bin_of_bin)
  then show ?thesis using num_hex_roundtrip by (simp add: num_import_def)
qed

lemma num_bin_roundtrip:
  "num_export n NUM_FORMAT_BIN = Some s \<Longrightarrow> num_import s NUM_FORMAT_BIN = (0, n)"
  by (auto simp: num_export_def num_import_def comp_def unat_mask_less [where 'a = 8, simplified])

subsection \<open>The formats as codecs\<close>

definition num_read :: "num_str_type \<Rightarrow> string \<Rightarrow> num_t option" where
  "num_read t s = (case num_import s t of (r, n) \<Rightarrow> if r = 0 then Some n else None)"

lemma num_export_total: "\<exists>s. num_export n t = Some s"
  by (cases t) (auto simp: num_export_dec num_export_hex num_export_ppp_hex, simp add: num_export_def)

interpretation num_dec: codec "\<lambda>n. num_export n NUM_FORMAT_DEC" "num_read NUM_FORMAT_DEC" "\<lambda>_. True"
  by unfold_locales (simp_all add: num_export_total num_read_def num_dec_roundtrip)

interpretation num_hex: codec "\<lambda>n. num_export n NUM_FORMAT_HEX" "num_read NUM_FORMAT_HEX" "\<lambda>_. True"
  by unfold_locales (simp_all add: num_export_total num_read_def num_hex_roundtrip)

interpretation num_bin: codec "\<lambda>n. num_export n NUM_FORMAT_BIN" "num_read NUM_FORMAT_BIN" "\<lambda>_. True"
  by unfold_locales (simp_all add: num_export_total num_read_def num_bin_roundtrip)

subsection \<open>Properties\<close>

text \<open>
  C16: in the decimal, hexadecimal and binary formats every 128 bit number is exported, and
  importing the exported text gives the number back with return code 0.
\<close>

theorem num_text_roundtrip:
  "Option.bind (num_export n NUM_FORMAT_DEC) (num_read NUM_FORMAT_DEC) = Some n \<and>
   Option.bind (num_export n NUM_FORMAT_HEX) (num_read NUM_FORMAT_HEX) = Some n \<and>
   Option.bind (num_export n NUM_FORMAT_BIN) (num_read NUM_FORMAT_BIN) = Some n"
  by (simp add: num_dec.roundtrip num_hex.roundtrip num_bin.roundtrip)

text \<open>
  C17: the decimal parser accepts exactly the nonempty texts of at most 39 digits whose value is
  below \<open>2 ^ 128\<close>, and gives that value: no overflow goes unnoticed.
\<close>

theorem num_import_dec_exact:
  "num_import s NUM_FORMAT_DEC = (0, n) \<longleftrightarrow>
    s \<noteq> [] \<and> length s \<le> 39 \<and> list_all isdigit s \<and> str_val 10 0 s < 2 ^ 128 \<and>
    nval n = str_val 10 0 s"
  by (rule num_import_dec_iff)

text \<open>
  The text of the PPPv3 tools is written least significant byte first but read most
  significant digit first, so importing an exported number reverses its sixteen bytes.
\<close>

theorem num_ppp_hex_reversed:
  "map_option (\<lambda>s. num_import s NUM_FORMAT_PPP_HEX) (num_export n NUM_FORMAT_PPP_HEX) =
   Some (0, num_of_bin (rev (num_to_bin n)))"
  using num_import_ppp_hex [of n] by (simp add: num_export_ppp_hex)

end
