(* ===== verification/Sha256.thy ===== *)
theory Sha256
  imports Libc
begin

text \<open>
  \<open>src/src/crypto/coreutils_sha256.c\<close>: the context, the block function with its sixteen-word
  message window and the registers that change roles from round to round, buffered input,
  padding and the digest.  A context buffer is the 128 bytes of \<open>uint32_t buffer[32]\<close>.
  The flag \<open>unal\<close> says that the input pointer is not aligned on four bytes, where the code
  takes its other copying loop.
\<close>

record sha256_ctx =
  sha_state :: "u32 list"
  sha_total0 :: u32
  sha_total1 :: u32
  sha_buflen :: nat
  sha_buffer :: bytes

definition SWAP :: "u32 \<Rightarrow> u32" where
  "SWAP n = push_bit 24 n OR push_bit 8 (n AND 0xff00) OR (drop_bit 8 n AND 0xff00) OR drop_bit 24 n"

definition sha256_init_ctx :: "bytes \<Rightarrow> sha256_ctx" where
  "sha256_init_ctx buf =
     \<lparr>sha_state = [0x6a09e667, 0xbb67ae85, 0x3c6ef372, 0xa54ff53a,
                   0x510e527f, 0x9b05688c, 0x1f83d9ab, 0x5be0cd19],
      sha_total0 = 0, sha_total1 = 0, sha_buflen = 0, sha_buffer = buf\<rparr>"

text \<open>A 32 bit word in the memory of a little-endian machine.\<close>

definition set_uint32 :: "u32 \<Rightarrow> bytes" where
  "set_uint32 v = le_bytes 4 (ucast v)"

definition get_uint32 :: "bytes \<Rightarrow> nat \<Rightarrow> u32" where
  "get_uint32 b i = of_nat (le_val (take 4 (drop (4 * i) b)))"

definition memcpy_at :: "'a list \<Rightarrow> nat \<Rightarrow> 'a list \<Rightarrow> 'a list" where
  "memcpy_at dst pos src = take pos dst @ src @ drop (pos + length src) dst"

definition sha256_read_ctx :: "sha256_ctx \<Rightarrow> bytes" where
  "sha256_read_ctx ctx = concat (map (\<lambda>w. set_uint32 (SWAP w)) (sha_state ctx))"

definition sha256_round_constants :: "u32 list" where
  "sha256_round_constants =
    [0x428A2F98, 0x71374491, 0xB5C0FBCF, 0xE9B5DBA5, 0x3956C25B, 0x59F111F1, 0x923F82A4, 0xAB1C5ED5,
     0xD807AA98, 0x12835B01, 0x243185BE, 0x550C7DC3, 0x72BE5D74, 0x80DEB1FE, 0x9BDC06A7, 0xC19BF174,
     0xE49B69C1, 0xEFBE4786, 0x0FC19DC6, 0x240CA1CC, 0x2DE92C6F, 0x4A7484AA, 0x5CB0A9DC, 0x76F988DA,
     0x983E5152, 0xA831C66D, 0xB00327C8, 0xBF597FC7, 0xC6E00BF3, 0xD5A79147, 0x06CA6351, 0x14292967,
     0x27B70A85, 0x2E1B2138, 0x4D2C6DFC, 0x53380D13, 0x650A7354, 0x766A0ABB, 0x81C2C92E, 0x92722C85,
     0xA2BFE8A1, 0xA81A664B, 0xC24B8B70, 0xC76C51A3, 0xD192E819, 0xD6990624, 0xF40E3585, 0x106AA070,
     0x19A4C116, 0x1E376C08, 0x2748774C, 0x34B0BCB5, 0x391C0CB3, 0x4ED8AA4A, 0x5B9CCA4F, 0x682E6FF3,
     0x748F82EE, 0x78A5636F, 0x84C87814, 0x8CC70208, 0x90BEFFFA, 0xA4506CEB, 0xBEF9A3F7, 0xC67178F2]"

subsection \<open>The round functions\<close>

definition F2 :: "u32 \<Rightarrow> u32 \<Rightarrow> u32 \<Rightarrow> u32" where
  "F2 a b c = (a AND b) OR (c AND (a OR b))"

definition F1 :: "u32 \<Rightarrow> u32 \<Rightarrow> u32 \<Rightarrow> u32" where
  "F1 e f g = g XOR (e AND (f XOR g))"

definition rol :: "u32 \<Rightarrow> nat \<Rightarrow> u32" where
  "rol x n = push_bit n x OR drop_bit (32 - n) x"

definition S0 :: "u32 \<Rightarrow> u32" where
  "S0 x = rol x 25 XOR rol x 14 XOR drop_bit 3 x"

definition S1 :: "u32 \<Rightarrow> u32" where
  "S1 x = rol x 15 XOR rol x 13 XOR drop_bit 10 x"

definition SS0 :: "u32 \<Rightarrow> u32" where
  "SS0 x = rol x 30 XOR rol x 19 XOR rol x 10"

definition SS1 :: "u32 \<Rightarrow> u32" where
  "SS1 x = rol x 26 XOR rol x 21 XOR rol x 7"

definition sha256_M :: "nat \<Rightarrow> u32 list \<Rightarrow> u32 \<times> u32 list" where
  "sha256_M i x =
     (let tm = S1 (x ! ((i - 2) mod 16)) + x ! ((i - 7) mod 16) + S0 (x ! ((i - 15) mod 16)) + x ! (i mod 16)
      in (tm, x[i mod 16 := tm]))"

text \<open>
  \<open>R(A, .., H, K, M)\<close>: in round \<open>t\<close> the role \<open>A\<close> is played by the variable \<open>- t mod 8\<close> of
  \<open>a, .., h\<close>, role \<open>B\<close> by the next one, and so on.
\<close>

definition sha256_R :: "nat \<Rightarrow> u32 \<Rightarrow> u32 \<Rightarrow> u32 list \<Rightarrow> u32 list" where
  "sha256_R t k m r =
     (let role = (\<lambda>j. (j + 7 * t) mod 8);
          t0 = SS0 (r ! role 0) + F2 (r ! role 0) (r ! role 1) (r ! role 2);
          t1 = r ! role 7 + SS1 (r ! role 4) + F1 (r ! role 4) (r ! role 5) (r ! role 6) + k + m
      in r[role 3 := r ! role 3 + t1, role 7 := t0 + t1])"

definition sha256_step :: "nat \<Rightarrow> u32 list \<times> u32 list \<Rightarrow> u32 list \<times> u32 list" where
  "sha256_step t rx =
     (let (r, x) = rx;
          (m, x) = (if t < 16 then (x ! t, x) else sha256_M t x)
      in (sha256_R t (sha256_round_constants ! t) m r, x))"

definition sha256_one_block :: "bytes \<Rightarrow> u32 list \<Rightarrow> u32 list" where
  "sha256_one_block b st =
     (let x = map (\<lambda>t. SWAP (get_uint32 b t)) [0..<16]
      in map2 (+) st (fst (fold sha256_step [0..<64] (st, x))))"

function sha256_blocks :: "bytes \<Rightarrow> u32 list \<Rightarrow> u32 list" where
  "sha256_blocks b st =
     (if length b < 64 then st else sha256_blocks (drop 64 b) (sha256_one_block b st))"
  by pat_completeness auto
termination by (relation "measure (\<lambda>(b, st). length b)") auto

declare sha256_blocks.simps [simp del]

definition sha256_add_total :: "nat \<Rightarrow> sha256_ctx \<Rightarrow> sha256_ctx" where
  "sha256_add_total len ctx =
     (let t0 = sha_total0 ctx + of_nat len
      in ctx\<lparr>sha_total0 := t0, sha_total1 := (if unat t0 < len then sha_total1 ctx + 1 else sha_total1 ctx)\<rparr>)"

definition sha256_process_block :: "bytes \<Rightarrow> nat \<Rightarrow> sha256_ctx \<Rightarrow> sha256_ctx" where
  "sha256_process_block buffer len ctx =
     (let ctx = sha256_add_total len ctx
      in ctx\<lparr>sha_state := sha256_blocks (take len buffer) (sha_state ctx)\<rparr>)"

subsection \<open>Buffered input and the digest\<close>

function sha256_unaligned_loop :: "bytes \<Rightarrow> sha256_ctx \<Rightarrow> bytes \<times> sha256_ctx" where
  "sha256_unaligned_loop buffer ctx =
     (if length buffer > 64
      then let ctx = ctx\<lparr>sha_buffer := memcpy_at (sha_buffer ctx) 0 (take 64 buffer)\<rparr>
           in sha256_unaligned_loop (drop 64 buffer) (sha256_process_block (sha_buffer ctx) 64 ctx)
      else (buffer, ctx))"
  by pat_completeness auto
termination by (relation "measure (\<lambda>(b, ctx). length b)") auto

declare sha256_unaligned_loop.simps [simp del]

definition sha256_process_bytes :: "bool \<Rightarrow> bytes \<Rightarrow> sha256_ctx \<Rightarrow> sha256_ctx" where
  "sha256_process_bytes unal buffer ctx =
     (let (buffer, ctx) =
        (if sha_buflen ctx \<noteq> 0
         then let left_over = sha_buflen ctx;
                  add = (if 128 - left_over > length buffer then length buffer else 128 - left_over);
                  ctx = ctx\<lparr>sha_buffer := memcpy_at (sha_buffer ctx) left_over (take add buffer),
                            sha_buflen := left_over + add\<rparr>;
                  ctx = (if sha_buflen ctx > 64
                         then let ctx = sha256_process_block (sha_buffer ctx) (sha_buflen ctx div 64 * 64) ctx;
                                  n = sha_buflen ctx mod 64
                              in ctx\<lparr>sha_buflen := n,
                                     sha_buffer := memcpy_at (sha_buffer ctx) 0
                                       (take n (drop ((left_over + add) div 64 * 64) (sha_buffer ctx)))\<rparr>
                         else ctx)
              in (drop add buffer, ctx)
         else (buffer, ctx));
          (buffer, ctx) =
        (if length buffer \<ge> 64
         then if unal then sha256_unaligned_loop buffer ctx
              else (drop (length buffer div 64 * 64) buffer,
                    sha256_process_block buffer (length buffer div 64 * 64) ctx)
         else (buffer, ctx))
      in if length buffer > 0
         then let left_over = sha_buflen ctx;
                  ctx = ctx\<lparr>sha_buffer := memcpy_at (sha_buffer ctx) left_over buffer\<rparr>;
                  left_over = left_over + length buffer
              in if left_over \<ge> 64
                 then let ctx = sha256_process_block (sha_buffer ctx) 64 ctx;
                          left_over = left_over - 64
                      in ctx\<lparr>sha_buffer := memcpy_at (sha_buffer ctx) 0 (take left_over (drop 64 (sha_buffer ctx))),
                             sha_buflen := left_over\<rparr>
                 else ctx\<lparr>sha_buflen := left_over\<rparr>
         else ctx)"

definition fillbuf :: bytes where
  "fillbuf = 0x80 # replicate 63 0"

definition sha256_conclude_ctx :: "sha256_ctx \<Rightarrow> sha256_ctx" where
  "sha256_conclude_ctx ctx =
     (let bytes = sha_buflen ctx;
          size = (if bytes < 56 then 64 div 4 else 64 * 2 div 4);
          ctx = sha256_add_total bytes ctx;
          buf = memcpy_at (sha_buffer ctx) (4 * (size - 2))
                  (set_uint32 (SWAP (push_bit 3 (sha_total1 ctx) OR drop_bit 29 (sha_total0 ctx))));
          buf = memcpy_at buf (4 * (size - 1)) (set_uint32 (SWAP (push_bit 3 (sha_total0 ctx))));
          buf = memcpy_at buf bytes (take ((size - 2) * 4 - bytes) fillbuf)
      in sha256_process_block buf (size * 4) (ctx\<lparr>sha_buffer := buf\<rparr>))"

definition sha256_finish_ctx :: "sha256_ctx \<Rightarrow> bytes" where
  "sha256_finish_ctx ctx = sha256_read_ctx (sha256_conclude_ctx ctx)"

text \<open>The stack memory the context is allocated in has unknown contents \<open>garbage\<close>.\<close>

definition sha256_buffer :: "bool \<Rightarrow> bytes \<Rightarrow> bytes \<Rightarrow> bytes" where
  "sha256_buffer unal garbage data =
     sha256_finish_ctx (sha256_process_bytes unal data (sha256_init_ctx garbage))"

end
