(* ===== verification/Aes.thy ===== *)
theory Aes
  imports Libc
begin

text \<open>
  \<open>src/src/crypto/polarssl_aes.c\<close> as the build compiles it (tables generated at run time): the
  tables, the key schedules and the ECB block function.  \<open>unsigned long\<close> is a 64 bit word and
  the round-key cursor \<open>RK\<close> is the list of the round keys that remain.
\<close>

subsection \<open>Tables\<close>

definition XTIME :: "u32 \<Rightarrow> u32" where
  "XTIME x = push_bit 1 x XOR (if x AND 0x80 \<noteq> 0 then 0x1B else 0)"

definition ROTL8 :: "u64 \<Rightarrow> u64" where
  "ROTL8 x = (push_bit 8 x AND 0xFFFFFFFF) OR drop_bit 24 x"

definition aes_pow_log :: "nat list \<times> nat list" where
  "aes_pow_log =
     (let (p, l, x) = fold (\<lambda>i (p, l, x).
            (p[i := unat x], l[unat x := i], (x XOR XTIME x) AND 0xFF))
            [0..<256] (replicate 256 0, replicate 256 0, 1 :: u32)
      in (p, l))"

definition aes_pow :: "nat list" where
  "aes_pow = fst aes_pow_log"

definition aes_log :: "nat list" where
  "aes_log = snd aes_pow_log"

definition aes_MUL :: "nat list \<times> nat list \<Rightarrow> nat \<Rightarrow> nat \<Rightarrow> nat" where
  "aes_MUL pl x y = (if x \<noteq> 0 \<and> y \<noteq> 0 then fst pl ! ((snd pl ! x + snd pl ! y) mod 255) else 0)"

definition aes_RCON :: "u64 list" where
  "aes_RCON = fst (fold (\<lambda>i (r, x). (r[i := ucast x], XTIME x AND 0xFF)) [0..<10] (replicate 10 0, 1 :: u32))"

definition aes_rot1 :: "u32 \<Rightarrow> u32" where
  "aes_rot1 y = (push_bit 1 y OR drop_bit 7 y) AND 0xFF"

definition aes_sbox_val :: "u32 \<Rightarrow> u32" where
  "aes_sbox_val x =
     (let y = aes_rot1 x; x = x XOR y; y = aes_rot1 y; x = x XOR y; y = aes_rot1 y; x = x XOR y;
          y = aes_rot1 y
      in x XOR (y XOR 0x63))"

definition aes_boxes :: "u8 list \<times> u8 list" where
  "aes_boxes =
     (let pl = aes_pow_log
      in fold (\<lambda>i (f, r).
           let x = aes_sbox_val (of_nat (fst pl ! (255 - snd pl ! i)))
           in (f[i := ucast x], r[unat x := of_nat i]))
         [1..<256] ((replicate 256 0)[0 := 0x63], (replicate 256 0)[0x63 := 0]))"

definition aes_FSb :: "u8 list" where
  "aes_FSb = fst aes_boxes"

definition aes_RSb :: "u8 list" where
  "aes_RSb = snd aes_boxes"

definition aes_FT0 :: "u64 list" where
  "aes_FT0 = map (\<lambda>b :: u8. let x = (ucast b :: u32); y = XTIME x AND 0xFF; z = (y XOR x) AND 0xFF
                in ucast y XOR push_bit 8 (ucast x) XOR push_bit 16 (ucast x) XOR push_bit 24 (ucast z))
              aes_FSb"

definition aes_FT1 :: "u64 list" where
  "aes_FT1 = map ROTL8 aes_FT0"

definition aes_FT2 :: "u64 list" where
  "aes_FT2 = map ROTL8 aes_FT1"

definition aes_FT3 :: "u64 list" where
  "aes_FT3 = map ROTL8 aes_FT2"

definition aes_RT0 :: "u64 list" where
  "aes_RT0 = (let pl = aes_pow_log in
     map (\<lambda>b :: u8. let x = unat b
        in of_nat (aes_MUL pl 0x0E x) XOR push_bit 8 (of_nat (aes_MUL pl 0x09 x)) XOR
           push_bit 16 (of_nat (aes_MUL pl 0x0D x)) XOR push_bit 24 (of_nat (aes_MUL pl 0x0B x))) aes_RSb)"

definition aes_RT1 :: "u64 list" where
  "aes_RT1 = map ROTL8 aes_RT0"

definition aes_RT2 :: "u64 list" where
  "aes_RT2 = map ROTL8 aes_RT1"

definition aes_RT3 :: "u64 list" where
  "aes_RT3 = map ROTL8 aes_RT2"

definition byte_at :: "u64 \<Rightarrow> nat \<Rightarrow> nat" where
  "byte_at w k = unat (drop_bit k w AND 0xFF)"

definition aes_tab :: "'a::len word list \<Rightarrow> u64 \<Rightarrow> nat \<Rightarrow> u64" where
  "aes_tab tab w k = ucast (tab ! byte_at w k)"

subsection \<open>Key schedules\<close>

record aes_context =
  aes_nr :: nat
  aes_rk :: "u64 list"

definition get_ulong_le :: "bytes \<Rightarrow> nat \<Rightarrow> u64" where
  "get_ulong_le b i = ucast (b ! i) OR push_bit 8 (ucast (b ! (i + 1))) OR
     push_bit 16 (ucast (b ! (i + 2))) OR push_bit 24 (ucast (b ! (i + 3)))"

definition put_ulong_le :: "u64 \<Rightarrow> bytes" where
  "put_ulong_le n = [ucast n, ucast (drop_bit 8 n), ucast (drop_bit 16 n), ucast (drop_bit 24 n)]"

definition rot_sub :: "u8 list \<Rightarrow> u64 \<Rightarrow> u64" where
  "rot_sub sb w = aes_tab sb w 8 XOR push_bit 8 (aes_tab sb w 16) XOR
     push_bit 16 (aes_tab sb w 24) XOR push_bit 24 (aes_tab sb w 0)"

definition sub_word :: "u8 list \<Rightarrow> u64 \<Rightarrow> u64" where
  "sub_word sb w = aes_tab sb w 0 XOR push_bit 8 (aes_tab sb w 8) XOR
     push_bit 16 (aes_tab sb w 16) XOR push_bit 24 (aes_tab sb w 24)"

text \<open>One pass of the schedule for 256 bit keys; the last eight words give the next eight.\<close>

definition aes_expand_256 :: "nat \<Rightarrow> u64 list \<Rightarrow> u64 list" where
  "aes_expand_256 i rk =
     (let k = 8 * i;
          r8 = rk ! k XOR aes_RCON ! i XOR rot_sub aes_FSb (rk ! (k + 7));
          r9 = rk ! (k + 1) XOR r8;
          r10 = rk ! (k + 2) XOR r9;
          r11 = rk ! (k + 3) XOR r10;
          r12 = rk ! (k + 4) XOR sub_word aes_FSb r11;
          r13 = rk ! (k + 5) XOR r12;
          r14 = rk ! (k + 6) XOR r13;
          r15 = rk ! (k + 7) XOR r14
      in rk @ [r8, r9, r10, r11, r12, r13, r14, r15])"

definition aes_expand_192 :: "nat \<Rightarrow> u64 list \<Rightarrow> u64 list" where
  "aes_expand_192 i rk =
     (let k = 6 * i;
          r6 = rk ! k XOR aes_RCON ! i XOR rot_sub aes_FSb (rk ! (k + 5));
          r7 = rk ! (k + 1) XOR r6;
          r8 = rk ! (k + 2) XOR r7;
          r9 = rk ! (k + 3) XOR r8;
          r10 = rk ! (k + 4) XOR r9;
          r11 = rk ! (k + 5) XOR r10
      in rk @ [r6, r7, r8, r9, r10, r11])"

definition aes_expand_128 :: "nat \<Rightarrow> u64 list \<Rightarrow> u64 list" where
  "aes_expand_128 i rk =
     (let k = 4 * i;
          r4 = rk ! k XOR aes_RCON ! i XOR rot_sub aes_FSb (rk ! (k + 3));
          r5 = rk ! (k + 1) XOR r4;
          r6 = rk ! (k + 2) XOR r5;
          r7 = rk ! (k + 3) XOR r6
      in rk @ [r4, r5, r6, r7])"

definition aes_setkey_enc :: "bytes \<Rightarrow> nat \<Rightarrow> aes_context option" where
  "aes_setkey_enc key keysize =
     (let rk = map (\<lambda>i. get_ulong_le key (4 * i)) [0..<keysize div 32]
      in if keysize = 128 then Some \<lparr>aes_nr = 10, aes_rk = fold aes_expand_128 [0..<10] rk\<rparr>
         else if keysize = 192 then Some \<lparr>aes_nr = 12, aes_rk = fold aes_expand_192 [0..<8] rk\<rparr>
         else if keysize = 256 then Some \<lparr>aes_nr = 14, aes_rk = fold aes_expand_256 [0..<7] rk\<rparr>
         else None)"

definition inv_mix_word :: "u64 \<Rightarrow> u64" where
  "inv_mix_word w =
     (let sub = (\<lambda>k. unat (aes_FSb ! byte_at w k))
      in aes_RT0 ! sub 0 XOR aes_RT1 ! sub 8 XOR aes_RT2 ! sub 16 XOR aes_RT3 ! sub 24)"

definition aes_setkey_dec :: "bytes \<Rightarrow> nat \<Rightarrow> aes_context option" where
  "aes_setkey_dec key keysize =
     map_option (\<lambda>cty.
       let sk = aes_rk cty; nr = aes_nr cty
       in cty\<lparr>aes_rk :=
            take 4 (drop (4 * nr) sk) @
            concat (map (\<lambda>i. map inv_mix_word (take 4 (drop (4 * i) sk))) (rev [1..<nr])) @
            take 4 sk\<rparr>)
       (aes_setkey_enc key keysize)"

subsection \<open>The block function\<close>

type_synonym aes_block = "u64 \<times> u64 \<times> u64 \<times> u64"

definition aes_FROUND :: "u64 list \<Rightarrow> aes_block \<Rightarrow> aes_block" where
  "aes_FROUND rk y =
     (case y of (y0, y1, y2, y3) \<Rightarrow>
        (rk ! 0 XOR aes_tab aes_FT0 y0 0 XOR aes_tab aes_FT1 y1 8 XOR aes_tab aes_FT2 y2 16 XOR aes_tab aes_FT3 y3 24,
         rk ! 1 XOR aes_tab aes_FT0 y1 0 XOR aes_tab aes_FT1 y2 8 XOR aes_tab aes_FT2 y3 16 XOR aes_tab aes_FT3 y0 24,
         rk ! 2 XOR aes_tab aes_FT0 y2 0 XOR aes_tab aes_FT1 y3 8 XOR aes_tab aes_FT2 y0 16 XOR aes_tab aes_FT3 y1 24,
         rk ! 3 XOR aes_tab aes_FT0 y3 0 XOR aes_tab aes_FT1 y0 8 XOR aes_tab aes_FT2 y1 16 XOR aes_tab aes_FT3 y2 24))"

definition aes_RROUND :: "u64 list \<Rightarrow> aes_block \<Rightarrow> aes_block" where
  "aes_RROUND rk y =
     (case y of (y0, y1, y2, y3) \<Rightarrow>
        (rk ! 0 XOR aes_tab aes_RT0 y0 0 XOR aes_tab aes_RT1 y3 8 XOR aes_tab aes_RT2 y2 16 XOR aes_tab aes_RT3 y1 24,
         rk ! 1 XOR aes_tab aes_RT0 y1 0 XOR aes_tab aes_RT1 y0 8 XOR aes_tab aes_RT2 y3 16 XOR aes_tab aes_RT3 y2 24,
         rk ! 2 XOR aes_tab aes_RT0 y2 0 XOR aes_tab aes_RT1 y1 8 XOR aes_tab aes_RT2 y0 16 XOR aes_tab aes_RT3 y3 24,
         rk ! 3 XOR aes_tab aes_RT0 y3 0 XOR aes_tab aes_RT1 y2 8 XOR aes_tab aes_RT2 y1 16 XOR aes_tab aes_RT3 y0 24))"

definition aes_FLAST :: "u64 list \<Rightarrow> aes_block \<Rightarrow> aes_block" where
  "aes_FLAST rk y =
     (case y of (y0, y1, y2, y3) \<Rightarrow>
        let S = (\<lambda>a b c d. aes_tab aes_FSb a 0 XOR push_bit 8 (aes_tab aes_FSb b 8) XOR
                   push_bit 16 (aes_tab aes_FSb c 16) XOR push_bit 24 (aes_tab aes_FSb d 24))
        in (rk ! 0 XOR S y0 y1 y2 y3, rk ! 1 XOR S y1 y2 y3 y0,
            rk ! 2 XOR S y2 y3 y0 y1, rk ! 3 XOR S y3 y0 y1 y2))"

definition aes_RLAST :: "u64 list \<Rightarrow> aes_block \<Rightarrow> aes_block" where
  "aes_RLAST rk y =
     (case y of (y0, y1, y2, y3) \<Rightarrow>
        let S = (\<lambda>a b c d. aes_tab aes_RSb a 0 XOR push_bit 8 (aes_tab aes_RSb b 8) XOR
                   push_bit 16 (aes_tab aes_RSb c 16) XOR push_bit 24 (aes_tab aes_RSb d 24))
        in (rk ! 0 XOR S y0 y3 y2 y1, rk ! 1 XOR S y1 y0 y3 y2,
            rk ! 2 XOR S y2 y1 y0 y3, rk ! 3 XOR S y3 y2 y1 y0))"

text \<open>
  The rounds before the last one: \<open>nr/2 - 1\<close> double rounds and one single round, each of which
  takes the next four round keys.
\<close>

fun aes_rounds :: "(u64 list \<Rightarrow> aes_block \<Rightarrow> aes_block) \<Rightarrow> nat \<Rightarrow> u64 list \<Rightarrow> aes_block \<Rightarrow> u64 list \<times> aes_block" where
  "aes_rounds rnd 0 rk x = (rk, x)"
| "aes_rounds rnd (Suc n) rk x = aes_rounds rnd n (drop 4 rk) (rnd rk x)"

datatype aes_mode = AES_ENCRYPT | AES_DECRYPT

definition aes_crypt_ecb :: "aes_context \<Rightarrow> aes_mode \<Rightarrow> bytes \<Rightarrow> bytes" where
  "aes_crypt_ecb ctx mode input =
     (let rk = aes_rk ctx;
          x = (get_ulong_le input 0 XOR rk ! 0, get_ulong_le input 4 XOR rk ! 1,
               get_ulong_le input 8 XOR rk ! 2, get_ulong_le input 12 XOR rk ! 3);
          n = 2 * (aes_nr ctx div 2 - 1) + 1;
          (x0, x1, x2, x3) =
            (case mode of
               AES_DECRYPT \<Rightarrow> let (rk, y) = aes_rounds aes_RROUND n (drop 4 rk) x in aes_RLAST rk y
             | AES_ENCRYPT \<Rightarrow> let (rk, y) = aes_rounds aes_FROUND n (drop 4 rk) x in aes_FLAST rk y)
      in put_ulong_le x0 @ put_ulong_le x1 @ put_ulong_le x2 @ put_ulong_le x3)"

end
