(* ===== verification/Crypto.thy ===== *)
theory Crypto
  imports Os Num_Conv Sha256 Aes
begin

text \<open>
  \<open>src/src/common/crypto.c\<close> in its default configuration (the AES of PolarSSL and the SHA-256
  of coreutils): enciphering one block, hashing, salted hashes, random data and the
  hexadecimal text of keys.  The functions give their return code, the contents of their
  output buffer and the world after the call.
\<close>

subsection \<open>Primitives\<close>

definition crypto_aes_encrypt :: "bytes \<Rightarrow> bytes \<Rightarrow> bytes" where
  "crypto_aes_encrypt key plain =
     (case aes_setkey_enc key 256 of
        Some ctx \<Rightarrow> aes_crypt_ecb ctx AES_ENCRYPT plain
      | None \<Rightarrow> [])"

definition crypto_aes_decrypt :: "bytes \<Rightarrow> bytes \<Rightarrow> bytes" where
  "crypto_aes_decrypt key encrypted =
     (case aes_setkey_dec key 256 of
        Some ctx \<Rightarrow> aes_crypt_ecb ctx AES_DECRYPT encrypted
      | None \<Rightarrow> [])"

definition crypto_sha256 :: "bytes \<Rightarrow> bytes" where
  "crypto_sha256 data = sha256_buffer False (replicate 128 0) data"

definition fgetc_bytes :: "nat \<Rightarrow> bytes \<Rightarrow> bytes" where
  "fgetc_bytes count bs = take count (bs @ replicate count 255)"

definition crypto_file_rng :: "string \<Rightarrow> nat \<Rightarrow> world \<Rightarrow> bytes option \<times> world" where
  "crypto_file_rng device count w =
     (let (bad, w) = fault w
      in if bad then (None, w)
         else case w_devs w device of
           None \<Rightarrow> (None, w)
         | Some bs \<Rightarrow> (Some (fgetc_bytes count bs), w\<lparr>w_devs := (w_devs w)(device \<mapsto> drop count bs)\<rparr>))"

subsection \<open>Salted hashes\<close>

definition crypto_salted_sha256 :: "bytes \<Rightarrow> bytes \<Rightarrow> world \<Rightarrow> int \<times> bytes \<times> world" where
  "crypto_salted_sha256 data salted_hash w =
     (let (nomem, w) = fault w
      in if nomem then (1, salted_hash, w)
         else case crypto_file_rng ''/dev/urandom'' 8 w of
           (None, w) \<Rightarrow> (2, salted_hash, w)
         | (Some slt, w) \<Rightarrow> (0, slt @ crypto_sha256 (slt @ data), w))"

definition crypto_verify_salted_sha256 :: "bytes \<Rightarrow> bytes \<Rightarrow> world \<Rightarrow> int \<times> world" where
  "crypto_verify_salted_sha256 salted_hash data w =
     (if length data = 0 then (1, w)
      else let (nomem, w) = fault w
           in if nomem then (1, w)
              else let slt = take 8 salted_hash;
                       salted_hash_new = slt @ crypto_sha256 (slt @ data)
                   in (if salted_hash_new = take 40 salted_hash then 0 else 1, w))"

subsection \<open>Hexadecimal text\<close>

definition crypto_binary_to_hex :: "bytes \<Rightarrow> int \<times> string" where
  "crypto_binary_to_hex binary = (0, concat (map print_02X binary))"

fun hex_to_binary_loop :: "nat \<Rightarrow> nat \<Rightarrow> string \<Rightarrow> u8 \<Rightarrow> bytes \<Rightarrow> int \<times> bytes" where
  "hex_to_binary_loop i n [] byte binary = (if i \<noteq> n then 1 else 0, binary)"
| "hex_to_binary_loop i n (c # hex) byte binary =
     (if i < n
      then case (if 48 \<le> code c \<and> code c \<le> 57 then Some (byte OR of_nat (code c - 48))
                 else if 65 \<le> code c \<and> code c \<le> 70 then Some (byte OR of_nat (10 + code c - 65))
                 else if 97 \<le> code c \<and> code c \<le> 102 then Some (byte OR of_nat (10 + code c - 97))
                 else None) of
             None \<Rightarrow> (1, binary)
           | Some byte \<Rightarrow>
               if i mod 2 = 0 then hex_to_binary_loop (Suc i) n hex (push_bit 4 byte) binary
               else hex_to_binary_loop (Suc i) n hex 0 (binary[i div 2 := byte])
      else (if i \<noteq> n then 1 else 0, binary))"

definition crypto_hex_to_binary :: "string \<Rightarrow> nat \<Rightarrow> bytes \<Rightarrow> (int \<times> bytes) option" where
  "crypto_hex_to_binary hex n binary =
     do { assert_that (n mod 2 = 0); Some (hex_to_binary_loop 0 n hex 0 binary) }"

lemma crypto_binary_to_hex_val [simp]: "crypto_binary_to_hex b = (0, hex_bytes b)"
  by (simp add: crypto_binary_to_hex_def hex_bytes_def)

lemma hex_to_binary_loop_hex_val:
  "hex_to_binary_loop i n (c # hex) byte binary =
     (if i < n
      then case hex_val c of
             None \<Rightarrow> (1, binary)
           | Some d \<Rightarrow>
               if i mod 2 = 0 then hex_to_binary_loop (Suc i) n hex (push_bit 4 (byte OR of_nat d)) binary
               else hex_to_binary_loop (Suc i) n hex 0 (binary[i div 2 := byte OR of_nat d])
      else (if i \<noteq> n then 1 else 0, binary))"
  by (simp add: hex_val_def del: of_nat_diff of_nat_add)

lemma nibbles: "push_bit 4 (of_nat (unat b div 16)) OR of_nat (unat b mod 16) = (b :: u8)"
proof -
  have l: "unat b div 16 < 256" "unat b mod 16 < 256"
    using unat_mask_less [of b] by (simp_all add: less_mult_imp_div_less mod_less_divisor [THEN less_le_trans])
  have "unat (of_nat (unat b div 16) :: u8) = unat (drop_bit 4 b)"
    using l(1) by (simp add: unat_of_nat_lt unat_drop_bit del: unat_of_nat)
  moreover have "unat (of_nat (unat b mod 16) :: u8) = unat (take_bit 4 b)"
    using l(2) by (simp add: unat_of_nat_lt unat_mod_distrib take_bit_eq_mod del: unat_of_nat)
  ultimately have "push_bit 4 (of_nat (unat b div 16)) OR of_nat (unat b mod 16) =
      push_bit 4 (drop_bit 4 b) OR take_bit 4 b"
    by (simp only: word_unat_eq_iff [symmetric])
  also have "\<dots> = b"
    by (rule bit_eqI) (auto simp only: bit_or_iff bit_push_bit_iff bit_drop_bit_eq bit_take_bit_iff comp_def
        le_add_diff_inverse not_less)
  finally show ?thesis .
qed

lemma hex_to_binary_loop_hex_bytes:
  "length pre = k \<Longrightarrow> length rest = length b \<Longrightarrow>
   hex_to_binary_loop (2 * k) (2 * (k + length b)) (hex_bytes b) 0 (pre @ rest) = (0, pre @ b)"
proof (induction b arbitrary: pre k rest)
  case (Cons x b)
  obtain r rest' where r: "rest = r # rest'" using Cons.prems by (cases rest) auto
  have "hex_to_binary_loop (2 * k) (2 * (k + length (x # b))) (hex_bytes (x # b)) 0 (pre @ rest) =
      hex_to_binary_loop (2 * Suc k) (2 * (Suc k + length b)) (hex_bytes b) 0 ((pre @ [x]) @ rest')"
    using Cons.prems less_mult_imp_div_less [of "unat x" 16 16] unat_mask_less [of x]
    by (simp add: hex_bytes_def print_02X_def hex_to_binary_loop_hex_val nibbles r
        list_update_append del: hex_to_binary_loop.simps(2))
  then show ?case using Cons.IH [of "pre @ [x]" "Suc k" rest'] Cons.prems r by simp
qed (simp add: hex_bytes_def)

lemma hex_to_binary_hex_bytes:
  "length buf = length b \<Longrightarrow> crypto_hex_to_binary (hex_bytes b) (2 * length b) buf = Some (0, b)"
  using hex_to_binary_loop_hex_bytes [of "[]" 0 buf b] by (simp add: crypto_hex_to_binary_def)

end
