(* ===== verification/State.thy ===== *)
theory State
  imports Config Crypto
begin

text \<open>
  \<open>src/src/libotp/state.h\<close> and the part of \<open>state.c\<close> that does not touch the database: the
  state record, its initialisation, the check of labels and contacts, and the generation of a
  key.  Numbers keep the width of the C types; \<open>state_time_t\<close> is a 64 bit word.
\<close>

abbreviation (input) STATE_LABEL_SIZE :: nat where "STATE_LABEL_SIZE \<equiv> 30"
abbreviation (input) STATE_CONTACT_SIZE :: nat where "STATE_CONTACT_SIZE \<equiv> 60"
abbreviation (input) STATE_MAX_FIELD_SIZE :: nat where "STATE_MAX_FIELD_SIZE \<equiv> 80"
abbreviation (input) STATE_ENTRY_SIZE :: nat where "STATE_ENTRY_SIZE \<equiv> 512"

abbreviation (input) FLAG_SHOW :: u32 where "FLAG_SHOW \<equiv> 1"
abbreviation (input) FLAG_DISABLED :: u32 where "FLAG_DISABLED \<equiv> 2"
abbreviation (input) FLAG_SALTED :: u32 where "FLAG_SALTED \<equiv> 4"

abbreviation (input) STATE_NOMEM :: int where "STATE_NOMEM \<equiv> 1000"
abbreviation (input) STATE_LOCK_ERROR :: int where "STATE_LOCK_ERROR \<equiv> 1001"
abbreviation (input) STATE_PARSE_ERROR :: int where "STATE_PARSE_ERROR \<equiv> 1002"
abbreviation (input) STATE_NUMSPACE :: int where "STATE_NUMSPACE \<equiv> 1003"
abbreviation (input) STATE_IO_ERROR :: int where "STATE_IO_ERROR \<equiv> 1004"
abbreviation (input) STATE_NO_SUCH_USER :: int where "STATE_NO_SUCH_USER \<equiv> 1005"
abbreviation (input) STATE_NON_EXISTENT :: int where "STATE_NON_EXISTENT \<equiv> 1006"
abbreviation (input) STATE_NO_USER_HOME :: int where "STATE_NO_USER_HOME \<equiv> 1007"
abbreviation (input) STATE_NO_USER_ENTRY :: int where "STATE_NO_USER_ENTRY \<equiv> 1008"

record state =
  counter :: num_t
  sequence_key :: bytes
  latest_card :: num_t
  code_length :: u32
  alphabet :: u32
  flags :: u32
  spass :: bytes
  spass_set :: int
  spass_time :: u64
  label :: string
  contact :: string
  failures :: u32
  recent_failures :: u32
  channel_time :: u64
  prompt :: "string option"
  salt_mask :: num_t
  code_mask :: num_t
  current_card :: num_t
  max_card :: num_t
  max_code :: num_t
  codes_on_card :: u32
  codes_in_row :: u32
  current_row :: u8
  current_column :: u8
  username :: string
  lock :: int
  new_key :: int

definition state_validate_str :: "string \<Rightarrow> bool" where
  "state_validate_str str \<longleftrightarrow>
     list_all (\<lambda>c. isalnum c \<or> c \<in> {CHR '' '', CHR ''+'', CHR ''@'', CHR ''-'', CHR ''.'', CHR ''_'', CHR ''*''}) str"

text \<open>
  \<open>s\<close> is the uninitialised memory the structure is allocated in; \<open>cfg\<close> is the result of
  \<open>cfg_get\<close>.
\<close>

definition state_init :: "cfg_t option \<Rightarrow> string \<Rightarrow> state \<Rightarrow> (int \<times> state) option" where
  "state_init cfg name s =
     (case cfg of
        None \<Rightarrow> Some (2, s)
      | Some cfg \<Rightarrow>
          do { assert_that (passcode_def_length cfg \<ge> 2 \<and> passcode_def_length cfg \<le> 16);
               let s = s\<lparr>failures := 0, recent_failures := 0, spass_set := 0, spass_time := 0,
                         channel_time := 0, lock := -1, new_key := 0, prompt := None,
                         sequence_key := replicate 32 0, label := [], contact := [],
                         code_length := word_of_int (passcode_def_length cfg)\<rparr>;
               let s = (if show_def cfg = CONFIG_ENABLED then s\<lparr>flags := FLAG_SHOW\<rparr> else s);
               let s = (if salt_def cfg = CONFIG_ENABLED then s\<lparr>flags := flags s OR FLAG_SALTED\<rparr> else s);
               let s = s\<lparr>alphabet := word_of_int (alphabet_def cfg), codes_on_card := 0,
                         codes_in_row := 0, current_row := 0, current_column := 0,
                         username := name, counter := num_i 0, latest_card := num_i 0,
                         current_card := num_i 0, max_card := num_i 0, max_code := num_i 0\<rparr>;
               let (ret, m) = num_import ''FFFFFFFFFFFFFFFFFFFFFFFF00000000'' NUM_FORMAT_HEX;
               assert_that (ret = 0);
               let s = s\<lparr>salt_mask := m\<rparr>;
               let (ret, m) = num_import ''000000000000000000000000FFFFFFFF'' NUM_FORMAT_HEX;
               assert_that (ret = 0);
               Some (0, s\<lparr>code_mask := m\<rparr>) })"

definition state_key_generate :: "state \<Rightarrow> world \<Rightarrow> int \<times> state \<times> world" where
  "state_key_generate s w =
     (let salted = flags s AND FLAG_SALTED
      in case crypto_file_rng ''/dev/random'' 20 w of
           (None, w) \<Rightarrow> (1, s, w)
         | (Some e1, w) \<Rightarrow>
        (case crypto_file_rng ''/dev/urandom'' 1004 w of
           (None, w) \<Rightarrow> (1, s, w)
         | (Some e2, w) \<Rightarrow>
             let pool = e1 @ e2;
                 s = (if salted = 0
                      then s\<lparr>sequence_key := crypto_sha256 pool, counter := num_i 0,
                             latest_card := num_i 0, flags := flags s AND NOT FLAG_SALTED\<rparr>
                      else s\<lparr>sequence_key := crypto_sha256 (take 512 pool),
                             counter := num_and (num_of_bin (crypto_sha256 (drop 512 pool))) (salt_mask s),
                             latest_card := num_i 0, flags := flags s OR FLAG_SALTED\<rparr>)
             in (0, s\<lparr>new_key := 1\<rparr>, w)))"

end
