(* ===== verification/Db_File.thy ===== *)
theory Db_File
  imports State
begin

text \<open>
  \<open>src/src/libotp/db_file.c\<close>: state entries kept as lines of a text file, one line per user.
  Path computation, permission checks, the search for an entry, printing and parsing of an
  entry, loading, storing through a temporary file that is renamed over the database, and the
  lock file.  A function that the code leaves by \<open>assert\<close> or by dereferencing NULL gives
  \<open>None\<close>.
\<close>

subsection \<open>Paths and permissions\<close>

abbreviation (input) S_IWGRP_IWOTH :: u32 where "S_IWGRP_IWOTH \<equiv> 0x12"

record db_paths =
  p_db :: string
  p_lck :: string
  p_tmp :: string
  p_uid :: u32
  p_gid :: u32
  p_home :: "string option"

text \<open>
  \<open>want_home\<close> says whether the caller passes the address of a \<open>home\<close> pointer; without it the
  error path of the code frees through a NULL pointer.
\<close>

definition db_path_rest :: "bool \<Rightarrow> string \<Rightarrow> u32 \<Rightarrow> u32 \<Rightarrow> string option \<Rightarrow> world \<Rightarrow> ((int + db_paths) \<times> world) option" where
  "db_path_rest want_home database uid gid home w =
     (let (bad1, w) = fault w; (bad2, w) = fault w
      in if bad1 \<or> bad2
         then (if want_home then Some (Inl STATE_NOMEM, w) else None)
         else Some (Inr \<lparr>p_db = database, p_lck = database @ ''.lck'', p_tmp = database @ ''.tmp'',
                          p_uid = uid, p_gid = gid, p_home = home\<rparr>, w))"

definition db_path :: "cfg_t \<Rightarrow> string \<Rightarrow> bool \<Rightarrow> world \<Rightarrow> ((int + db_paths) \<times> world) option" where
  "db_path cfg name want_home w =
     (if db cfg = CONFIG_DB_USER
      then case w_pwnam w name of
             None \<Rightarrow> Some (Inl STATE_NO_SUCH_USER, w)
           | Some pwdata \<Rightarrow>
          (case pw_dir pwdata of
             None \<Rightarrow> Some (Inl STATE_NO_SUCH_USER, w)
           | Some userhome \<Rightarrow>
               let (bad, w) = fault w
               in if bad then Some (Inl STATE_NOMEM, w)
                  else let database = userhome @ ''/'' @ user_db_path cfg
                       in if want_home
                          then let (bad, w) = fault w
                               in if bad then Some (Inl STATE_NOMEM, w)
                                  else db_path_rest want_home database (pw_uid pwdata) (pw_gid pwdata) (Some userhome) w
                          else db_path_rest want_home database (pw_uid pwdata) (pw_gid pwdata) None w)
      else if db cfg = CONFIG_DB_GLOBAL
      then let (bad, w) = fault w
           in if bad then Some (Inl STATE_NOMEM, w)
              else db_path_rest want_home (global_db_path cfg) (-1) (-1) None w
      else None)"

definition db_perm_global :: "cfg_t \<Rightarrow> string \<Rightarrow> world \<Rightarrow> int \<times> world" where
  "db_perm_global cfg database w =
     (let (st, w) = os_stat CONFIG_DIR w
      in case st of
           None \<Rightarrow> (STATE_IO_ERROR, w)
         | Some st \<Rightarrow>
             if f_kind st \<noteq> Directory then (STATE_IO_ERROR, w)
             else if f_uid st \<noteq> user_uid cfg then (STATE_IO_ERROR, w)
             else if f_mode st AND S_IWGRP_IWOTH \<noteq> 0 then (STATE_IO_ERROR, w)
             else let (st, w) = os_stat database w
                  in case st of
                       None \<Rightarrow> (STATE_NON_EXISTENT, w)
                     | Some st \<Rightarrow>
                         if f_kind st \<noteq> Regular then (STATE_IO_ERROR, w)
                         else if f_mode st AND S_IWGRP_IWOTH \<noteq> 0 then (STATE_IO_ERROR, w)
                         else if f_uid st \<noteq> user_uid cfg
                         then if w_uid w = 0
                              then let (ok, w) = os_chown database (user_uid cfg) (user_gid cfg) w
                                   in (if ok then 0 else STATE_IO_ERROR, w)
                              else (STATE_IO_ERROR, w)
                         else (0, w))"

definition db_perm_user :: "string \<Rightarrow> string option \<Rightarrow> world \<Rightarrow> int \<times> world" where
  "db_perm_user database user_home w =
     (let (bad_home, w) =
        (case user_home of
           None \<Rightarrow> (False, w)
         | Some h \<Rightarrow> let (st, w) = os_stat h w
                     in (case st of None \<Rightarrow> True | Some st \<Rightarrow> f_kind st \<noteq> Directory, w))
      in if bad_home then (STATE_NO_USER_HOME, w)
         else let (st, w) = os_stat database w
              in (case st of
                    None \<Rightarrow> STATE_NON_EXISTENT
                  | Some st \<Rightarrow> if f_kind st \<noteq> Regular then STATE_IO_ERROR else 0, w))"

definition db_file_permissions :: "cfg_t \<Rightarrow> string \<Rightarrow> string option \<Rightarrow> world \<Rightarrow> (int \<times> world) option" where
  "db_file_permissions cfg database user_home w =
     do { assert_that (w_uid w \<noteq> 0 \<and> db cfg \<noteq> CONFIG_DB_USER \<longrightarrow> w_uid w = user_uid cfg);
          if db cfg = CONFIG_DB_GLOBAL then Some (db_perm_global cfg database w)
          else if db cfg = CONFIG_DB_USER then Some (db_perm_user database user_home w)
          else None }"

subsection \<open>Finding an entry\<close>

text \<open>
  The result is the return code, the buffer, the rest of the input and the world; \<open>out\<close> is the
  file the lines that do not match are copied to.
\<close>

function db_find_user_entry ::
    "string \<Rightarrow> string \<Rightarrow> string option \<Rightarrow> world \<Rightarrow> (int \<times> string \<times> string \<times> world) option" where
  "db_find_user_entry name f out w =
     (if f = [] then Some (STATE_NO_USER_ENTRY, [], [], w)
      else let (bad, w) = fault w
           in if bad then Some (STATE_IO_ERROR, [], f, w)
              else let n = fgets_len STATE_ENTRY_SIZE f;
                       buff = c_str (take n f);
                       rest = drop n f
                   in if buff = [] then None
                      else if last buff \<noteq> CHR 0x0A then Some (STATE_PARSE_ERROR, buff, rest, w)
                      else if length buff < 10 then Some (STATE_PARSE_ERROR, buff, rest, w)
                      else if CHR '':'' \<in> set buff \<and> takeWhile (\<lambda>c. c \<noteq> CHR '':'') buff = name
                      then Some (0, buff, rest, w)
                      else case out of
                             None \<Rightarrow> db_find_user_entry name rest out w
                           | Some p \<Rightarrow>
                               let (ok, w) = os_fputs p buff w
                               in if ok then db_find_user_entry name rest out w
                                  else Some (STATE_IO_ERROR, buff, rest, w))"
  by pat_completeness auto
termination
  by (relation "measure (\<lambda>(name, f, out, w). length f)")
     (use fgets_len_pos [of STATE_ENTRY_SIZE] in auto)

declare db_find_user_entry.simps [simp del]

subsection \<open>Parsing an entry\<close>

fun split_at :: "char \<Rightarrow> string \<Rightarrow> string list" where
  "split_at d [] = [[]]"
| "split_at d (c # s) =
     (if c = d then [] # split_at d s
      else case split_at d s of t # ts \<Rightarrow> (c # t) # ts | [] \<Rightarrow> [[c]])"

definition strtok_cut :: "string \<Rightarrow> string" where
  "strtok_cut token = takeWhile (\<lambda>c. c \<noteq> CHR 0x0A) token"

function db_parse_loop :: "nat \<Rightarrow> string list \<Rightarrow> int" where
  "db_parse_loop i position =
     (if i < 15
      then case position of
             [] \<Rightarrow> STATE_PARSE_ERROR
           | field # position \<Rightarrow>
               if length field > STATE_MAX_FIELD_SIZE then STATE_PARSE_ERROR
               else if i = 1 \<and> scan_u32 10 field \<noteq> Some 1 then STATE_PARSE_ERROR
               else db_parse_loop (Suc i) position
      else if position \<noteq> [] then STATE_PARSE_ERROR else 0)"
  by pat_completeness auto
termination by (relation "measure (\<lambda>(i, _). 15 - i)") auto

declare db_parse_loop.simps [simp del]

definition db_parse_user_entry :: "string \<Rightarrow> int \<times> string list" where
  "db_parse_user_entry buff =
     (let field = map strtok_cut (split_at CHR '':'' buff) in (db_parse_loop 0 field, field))"

fun load_key :: "nat \<Rightarrow> nat \<Rightarrow> string \<Rightarrow> bytes \<Rightarrow> bool \<times> bytes" where
  "load_key i 0 pos key = (True, key)"
| "load_key i (Suc n) pos key =
     (if length pos < 2 then (False, key)
      else case scan_02X pos of
             None \<Rightarrow> (False, key)
           | Some tmp \<Rightarrow> load_key (Suc i) n (drop 2 pos) (key[i := tmp]))"

text \<open>The numbers and strings after the key, the checks at the end, and the whole entry.\<close>

definition db_load_checks :: "state \<Rightarrow> int" where
  "db_load_checks s =
     (if \<not> state_validate_str (label s) then STATE_PARSE_ERROR
      else if \<not> state_validate_str (contact s) then STATE_PARSE_ERROR
      else if num_cmp (counter s) (num_i 0) = -1 then STATE_PARSE_ERROR
      else if num_cmp (latest_card s) (num_i 0) = -1 then STATE_PARSE_ERROR
      else if code_length s < 2 \<or> code_length s > 16 then STATE_PARSE_ERROR
      else if flags s > (FLAG_SHOW OR FLAG_SALTED OR FLAG_DISABLED) then STATE_PARSE_ERROR
      else 0)"

definition db_load_spass :: "string list \<Rightarrow> state \<Rightarrow> (int \<times> state) option" where
  "db_load_spass field s =
     (if length (field ! 11) = 0 then Some (0, s\<lparr>spass_set := 0\<rparr>)
      else do { (r, b) \<leftarrow> crypto_hex_to_binary (field ! 11) 80 (spass s);
                let s = s\<lparr>spass := b\<rparr>;
                if r \<noteq> 0 then Some (STATE_PARSE_ERROR, s)
                else case scan_umax (field ! 12) of
                       None \<Rightarrow> Some (STATE_PARSE_ERROR, s)
                     | Some t \<Rightarrow> Some (0, s\<lparr>spass_time := t, spass_set := 1\<rparr>) })"

definition db_load_numbers :: "string list \<Rightarrow> state \<Rightarrow> int \<times> state" where
  "db_load_numbers field s =
     (case scan_u32 10 (field ! 5) of None \<Rightarrow> (STATE_PARSE_ERROR, s) | Some v \<Rightarrow>
      let s = s\<lparr>failures := v\<rparr> in
      case scan_u32 10 (field ! 6) of None \<Rightarrow> (STATE_PARSE_ERROR, s) | Some v \<Rightarrow>
      let s = s\<lparr>recent_failures := v\<rparr> in
      case scan_umax (field ! 7) of None \<Rightarrow> (STATE_PARSE_ERROR, s) | Some v \<Rightarrow>
      let s = s\<lparr>channel_time := v\<rparr> in
      case scan_u32 10 (field ! 8) of None \<Rightarrow> (STATE_PARSE_ERROR, s) | Some v \<Rightarrow>
      let s = s\<lparr>code_length := v\<rparr> in
      case scan_u32 10 (field ! 9) of None \<Rightarrow> (STATE_PARSE_ERROR, s) | Some v \<Rightarrow>
      let s = s\<lparr>alphabet := v\<rparr> in
      case scan_u32 16 (field ! 10) of None \<Rightarrow> (STATE_PARSE_ERROR, s) | Some v \<Rightarrow>
      (0, s\<lparr>flags := v\<rparr>))"

definition db_load_fields :: "string list \<Rightarrow> state \<Rightarrow> (int \<times> state) option" where
  "db_load_fields field s =
     (let (ok, key) = load_key 0 32 (field ! 2) (sequence_key s);
          s = s\<lparr>sequence_key := key\<rparr>
      in if \<not> ok then Some (STATE_PARSE_ERROR, s)
         else let (r, v) = num_import (field ! 3) NUM_FORMAT_HEX; s = s\<lparr>counter := v\<rparr>
         in if r \<noteq> 0 then Some (STATE_PARSE_ERROR, s)
         else let (r, v) = num_import (field ! 4) NUM_FORMAT_HEX; s = s\<lparr>latest_card := v\<rparr>
         in if r \<noteq> 0 then Some (STATE_PARSE_ERROR, s)
         else let (r, s) = db_load_numbers field s
         in if r \<noteq> 0 then Some (r, s)
         else do { (r, s) \<leftarrow> db_load_spass field s;
                   if r \<noteq> 0 then Some (r, s)
                   else let s = s\<lparr>label := take (STATE_LABEL_SIZE - 1) (field ! 13),
                                  contact := take (STATE_CONTACT_SIZE - 1) (field ! 14)\<rparr>
                        in Some (db_load_checks s, s) })"

subsection \<open>Printing an entry\<close>

text \<open>\<open>snprintf\<close> gives the full length and cuts the buffer at \<open>buff_length - 1\<close>.\<close>

definition db_entry_text :: "state \<Rightarrow> string \<Rightarrow> string \<Rightarrow> string" where
  "db_entry_text s cnt crd =
     username s @ '':1:'' @ hex_bytes (sequence_key s) @ '':'' @ cnt @ '':'' @ crd @ '':'' @
     print_u (failures s) @ '':'' @ print_u (recent_failures s) @ '':'' @
     print_umax (channel_time s) @ '':'' @ print_u (code_length s) @ '':'' @
     print_u (alphabet s) @ '':'' @ print_x (flags s) @ '':'' @
     (if spass_set s \<noteq> 0 then hex_bytes (spass s) else []) @ '':'' @
     print_umax (spass_time s) @ '':'' @ label s @ '':'' @ contact s @ [CHR 0x0A]"

definition db_generate_user_entry :: "state \<Rightarrow> nat \<Rightarrow> (int \<times> string) option" where
  "db_generate_user_entry s buff_length =
     do { cnt \<leftarrow> num_export (counter s) NUM_FORMAT_HEX;
          crd \<leftarrow> num_export (latest_card s) NUM_FORMAT_HEX;
          let t = db_entry_text s cnt crd;
          let tmp = length t;
          Some (if tmp < 10 \<or> tmp = buff_length then 1 else 0, take (buff_length - 1) t) }"

subsection \<open>The lock\<close>

fun setlk_tries :: "nat \<Rightarrow> int \<Rightarrow> string \<Rightarrow> world \<Rightarrow> bool \<times> world" where
  "setlk_tries 0 fd lck w = (False, w)"
| "setlk_tries (Suc n) fd lck w =
     (let (ok, w) = os_setlk fd lck w in if ok then (True, w) else setlk_tries n fd lck w)"

definition db_file_lock :: "cfg_t \<Rightarrow> state \<Rightarrow> world \<Rightarrow> (int \<times> state \<times> world) option" where
  "db_file_lock cfg s w =
     do { assert_that (lock s = -1);
          (r, w) \<leftarrow> db_path cfg (username s) True w;
          case r of
            Inl e \<Rightarrow> Some (e, s, w)
          | Inr p \<Rightarrow>
              do { (ret, w) \<leftarrow> db_file_permissions cfg (p_db p) (p_home p) w;
                   if ret = STATE_IO_ERROR then Some (STATE_LOCK_ERROR, s, w)
                   else if ret = STATE_NO_USER_HOME then Some (ret, s, w)
                   else let (fd, w) = os_open_lck (p_lck p) w
                        in case fd of
                             None \<Rightarrow> Some (STATE_LOCK_ERROR, s, w)
                           | Some fd \<Rightarrow>
                               let (ok, w) = setlk_tries 20 fd (p_lck p) w
                               in if ok then Some (0, s\<lparr>lock := fd\<rparr>, w)
                                  else Some (STATE_LOCK_ERROR, s, os_close fd w) } }"

definition db_file_unlock :: "cfg_t \<Rightarrow> state \<Rightarrow> world \<Rightarrow> (int \<times> state \<times> world) option" where
  "db_file_unlock cfg s w =
     do { (r, w) \<leftarrow> db_path cfg (username s) False w;
          case r of
            Inl e \<Rightarrow> Some (e, s, w)
          | Inr p \<Rightarrow>
              if lock s < 0 then Some (0, s, w)
              else let (_, w) = os_unlink (p_lck p) w;
                       (ok, w) = os_unlk (lock s) w;
                       w = os_close (lock s) w;
                       s = s\<lparr>lock := -1\<rparr>
                   in Some (if ok then 0 else STATE_LOCK_ERROR, s, w) }"

subsection \<open>Loading\<close>

definition db_load_locked :: "string \<Rightarrow> state \<Rightarrow> world \<Rightarrow> (int \<times> state \<times> world) option" where
  "db_load_locked database s w =
     (let (r, w) = os_fopen_r database w
      in case r of
           Fopen_enoent \<Rightarrow> Some (STATE_NON_EXISTENT, s, w)
         | Fopen_error \<Rightarrow> Some (STATE_IO_ERROR, s, w)
         | Opened f \<Rightarrow>
             do { (ret, buff, _, w) \<leftarrow> db_find_user_entry (username s) f None w;
                  if ret \<noteq> 0 then Some (ret, s, w)
                  else let (ret, field) = db_parse_user_entry buff
                       in if ret \<noteq> 0 then Some (ret, s, w)
                          else do { (retval, s) \<leftarrow> db_load_fields field s; Some (retval, s, w) } })"

definition db_file_load :: "cfg_t \<Rightarrow> state \<Rightarrow> world \<Rightarrow> (int \<times> state \<times> world) option" where
  "db_file_load cfg s w =
     do { (r, w) \<leftarrow> db_path cfg (username s) True w;
          case r of
            Inl e \<Rightarrow> Some (e, s, w)
          | Inr p \<Rightarrow>
              do { (retval, w) \<leftarrow> db_file_permissions cfg (p_db p) (p_home p) w;
                   if retval \<noteq> 0 then Some (retval, s, w)
                   else if lock s \<le> 0
                   then do { (retval, s, w) \<leftarrow> db_file_lock cfg s w;
                             if retval \<noteq> 0 then Some (retval, s, w)
                             else do { (retval, s, w) \<leftarrow> db_load_locked (p_db p) s w;
                                       (u, s, w) \<leftarrow> db_file_unlock cfg s w;
                                       Some (if u \<noteq> 0 \<and> retval = 0 then STATE_LOCK_ERROR else retval, s, w) } }
                   else db_load_locked (p_db p) s w } }"

subsection \<open>Storing\<close>

text \<open>
  The part of \<open>db_file_store\<close> between opening the temporary file and the label \<open>cleanup\<close>:
  copying the entries before and after the user's, with the new entry in between, and the
  flush.
\<close>

definition db_store_chown :: "cfg_t \<Rightarrow> db_paths \<Rightarrow> world \<Rightarrow> int \<times> world" where
  "db_store_chown cfg p w =
     (if w_euid w = 0
      then let (st, w) = os_stat (p_db p) w
           in case st of
                None \<Rightarrow>
                  if db cfg \<noteq> CONFIG_DB_USER then (STATE_IO_ERROR, w)
                  else let (ok, w) = os_chown (p_tmp p) (p_uid p) (p_gid p) w
                       in (if ok then 0 else STATE_IO_ERROR, w)
              | Some st \<Rightarrow>
                  let (ok, w) = os_chown (p_tmp p) (f_uid st) (f_gid st) w
                  in (if ok then 0 else STATE_IO_ERROR, w)
      else (0, w))"

definition db_store_entry :: "state \<Rightarrow> bool \<Rightarrow> db_paths \<Rightarrow> world \<Rightarrow> (int \<times> world) option" where
  "db_store_entry s remove p w =
     (if remove then Some (0, w)
      else do { (ret, entry) \<leftarrow> db_generate_user_entry s STATE_ENTRY_SIZE;
                if ret \<noteq> 0 then Some (ret, w)
                else let (ok, w) = os_fputs (p_tmp p) entry w
                     in Some (if ok then 0 else STATE_IO_ERROR, w) })"

definition db_store_flush :: "world \<Rightarrow> int \<times> world" where
  "db_store_flush w =
     (let (bad1, w) = fault w; (bad2, w) = fault w
      in (if bad1 \<or> bad2 then STATE_IO_ERROR else 0, w))"

text \<open>\<open>goto cleanup\<close> is the early result.  The duplicate entry leaves with \<open>ret = 0\<close>.\<close>

definition db_store_copy :: "state \<Rightarrow> bool \<Rightarrow> db_paths \<Rightarrow> string option \<Rightarrow> world \<Rightarrow> (int \<times> world) option" where
  "db_store_copy s remove p inp w =
     do { (ret, rest, w) \<leftarrow>
            (case inp of
               None \<Rightarrow> Some (0, [], w)
             | Some f \<Rightarrow>
                 do { (ret, _, rest, w) \<leftarrow> db_find_user_entry (username s) f (Some (p_tmp p)) w;
                      Some (if ret \<noteq> STATE_NO_USER_ENTRY then ret else 0, rest, w) });
          if ret \<noteq> 0 then Some (ret, w)
          else do { (ret, w) \<leftarrow> db_store_entry s remove p w;
                    if ret \<noteq> 0 then Some (ret, w)
                    else case inp of
                           None \<Rightarrow> Some (db_store_flush w)
                         | Some _ \<Rightarrow>
                             do { (ret, _, _, w) \<leftarrow> db_find_user_entry (username s) rest (Some (p_tmp p)) w;
                                  if ret = 0 then Some (ret, w)
                                  else if ret \<noteq> STATE_NO_USER_ENTRY then Some (STATE_PARSE_ERROR, w)
                                  else Some (db_store_flush w) } } }"

definition db_store_write :: "cfg_t \<Rightarrow> state \<Rightarrow> bool \<Rightarrow> db_paths \<Rightarrow> world \<Rightarrow> (int \<times> world) option" where
  "db_store_write cfg s remove p w =
     (let (r, w) = os_fopen_r (p_db p) w
      in if r = Fopen_error then Some (STATE_IO_ERROR, w)
         else let (ok, w) = os_fopen_w (p_tmp p) w
              in if \<not> ok then Some (STATE_IO_ERROR, w)
                 else let (ret, w) = db_store_chown cfg p w
                      in if ret \<noteq> 0 then Some (ret, w)
                         else db_store_copy s remove p (case r of Opened f \<Rightarrow> Some f | _ \<Rightarrow> None) w)"

definition db_store_cleanup :: "cfg_t \<Rightarrow> db_paths \<Rightarrow> int \<Rightarrow> world \<Rightarrow> (int \<times> world) option" where
  "db_store_cleanup cfg p ret w =
     (if ret = 0
      then let (ok, w) = os_rename (p_tmp p) (p_db p) w
           in if \<not> ok then Some (STATE_IO_ERROR, w)
              else do { (_, w) \<leftarrow> db_file_permissions cfg (p_db p) None w; Some (0, w) }
      else let (_, w) = os_unlink (p_tmp p) w in Some (ret, w))"

definition db_store_locked :: "cfg_t \<Rightarrow> state \<Rightarrow> bool \<Rightarrow> db_paths \<Rightarrow> world \<Rightarrow> (int \<times> world) option" where
  "db_store_locked cfg s remove p w =
     (if db cfg = CONFIG_DB_USER \<and> remove
      then let (ok, w) = os_unlink (p_db p) w in Some (if ok then 0 else STATE_IO_ERROR, w)
      else do { (ret, w) \<leftarrow> db_store_write cfg s remove p w; db_store_cleanup cfg p ret w })"

definition db_file_store :: "cfg_t \<Rightarrow> state \<Rightarrow> bool \<Rightarrow> world \<Rightarrow> (int \<times> state \<times> world) option" where
  "db_file_store cfg s remove w =
     do { (r, w) \<leftarrow> db_path cfg (username s) False w;
          case r of
            Inl e \<Rightarrow> Some (e, s, w)
          | Inr p \<Rightarrow>
              if lock s \<le> 0
              then do { (ret, s, w) \<leftarrow> db_file_lock cfg s w;
                        if ret \<noteq> 0 then Some (ret, s, w)
                        else do { (ret, w) \<leftarrow> db_store_locked cfg s remove p w;
                                  (_, s, w) \<leftarrow> db_file_unlock cfg s w;
                                  Some (ret, s, w) } }
              else do { (ret, w) \<leftarrow> db_store_locked cfg s remove p w; Some (ret, s, w) } }"

end
