(* ===== verification/State_Db.thy ===== *)
theory State_Db
  imports Db_File
begin

text \<open>
  The database interface of \<open>src/src/libotp/state.c\<close>: the dispatch on the configured backend,
  storing with the implicit lock for a new key, and the disposal of a state.
\<close>

definition db_is_file :: "cfg_t \<Rightarrow> bool" where
  "db_is_file cfg \<longleftrightarrow> db cfg = CONFIG_DB_USER \<or> db cfg = CONFIG_DB_GLOBAL"

definition state_lock :: "cfg_t \<Rightarrow> state \<Rightarrow> world \<Rightarrow> (int \<times> state \<times> world) option" where
  "state_lock cfg s w = (if db_is_file cfg then db_file_lock cfg s w else None)"

definition state_unlock :: "cfg_t \<Rightarrow> state \<Rightarrow> world \<Rightarrow> (int \<times> state \<times> world) option" where
  "state_unlock cfg s w = (if db_is_file cfg then db_file_unlock cfg s w else None)"

definition state_load :: "cfg_t \<Rightarrow> state \<Rightarrow> world \<Rightarrow> (int \<times> state \<times> world) option" where
  "state_load cfg s w = (if db_is_file cfg then db_file_load cfg s w else None)"

definition state_store_locked :: "cfg_t \<Rightarrow> state \<Rightarrow> bool \<Rightarrow> bool \<Rightarrow> world \<Rightarrow> (int \<times> state \<times> world) option" where
  "state_store_locked cfg s remove locked w =
     (if lock s \<le> 0 then Some (2, s, w)
      else if \<not> db_is_file cfg then None
      else do { (ret, s, w) \<leftarrow> db_file_store cfg (s\<lparr>new_key := 0\<rparr>) remove w;
                if locked
                then do { (_, s, w) \<leftarrow> state_unlock cfg s w; Some (ret, s, w) }
                else Some (ret, s, w) })"

definition state_store :: "cfg_t \<Rightarrow> state \<Rightarrow> bool \<Rightarrow> world \<Rightarrow> (int \<times> state \<times> world) option" where
  "state_store cfg s remove w =
     do { assert_that (\<not> (new_key s \<noteq> 0 \<and> remove));
          if new_key s = 1
          then do { assert_that (lock s \<le> 0);
                    (ret, s, w) \<leftarrow> state_lock cfg s w;
                    if ret \<noteq> 0 then Some (STATE_LOCK_ERROR, s, w)
                    else state_store_locked cfg s remove True w }
          else state_store_locked cfg s remove False w }"

text \<open>After \<open>memset\<close> the structure holds zeros and null pointers.\<close>

definition state_zero :: state where
  "state_zero =
     \<lparr>counter = num_zero, sequence_key = replicate 32 0, latest_card = num_zero, code_length = 0,
      alphabet = 0, flags = 0, spass = replicate 40 0, spass_set = 0, spass_time = 0, label = [],
      contact = [], failures = 0, recent_failures = 0, channel_time = 0, prompt = None,
      salt_mask = num_zero, code_mask = num_zero, current_card = num_zero, max_card = num_zero,
      max_code = num_zero, codes_on_card = 0, codes_in_row = 0, current_row = 0,
      current_column = 0, username = [], lock = 0, new_key = 0\<rparr>"

definition state_fini :: "cfg_t \<Rightarrow> state \<Rightarrow> world \<Rightarrow> (state \<times> world) option" where
  "state_fini cfg s w =
     (if lock s > 0
      then do { (_, s, w) \<leftarrow> state_unlock cfg s w; Some (state_zero, w) }
      else Some (state_zero, w))"

end
