(* ===== verification/Ppp.thy ===== *)
theory Ppp
  imports State_Db
begin

text \<open>
  The part of \<open>src/src/libotp/ppp.c\<close> that works on a state in memory: the alphabets, the policy
  checks, the salt, the passcode of a counter, authentication, passcard arithmetic, warnings
  and error messages.
\<close>

abbreviation (input) PPP_ERROR_POLICY :: int where "PPP_ERROR_POLICY \<equiv> 3001"
abbreviation (input) PPP_ERROR_TOO_LONG :: int where "PPP_ERROR_TOO_LONG \<equiv> 3002"
abbreviation (input) PPP_ERROR_ILL_CHAR :: int where "PPP_ERROR_ILL_CHAR \<equiv> 3003"
abbreviation (input) PPP_ERROR_RANGE :: int where "PPP_ERROR_RANGE \<equiv> 3004"
abbreviation (input) PPP_ERROR_DISABLED :: int where "PPP_ERROR_DISABLED \<equiv> 3005"
abbreviation (input) PPP_ERROR_SPASS_INCORRECT :: int where "PPP_ERROR_SPASS_INCORRECT \<equiv> 3006"
abbreviation (input) PPP_ERROR_CONFIG :: int where "PPP_ERROR_CONFIG \<equiv> 3007"
abbreviation (input) PPP_ERROR_NOT_CONFIGURED :: int where "PPP_ERROR_NOT_CONFIGURED \<equiv> 3008"

abbreviation (input) ROWS_PER_CARD :: u32 where "ROWS_PER_CARD \<equiv> 10"

subsection \<open>Alphabets\<close>

definition alphabet_simple :: string where
  "alphabet_simple = ''!#%+23456789:=?@ABCDEFGHJKLMNPRSTUVWXYZabcdefghijkmnopqrstuvwxyz''"

definition alphabet_extended :: string where
  "alphabet_extended = ''!'' @ [CHR 0x22] @ ''#$%&'' @ [CHR 0x27] @ ''()*+,-./23456789:;<=>?@ABCDEFGHJKLMNOPRSTUVWXYZ['' @ [CHR 0x5C] @ '']^_abcdefghijkmnopqrstuvwxyz{|}~''"

definition alphabet_simple_no_vowels :: string where
  "alphabet_simple_no_vowels = ''!#%+23456789:=?@BCDFGHJKLMNPRSTVWXZbcdfghjkmnpqrstvwxz''"

definition alphabet_extended_no_vowels :: string where
  "alphabet_extended_no_vowels = ''!'' @ [CHR 0x22] @ ''#$%&'' @ [CHR 0x27] @ ''()*+,-./23456789:;<=>?@BCDFGHJKLMNPRSTVWXZ['' @ [CHR 0x5C] @ '']^_bcdfghjkmnpqrstvwxz{|}~''"

definition alphabet_alpha :: string where
  "alphabet_alpha = ''23456789ABCDEFGHJKLMNPRSTUVWXYZabcdefghijkmnopqrstuvwxyz''"

definition alphabets :: "nat \<Rightarrow> string" where
  "alphabets i = [[], alphabet_simple, alphabet_extended, alphabet_simple_no_vowels,
     alphabet_extended_no_vowels, alphabet_alpha] ! i"

definition ppp_alphabet_count :: int where
  "ppp_alphabet_count = 6"

definition alphabet_of :: "cfg_t \<Rightarrow> int \<Rightarrow> string" where
  "alphabet_of cfg i = (if i = 0 then alphabet_custom cfg else alphabets (nat i))"

subsection \<open>Initialisation of the library\<close>

definition ppp_init :: "cfg_t option \<Rightarrow> int \<Rightarrow> world \<Rightarrow> (int \<times> world) option" where
  "ppp_init cfg print_flags w =
     do { assert_that (print_flags \<le> 192);
          let w = w\<lparr>w_umask := 0x3F\<rparr>;
          Some (case cfg of
                  None \<Rightarrow> (PPP_ERROR_CONFIG, w)
                | Some c \<Rightarrow>
                    if db c = CONFIG_DB_UNCONFIGURED then (PPP_ERROR_NOT_CONFIGURED, w)
                    else cfg_permissions cfg w) }"

subsection \<open>Verification group\<close>

definition ppp_verify_code_length :: "cfg_t \<Rightarrow> int \<Rightarrow> int" where
  "ppp_verify_code_length cfg len =
     (if len < 2 \<or> len > 16 then PPP_ERROR_RANGE
      else if len < passcode_min_length cfg \<or> len > passcode_max_length cfg then PPP_ERROR_POLICY
      else 0)"

definition ppp_verify_alphabet :: "cfg_t \<Rightarrow> int \<Rightarrow> int" where
  "ppp_verify_alphabet cfg i =
     (if i < 0 \<or> i \<ge> ppp_alphabet_count then PPP_ERROR_RANGE
      else if alphabet_change cfg = CONFIG_DISALLOW \<and> alphabet_def cfg \<noteq> i then PPP_ERROR_POLICY
      else let len = int (length (alphabet_of cfg i))
           in if len < alphabet_min_length cfg \<or> len > alphabet_max_length cfg
              then PPP_ERROR_POLICY else 0)"

definition salted :: "state \<Rightarrow> bool" where
  "salted s \<longleftrightarrow> flags s AND FLAG_SALTED \<noteq> 0"

definition ppp_verify_range :: "state \<Rightarrow> int option" where
  "ppp_verify_range s =
     do { assert_that (codes_on_card s > 0);
          Some (if num_cmp (counter s) (num_ii 0xFFFFFFFFFFFFFFFF 0xFFFFFFFFFFFFFFF) > 0
                then STATE_PARSE_ERROR
                else let just_counter =
                       (if salted s then num_and (counter s) (code_mask s) else counter s)
                     in if num_cmp just_counter (max_code s) \<ge> 0 then STATE_NUMSPACE else 0) }"

definition ppp_verify_flags :: "cfg_t \<Rightarrow> u32 \<Rightarrow> int" where
  "ppp_verify_flags cfg fl =
     (if fl AND FLAG_SHOW \<noteq> 0 \<and> show_policy cfg = CONFIG_DISALLOW then PPP_ERROR_POLICY
      else if fl AND FLAG_SHOW = 0 \<and> show_policy cfg = CONFIG_ENFORCE then PPP_ERROR_POLICY
      else if fl AND FLAG_SALTED \<noteq> 0 \<and> salt cfg = CONFIG_DISALLOW then PPP_ERROR_POLICY
      else if fl AND FLAG_SALTED = 0 \<and> salt cfg = CONFIG_ENFORCE then PPP_ERROR_POLICY
      else 0)"

definition ppp_state_verify :: "cfg_t \<Rightarrow> state \<Rightarrow> int option" where
  "ppp_state_verify cfg s =
     (if ppp_verify_flags cfg (flags s) \<noteq> 0 then Some PPP_ERROR_POLICY
      else if ppp_verify_alphabet cfg (sint (alphabet s)) \<noteq> 0 then Some PPP_ERROR_POLICY
      else if ppp_verify_code_length cfg (sint (code_length s)) \<noteq> 0 then Some PPP_ERROR_POLICY
      else do { r \<leftarrow> ppp_verify_range s; Some (if r \<noteq> 0 then PPP_ERROR_POLICY else 0) })"

definition ppp_alphabet_get :: "cfg_t \<Rightarrow> int \<Rightarrow> int \<times> string option" where
  "ppp_alphabet_get cfg i =
     (let verify = ppp_verify_alphabet cfg i
      in if verify = PPP_ERROR_RANGE then (PPP_ERROR_RANGE, None)
         else (verify, Some (alphabet_of cfg i)))"

text \<open>The text printed by \<open>ppp_alphabet_print\<close>, one entry per alphabet.\<close>

definition ppp_alphabet_print :: "cfg_t \<Rightarrow> string" where
  "ppp_alphabet_print cfg =
     concat (map (\<lambda>i.
       let a = alphabet_of cfg (int i); len = int (length a)
       in ''Alphabet ID = '' @ nat_str upper_digit 10 i @ '' ('' @
          (if len \<ge> alphabet_min_length cfg \<and> len \<le> alphabet_max_length cfg
           then ''accepted'' else ''denied'') @ '' by policy):'' @ [CHR 0x0A] @ a @ [CHR 0x0A])
       [0..<nat ppp_alphabet_count])"

subsection \<open>Salt and passcodes\<close>

definition ppp_add_salt :: "state \<Rightarrow> num_t \<Rightarrow> num_t" where
  "ppp_add_salt s passcode =
     (if salted s
      then num_add (num_and passcode (code_mask s)) (num_and (counter s) (salt_mask s))
      else passcode)"

fun passcode_loop :: "nat \<Rightarrow> string \<Rightarrow> num_t \<Rightarrow> string" where
  "passcode_loop 0 alpha cipher = []"
| "passcode_loop (Suc n) alpha cipher =
     (let (quotient, r) = num_div_i cipher (of_nat (length alpha))
      in alpha ! unat r # passcode_loop n alpha quotient)"

text \<open>
  \<open>passcode\<close> is the buffer of the caller.  When the alphabet is refused the code leaves it as it
  is and returns the 0 of the cipher.
\<close>

definition ppp_get_passcode :: "cfg_t \<Rightarrow> state \<Rightarrow> num_t \<Rightarrow> string \<Rightarrow> (int \<times> string) option" where
  "ppp_get_passcode cfg s cnt passcode =
     do { assert_that (code_length s \<ge> 2 \<and> code_length s \<le> 16);
          let cnt_bin = num_to_bin (ppp_add_salt s cnt);
          let cipher = num_of_bin (crypto_aes_encrypt (sequence_key s) cnt_bin);
          if ppp_verify_alphabet cfg (sint (alphabet s)) \<noteq> 0 then Some (0, passcode)
          else Some (0, passcode_loop (unat (code_length s)) (alphabet_of cfg (sint (alphabet s))) cipher) }"

definition ppp_get_current :: "cfg_t \<Rightarrow> state \<Rightarrow> string option \<Rightarrow> (int \<times> string option) option" where
  "ppp_get_current cfg s passcode =
     (case passcode of
        None \<Rightarrow> Some (1, None)
      | Some p \<Rightarrow> do { (r, p) \<leftarrow> ppp_get_passcode cfg s (counter s) p;
                      Some (if r \<noteq> 0 then 2 else 0, Some p) })"

definition ppp_flag_check :: "state \<Rightarrow> u32 \<Rightarrow> bool" where
  "ppp_flag_check s fl \<longleftrightarrow> flags s AND fl \<noteq> 0"

definition ppp_authenticate :: "cfg_t \<Rightarrow> state \<Rightarrow> string option \<Rightarrow> int option" where
  "ppp_authenticate cfg s passcode =
     (case passcode of
        None \<Rightarrow> Some 1
      | Some p \<Rightarrow>
          if ppp_flag_check s FLAG_DISABLED then Some PPP_ERROR_DISABLED
          else do { retval \<leftarrow> ppp_state_verify cfg s;
                    if retval \<noteq> 0 then Some retval
                    else do { (r, current) \<leftarrow> ppp_get_passcode cfg s (counter s) [];
                              Some (if r \<noteq> 0 then 2 else if p \<noteq> current then 3 else 0) } })"

subsection \<open>Passcards\<close>

definition ppp_get_codes_per_row :: "int \<Rightarrow> int option" where
  "ppp_get_codes_per_row codelength =
     do { assert_that (codelength \<ge> 2); assert_that (codelength \<le> 16);
          Some ([-1, -1, 11, 8, 7, 5, 5, 4, 3, 3, 3, 2, 2, 2, 2, 2, 2] ! nat codelength) }"

definition ppp_columns :: string where
  "ppp_columns = ''ABCDEFGHIJKL''"

definition ppp_unsalted :: "state \<Rightarrow> num_t" where
  "ppp_unsalted s = (if salted s then num_and (counter s) (code_mask s) else counter s)"

definition ppp_calculate :: "state \<Rightarrow> state option" where
  "ppp_calculate s =
     do { assert_that (code_length s \<ge> 2 \<and> code_length s \<le> 16);
          assert_that (num_cmp (counter s) (num_i 0) \<ge> 0);
          per_row \<leftarrow> ppp_get_codes_per_row (sint (code_length s));
          let s = s\<lparr>codes_in_row := word_of_int per_row\<rparr>;
          let s = s\<lparr>codes_on_card := codes_in_row s * ROWS_PER_CARD\<rparr>;
          let (q, r) = num_div_i (ppp_unsalted s) (ucast (codes_on_card s));
          let s = s\<lparr>current_card := num_add q (num_i 1)\<rparr>;
          let col = r mod ucast (codes_in_row s);
          let r = r - col;
          let s = s\<lparr>current_row := ucast (1 + r div ucast (codes_in_row s)),
                    current_column := of_nat (code (ppp_columns ! unat col))\<rparr>;
          let m = (if salted s then code_mask s else num_ii 0xFFFFFFFFFFFFFF 0xFFFFFFFFFFFFFFFF);
          let (q, _) = num_div_i m (ucast (codes_on_card s));
          let s = s\<lparr>max_card := num_sub q (num_i 1)\<rparr>;
          Some (s\<lparr>max_code := num_mul_i (max_card s) (ucast (codes_on_card s))\<rparr>) }"

subsection \<open>Warnings and messages\<close>

abbreviation (input) PPP_WARN_OK :: u32 where "PPP_WARN_OK \<equiv> 0"
abbreviation (input) PPP_WARN_LAST_CARD :: u32 where "PPP_WARN_LAST_CARD \<equiv> 1"
abbreviation (input) PPP_WARN_NOTHING_LEFT :: u32 where "PPP_WARN_NOTHING_LEFT \<equiv> 2"
abbreviation (input) PPP_WARN_RECENT_FAILURES :: u32 where "PPP_WARN_RECENT_FAILURES \<equiv> 4"

definition ppp_get_warning_conditions :: "state \<Rightarrow> u32 option" where
  "ppp_get_warning_conditions s =
     do { assert_that (codes_on_card s > 0);
          let c = num_cmp (current_card s) (latest_card s);
          Some ((if c = 0 then PPP_WARN_LAST_CARD else if c > 0 then PPP_WARN_NOTHING_LEFT else 0) OR
                (if recent_failures s > 0 then PPP_WARN_RECENT_FAILURES else 0)) }"

definition ppp_get_warning_message :: "state \<Rightarrow> u32 \<Rightarrow> (string option \<times> u32) option" where
  "ppp_get_warning_message s warning =
     (if warning = PPP_WARN_OK then Some (None, warning)
      else if warning AND PPP_WARN_RECENT_FAILURES \<noteq> 0
      then let warning = warning AND NOT PPP_WARN_RECENT_FAILURES
           in if recent_failures s = 1 then Some (Some ''There was 1 recent auth failure!'', warning)
              else do { assert_that (recent_failures s < 999999999);
                        Some (Some (''There were '' @ print_u (recent_failures s) @
                          '' recent auth failures! Are your static passwords compromised?''), warning) }
      else if warning = PPP_WARN_LAST_CARD
      then Some (Some ''You are on your last printed passcard!'', warning AND NOT PPP_WARN_LAST_CARD)
      else if warning = PPP_WARN_NOTHING_LEFT
      then Some (Some ''You have no printed passcodes left!'', warning AND NOT PPP_WARN_NOTHING_LEFT)
      else None)"

definition ppp_get_error_desc :: "int \<Rightarrow> string" where
  "ppp_get_error_desc error =
     (if error = 0 then ''No error''
      else if error = STATE_NOMEM then ''Out of memory while reading state.''
      else if error = STATE_LOCK_ERROR then ''Unable to lock state file!''
      else if error = STATE_NON_EXISTENT then ''Have you created key with --key option?''
      else if error = STATE_NO_USER_HOME then ''User doesn'' @ [CHR 0x27] @ ''t have a HOME directory.''
      else if error = STATE_IO_ERROR then ''I/O error (permissions, file type, ...) while reading state. Try agent_otp --config-check.''
      else if error = STATE_NUMSPACE then ''You'' @ [CHR 0x27] @ ''ve used up all available passcodes! Regenerate key.''
      else if error = STATE_PARSE_ERROR then ''State file invalid.''
      else if error = STATE_NO_USER_ENTRY then ''No user entry. Have you created key with --key option?''
      else if error = STATE_NO_SUCH_USER then ''No such Unix user in passwd database. Unable to locate home.''
      else if error = PPP_ERROR then ''Generic PPP error. (Try -v to get details)''
      else if error = PPP_ERROR_POLICY then ''Action denied by policy.''
      else if error = PPP_ERROR_RANGE then ''Argument out of range.''
      else if error = PPP_ERROR_ILL_CHAR then ''Illegal character in input.''
      else if error = PPP_ERROR_TOO_LONG then ''Input too long.''
      else if error = PPP_ERROR_DISABLED then ''User state disabled.''
      else if error = PPP_ERROR_CONFIG then ''Unable to read config file.''
      else if error = PPP_ERROR_NOT_CONFIGURED then ''You have to edit otpasswd.conf and select correct DB option.''
      else if error = PPP_ERROR_CONFIG_OWNERSHIP then ''Configuration file should be owned by root.''
      else if error = PPP_ERROR_CONFIG_PERMISSIONS then ''Incorrect permissions for config file. Should be accessible only by root.''
      else if error = PPP_ERROR_SPASS_INCORRECT then ''Incorrect static password entered.''
      else ''Error occured while reading state. Try -v -v to determine which.'')"

end
