(* ===== verification/Ppp_State.thy ===== *)
theory Ppp_State
  imports Ppp
begin

text \<open>
  The state management of \<open>src/src/libotp/ppp.c\<close>: loading with a lock, releasing, key
  generation and the atomic combinations (increment, skip, failure counting, out-of-band time)
  that lock, load, change, store and unlock.
\<close>

abbreviation (input) PPP_CHECK_POLICY :: u32 where "PPP_CHECK_POLICY \<equiv> 1"
abbreviation (input) PPP_STORE :: u32 where "PPP_STORE \<equiv> 2"
abbreviation (input) PPP_UNLOCK :: u32 where "PPP_UNLOCK \<equiv> 4"
abbreviation (input) PPP_REMOVE :: u32 where "PPP_REMOVE \<equiv> 8"
abbreviation (input) PPP_DONT_LOCK :: u32 where "PPP_DONT_LOCK \<equiv> 16"

text \<open>\<open>mem\<close> is the memory \<open>malloc\<close> gives.\<close>

definition ppp_state_init :: "cfg_t option \<Rightarrow> string \<Rightarrow> state \<Rightarrow> world \<Rightarrow> (int \<times> state option \<times> world) option" where
  "ppp_state_init cfg user mem w =
     (let (nomem, w) = fault w
      in if nomem then Some (STATE_NOMEM, None, w)
         else do { (ret, s) \<leftarrow> state_init cfg user mem;
                   Some (ret, if ret = 0 then Some s else None, w) })"

definition ppp_state_fini :: "cfg_t \<Rightarrow> state \<Rightarrow> world \<Rightarrow> world option" where
  "ppp_state_fini cfg s w = map_option snd (state_fini cfg s w)"

definition ppp_load_checked :: "cfg_t \<Rightarrow> state \<Rightarrow> world \<Rightarrow> (int \<times> state \<times> world) option" where
  "ppp_load_checked cfg s w =
     do { (retval, s, w) \<leftarrow> state_load cfg s w;
          if retval \<noteq> 0 then Some (retval, s, w)
          else do { s \<leftarrow> ppp_calculate s;
                    retval \<leftarrow> ppp_verify_range s;
                    Some (retval, s, w) } }"

definition ppp_state_load :: "cfg_t \<Rightarrow> state \<Rightarrow> u32 \<Rightarrow> world \<Rightarrow> (int \<times> state \<times> world) option" where
  "ppp_state_load cfg s fl w =
     (if fl AND PPP_DONT_LOCK \<noteq> 0 then ppp_load_checked cfg s w
      else do { (retval, s, w) \<leftarrow> state_lock cfg s w;
                if retval \<noteq> 0 then Some (retval, s, w)
                else do { (retval, s, w) \<leftarrow> ppp_load_checked cfg s w;
                          if retval = 0 then Some (0, s, w)
                          else do { (_, s, w) \<leftarrow> state_unlock cfg s w; Some (retval, s, w) } } })"

definition ppp_state_release :: "cfg_t \<Rightarrow> state \<Rightarrow> u32 \<Rightarrow> world \<Rightarrow> (int \<times> state \<times> world) option" where
  "ppp_state_release cfg s fl w =
     do { assert_that (\<not> (fl AND PPP_STORE \<noteq> 0 \<and> fl AND PPP_REMOVE \<noteq> 0));
          if fl AND PPP_CHECK_POLICY \<noteq> 0 \<and> key_removal cfg = CONFIG_DISALLOW
          then Some (PPP_ERROR_POLICY, s, w)
          else do { (ret1, s, w) \<leftarrow>
                      (if fl AND PPP_REMOVE \<noteq> 0 then state_store cfg s True w
                       else if fl AND PPP_STORE \<noteq> 0 then state_store cfg s False w
                       else Some (0, s, w));
                    (ret2, s, w) \<leftarrow>
                      (if fl AND PPP_UNLOCK \<noteq> 0 then state_unlock cfg s w else Some (0, s, w));
                    Some (if ret1 \<noteq> 0 then ret1 else ret2, s, w) } }"

definition ppp_is_locked :: "state \<Rightarrow> bool" where
  "ppp_is_locked s \<longleftrightarrow> \<not> lock s \<le> 0"

text \<open>\<open>mem\<close> is the stack memory of the temporary state of the regeneration check.\<close>

definition ppp_key_generate :: "cfg_t \<Rightarrow> state \<Rightarrow> u32 \<Rightarrow> state \<Rightarrow> world \<Rightarrow> (int \<times> state \<times> world) option" where
  "ppp_key_generate cfg s fl mem w =
     do { assert_that (lock s = -1);
          (denied, w) \<leftarrow>
            (if fl AND PPP_CHECK_POLICY \<noteq> 0 \<and> key_regeneration cfg = CONFIG_DISALLOW
             then do { (ret, tmp_s) \<leftarrow> state_init (Some cfg) (username s) mem;
                       if ret \<noteq> 0 then Some (PPP_ERROR, w)
                       else do { (ret, tmp_s, w) \<leftarrow> ppp_state_load cfg tmp_s PPP_DONT_LOCK w;
                                 (_, w) \<leftarrow> state_fini cfg tmp_s w;
                                 Some (if ret = 0 then PPP_ERROR_POLICY else 0, w) } }
             else Some (0, w));
          if denied \<noteq> 0 then Some (denied, s, w)
          else Some (state_key_generate s w) }"

subsection \<open>Atomic combinations\<close>

definition ppp_increment :: "cfg_t \<Rightarrow> state \<Rightarrow> world \<Rightarrow> (int \<times> state \<times> world) option" where
  "ppp_increment cfg s w =
     do { (ret, s, w) \<leftarrow> ppp_state_load cfg s 0 w;
          if ret \<noteq> 0 then Some (ret, s, w)
          else do { ret \<leftarrow> ppp_state_verify cfg s;
                    let ret = (if ret \<noteq> 0 then ret
                               else if ppp_flag_check s FLAG_DISABLED then PPP_ERROR_DISABLED else 0);
                    if ret \<noteq> 0
                    then do { (_, s, w) \<leftarrow> ppp_state_release cfg s PPP_UNLOCK w; Some (ret, s, w) }
                    else do { let tmp = counter s;
                              (ret, s, w) \<leftarrow> ppp_state_release cfg
                                 (s\<lparr>counter := num_add (counter s) (num_i 1)\<rparr>) (PPP_STORE OR PPP_UNLOCK) w;
                              Some (ret, s\<lparr>counter := tmp\<rparr>, w) } } }"

definition ppp_skip :: "cfg_t \<Rightarrow> state \<Rightarrow> num_t \<Rightarrow> world \<Rightarrow> (int \<times> state \<times> world) option" where
  "ppp_skip cfg s skip_to w =
     do { (ret, s, w) \<leftarrow> ppp_state_load cfg s 0 w;
          if ret \<noteq> 0 then Some (ret, s, w)
          else do { ret \<leftarrow> ppp_state_verify cfg s;
                    let ret = (if ret \<noteq> 0 then ret
                               else if ppp_flag_check s FLAG_DISABLED then PPP_ERROR_DISABLED
                               else if num_cmp skip_to (max_code s) \<ge> 0 then PPP_ERROR_RANGE else 0);
                    if ret \<noteq> 0
                    then do { (_, s, w) \<leftarrow> ppp_state_release cfg s PPP_UNLOCK w; Some (ret, s, w) }
                    else let s = s\<lparr>counter := skip_to\<rparr>;
                             s = s\<lparr>counter := ppp_add_salt s (counter s)\<rparr>
                         in ppp_state_release cfg s (PPP_STORE OR PPP_UNLOCK) w } }"

text \<open>
  \<open>ppp_failures\<close> and \<open>ppp_oob_time\<close> differ in the change they make to a second state of the
  same user.
\<close>

definition ppp_update :: "cfg_t \<Rightarrow> string \<Rightarrow> state \<Rightarrow> (state \<Rightarrow> state) \<Rightarrow> world \<Rightarrow> (int \<times> world) option" where
  "ppp_update cfg user mem change w =
     do { (ret, s_tmp, w) \<leftarrow> ppp_state_init (Some cfg) user mem w;
          case s_tmp of
            None \<Rightarrow> Some (1, w)
          | Some s_tmp \<Rightarrow>
              do { (ret, s_tmp, w) \<leftarrow> ppp_state_load cfg s_tmp 0 w;
                   (ret, s_tmp, w) \<leftarrow>
                     (if ret \<noteq> 0 then Some (ret, s_tmp, w)
                      else ppp_state_release cfg (change s_tmp) (PPP_UNLOCK OR PPP_STORE) w);
                   w \<leftarrow> ppp_state_fini cfg s_tmp w;
                   Some (ret, w) } }"

definition ppp_failures :: "cfg_t \<Rightarrow> state \<Rightarrow> state \<Rightarrow> int \<Rightarrow> world \<Rightarrow> (int \<times> world) option" where
  "ppp_failures cfg s mem zero w =
     ppp_update cfg (username s) mem
       (\<lambda>t. if zero = 0 then t\<lparr>failures := failures t + 1, recent_failures := recent_failures t + 1\<rparr>
            else t\<lparr>recent_failures := 0\<rparr>) w"

definition ppp_oob_time :: "cfg_t \<Rightarrow> state \<Rightarrow> state \<Rightarrow> world \<Rightarrow> (int \<times> world) option" where
  "ppp_oob_time cfg s mem w =
     ppp_update cfg (username s) mem (\<lambda>t. t\<lparr>channel_time := w_now w\<rparr>) w"

end
