(* ===== verification/Ppp_Access.thy ===== *)
theory Ppp_Access
  imports Ppp_State
begin

text \<open>
  The accessors of \<open>src/src/libotp/ppp.c\<close>: getting and setting fields by number, the prompt, the
  flags and the static password.  An unknown field number runs into \<open>assert(0)\<close>.
\<close>

abbreviation (input) PPP_FIELD_FAILURES :: int where "PPP_FIELD_FAILURES \<equiv> 1"
abbreviation (input) PPP_FIELD_RECENT_FAILURES :: int where "PPP_FIELD_RECENT_FAILURES \<equiv> 2"
abbreviation (input) PPP_FIELD_CODE_LENGTH :: int where "PPP_FIELD_CODE_LENGTH \<equiv> 3"
abbreviation (input) PPP_FIELD_ALPHABET :: int where "PPP_FIELD_ALPHABET \<equiv> 4"
abbreviation (input) PPP_FIELD_FLAGS :: int where "PPP_FIELD_FLAGS \<equiv> 5"
abbreviation (input) PPP_FIELD_CODES_ON_CARD :: int where "PPP_FIELD_CODES_ON_CARD \<equiv> 6"
abbreviation (input) PPP_FIELD_CODES_IN_ROW :: int where "PPP_FIELD_CODES_IN_ROW \<equiv> 7"
abbreviation (input) PPP_FIELD_SPASS_SET :: int where "PPP_FIELD_SPASS_SET \<equiv> 8"
abbreviation (input) PPP_FIELD_KEY :: int where "PPP_FIELD_KEY \<equiv> 9"
abbreviation (input) PPP_FIELD_COUNTER :: int where "PPP_FIELD_COUNTER \<equiv> 10"
abbreviation (input) PPP_FIELD_UNSALTED_COUNTER :: int where "PPP_FIELD_UNSALTED_COUNTER \<equiv> 11"
abbreviation (input) PPP_FIELD_LATEST_CARD :: int where "PPP_FIELD_LATEST_CARD \<equiv> 12"
abbreviation (input) PPP_FIELD_CURRENT_CARD :: int where "PPP_FIELD_CURRENT_CARD \<equiv> 13"
abbreviation (input) PPP_FIELD_MAX_CARD :: int where "PPP_FIELD_MAX_CARD \<equiv> 14"
abbreviation (input) PPP_FIELD_MAX_CODE :: int where "PPP_FIELD_MAX_CODE \<equiv> 15"
abbreviation (input) PPP_FIELD_SPASS_TIME :: int where "PPP_FIELD_SPASS_TIME \<equiv> 16"
abbreviation (input) PPP_FIELD_CHANNEL_TIME :: int where "PPP_FIELD_CHANNEL_TIME \<equiv> 17"
abbreviation (input) PPP_FIELD_USERNAME :: int where "PPP_FIELD_USERNAME \<equiv> 18"
abbreviation (input) PPP_FIELD_PROMPT :: int where "PPP_FIELD_PROMPT \<equiv> 19"
abbreviation (input) PPP_FIELD_CONTACT :: int where "PPP_FIELD_CONTACT \<equiv> 20"
abbreviation (input) PPP_FIELD_LABEL :: int where "PPP_FIELD_LABEL \<equiv> 21"
abbreviation (input) PPP_FIELD_SPASS :: int where "PPP_FIELD_SPASS \<equiv> 22"

subsection \<open>Numbers\<close>

definition ppp_get_int :: "state \<Rightarrow> int \<Rightarrow> (int \<times> u32) option" where
  "ppp_get_int s field =
     (if field = PPP_FIELD_FAILURES then Some (0, failures s)
      else if field = PPP_FIELD_RECENT_FAILURES then Some (0, recent_failures s)
      else if field = PPP_FIELD_CODE_LENGTH then Some (0, code_length s)
      else if field = PPP_FIELD_ALPHABET then Some (0, alphabet s)
      else if field = PPP_FIELD_FLAGS then Some (0, flags s)
      else if field = PPP_FIELD_SPASS_SET then Some (0, word_of_int (spass_set s))
      else if field = PPP_FIELD_CODES_ON_CARD
      then do { assert_that (codes_on_card s \<noteq> 0); Some (0, codes_on_card s) }
      else if field = PPP_FIELD_CODES_IN_ROW
      then do { assert_that (codes_in_row s \<noteq> 0); Some (0, codes_in_row s) }
      else None)"

definition ppp_set_int :: "cfg_t \<Rightarrow> state \<Rightarrow> int \<Rightarrow> u32 \<Rightarrow> u32 \<Rightarrow> (int \<times> state) option" where
  "ppp_set_int cfg s field arg options =
     (if field = PPP_FIELD_FAILURES then Some (0, s\<lparr>failures := arg\<rparr>)
      else if field = PPP_FIELD_RECENT_FAILURES then Some (0, s\<lparr>recent_failures := arg\<rparr>)
      else if field = PPP_FIELD_CODE_LENGTH
      then let ret = ppp_verify_code_length cfg (sint arg)
           in Some (if ret \<noteq> 0 then (ret, s) else (0, s\<lparr>code_length := arg\<rparr>))
      else if field = PPP_FIELD_ALPHABET
      then let ret = ppp_verify_alphabet cfg (sint arg)
           in Some (if ret \<noteq> 0 then (ret, s) else (0, s\<lparr>alphabet := arg\<rparr>))
      else if field = PPP_FIELD_FLAGS
      then if arg > (FLAG_SHOW OR FLAG_SALTED OR FLAG_DISABLED) then Some (PPP_ERROR, s)
           else let ret = ppp_verify_flags cfg arg
                in Some (if ret \<noteq> 0 then (ret, s) else (0, s\<lparr>flags := arg\<rparr>))
      else None)"

definition ppp_get_num :: "state \<Rightarrow> int \<Rightarrow> (int \<times> num_t) option" where
  "ppp_get_num s field =
     (if field = PPP_FIELD_COUNTER then Some (0, counter s)
      else if field = PPP_FIELD_UNSALTED_COUNTER
      then Some (0, if salted s then num_and (counter s) (code_mask s) else counter s)
      else if field = PPP_FIELD_CURRENT_CARD then Some (0, current_card s)
      else if field = PPP_FIELD_LATEST_CARD then Some (0, latest_card s)
      else if field = PPP_FIELD_MAX_CARD then Some (0, max_card s)
      else if field = PPP_FIELD_MAX_CODE then Some (0, max_code s)
      else if field = PPP_FIELD_SPASS_TIME then Some (0, num_i (spass_time s))
      else if field = PPP_FIELD_CHANNEL_TIME then Some (0, num_i (channel_time s))
      else None)"

definition ppp_set_num :: "state \<Rightarrow> int \<Rightarrow> num_t \<Rightarrow> (int \<times> state) option" where
  "ppp_set_num s field arg =
     (if field = PPP_FIELD_LATEST_CARD then Some (0, s\<lparr>latest_card := arg\<rparr>) else None)"

subsection \<open>Strings and the prompt\<close>

definition print_2d :: "u8 \<Rightarrow> string" where
  "print_2d n = (if unat n < 10 then '' '' else []) @ nat_str upper_digit 10 (unat n)"

text \<open>
  The prompt and the state it leaves.  The size of the buffer is computed from the parts and
  the assertion compares it with what \<open>snprintf\<close> wanted to write.
\<close>

definition ppp_prompt_text :: "state \<Rightarrow> string \<Rightarrow> string" where
  "ppp_prompt_text s num =
     ''Passcode '' @ print_2d (current_row s) @ [char_of (unat (current_column s))] @ '' ['' @ num @ '']: ''"

definition ppp_get_prompt :: "state \<Rightarrow> bool \<Rightarrow> num_t \<Rightarrow> world \<Rightarrow> (state \<times> world) option" where
  "ppp_get_prompt s use_current cnt w =
     do { let s = s\<lparr>prompt := None\<rparr>;
          s \<leftarrow> (if \<not> use_current
               then let s = s\<lparr>counter := cnt\<rparr>; s = s\<lparr>counter := ppp_add_salt s (counter s)\<rparr>
                    in ppp_calculate s
               else do { assert_that (codes_on_card s > 0); Some s });
          num \<leftarrow> num_export (current_card s) NUM_FORMAT_DEC;
          let len = 9 + 3 + 5 + 1 + length num;
          let (nomem, w) = fault w;
          s \<leftarrow> (if nomem then Some s
               else do { assert_that (length (ppp_prompt_text s num) + 1 = len);
                         Some (s\<lparr>prompt := Some (ppp_prompt_text s num)\<rparr>) });
          s \<leftarrow> (if \<not> use_current then ppp_calculate (s\<lparr>counter := num_i 0\<rparr>) else Some s);
          Some (s, w) }"

text \<open>
  \<open>ppp_get_str\<close> gives the string, the state (the prompt is made on demand) and the world; the
  key is its thirty-two bytes.
\<close>

definition ppp_get_str :: "state \<Rightarrow> int \<Rightarrow> world \<Rightarrow> (int \<times> string option \<times> state \<times> world) option" where
  "ppp_get_str s field w =
     (if field = PPP_FIELD_USERNAME then Some (0, Some (username s), s, w)
      else if field = PPP_FIELD_PROMPT
      then do { (s, w) \<leftarrow> ppp_get_prompt s True num_zero w; Some (0, prompt s, s, w) }
      else if field = PPP_FIELD_CONTACT then Some (0, Some (contact s), s, w)
      else if field = PPP_FIELD_LABEL then Some (0, Some (label s), s, w)
      else if field = PPP_FIELD_KEY
      then Some (0, Some (map (\<lambda>b. char_of (unat b)) (sequence_key s)), s, w)
      else None)"

text \<open>\<open>arg\<close> may be NULL; its validation then reads through the null pointer.\<close>

definition ppp_set_str :: "cfg_t \<Rightarrow> state \<Rightarrow> int \<Rightarrow> string option \<Rightarrow> u32 \<Rightarrow> (int \<times> state) option" where
  "ppp_set_str cfg s field arg options =
     (let len = (case arg of None \<Rightarrow> 0 | Some a \<Rightarrow> length a)
      in if field = PPP_FIELD_CONTACT
         then if options AND PPP_CHECK_POLICY \<noteq> 0 \<and> contact_change cfg = CONFIG_DISALLOW
              then Some (PPP_ERROR_POLICY, s)
              else if len + 1 > STATE_CONTACT_SIZE then Some (PPP_ERROR_TOO_LONG, s)
              else do { a \<leftarrow> arg;
                        Some (if \<not> state_validate_str a then (PPP_ERROR_ILL_CHAR, s)
                              else (0, s\<lparr>contact := a\<rparr>)) }
         else if field = PPP_FIELD_LABEL
         then if options AND PPP_CHECK_POLICY \<noteq> 0 \<and> label_change cfg = CONFIG_DISALLOW
              then Some (PPP_ERROR_POLICY, s)
              else if len + 1 > STATE_LABEL_SIZE then Some (PPP_ERROR_TOO_LONG, s)
              else do { a \<leftarrow> arg;
                        Some (if \<not> state_validate_str a then (PPP_ERROR_ILL_CHAR, s)
                              else (0, s\<lparr>label := a\<rparr>)) }
         else None)"

definition ppp_flag_add :: "state \<Rightarrow> u32 \<Rightarrow> state" where
  "ppp_flag_add s fl = s\<lparr>flags := flags s OR fl\<rparr>"

definition ppp_flag_del :: "state \<Rightarrow> u32 \<Rightarrow> state" where
  "ppp_flag_del s fl = s\<lparr>flags := flags s AND NOT fl\<rparr>"

subsection \<open>The static password\<close>

abbreviation (input) PPP_ERROR_SPASS_SHORT :: u32 where "PPP_ERROR_SPASS_SHORT \<equiv> 1"
abbreviation (input) PPP_ERROR_SPASS_NO_DIGITS :: u32 where "PPP_ERROR_SPASS_NO_DIGITS \<equiv> 2"
abbreviation (input) PPP_ERROR_SPASS_NO_UPPERCASE :: u32 where "PPP_ERROR_SPASS_NO_UPPERCASE \<equiv> 4"
abbreviation (input) PPP_ERROR_SPASS_NO_SPECIAL :: u32 where "PPP_ERROR_SPASS_NO_SPECIAL \<equiv> 8"
abbreviation (input) PPP_ERROR_SPASS_ILLEGAL_CHARACTER :: u32 where "PPP_ERROR_SPASS_ILLEGAL_CHARACTER \<equiv> 16"
abbreviation (input) PPP_ERROR_SPASS_NON_ASCII :: u32 where "PPP_ERROR_SPASS_NON_ASCII \<equiv> 32"
abbreviation (input) PPP_ERROR_SPASS_POLICY :: u32 where "PPP_ERROR_SPASS_POLICY \<equiv> 64"
abbreviation (input) PPP_ERROR_SPASS_SET :: u32 where "PPP_ERROR_SPASS_SET \<equiv> 128"
abbreviation (input) PPP_ERROR_SPASS_UNSET :: u32 where "PPP_ERROR_SPASS_UNSET \<equiv> 256"

record spass_counts =
  sc_length :: int
  sc_digits :: int
  sc_uppercase :: int
  sc_special :: int

fun spass_scan :: "string \<Rightarrow> spass_counts \<Rightarrow> u32 + spass_counts" where
  "spass_scan [] n = Inr n"
| "spass_scan (c # s) n =
     (let n = n\<lparr>sc_length := sc_length n + 1\<rparr>
      in if \<not> isascii c then Inl PPP_ERROR_SPASS_NON_ASCII
         else if isdigit c then spass_scan s (n\<lparr>sc_digits := sc_digits n + 1\<rparr>)
         else if isupper c then spass_scan s (n\<lparr>sc_uppercase := sc_uppercase n + 1\<rparr>)
         else if islower c then spass_scan s n
         else if isspace c then spass_scan s n
         else if isgraph c then spass_scan s (n\<lparr>sc_special := sc_special n + 1\<rparr>)
         else Inl PPP_ERROR_SPASS_ILLEGAL_CHARACTER)"

definition verify_spass :: "cfg_t \<Rightarrow> string \<Rightarrow> u32" where
  "verify_spass cfg str =
     (case spass_scan str \<lparr>sc_length = int (length str), sc_digits = 0, sc_uppercase = 0, sc_special = 0\<rparr> of
        Inl e \<Rightarrow> e
      | Inr n \<Rightarrow>
          (if spass_min_length cfg > sc_length n then PPP_ERROR_SPASS_SHORT else 0) OR
          (if sc_digits n < spass_require_digit cfg then PPP_ERROR_SPASS_NO_DIGITS else 0) OR
          (if sc_uppercase n < spass_require_uppercase cfg then PPP_ERROR_SPASS_NO_UPPERCASE else 0) OR
          (if sc_special n < spass_require_special cfg then PPP_ERROR_SPASS_NO_SPECIAL else 0))"

text \<open>
  The result of the hash call is not looked at; \<open>sha_buf\<close> is the stack buffer it fills.
\<close>

definition ppp_set_spass :: "cfg_t \<Rightarrow> state \<Rightarrow> string option \<Rightarrow> u32 \<Rightarrow> bytes \<Rightarrow> world \<Rightarrow> u32 \<times> state \<times> world" where
  "ppp_set_spass cfg s str fl sha_buf w =
     (if fl AND PPP_CHECK_POLICY \<noteq> 0 \<and> spass_change cfg = CONFIG_DISALLOW
      then (PPP_ERROR_SPASS_POLICY, s, w)
      else case str of
             None \<Rightarrow> (PPP_ERROR_SPASS_UNSET, s\<lparr>spass_set := 0, spass := replicate 40 0\<rparr>, w)
           | Some str \<Rightarrow>
               let errors = verify_spass cfg str
               in if fl AND PPP_CHECK_POLICY \<noteq> 0 \<and> errors \<noteq> 0 then (errors, s, w)
                  else let (_, h, w) = crypto_salted_sha256 (map (\<lambda>c. of_nat (code c)) str) sha_buf w
                       in (errors OR PPP_ERROR_SPASS_SET,
                           s\<lparr>spass := h, spass_set := 1, spass_time := w_now w\<rparr>, w))"

definition ppp_spass_validate :: "state \<Rightarrow> string \<Rightarrow> world \<Rightarrow> int \<times> world" where
  "ppp_spass_validate s str w =
     (if spass_set s \<noteq> 1 then (PPP_ERROR_SPASS_INCORRECT, w)
      else let (r, w) = crypto_verify_salted_sha256 (spass s) (map (\<lambda>c. of_nat (code c)) str) w
           in (if r \<noteq> 0 then PPP_ERROR_SPASS_INCORRECT else 0, w))"

end
