(* ===== verification/Pam.thy ===== *)
theory Pam
  imports Ppp_Access
begin

text \<open>
  The PAM module: \<open>src/src/pam/pam_helpers.c\<close> and \<open>pam_otpasswd.c\<close>.  What the user answers to
  the prompts is a list; messages, prompts and out-of-band deliveries are recorded in
  \<open>pam_io\<close>.  The return codes of PAM are those of Linux-PAM.
\<close>

abbreviation (input) PAM_SUCCESS :: int where "PAM_SUCCESS \<equiv> 0"
abbreviation (input) PAM_SERVICE_ERR :: int where "PAM_SERVICE_ERR \<equiv> 3"
abbreviation (input) PAM_AUTH_ERR :: int where "PAM_AUTH_ERR \<equiv> 7"
abbreviation (input) PAM_USER_UNKNOWN :: int where "PAM_USER_UNKNOWN \<equiv> 10"
abbreviation (input) PAM_IGNORE :: int where "PAM_IGNORE \<equiv> 25"

abbreviation (input) OOB_DISABLED :: int where "OOB_DISABLED \<equiv> 0"
abbreviation (input) OOB_REQUEST :: int where "OOB_REQUEST \<equiv> 1"
abbreviation (input) OOB_SECURE_REQUEST :: int where "OOB_SECURE_REQUEST \<equiv> 2"
abbreviation (input) OOB_ALWAYS :: int where "OOB_ALWAYS \<equiv> 3"

text \<open>
  An answer is a response structure or NULL (\<open>None\<close>), whose text may be NULL.  \<open>e_child\<close> is what
  \<open>waitpid\<close> reports in the k-th poll of the delivery script and \<open>e_mem\<close> the uninitialised memory
  of temporary states.
\<close>

type_synonym answer = "string option option"

datatype wait_result = Child_running | Child_done | Wait_error

record pam_env =
  e_child :: "nat \<Rightarrow> wait_result"
  e_mem :: state

record pam_io =
  io_queries :: "(bool \<times> string option) list"
  io_shown :: "string list"
  io_oob :: "(string \<times> string) list"

subsection \<open>Talking with the user\<close>

fun ph_query_user :: "bool \<Rightarrow> string option \<Rightarrow> answer list \<Rightarrow> pam_io \<Rightarrow> answer \<times> answer list \<times> pam_io" where
  "ph_query_user echo p [] io = (None, [], io\<lparr>io_queries := io_queries io @ [(echo, p)]\<rparr>)"
| "ph_query_user echo p (a # answers) io = (a, answers, io\<lparr>io_queries := io_queries io @ [(echo, p)]\<rparr>)"

definition ph_show_message :: "cfg_t \<Rightarrow> string \<Rightarrow> pam_io \<Rightarrow> pam_io" where
  "ph_show_message cfg msg io =
     (if pam_silent cfg = CONFIG_ENABLED then io else io\<lparr>io_shown := io_shown io @ [msg]\<rparr>)"

fun ph_parse_args :: "string list \<Rightarrow> cfg_t \<Rightarrow> cfg_t" where
  "ph_parse_args [] cfg = cfg"
| "ph_parse_args (a # argv) cfg =
     ph_parse_args argv
       (if a = ''audit'' then cfg\<lparr>pam_logging := 2\<rparr>
        else if a = ''debug'' then cfg\<lparr>pam_logging := 3\<rparr>
        else if a = ''silent'' then cfg\<lparr>pam_silent := CONFIG_ENABLED\<rparr>
        else cfg)"

definition ph_parse_module_options :: "bool \<Rightarrow> string list \<Rightarrow> cfg_t \<Rightarrow> cfg_t" where
  "ph_parse_module_options silent argv cfg =
     (let cfg = ph_parse_args argv cfg
      in if silent then cfg\<lparr>pam_silent := CONFIG_ENABLED\<rparr> else cfg)"

subsection \<open>Out-of-band delivery\<close>

text \<open>The parent polls at most 200 times; \<open>k\<close> counts the polls done.\<close>

function oob_wait :: "(nat \<Rightarrow> wait_result) \<Rightarrow> nat \<Rightarrow> int" where
  "oob_wait child k =
     (if k < 200
      then case child k of
             Child_done \<Rightarrow> 0
           | Wait_error \<Rightarrow> 1
           | Child_running \<Rightarrow> oob_wait child (Suc k)
      else 2)"
  by pat_completeness auto
termination by (relation "measure (\<lambda>(c, k). 200 - k)") auto

declare oob_wait.simps [simp del]

definition oob_script_ok :: "cfg_t \<Rightarrow> inode option \<Rightarrow> bool" where
  "oob_script_ok cfg st =
     (case st of
        None \<Rightarrow> False
      | Some st \<Rightarrow>
          f_kind st = Regular \<and> f_mode st AND 0xC00 = 0 \<and>
          (f_mode st AND 1 \<noteq> 0 \<or>
           (f_mode st AND 0x40 \<noteq> 0 \<and> f_uid st = pam_oob_uid cfg) \<or>
           (f_mode st AND 8 \<noteq> 0 \<and> f_gid st = pam_oob_gid cfg)))"

definition ph_oob_send :: "cfg_t \<Rightarrow> pam_env \<Rightarrow> state \<Rightarrow> pam_io \<Rightarrow> world \<Rightarrow> (int \<times> pam_io \<times> world) option" where
  "ph_oob_send cfg env s io w =
     do { assert_that (\<not> ppp_is_locked s);
          if pam_oob cfg = 0 then Some (1, io, w)
          else do {
            (_, time_last) \<leftarrow> ppp_get_num s PPP_FIELD_CHANNEL_TIME;
            let time_diff = num_sub (num_i (w_now w)) time_last;
            if num_cmp_i time_diff (word_of_int (pam_oob_delay cfg)) < 0
            then Some (1, ph_show_message cfg ''Not enough delay between two OTP uses.'' io, w)
            else do {
              let (st, w) = os_stat (pam_oob_path cfg) w;
              if \<not> oob_script_ok cfg st then Some (2, io, w)
              else do {
                (r, current_passcode) \<leftarrow> ppp_get_current cfg s (Some []);
                if r \<noteq> 0 then Some (r, io, w)
                else if contact s = [] then Some (2, io, w)
                else do {
                  (r, w) \<leftarrow> ppp_oob_time cfg s (e_mem env) w;
                  if r \<noteq> 0 then Some (2, io, w)
                  else do {
                    assert_that (length (contact s) < STATE_CONTACT_SIZE - 1);
                    let (bad, w) = fault w;
                    if bad then Some (1, io, w)
                    else Some (oob_wait (e_child env) 0,
                               io\<lparr>io_oob := io_oob io @ [(contact s, the current_passcode)]\<rparr>, w) } } } } } }"

subsection \<open>The static password\<close>

definition ph_validate_spass ::
    "state option \<Rightarrow> answer list \<Rightarrow> pam_io \<Rightarrow> world \<Rightarrow> (int \<times> answer list \<times> pam_io \<times> world) option" where
  "ph_validate_spass s answers io w =
     (let (pr, answers, io) = ph_query_user False (Some ''Static password: '') answers io
      in case s of
           None \<Rightarrow> Some (1, answers, io, w)
         | Some s \<Rightarrow>
             do { resp \<leftarrow> pr;
                  if spass_set s \<noteq> 1 then Some (PPP_ERROR_SPASS_INCORRECT, answers, io, w)
                  else do { str \<leftarrow> resp;
                            let (r, w) = ppp_spass_validate s str w;
                            Some (r, answers, io, w) } })"

subsection \<open>Reserving a passcode\<close>

definition ph_increment :: "cfg_t \<Rightarrow> state \<Rightarrow> pam_io \<Rightarrow> world \<Rightarrow> (int \<times> state \<times> pam_io \<times> world) option" where
  "ph_increment cfg s io w =
     do { (r, s, w) \<leftarrow> ppp_increment cfg s w;
          let show = (\<lambda>m. ph_show_message cfg m io);
          let enforced = show ''OTP: Key not generated, unable to login.'';
          Some (if r = 0 then (0, s, io, w)
                else if r = STATE_NUMSPACE
                then (PAM_AUTH_ERR, s, show ''OTP: Passcode counter overflowed or state file corrupted. Regenerate key.'', w)
                else if r = STATE_LOCK_ERROR
                then (PAM_AUTH_ERR, s, show ''OTP: Unable to lock state file.'', w)
                else if r = STATE_NO_USER_HOME \<or> r = STATE_NON_EXISTENT
                then if pam_enforce cfg = CONFIG_ENABLED \<and> db cfg = CONFIG_DB_USER
                     then (PAM_AUTH_ERR, s, enforced, w) else (PAM_IGNORE, s, io, w)
                else if r = STATE_NO_USER_ENTRY
                then if pam_enforce cfg = CONFIG_ENABLED
                     then (PAM_AUTH_ERR, s, enforced, w) else (PAM_IGNORE, s, io, w)
                else if r = PPP_ERROR_POLICY
                then (PAM_AUTH_ERR, s, show ''OTP: Your state is inconsistent with system policy. Contact administrator.'', w)
                else if r = PPP_ERROR_RANGE
                then (PAM_AUTH_ERR, s, show ''OTP: Your state is invalid. Contact administrator.'', w)
                else if r = PPP_ERROR_DISABLED
                then if pam_enforce cfg = CONFIG_ENABLED
                     then (PAM_AUTH_ERR, s, show ''OTP: Your state is disabled. Unable to authenticate. Contact administrator.'', w)
                     else (PAM_IGNORE, s, io, w)
                else (PAM_AUTH_ERR, s, io, w)) }"

subsection \<open>Initialisation\<close>

text \<open>\<open>pam_user\<close> is the result of \<open>pam_get_user\<close> and the name it gives.\<close>

definition ph_init ::
    "cfg_t option \<Rightarrow> bool \<Rightarrow> string list \<Rightarrow> int \<times> string option \<Rightarrow> state \<Rightarrow> world \<Rightarrow>
     (int \<times> (cfg_t \<times> state) option \<times> world) option" where
  "ph_init cfg silent argv pam_user mem w =
     do { c \<leftarrow> cfg;
          (r, w) \<leftarrow> ppp_init cfg 128 w;
          if r \<noteq> 0 then Some (PAM_SERVICE_ERR, None, w)
          else do {
            let c = ph_parse_module_options silent argv c;
            assert_that (pam_logging c \<in> {0..3});
            case snd pam_user of
              None \<Rightarrow> Some (PAM_USER_UNKNOWN, None, w)
            | Some user \<Rightarrow>
                if fst pam_user \<noteq> PAM_SUCCESS then Some (PAM_USER_UNKNOWN, None, w)
                else if user = [] then Some (PAM_USER_UNKNOWN, None, w)
                else do {
                  (r, s, w) \<leftarrow> ppp_state_init (Some c) user mem w;
                  Some (case s of
                          None \<Rightarrow> (PAM_USER_UNKNOWN, None, w)
                        | Some s \<Rightarrow> if username s = [] then (PAM_AUTH_ERR, None, w)
                                    else (0, Some (c, s), w)) } } }"

subsection \<open>Authentication\<close>

record auth_loop =
  l_tries :: int
  l_first_try :: bool
  l_dont_increment :: bool
  l_oob_sent :: bool
  l_prompt :: "string option"
  l_retval :: int

datatype step_result = Cleanup int | Again auth_loop

text \<open>Taking the next passcode at the start of a round; the result is 0 or the code to leave with.\<close>

definition auth_reserve ::
    "cfg_t \<Rightarrow> auth_loop \<Rightarrow> state \<Rightarrow> pam_io \<Rightarrow> world \<Rightarrow> (int \<times> auth_loop \<times> state \<times> pam_io \<times> world) option" where
  "auth_reserve cfg l s io w =
     (if l_first_try l \<or> pam_retry cfg = 1
      then let l = l\<lparr>l_first_try := False\<rparr>
           in if l_dont_increment l then Some (0, l\<lparr>l_dont_increment := False\<rparr>, s, io, w)
              else do { (r, s, io, w) \<leftarrow> ph_increment cfg s io w;
                        if r \<noteq> 0 then Some (r, l, s, io, w)
                        else do { (r, p, s, w) \<leftarrow> ppp_get_str s PPP_FIELD_PROMPT w;
                                  Some (if r \<noteq> 0 \<or> p = None then PAM_AUTH_ERR else 0, l\<lparr>l_prompt := p\<rparr>, s, io, w) } }
      else Some (0, l, s, io, w))"

text \<open>The answer \<open>.\<close>: a request for out-of-band delivery.\<close>

definition auth_dot ::
    "cfg_t \<Rightarrow> pam_env \<Rightarrow> auth_loop \<Rightarrow> answer list \<Rightarrow> state \<Rightarrow> pam_io \<Rightarrow> world \<Rightarrow>
     (auth_loop \<times> answer list \<times> pam_io \<times> world) option" where
  "auth_dot cfg env l answers s io w =
     (if l_oob_sent l
      then Some (l\<lparr>l_dont_increment := True\<rparr>, answers,
                 ph_show_message cfg ''Out-of-band message already sent.'' io, w)
      else if pam_oob cfg = OOB_REQUEST
      then do { (r, io, w) \<leftarrow> ph_oob_send cfg env s io w;
                Some (if r = 0
                      then (l\<lparr>l_oob_sent := True, l_dont_increment := True\<rparr>, answers,
                            ph_show_message cfg ''Out-of-band message sent.'' io, w)
                      else (l\<lparr>l_dont_increment := True\<rparr>, answers, io, w)) }
      else if pam_oob cfg = OOB_SECURE_REQUEST
      then do { (r, answers, io, w) \<leftarrow> ph_validate_spass (Some s) answers io w;
                if r = 0
                then do { (r, io, w) \<leftarrow> ph_oob_send cfg env s io w;
                          Some (if r = 0
                                then (l\<lparr>l_oob_sent := True, l_dont_increment := True\<rparr>, answers,
                                      ph_show_message cfg ''Out-of-band message sent.'' io, w)
                                else (l\<lparr>l_dont_increment := True\<rparr>, answers, io, w)) }
                else Some (l\<lparr>l_tries := l_tries l + 1, l_dont_increment := True\<rparr>, answers, io, w) }
      else None)"

text \<open>What the answer leads to.\<close>

definition auth_answer ::
    "cfg_t \<Rightarrow> pam_env \<Rightarrow> auth_loop \<Rightarrow> answer \<Rightarrow> answer list \<Rightarrow> state \<Rightarrow> pam_io \<Rightarrow> world \<Rightarrow>
     (step_result \<times> answer list \<times> state \<times> pam_io \<times> world) option" where
  "auth_answer cfg env l resp answers s io w =
     (case resp of
        None \<Rightarrow> Some (Cleanup PAM_AUTH_ERR, answers, s, io, w)
      | Some text \<Rightarrow>
          do { str \<leftarrow> text;
               if str = ''.''
               then do { (l, answers, io, w) \<leftarrow> auth_dot cfg env l answers s io w;
                         Some (Again l, answers, s, io, w) }
               else do { let l = l\<lparr>l_tries := l_tries l + 1\<rparr>;
                         r \<leftarrow> ppp_authenticate cfg s (Some str);
                         if r = 0 then Some (Cleanup PAM_SUCCESS, answers, s, io, w)
                         else do { (_, w) \<leftarrow> ppp_failures cfg s (e_mem env) 0 w;
                                   Some (Again l, answers, s, io, w) } } })"

definition auth_step ::
    "cfg_t \<Rightarrow> pam_env \<Rightarrow> auth_loop \<Rightarrow> answer list \<Rightarrow> state \<Rightarrow> pam_io \<Rightarrow> world \<Rightarrow>
     (step_result \<times> answer list \<times> state \<times> pam_io \<times> world) option" where
  "auth_step cfg env l answers s io w =
     do { (r, l, s, io, w) \<leftarrow> auth_reserve cfg l s io w;
          if r \<noteq> 0 then Some (Cleanup r, answers, s, io, w)
          else do {
            (io, w) \<leftarrow> (if pam_oob cfg = OOB_ALWAYS
                       then do { (_, io, w) \<leftarrow> ph_oob_send cfg env s io w; Some (io, w) }
                       else Some (io, w));
            let (resp, answers, io) = ph_query_user (ppp_flag_check s FLAG_SHOW) (l_prompt l) answers io;
            auth_answer cfg env (l\<lparr>l_retval := PAM_AUTH_ERR\<rparr>) resp answers s io w } }"

text \<open>Every round that goes on has taken an answer, so the loop ends with the answers.\<close>

lemma ph_query_user_length: "ph_query_user echo p as io = (a, as', io') \<Longrightarrow> length as' \<le> length as"
  by (cases as) auto

lemma ph_query_user_answered: "ph_query_user echo p as io = (Some a, as', io') \<Longrightarrow> length as' < length as"
  by (cases as) auto

lemma ph_validate_spass_length:
  "ph_validate_spass s as io w = Some (r, as', io', w') \<Longrightarrow> length as' \<le> length as"
proof -
  obtain pr as1 io1 where q: "ph_query_user False (Some ''Static password: '') as io = (pr, as1, io1)"
    by (cases "ph_query_user False (Some ''Static password: '') as io") auto
  assume "ph_validate_spass s as io w = Some (r, as', io', w')"
  then have "as' = as1"
    by (auto simp: ph_validate_spass_def q bind_eq_Some_conv split_beta split: option.splits if_splits)
  then show ?thesis using ph_query_user_length [OF q] by simp
qed

lemma auth_dot_length:
  "auth_dot cfg env l as s io w = Some (l', as', io', w') \<Longrightarrow> length as' \<le> length as"
  by (auto simp: auth_dot_def bind_eq_Some_conv split: if_splits dest!: ph_validate_spass_length)

lemma auth_answer_length:
  "auth_answer cfg env l resp as s io w = Some (Again l', as', s', io', w') \<Longrightarrow>
   resp \<noteq> None \<and> length as' \<le> length as"
  by (auto simp: auth_answer_def bind_eq_Some_conv split: option.splits if_splits dest: auth_dot_length)

lemma auth_step_length:
  assumes "auth_step cfg env l as s io w = Some (Again l', as', s', io', w')"
  shows "length as' < length as"
proof -
  obtain l1 s1 io1 io2 w1 echo p resp as1 where
    q: "ph_query_user echo p as io1 = (resp, as1, io2)" and
    "auth_answer cfg env l1 resp as1 s1 io2 w1 = Some (Again l', as', s', io', w')"
    using assms by (auto simp: auth_step_def bind_eq_Some_conv split_beta split: if_splits) (metis prod.exhaust_sel)+
  then show ?thesis
    using auth_answer_length [of cfg env l1 resp as1 s1 io2 w1] ph_query_user_answered [of echo p as io1] q
    by fastforce
qed

function auth_rounds ::
    "cfg_t \<Rightarrow> pam_env \<Rightarrow> auth_loop \<Rightarrow> answer list \<Rightarrow> state \<Rightarrow> pam_io \<Rightarrow> world \<Rightarrow>
     (int \<times> state \<times> pam_io \<times> world) option" where
  "auth_rounds cfg env l answers s io w =
     (if l_tries l < (if pam_retry cfg = 0 then 1 else pam_retries cfg)
      then case auth_step cfg env l answers s io w of
             None \<Rightarrow> None
           | Some (Cleanup r, answers, s, io, w) \<Rightarrow> Some (r, s, io, w)
           | Some (Again l, answers, s, io, w) \<Rightarrow> auth_rounds cfg env l answers s io w
      else Some (l_retval l, s, io, w))"
  by pat_completeness auto
termination
  by (relation "measure (\<lambda>(cfg, env, l, answers, s, io, w). length answers)")
     (auto dest: auth_step_length)

declare auth_rounds.simps [simp del]

definition auth_start :: "int \<Rightarrow> auth_loop" where
  "auth_start r =
     \<lparr>l_tries = 0, l_first_try = True, l_dont_increment = False, l_oob_sent = False, l_prompt = None,
      l_retval = r\<rparr>"

text \<open>The static password asked for before the passcode; the Boolean says whether to go on.\<close>

definition auth_spass ::
    "cfg_t \<Rightarrow> answer list \<Rightarrow> state \<Rightarrow> pam_io \<Rightarrow> world \<Rightarrow> (bool \<times> int \<times> answer list \<times> state \<times> pam_io \<times> world) option" where
  "auth_spass cfg answers s io w =
     (if pam_spass_require cfg = CONFIG_ENABLED
      then do { (retval, s, w) \<leftarrow> ppp_state_load cfg s PPP_DONT_LOCK w;
                (r, answers, io, w) \<leftarrow> ph_validate_spass (if retval = 0 then Some s else None) answers io w;
                Some (r = 0, retval, answers, s, io, w) }
      else Some (True, 0, answers, s, io, w))"

definition pam_sm_authenticate ::
    "cfg_t option \<Rightarrow> bool \<Rightarrow> string list \<Rightarrow> int \<times> string option \<Rightarrow> pam_env \<Rightarrow> answer list \<Rightarrow> pam_io \<Rightarrow> world \<Rightarrow>
     (int \<times> pam_io \<times> world) option" where
  "pam_sm_authenticate cfg silent argv pam_user env answers io w =
     do { (r, cs, w) \<leftarrow> ph_init cfg silent argv pam_user (e_mem env) w;
          case cs of
            None \<Rightarrow> Some (r, io, w)
          | Some (cfg, s) \<Rightarrow>
              do { (go_on, retval, answers, s, io, w) \<leftarrow> auth_spass cfg answers s io w;
                   if \<not> go_on then Some (PAM_AUTH_ERR, io, w)
                   else do { (r, s, io, w) \<leftarrow> auth_rounds cfg env (auth_start retval) answers s io w;
                             w \<leftarrow> ppp_state_fini cfg s w;
                             Some (r, io, w) } } }"

subsection \<open>The session\<close>

lemma and_not_less:
  fixes x b :: u32
  assumes "x AND b \<noteq> 0"
  shows "unat (x AND NOT b) < unat x"
proof -
  have "x = (x AND NOT b) + (x AND b)"
    by (subst disjunctive_add_eq_or) (auto simp: bit_eq_iff bit_simps)
  moreover have "x AND NOT b \<le> x" by (rule word_and_le2)
  ultimately have "x AND NOT b < x" using assms by (metis add.right_neutral add_left_cancel order_le_less)
  then show ?thesis by (simp add: word_less_nat_alt)
qed

lemma warning_shrinks:
  "ppp_get_warning_message s x = Some (Some m, y) \<Longrightarrow> unat y < unat x"
  using and_not_less [of x 4]
  by (auto simp: ppp_get_warning_message_def Let_def bind_eq_Some_conv split: if_splits)

function show_warnings :: "cfg_t \<Rightarrow> state \<Rightarrow> u32 \<Rightarrow> pam_io \<Rightarrow> pam_io option" where
  "show_warnings cfg s err_copy io =
     (case ppp_get_warning_message s err_copy of
        None \<Rightarrow> None
      | Some (None, _) \<Rightarrow> Some io
      | Some (Some msg, err_copy) \<Rightarrow>
          show_warnings cfg s err_copy (ph_show_message cfg (take 299 (''*** OTP Warning: '' @ msg)) io))"
  by pat_completeness auto
termination
  by (relation "measure (\<lambda>(cfg, s, x, io). unat x)") (auto dest: warning_shrinks)

declare show_warnings.simps [simp del]

definition pam_sm_open_session ::
    "cfg_t option \<Rightarrow> bool \<Rightarrow> string list \<Rightarrow> int \<times> string option \<Rightarrow> pam_env \<Rightarrow> pam_io \<Rightarrow> world \<Rightarrow>
     (int \<times> pam_io \<times> world) option" where
  "pam_sm_open_session cfg silent argv pam_user env io w =
     do { (r, cs, w) \<leftarrow> ph_init cfg silent argv pam_user (e_mem env) w;
          case cs of
            None \<Rightarrow> Some (r, io, w)
          | Some (cfg, s) \<Rightarrow>
              do { (r, s, w) \<leftarrow> ppp_state_load cfg s 0 w;
                   (s, io, w) \<leftarrow>
                     (if r \<noteq> 0 then Some (s, io, w)
                      else do {
                        err \<leftarrow> ppp_get_warning_conditions s;
                        (release_flags, s, io) \<leftarrow>
                          (if err = 0 then Some (0, s, io)
                           else do {
                             io \<leftarrow> show_warnings cfg s err io;
                             if err AND PPP_WARN_RECENT_FAILURES \<noteq> 0
                             then do { (_, s) \<leftarrow> ppp_set_int cfg s PPP_FIELD_RECENT_FAILURES 0 PPP_CHECK_POLICY;
                                       Some (PPP_STORE, s, io) }
                             else Some (0, s, io) });
                        (_, s, w) \<leftarrow> ppp_state_release cfg s (PPP_UNLOCK OR release_flags) w;
                        Some (s, io, w) });
                   w \<leftarrow> ppp_state_fini cfg s w;
                   Some (PAM_IGNORE, io, w) } }"

definition pam_sm_setcred :: "int" where
  "pam_sm_setcred = PAM_IGNORE"

definition pam_sm_close_session :: "int" where
  "pam_sm_close_session = PAM_IGNORE"

end
