(* ===== verification/Db_Entry.thy ===== *)
theory Db_Entry
  imports State_Db
begin

text \<open>
  The line of a user in the state file: every state the program can hold is printed as a line
  of fifteen plain fields, and parsing that line restores every stored field.  The interface
  \<open>codec\<close> is interpreted on the printer and the parser of entries.
\<close>

subsection \<open>Plain fields\<close>

definition plain :: "string \<Rightarrow> bool" where
  "plain f \<longleftrightarrow> CHR '':'' \<notin> set f \<and> CHR 0x0A \<notin> set f \<and> CHR 0x00 \<notin> set f"

lemma plain_append [simp]: "plain (f @ g) \<longleftrightarrow> plain f \<and> plain g"
  by (auto simp: plain_def)

lemma plain_Nil [simp]: "plain []"
  by (simp add: plain_def)

lemma plain_digits: "list_all (digit_in b) f \<Longrightarrow> plain f"
  using digit_not_special(6-8) by (fastforce simp: plain_def list_all_iff)

lemma validate_plain: "state_validate_str f \<Longrightarrow> plain f"
  by (auto simp: plain_def state_validate_str_def list_all_iff isalnum_def ctype_defs code_def)

lemma strtok_plain [simp]: "plain f \<Longrightarrow> strtok_cut f = f" "plain f \<Longrightarrow> strtok_cut (f @ [CHR 0x0A]) = f"
proof -
  assume f: "plain f"
  then have "\<forall>c \<in> set f. c \<noteq> CHR 0x0A" by (auto simp: plain_def)
  then show "strtok_cut f = f" "strtok_cut (f @ [CHR 0x0A]) = f"
    by (simp_all add: strtok_cut_def takeWhile_eq_all_conv takeWhile_append2)
qed

lemma split_at_one: "d \<notin> set f \<Longrightarrow> split_at d f = [f]"
  by (induction f) auto

lemma split_at_more: "d \<notin> set f \<Longrightarrow> split_at d (f @ d # r) = f # split_at d r"
  by (induction f) auto

lemma db_parse_loop_ok:
  "i + length fs = 15 \<Longrightarrow> list_all (\<lambda>f. length f \<le> 80) fs \<Longrightarrow>
   (i = 0 \<longrightarrow> scan_u32 10 (fs ! 1) = Some 1) \<Longrightarrow> (i = 1 \<longrightarrow> scan_u32 10 (fs ! 0) = Some 1) \<Longrightarrow>
   db_parse_loop i fs = 0"
proof (induction fs arbitrary: i)
  case Nil
  then show ?case by (simp add: db_parse_loop.simps)
next
  case (Cons f fs)
  then have "db_parse_loop (Suc i) fs = 0" by (intro Cons.IH) auto
  with Cons.prems show ?case by (subst db_parse_loop.simps) auto
qed

subsection \<open>Printed numbers\<close>

lemma print_u_plain [simp]: "plain (print_u w)" and print_u_short: "length (print_u w) \<le> 10"
proof -
  have "unat w < 10 ^ Suc 9" using unat_mask_less [of w] by simp
  then show "length (print_u w) \<le> 10"
    unfolding print_u_def using nat_str_length [of 10 "unat w" 9 upper_digit] by simp
  show "plain (print_u w)"
    unfolding print_u_def by (intro plain_digits [of 10] nat_str_digits) auto
qed

lemma print_x_plain [simp]: "plain (print_x w)" and print_x_short: "length (print_x w) \<le> 8"
proof -
  have "unat w < 16 ^ Suc 7" using unat_mask_less [of w] by simp
  then show "length (print_x w) \<le> 8"
    unfolding print_x_def using nat_str_length [of 16 "unat w" 7 lower_digit] by simp
  show "plain (print_x w)"
    unfolding print_x_def by (intro plain_digits [of 16] nat_str_digits) auto
qed

lemma print_umax_plain [simp]: "plain (print_umax w)" and print_umax_short: "length (print_umax w) \<le> 20"
proof -
  have "unat w < 10 ^ Suc 19" using unat_mask_less [of w] by simp
  then show "length (print_umax w) \<le> 20"
    unfolding print_umax_def using nat_str_length [of 10 "unat w" 19 upper_digit] by simp
  show "plain (print_umax w)"
    unfolding print_umax_def by (intro plain_digits [of 10] nat_str_digits) auto
qed

lemma hex_bytes_plain [simp]: "plain (hex_bytes b)"
  by (rule plain_digits [of 16]) simp

lemma load_key_hex_bytes:
  "length k1 = i \<Longrightarrow> length k2 = length b \<Longrightarrow>
   load_key i (length b) (hex_bytes b) (k1 @ k2) = (True, k1 @ b)"
proof (induction b arbitrary: i k1 k2)
  case (Cons x b)
  then obtain y k3 where k: "k2 = y # k3" by (cases k2) auto
  have h: "hex_bytes (x # b) = print_02X x @ hex_bytes b" by (simp add: hex_bytes_def)
  have "load_key (Suc i) (length b) (hex_bytes b) ((k1 @ [x]) @ k3) = (True, (k1 @ [x]) @ b)"
    using Cons.prems k by (intro Cons.IH) auto
  moreover have "(k1 @ y # k3)[i := x] = k1 @ x # k3" using Cons.prems by (simp add: list_update_append)
  moreover have "\<not> length (hex_bytes (x # b)) < 2" by simp
  moreover have "drop 2 (hex_bytes (x # b)) = hex_bytes b" by (simp add: h print_02X_def)
  moreover have "scan_02X (hex_bytes (x # b)) = Some x" by (simp only: h scan_print_02X)
  ultimately show ?case by (simp only: load_key.simps length_Cons k) simp
qed (simp add: hex_bytes_def)

subsection \<open>States that can be stored\<close>

text \<open>
  What the program guarantees of a state it stores: the buffers have their sizes, the strings
  are those the checks accept, the numbers are those a load accepts.
\<close>

definition entry_ok :: "state \<Rightarrow> bool" where
  "entry_ok s \<longleftrightarrow>
     plain (username s) \<and> length (username s) \<le> STATE_MAX_FIELD_SIZE \<and>
     length (sequence_key s) = 32 \<and> length (spass s) = 40 \<and> spass_set s \<in> {0, 1} \<and>
     state_validate_str (label s) \<and> length (label s) < STATE_LABEL_SIZE \<and>
     state_validate_str (contact s) \<and> length (contact s) < STATE_CONTACT_SIZE \<and>
     2 \<le> code_length s \<and> code_length s \<le> 16 \<and> flags s \<le> 7"

text \<open>The state a load leaves when the entry of \<open>s\<close> is read into \<open>t\<close>.\<close>

definition db_restore :: "state \<Rightarrow> state \<Rightarrow> state" where
  "db_restore s t =
     t\<lparr>counter := counter s, sequence_key := sequence_key s, latest_card := latest_card s,
       code_length := code_length s, alphabet := alphabet s, flags := flags s,
       spass := (if spass_set s = 0 then spass t else spass s), spass_set := spass_set s,
       spass_time := (if spass_set s = 0 then spass_time t else spass_time s),
       label := label s, contact := contact s, failures := failures s,
       recent_failures := recent_failures s, channel_time := channel_time s\<rparr>"

lemma db_restore_simps [simp]:
  "counter (db_restore s t) = counter s" "sequence_key (db_restore s t) = sequence_key s"
  "latest_card (db_restore s t) = latest_card s" "code_length (db_restore s t) = code_length s"
  "alphabet (db_restore s t) = alphabet s" "flags (db_restore s t) = flags s"
  "spass_set (db_restore s t) = spass_set s" "label (db_restore s t) = label s"
  "contact (db_restore s t) = contact s" "failures (db_restore s t) = failures s"
  "recent_failures (db_restore s t) = recent_failures s"
  "channel_time (db_restore s t) = channel_time s"
  "username (db_restore s t) = username t" "lock (db_restore s t) = lock t"
  "new_key (db_restore s t) = new_key t" "salt_mask (db_restore s t) = salt_mask t"
  "code_mask (db_restore s t) = code_mask t" "codes_on_card (db_restore s t) = codes_on_card t"
  by (simp_all add: db_restore_def)

text \<open>The line of a state.\<close>

definition db_line :: "state \<Rightarrow> string" where
  "db_line s = db_entry_text s (hex_bytes (rev (num_to_bin (counter s))))
                 (hex_bytes (rev (num_to_bin (latest_card s))))"

definition db_fields :: "state \<Rightarrow> string list" where
  "db_fields s =
     [username s, ''1'', hex_bytes (sequence_key s), hex_bytes (rev (num_to_bin (counter s))),
      hex_bytes (rev (num_to_bin (latest_card s))), print_u (failures s), print_u (recent_failures s),
      print_umax (channel_time s), print_u (code_length s), print_u (alphabet s), print_x (flags s),
      if spass_set s \<noteq> 0 then hex_bytes (spass s) else [], print_umax (spass_time s), label s, contact s]"

lemma entry_ok_plain:
  assumes "entry_ok s"
  shows "plain (username s)" "plain (label s)" "plain (contact s)"
  using assms validate_plain by (auto simp: entry_ok_def)

lemma db_line_length:
  assumes "entry_ok s"
  shows "length (db_line s) \<le> 500" "100 \<le> length (db_line s)"
proof -
  note l = print_u_short [of "failures s"] print_u_short [of "recent_failures s"]
    print_umax_short [of "channel_time s"] print_u_short [of "code_length s"]
    print_u_short [of "alphabet s"] print_x_short [of "flags s"]
    print_umax_short [of "spass_time s"]
  show "length (db_line s) \<le> 500" "100 \<le> length (db_line s)"
    using assms l by (simp_all add: entry_ok_def db_line_def db_entry_text_def)
qed

lemma db_generate_ok:
  assumes "entry_ok s"
  shows "db_generate_user_entry s STATE_ENTRY_SIZE = Some (0, db_line s)"
  using db_line_length [OF assms]
  by (simp add: db_generate_user_entry_def num_export_hex Let_def flip: db_line_def)

lemma db_line_split:
  assumes "entry_ok s"
  shows "map strtok_cut (split_at CHR '':'' (db_line s)) = db_fields s"
proof -
  note p = entry_ok_plain [OF assms]
  have n: "CHR '':'' \<notin> set f" if "plain f" for f using that by (simp add: plain_def)
  have h: "plain (if b then hex_bytes x else [])" for b x by simp
  have one: "strtok_cut ''1'' = ''1''" by (simp add: strtok_cut_def)
  have "split_at CHR '':'' (contact s @ [CHR 0x0A]) = [contact s @ [CHR 0x0A]]"
    by (rule split_at_one) (use n [OF p(3)] in simp)
  then show ?thesis
    unfolding db_line_def db_entry_text_def db_fields_def
    by (simp add: split_at_more n p h one)
qed

lemma db_fields_short:
  assumes "entry_ok s"
  shows "list_all (\<lambda>f. length f \<le> 80) (db_fields s)"
proof -
  have u: "length (print_u w) \<le> 80" for w using print_u_short [of w] by linarith
  have x: "length (print_x w) \<le> 80" for w using print_x_short [of w] by linarith
  have m: "length (print_umax w) \<le> 80" for w using print_umax_short [of w] by linarith
  show ?thesis using assms by (simp add: db_fields_def entry_ok_def u x m)
qed

lemma db_parse_ok:
  assumes "entry_ok s"
  shows "db_parse_user_entry (db_line s) = (0, db_fields s)"
proof -
  have "scan_u32 10 ''1'' = Some 1"
    by (simp add: scan_u32_def scan_num_digits digit_in_10 digit_val_10 isdigit_def code_def
        strtoul_val_def)
  then have "db_parse_loop 0 (db_fields s) = 0"
    using db_fields_short [OF assms] by (intro db_parse_loop_ok) (simp_all add: db_fields_def)
  then show ?thesis by (simp add: db_parse_user_entry_def db_line_split [OF assms])
qed

lemma num_cmp_zero [simp]: "num_cmp n (num_i 0) \<noteq> -1"
proof -
  have "nval (num_i 0) = 0" by (simp add: nval_def num_ii_def)
  then show ?thesis by (simp add: num_cmp_val)
qed

lemma db_fields_nth [simp]:
  "db_fields s ! 2 = hex_bytes (sequence_key s)"
  "db_fields s ! 3 = hex_bytes (rev (num_to_bin (counter s)))"
  "db_fields s ! 4 = hex_bytes (rev (num_to_bin (latest_card s)))"
  "db_fields s ! 5 = print_u (failures s)" "db_fields s ! 6 = print_u (recent_failures s)"
  "db_fields s ! 7 = print_umax (channel_time s)" "db_fields s ! 8 = print_u (code_length s)"
  "db_fields s ! 9 = print_u (alphabet s)" "db_fields s ! 10 = print_x (flags s)"
  "db_fields s ! 11 = (if spass_set s \<noteq> 0 then hex_bytes (spass s) else [])"
  "db_fields s ! 12 = print_umax (spass_time s)" "db_fields s ! 13 = label s"
  "db_fields s ! 14 = contact s"
  by (simp_all add: db_fields_def)

lemma num_import_hex_bytes [simp]:
  "num_import (hex_bytes (rev (num_to_bin n))) NUM_FORMAT_HEX = (0, n)"
  by (rule num_hex_roundtrip) (rule num_export_hex)

lemma db_load_numbers_ok:
  "db_load_numbers (db_fields s) t =
     (0, t\<lparr>failures := failures s, recent_failures := recent_failures s,
           channel_time := channel_time s, code_length := code_length s, alphabet := alphabet s,
           flags := flags s\<rparr>)"
  by (simp add: db_load_numbers_def)

lemma db_load_spass_ok:
  assumes "entry_ok s" "length (spass t) = 40"
  shows "db_load_spass (db_fields s) t =
    Some (0, if spass_set s = 0 then t\<lparr>spass_set := 0\<rparr>
             else t\<lparr>spass := spass s, spass_time := spass_time s, spass_set := 1\<rparr>)"
proof -
  have "crypto_hex_to_binary (hex_bytes (spass s)) 80 (spass t) = Some (0, spass s)"
    using hex_to_binary_hex_bytes [of "spass t" "spass s"] assms by (simp add: entry_ok_def)
  moreover have "length (hex_bytes (spass s)) = 80" using assms by (simp add: entry_ok_def)
  then have "hex_bytes (spass s) \<noteq> []" by force
  ultimately show ?thesis by (simp add: db_load_spass_def)
qed

lemma db_load_checks_ok:
  "entry_ok s \<Longrightarrow> label t = label s \<Longrightarrow> contact t = contact s \<Longrightarrow> code_length t = code_length s \<Longrightarrow>
   flags t = flags s \<Longrightarrow> db_load_checks t = 0"
  by (simp add: db_load_checks_def entry_ok_def not_less)

lemma db_load_ok:
  assumes "entry_ok s" "length (sequence_key t) = 32" "length (spass t) = 40"
  shows "db_load_fields (db_fields s) t = Some (0, db_restore s t)"
proof -
  have key: "load_key 0 32 (hex_bytes (sequence_key s)) (sequence_key t) = (True, sequence_key s)"
    using load_key_hex_bytes [of "[]" 0 "sequence_key t" "sequence_key s"] assms by (simp add: entry_ok_def)
  have l: "take 29 (label s) = label s" "take 59 (contact s) = contact s"
    using assms by (simp_all add: entry_ok_def)
  have sp: "spass_set s \<noteq> 0 \<Longrightarrow> spass_set s = 1" using assms by (simp add: entry_ok_def)
  note simps = db_load_fields_def key db_load_numbers_ok db_load_spass_ok [OF assms(1)] l
    db_load_checks_ok [OF assms(1)] assms
  show ?thesis
    by (cases "spass_set s = 0") (simp_all add: simps sp db_restore_def)
qed

subsection \<open>The interface of entries\<close>

text \<open>
  For a user \<open>u\<close>: printing gives the line when the printer reports success, reading parses a line
  into a fresh state of \<open>u\<close>.
\<close>

definition entry_print :: "state \<Rightarrow> string option" where
  "entry_print s =
     (case db_generate_user_entry s STATE_ENTRY_SIZE of Some (r, e) \<Rightarrow> if r = 0 then Some e else None
      | None \<Rightarrow> None)"

definition entry_read :: "state \<Rightarrow> string \<Rightarrow> state option" where
  "entry_read t buff =
     (let (r, field) = db_parse_user_entry buff
      in if r \<noteq> 0 then None
         else case db_load_fields field t of Some (r, s) \<Rightarrow> if r = 0 then Some s else None
              | None \<Rightarrow> None)"

lemma entry_read_line:
  "entry_ok s \<Longrightarrow> length (sequence_key t) = 32 \<Longrightarrow> length (spass t) = 40 \<Longrightarrow>
   entry_read t (db_line s) = Some (db_restore s t)"
  by (simp add: entry_read_def db_parse_ok db_load_ok)

interpretation db_entry: codec entry_print "entry_read t"
  "\<lambda>s. entry_ok s \<and> length (sequence_key t) = 32 \<and> length (spass t) = 40 \<and> db_restore s t = s" for t
  by unfold_locales (auto simp: entry_print_def db_generate_ok entry_read_line)

subsection \<open>Property\<close>

text \<open>
  C11: the entry the code prints for a state fits its buffer, is split into fifteen fields of an
  acceptable version and length, and loading these fields gives back every stored value.
\<close>

theorem db_entry_roundtrip:
  assumes "entry_ok s" and "length (sequence_key t) = 32" and "length (spass t) = 40"
  shows "\<exists>line f. db_generate_user_entry s STATE_ENTRY_SIZE = Some (0, line) \<and>
    db_parse_user_entry line = (0, f) \<and> db_load_fields f t = Some (0, db_restore s t)"
  using db_generate_ok [OF assms(1)] db_parse_ok [OF assms(1)] db_load_ok [OF assms] by blast

definition sample_state :: state where
  "sample_state = state_zero\<lparr>code_length := 4, flags := 5, alphabet := 1, username := ''ann'', label := ''desk'',
     contact := ''+48 1234'', counter := num_ii 7 12, lock := 3\<rparr>"

lemma sample_entry_ok: "entry_ok sample_state"
  by (simp add: sample_state_def state_zero_def entry_ok_def plain_def state_validate_str_def
      isalnum_def ctype_defs code_def)

theorem db_entry_roundtrip_witness:
  "\<exists>line f. db_generate_user_entry sample_state STATE_ENTRY_SIZE = Some (0, line) \<and>
    db_parse_user_entry line = (0, f) \<and> db_load_fields f state_zero = Some (0, db_restore sample_state state_zero)"
  using db_entry_roundtrip [OF sample_entry_ok, of state_zero] by (simp add: state_zero_def)

end
