(* ===== verification/Db_Store.thy ===== *)
theory Db_Store
  imports Db_Entry
begin

text \<open>
  The state file as a list of lines, and storing as an update of that list: what the search for
  an entry does to its input and output, that a store either replaces the file by one where
  only the user's line has changed or leaves the file as it was, for every pattern of failing
  system calls, and what duplicate entries do to it.
\<close>

subsection \<open>Lines\<close>

definition line_ok :: "string \<Rightarrow> bool" where
  "line_ok l \<longleftrightarrow> l \<noteq> [] \<and> last l = CHR 0x0A \<and> CHR 0x0A \<notin> set (butlast l) \<and> CHR 0x00 \<notin> set l \<and>
     10 \<le> length l \<and> length l < STATE_ENTRY_SIZE"

definition matches :: "string \<Rightarrow> string \<Rightarrow> bool" where
  "matches name l \<longleftrightarrow> CHR '':'' \<in> set l \<and> takeWhile (\<lambda>c. c \<noteq> CHR '':'') l = name"

lemma matches_unique: "matches u l \<Longrightarrow> matches v l \<Longrightarrow> u = v"
  by (simp add: matches_def)

definition db_lookup :: "string \<Rightarrow> string list \<Rightarrow> string option" where
  "db_lookup name ls = find (matches name) ls"

text \<open>Replacing the first line of a user by the lines \<open>new\<close> (one line or none).\<close>

definition db_put :: "string \<Rightarrow> string list \<Rightarrow> string list \<Rightarrow> string list" where
  "db_put name new ls =
     takeWhile (\<lambda>l. \<not> matches name l) ls @ new @ tl (dropWhile (\<lambda>l. \<not> matches name l) ls)"

definition db_unique :: "string \<Rightarrow> string list \<Rightarrow> bool" where
  "db_unique name ls \<longleftrightarrow> length (filter (matches name) ls) \<le> 1"

lemma db_put_split:
  "\<forall>l \<in> set pre. \<not> matches u l \<Longrightarrow> matches u x \<Longrightarrow> db_put u new (pre @ x # post) = pre @ new @ post"
  by (simp add: db_put_def takeWhile_append2 dropWhile_append2)

lemma db_put_none: "\<forall>l \<in> set ls. \<not> matches u l \<Longrightarrow> db_put u new ls = ls @ new"
  by (simp add: db_put_def takeWhile_eq_all_conv [THEN iffD2] dropWhile_eq_Nil_conv [THEN iffD2])

lemma first_match:
  obtains (none) "\<forall>l \<in> set ls. \<not> matches u l"
  | (some) pre x post where "ls = pre @ x # post" "matches u x" "\<forall>l \<in> set pre. \<not> matches u l"
proof (cases "\<exists>l \<in> set ls. matches u l")
  case True
  then show ?thesis using split_list_first_prop [of ls "matches u"] some by metis
qed (use none in blast)

lemma db_lookup_append: "db_lookup u (xs @ ys) = (case db_lookup u xs of None \<Rightarrow> db_lookup u ys | Some l \<Rightarrow> Some l)"
  by (induction xs) (auto simp: db_lookup_def)

lemma db_lookup_none: "\<forall>l \<in> set ls. \<not> matches u l \<Longrightarrow> db_lookup u ls = None"
  by (simp add: db_lookup_def find_None_iff)

lemma db_lookup_Cons: "db_lookup u (l # ls) = (if matches u l then Some l else db_lookup u ls)"
  by (simp add: db_lookup_def)

lemma db_lookup_put_same:
  assumes "matches u l"
  shows "db_lookup u (db_put u [l] ls) = Some l"
  by (rule first_match [of ls u])
     (simp_all add: db_put_none db_put_split db_lookup_append db_lookup_none db_lookup_Cons assms)

lemma db_lookup_put_other:
  assumes "u \<noteq> v" and "list_all (matches u) new"
  shows "db_lookup v (db_put u new ls) = db_lookup v ls"
proof -
  have "db_lookup v new = None"
    using assms matches_unique by (intro db_lookup_none) (auto simp: list_all_iff)
  moreover have "\<not> matches v x" if "matches u x" for x using assms(1) that matches_unique by blast
  ultimately show ?thesis
    by (rule_tac first_match [of ls u])
       (simp_all add: db_put_none db_put_split db_lookup_append db_lookup_Cons split: option.splits)
qed

lemma db_lookup_put_removed:
  assumes "db_unique u ls"
  shows "db_lookup u (db_put u [] ls) = None"
proof (rule first_match [of ls u])
  fix pre x post assume ls: "ls = pre @ x # post" "matches u x" "\<forall>l \<in> set pre. \<not> matches u l"
  then have "filter (matches u) post = []" using assms by (simp add: db_unique_def)
  then show ?thesis
    using ls by (simp add: db_put_split db_lookup_append db_lookup_none filter_empty_conv)
qed (simp add: db_put_none db_lookup_none)

lemma db_unique_put:
  assumes "db_unique v ls" "list_all (matches u) new" "length new \<le> 1" and "db_unique u ls"
  shows "db_unique v (db_put u new ls)"
proof -
  have n: "u \<noteq> v \<Longrightarrow> filter (matches v) new = []" "u = v \<Longrightarrow> filter (matches v) new = new"
    using assms(2) matches_unique by (auto simp: list_all_iff filter_empty_conv filter_id_conv)
  show ?thesis
  proof (rule first_match [of ls u])
    assume "\<forall>l \<in> set ls. \<not> matches u l"
    then show ?thesis
      using assms n by (cases "u = v") (simp_all add: db_put_none db_unique_def)
  next
    fix pre x post assume "ls = pre @ x # post" "matches u x" "\<forall>l \<in> set pre. \<not> matches u l"
    then show ?thesis
      using assms n by (cases "u = v") (auto simp: db_put_split db_unique_def split: if_splits)
  qed
qed

lemma line_ok_put: "list_all line_ok ls \<Longrightarrow> list_all line_ok new \<Longrightarrow> list_all line_ok (db_put u new ls)"
  by (rule first_match [of ls u]) (auto simp: db_put_none db_put_split)

text \<open>The line of a state is well formed and belongs to its user.\<close>

lemma db_line_ok:
  assumes "entry_ok s"
  shows "line_ok (db_line s)" "matches (username s) (db_line s)"
proof -
  note p = entry_ok_plain [OF assms]
  note q = print_u_plain print_x_plain print_umax_plain hex_bytes_plain p
  have n: "CHR 0x0A \<notin> set f" "CHR 0x00 \<notin> set f" "CHR '':'' \<notin> set f" if "plain f" for f
    using that by (simp_all add: plain_def)
  have h: "plain (if b then hex_bytes x else [])" for b x by simp
  have last: "db_line s = butlast (db_line s) @ [CHR 0x0A]"
    by (simp add: db_line_def db_entry_text_def butlast_append)
  show "line_ok (db_line s)"
    unfolding line_ok_def using db_line_length [OF assms]
    by (auto simp: db_line_def db_entry_text_def butlast_append n q h)
  have "takeWhile (\<lambda>c. c \<noteq> CHR '':'') (username s @ CHR '':'' # r) = username s" for r
    using n(3) [OF p(1)] by (subst takeWhile_append2) auto
  then show "matches (username s) (db_line s)"
    by (simp add: matches_def db_line_def db_entry_text_def)
qed

subsection \<open>What the search copies\<close>

definition wrote :: "string \<Rightarrow> string \<Rightarrow> world \<Rightarrow> world \<Rightarrow> bool" where
  "wrote p s w w' \<longleftrightarrow> (\<forall>q. q \<noteq> p \<longrightarrow> w_files w' q = w_files w q) \<and> w_locks w' = w_locks w \<and>
     w_devs w' = w_devs w \<and> same_env w w' \<and>
     (\<forall>f. w_files w p = Some f \<longrightarrow> w_files w' p = Some (f\<lparr>f_data := f_data f @ s\<rparr>))"

text \<open>The weaker statement for a call that may have failed half way.\<close>

definition touched :: "string \<Rightarrow> world \<Rightarrow> world \<Rightarrow> bool" where
  "touched p w w' \<longleftrightarrow> (\<forall>q. q \<noteq> p \<longrightarrow> w_files w' q = w_files w q) \<and> w_locks w' = w_locks w \<and>
     w_devs w' = w_devs w \<and> same_env w w'"

lemma wrote_refl [simp]: "wrote p [] w w"
  by (simp add: wrote_def)

lemma wrote_trans: "wrote p a w v \<Longrightarrow> wrote p b v x \<Longrightarrow> wrote p (a @ b) w x"
  by (auto simp: wrote_def intro: same_env_trans)

lemma wrote_fault: "fault w = (b, w') \<Longrightarrow> wrote p [] w w'"
  by (auto dest: fault_frame simp: wrote_def)

lemma wrote_fputs: "os_fputs p s w = (True, w') \<Longrightarrow> wrote p s w w'"
proof -
  assume o: "os_fputs p s w = (True, w')"
  obtain b v where f: "fault w = (b, v)" by (cases "fault w")
  show "wrote p s w w'"
    using o fault_frame [OF f] by (auto simp: wrote_def os_fputs_def f same_env_def split: if_splits option.splits)
qed

lemma touched_refl [simp]: "touched p w w"
  by (simp add: touched_def)

lemma touched_trans: "touched p w v \<Longrightarrow> touched p v x \<Longrightarrow> touched p w x"
  by (auto simp: touched_def intro: same_env_trans)

lemma wrote_touched: "wrote p s w w' \<Longrightarrow> touched p w w'"
  by (simp add: wrote_def touched_def)

lemma touched_calls:
  "fault w = (b, w') \<Longrightarrow> touched p w w'"
  "os_stat q w = (f, w') \<Longrightarrow> touched p w w'"
  "os_fopen_r q w = (r, w') \<Longrightarrow> touched p w w'"
  "os_fopen_w p w = (b, w') \<Longrightarrow> touched p w w'"
  "os_fputs p s w = (b, w') \<Longrightarrow> touched p w w'"
  "os_unlink p w = (b, w') \<Longrightarrow> touched p w w'"
  "os_chown p u g w = (b, w') \<Longrightarrow> touched p w w'"
  by (auto simp: touched_def dest!: fault_frame os_frames)

lemma c_str_line: "line_ok l \<Longrightarrow> c_str l = l"
  and fgets_len_line: "line_ok l \<Longrightarrow> fgets_len STATE_ENTRY_SIZE (l @ r) = length l"
proof -
  assume l: "line_ok l"
  define b where "b = butlast l"
  have lb: "l = b @ [CHR 0x0A]" using l append_butlast_last_id [of l] by (simp add: line_ok_def b_def)
  have "CHR 0x0A \<notin> set b" using l by (simp add: line_ok_def b_def)
  moreover have "Suc (length b) < STATE_ENTRY_SIZE" using l by (simp add: line_ok_def lb)
  ultimately show len: "fgets_len STATE_ENTRY_SIZE (l @ r) = length l"
    using fgets_line [of b STATE_ENTRY_SIZE r] by (simp add: lb)
  show "c_str l = l" using l by (auto simp: c_str_def line_ok_def takeWhile_eq_all_conv)
qed

text \<open>One step of the search over a well-formed line.\<close>

lemma db_find_line:
  assumes "line_ok l"
  shows "db_find_user_entry name (l @ r) out w =
    (let (bad, w) = fault w
     in if bad then Some (STATE_IO_ERROR, [], l @ r, w)
        else if matches name l then Some (0, l, r, w)
        else case out of None \<Rightarrow> db_find_user_entry name r out w
             | Some p \<Rightarrow> let (ok, w) = os_fputs p l w
                        in if ok then db_find_user_entry name r out w
                           else Some (STATE_IO_ERROR, l, r, w))"
proof -
  have l: "l \<noteq> []" "last l = CHR 0x0A" "\<not> length l < 10" using assms by (auto simp: line_ok_def)
  have m: "(CHR '':'' \<in> set l \<and> takeWhile (\<lambda>c. c \<noteq> CHR '':'') l = name) = matches name l"
    by (simp add: matches_def)
  show ?thesis
    by (subst db_find_user_entry.simps)
       (simp add: Let_def c_str_line [OF assms] fgets_len_line [OF assms] l m split_beta split: option.split)
qed

lemma db_find_end: "db_find_user_entry name [] out w = Some (STATE_NO_USER_ENTRY, [], [], w)"
  by (subst db_find_user_entry.simps) simp

definition find_result :: "string \<Rightarrow> string list \<Rightarrow> string \<Rightarrow> world \<Rightarrow> int \<times> string \<times> string \<times> world \<Rightarrow> bool" where
  "find_result name ls p w r \<longleftrightarrow>
     (case r of (ret, buff, rest, w') \<Rightarrow>
        (ret = 0 \<and> (\<exists>pre post. ls = pre @ buff # post \<and> matches name buff \<and>
           (\<forall>l \<in> set pre. \<not> matches name l) \<and> rest = concat post \<and> wrote p (concat pre) w w')) \<or>
        (ret = STATE_NO_USER_ENTRY \<and> (\<forall>l \<in> set ls. \<not> matches name l) \<and> rest = [] \<and> wrote p (concat ls) w w') \<or>
        (ret = STATE_IO_ERROR \<and> touched p w w'))"

lemma find_result_skip:
  assumes "wrote p l w v" and "\<not> matches name l" and "find_result name ls p v r"
  shows "find_result name (l # ls) p w r"
proof -
  obtain ret buff rest w' where r: "r = (ret, buff, rest, w')" by (cases r) auto
  from assms(3) consider
      (hit) pre post where "ret = 0" "ls = pre @ buff # post" "matches name buff"
        "\<forall>l \<in> set pre. \<not> matches name l" "rest = concat post" "wrote p (concat pre) v w'"
    | (miss) "ret = STATE_NO_USER_ENTRY" "\<forall>l \<in> set ls. \<not> matches name l" "rest = []" "wrote p (concat ls) v w'"
    | (bad) "ret = STATE_IO_ERROR" "touched p v w'"
    by (auto simp: find_result_def r)
  then show ?thesis
  proof cases
    case hit
    have "l # ls = (l # pre) @ buff # post" using hit(2) by simp
    moreover have "\<forall>x \<in> set (l # pre). \<not> matches name x" using hit(4) assms(2) by simp
    moreover have "wrote p (concat (l # pre)) w w'" using wrote_trans [OF assms(1) hit(6)] by simp
    ultimately show ?thesis using hit(1,3,5) unfolding find_result_def r by blast
  next
    case miss
    then show ?thesis using assms(2) wrote_trans [OF assms(1) miss(4)] by (simp add: find_result_def r)
  next
    case bad
    then show ?thesis using touched_trans [OF wrote_touched [OF assms(1)] bad(2)] by (simp add: find_result_def r)
  qed
qed

lemma db_find_copy:
  "list_all line_ok ls \<Longrightarrow> \<exists>r. db_find_user_entry name (concat ls) (Some p) w = Some r \<and> find_result name ls p w r"
proof (induction ls arbitrary: w)
  case Nil
  then show ?case by (simp add: db_find_end find_result_def)
next
  case (Cons l ls)
  obtain bad v where f: "fault w = (bad, v)" by (cases "fault w")
  obtain ok x where o: "os_fputs p l v = (ok, x)" by (cases "os_fputs p l v")
  have l: "line_ok l" and ls: "list_all line_ok ls" using Cons.prems by simp_all
  consider "bad" | "\<not> bad" "matches name l" | "\<not> bad" "\<not> matches name l" "ok" | "\<not> bad" "\<not> matches name l" "\<not> ok" by blast
  then show ?case
  proof cases
    case 1
    then show ?thesis using touched_calls(1) [OF f] by (simp add: db_find_line l f find_result_def)
  next
    case 2
    have "find_result name (l # ls) p w (0, l, concat ls, v)"
      unfolding find_result_def using 2 wrote_fault [OF f]
      by (simp, intro exI [of _ "[]"] exI [of _ ls]) simp
    then show ?thesis using 2 by (simp add: db_find_line l f)
  next
    case 3
    have "wrote p l w x" using wrote_trans [OF wrote_fault [OF f] wrote_fputs] o 3(3) by fastforce
    then show ?thesis
      using find_result_skip [OF _ 3(2)] Cons.IH [OF ls, of x] 3 by (simp add: db_find_line l f o) blast
  next
    case 4
    have "touched p w x" using touched_trans [OF touched_calls(1) [OF f] touched_calls(5) [OF o]] .
    then show ?thesis using 4 by (simp add: db_find_line l f o find_result_def)
  qed
qed

definition unchanged :: "world \<Rightarrow> world \<Rightarrow> bool" where
  "unchanged w w' \<longleftrightarrow> w_files w' = w_files w \<and> w_locks w' = w_locks w \<and> w_devs w' = w_devs w \<and> same_env w w'"

lemma unchanged_refl [simp]: "unchanged w w"
  by (simp add: unchanged_def)

lemma unchanged_trans: "unchanged w v \<Longrightarrow> unchanged v x \<Longrightarrow> unchanged w x"
  by (auto simp: unchanged_def intro: same_env_trans)

lemma unchanged_touched: "unchanged w v \<Longrightarrow> touched p w v"
  by (simp add: unchanged_def touched_def)

lemma unchanged_calls:
  "fault w = (b, w') \<Longrightarrow> unchanged w w'"
  "os_stat q w = (f, w') \<Longrightarrow> unchanged w w'"
  "os_fopen_r q w = (r, w') \<Longrightarrow> unchanged w w'"
  by (auto simp: unchanged_def dest!: fault_frame os_frames)

lemma db_find_frame:
  assumes "db_find_user_entry name f out w = Some (r, b, rest, w')"
  shows "case out of None \<Rightarrow> unchanged w w' | Some p \<Rightarrow> touched p w w'"
  using assms
proof (induction "length f" arbitrary: f w rule: less_induct)
  case less
  obtain bad v where fl: "fault w = (bad, v)" by (cases "fault w")
  define n where "n = fgets_len STATE_ENTRY_SIZE f"
  define buff where "buff = c_str (take n f)"
  define m where "m \<longleftrightarrow> CHR '':'' \<in> set buff \<and> takeWhile (\<lambda>c. c \<noteq> CHR '':'') buff = name"
  note step = db_find_user_entry.simps [of name f out w, folded n_def, unfolded Let_def,
    folded buff_def, folded m_def]
  note prem = less.prems [unfolded step fl]
  have frame: "case out of None \<Rightarrow> unchanged w v | Some p \<Rightarrow> touched p w v"
    using unchanged_calls(1) [OF fl] unchanged_touched by (simp split: option.split)
  show ?case
  proof (cases "f = [] \<or> bad \<or> last buff \<noteq> CHR 0x0A \<or> length buff < 10 \<or> m")
    case True
    then have "w' = v \<or> w' = w" using prem by (elim disjE) (simp_all split: if_splits)
    with frame show ?thesis by (cases out) auto
  next
    case False
    then have shorter: "length (drop n f) < length f"
      using fgets_len_pos [of STATE_ENTRY_SIZE f] by (simp add: n_def)
    have "buff \<noteq> []" using prem False by auto
    then have go: "(case out of None \<Rightarrow> db_find_user_entry name (drop n f) out v
        | Some p \<Rightarrow> (case os_fputs p buff v of (ok, w) \<Rightarrow>
            if ok then db_find_user_entry name (drop n f) out w else Some (STATE_IO_ERROR, buff, drop n f, w)))
        = Some (r, b, rest, w')"
      using prem False by simp
    show ?thesis
    proof (cases out)
      case None
      then have "db_find_user_entry name (drop n f) out v = Some (r, b, rest, w')" using go by simp
      then have "unchanged v w'" using less.hyps [OF shorter, of v] by (simp add: \<open>out = None\<close>)
      moreover have "unchanged w v" using frame None by simp
      ultimately show ?thesis using None unchanged_trans by auto
    next
      case (Some p)
      obtain ok x where o: "os_fputs p buff v = (ok, x)" by (cases "os_fputs p buff v")
      have "touched p x w'"
        using less.hyps [OF shorter, of x] go Some by (cases ok) (simp_all add: o)
      with touched_trans [OF touched_calls(5) [OF o]] have "touched p v w'" by blast
      moreover have "touched p w v" using frame Some by simp
      ultimately show ?thesis using Some touched_trans by auto
    qed
  qed
qed

lemma db_find_touched: "db_find_user_entry name f (Some p) w = Some (r, b, rest, w') \<Longrightarrow> touched p w w'"
  and db_find_unchanged: "db_find_user_entry name f None w = Some (r, b, rest, w') \<Longrightarrow> unchanged w w'"
  using db_find_frame [of name f "Some p"] db_find_frame [of name f None] by auto

text \<open>Searching without copying is a lookup.\<close>

lemma db_find_lookup:
  "list_all line_ok ls \<Longrightarrow> \<exists>r b rest w'. db_find_user_entry name (concat ls) None w = Some (r, b, rest, w') \<and>
     (r = STATE_IO_ERROR \<or> (r = 0 \<and> db_lookup name ls = Some b) \<or>
      (r = STATE_NO_USER_ENTRY \<and> db_lookup name ls = None))"
proof (induction ls arbitrary: w)
  case Nil
  then show ?case by (simp add: db_find_end db_lookup_def)
next
  case (Cons l ls)
  obtain bad v where f: "fault w = (bad, v)" by (cases "fault w")
  have l: "line_ok l" and ls: "list_all line_ok ls" using Cons.prems by simp_all
  show ?case
  proof (cases "bad \<or> matches name l")
    case True
    then show ?thesis by (cases bad) (simp_all add: db_find_line [OF l] f db_lookup_Cons)
  next
    case False
    then show ?thesis using Cons.IH [OF ls, of v] by (simp add: db_find_line [OF l] f db_lookup_Cons)
  qed
qed

subsection \<open>Copying with the new entry in between\<close>

definition db_new :: "state \<Rightarrow> bool \<Rightarrow> string list" where
  "db_new s remove = (if remove then [] else [db_line s])"

lemma db_new_ok:
  assumes "entry_ok s"
  shows "list_all line_ok (db_new s remove)" "list_all (matches (username s)) (db_new s remove)"
    "length (db_new s remove) \<le> 1"
  using db_line_ok [OF assms] by (auto simp: db_new_def)

lemma db_store_entry_touched:
  "db_store_entry s remove p w = Some (ret, w') \<Longrightarrow> touched (p_tmp p) w w'"
  by (auto simp: db_store_entry_def bind_eq_Some_conv split: if_splits prod.splits dest: touched_calls(5))

lemma db_store_entry_wrote:
  assumes "db_store_entry s remove p w = Some (0, w')" and "entry_ok s"
  shows "wrote (p_tmp p) (concat (db_new s remove)) w w'"
  using assms by (auto simp: db_store_entry_def db_generate_ok db_new_def split: if_splits prod.splits dest: wrote_fputs)

lemma db_store_entry_total: "entry_ok s \<Longrightarrow> \<exists>ret w'. db_store_entry s remove p w = Some (ret, w')"
  by (simp add: db_store_entry_def db_generate_ok split_beta)

lemma db_store_flush_unchanged: "db_store_flush w = (ret, w') \<Longrightarrow> unchanged w w'"
  by (auto simp: db_store_flush_def split: prod.splits dest!: unchanged_calls(1) intro: unchanged_trans)

lemma db_store_copy_touched:
  assumes "db_store_copy s remove p inp w = Some (ret, w')"
  shows "touched (p_tmp p) w w'"
proof -
  obtain r1 rest w1 where
    one: "(case inp of None \<Rightarrow> Some (0, [], w)
       | Some f \<Rightarrow> do { (ret, _, rest, w) \<leftarrow> db_find_user_entry (username s) f (Some (p_tmp p)) w;
                      Some (if ret \<noteq> STATE_NO_USER_ENTRY then ret else 0, rest, w) }) = Some (r1, rest, w1)" and
    tl: "(if r1 \<noteq> 0 then Some (r1, w1)
      else do { (ret, w) \<leftarrow> db_store_entry s remove p w1;
                if ret \<noteq> 0 then Some (ret, w)
                else case inp of None \<Rightarrow> Some (db_store_flush w)
                   | Some _ \<Rightarrow> do { (ret, _, _, w) \<leftarrow> db_find_user_entry (username s) rest (Some (p_tmp p)) w;
                                  if ret = 0 then Some (ret, w)
                                  else if ret \<noteq> STATE_NO_USER_ENTRY then Some (STATE_PARSE_ERROR, w)
                                  else Some (db_store_flush w) } }) = Some (ret, w')"
    using assms by (auto simp: db_store_copy_def bind_eq_Some_conv)
  have t1: "touched (p_tmp p) w w1"
    using one by (auto simp: bind_eq_Some_conv split: option.splits dest: db_find_touched)
  show ?thesis
  proof (cases "r1 = 0")
    case False
    then show ?thesis using tl t1 by simp
  next
    case True
    then obtain r2 w2 where e: "db_store_entry s remove p w1 = Some (r2, w2)" and
      tl2: "(if r2 \<noteq> 0 then Some (r2, w2)
         else case inp of None \<Rightarrow> Some (db_store_flush w2)
            | Some _ \<Rightarrow> do { (ret, _, _, w) \<leftarrow> db_find_user_entry (username s) rest (Some (p_tmp p)) w2;
                           if ret = 0 then Some (ret, w)
                           else if ret \<noteq> STATE_NO_USER_ENTRY then Some (STATE_PARSE_ERROR, w)
                           else Some (db_store_flush w) }) = Some (ret, w')"
      using tl by (auto simp: bind_eq_Some_conv)
    have "touched (p_tmp p) w w2" using touched_trans [OF t1 db_store_entry_touched [OF e]] .
    moreover have "touched (p_tmp p) w2 w'"
      using tl2 by (auto simp: bind_eq_Some_conv split: if_splits option.splits
          dest!: db_find_touched db_store_flush_unchanged unchanged_touched [where p = "p_tmp p"] intro: touched_trans)
    ultimately show ?thesis by (rule touched_trans)
  qed
qed

lemma db_store_copy_wrote:
  assumes "db_store_copy s remove p (Some (concat ls)) w = Some (0, w')" and s: "entry_ok s"
    and ls: "list_all line_ok ls" and u: "db_unique (username s) ls"
  shows "wrote (p_tmp p) (concat (db_put (username s) (db_new s remove) ls)) w w'"
proof -
  let ?t = "p_tmp p" and ?u = "username s" and ?n = "db_new s remove"
  obtain r1 b1 rest w1 where f1: "db_find_user_entry ?u (concat ls) (Some ?t) w = Some (r1, b1, rest, w1)"
    and f1r: "find_result ?u ls ?t w (r1, b1, rest, w1)"
    using db_find_copy [OF ls, of ?u ?t w] by auto
  obtain r2 w2 where e: "db_store_entry s remove p w1 = Some (r2, w2)"
    using db_store_entry_total [OF s] by blast
  have r1: "r1 = 0 \<or> r1 = STATE_NO_USER_ENTRY" and r2: "r2 = 0"
    using assms(1) f1r by (auto simp: db_store_copy_def f1 e find_result_def split: if_splits)
  note e2 = db_store_entry_wrote [OF e [unfolded r2] s]
  obtain post where post: "rest = concat post" "list_all line_ok post" "\<forall>l \<in> set post. \<not> matches ?u l"
    and w1: "wrote ?t (concat (takeWhile (\<lambda>l. \<not> matches ?u l) ls)) w w1"
    and put: "db_put ?u ?n ls = takeWhile (\<lambda>l. \<not> matches ?u l) ls @ ?n @ post"
  proof (cases "r1 = 0")
    case True
    then obtain pre post where h: "ls = pre @ b1 # post" "matches ?u b1" "\<forall>l \<in> set pre. \<not> matches ?u l"
        "rest = concat post" "wrote ?t (concat pre) w w1"
      using f1r by (auto simp: find_result_def)
    then have "\<forall>l \<in> set post. \<not> matches ?u l" using u by (simp add: db_unique_def filter_empty_conv)
    then show ?thesis
      using h ls that [of post] by (simp add: takeWhile_append2 db_put_split)
  next
    case False
    then have h: "\<forall>l \<in> set ls. \<not> matches ?u l" "rest = []" "wrote ?t (concat ls) w w1"
      using f1r r1 by (auto simp: find_result_def)
    have tw: "takeWhile (\<lambda>l. \<not> matches ?u l) ls = ls" using h(1) by (simp add: takeWhile_eq_all_conv)
    show ?thesis by (rule that [of "[]"]) (simp_all add: db_put_none h tw)
  qed
  obtain r3 b3 rest3 w3 where f3: "db_find_user_entry ?u (concat post) (Some ?t) w2 = Some (r3, b3, rest3, w3)"
    and f3r: "find_result ?u post ?t w2 (r3, b3, rest3, w3)"
    using db_find_copy [OF post(2), of ?u ?t w2] by auto
  have r3: "r3 = STATE_NO_USER_ENTRY" and w': "db_store_flush w3 = (0, w')"
    using assms(1) f3r r1 post(3) by (auto simp: db_store_copy_def f1 e r2 post(1) f3 find_result_def split: if_splits)
  have w3: "wrote ?t (concat post) w2 w3" using f3r by (simp add: find_result_def r3)
  have "wrote ?t [] w3 w'" using db_store_flush_unchanged [OF w'] by (auto simp: unchanged_def wrote_def)
  from wrote_trans [OF wrote_trans [OF wrote_trans [OF w1 e2] w3] this] show ?thesis by (simp add: put)
qed

lemma db_store_copy_new:
  assumes "db_store_copy s remove p None w = Some (0, w')" and "entry_ok s"
  shows "wrote (p_tmp p) (concat (db_new s remove)) w w'"
proof -
  obtain r w1 where e: "db_store_entry s remove p w = Some (r, w1)"
    using db_store_entry_total [OF assms(2)] by blast
  have r: "r = 0" and w': "db_store_flush w1 = (0, w')"
    using assms by (auto simp: db_store_copy_def e split: if_splits)
  have "wrote (p_tmp p) [] w1 w'" using db_store_flush_unchanged [OF w'] by (auto simp: unchanged_def wrote_def)
  from wrote_trans [OF db_store_entry_wrote [OF e [unfolded r] assms(2)] this] show ?thesis by simp
qed

subsection \<open>Replacing the file\<close>

definition content :: "world \<Rightarrow> string \<Rightarrow> string option" where
  "content w q = map_option f_data (w_files w q)"

definition file_lines :: "world \<Rightarrow> string \<Rightarrow> string list \<Rightarrow> bool" where
  "file_lines w q ls \<longleftrightarrow> (case content w q of None \<Rightarrow> ls = [] | Some c \<Rightarrow> c = concat ls)"

text \<open>Calls that leave the contents of every file, and of \<open>q\<close> all but the owner.\<close>

definition keeps :: "world \<Rightarrow> world \<Rightarrow> bool" where
  "keeps w w' \<longleftrightarrow> (\<forall>q. content w' q = content w q) \<and> w_locks w' = w_locks w \<and> w_devs w' = w_devs w \<and> same_env w w'"

lemma keeps_trans: "keeps w v \<Longrightarrow> keeps v x \<Longrightarrow> keeps w x"
  by (auto simp: keeps_def intro: same_env_trans)

lemma unchanged_keeps: "unchanged w v \<Longrightarrow> keeps w v"
  by (simp add: unchanged_def keeps_def content_def)

lemma keeps_refl [simp]: "keeps w w"
  by (simp add: keeps_def)

lemma os_chown_keeps: "os_chown p u g w = (b, w') \<Longrightarrow> keeps w w'"
proof -
  assume o: "os_chown p u g w = (b, w')"
  obtain bad v where f: "fault w = (bad, v)" by (cases "fault w")
  have v: "unchanged w v" by (rule unchanged_calls(1) [OF f])
  show "keeps w w'"
    using o v by (auto simp: os_chown_def f keeps_def content_def unchanged_def same_env_def
        split: option.splits if_splits)
qed

lemma os_stat_keeps: "os_stat q w = (f, w') \<Longrightarrow> keeps w w'"
  by (rule unchanged_keeps) (rule unchanged_calls(2))

lemma db_perm_global_keeps: "db_perm_global cfg q w = (r, w') \<Longrightarrow> keeps w w'"
  by (auto simp: db_perm_global_def split: prod.splits option.splits if_splits
      dest!: os_stat_keeps os_chown_keeps intro: keeps_trans)

lemma db_perm_user_keeps: "db_perm_user q h w = (r, w') \<Longrightarrow> unchanged w w'"
  by (auto simp: db_perm_user_def split: prod.splits option.splits if_splits
      dest!: unchanged_calls(2) intro: unchanged_trans)

lemma db_file_permissions_keeps: "db_file_permissions cfg q h w = Some (r, w') \<Longrightarrow> keeps w w'"
  by (auto simp: db_file_permissions_def bind_eq_Some_conv split: if_splits
      dest: db_perm_global_keeps unchanged_keeps [OF db_perm_user_keeps])

lemma db_store_chown_keeps: "db_store_chown cfg p w = (r, w') \<Longrightarrow> keeps w w'"
  by (auto simp: db_store_chown_def split: prod.splits option.splits if_splits
      dest!: os_stat_keeps os_chown_keeps intro: keeps_trans)

lemma db_store_chown_touched: "db_store_chown cfg p w = (r, w') \<Longrightarrow> touched (p_tmp p) w w'"
  by (auto simp: db_store_chown_def split: prod.splits option.splits if_splits
      dest!: touched_calls(2) [where p = "p_tmp p"] touched_calls(7) intro: touched_trans)

lemma os_fopen_w_empty: "os_fopen_w p w = (True, w') \<Longrightarrow> content w' p = Some []"
  by (auto simp: os_fopen_w_def content_def split: prod.splits option.splits if_splits)

lemma os_fopen_r_content:
  "os_fopen_r q w = (Opened c, w') \<Longrightarrow> content w q = Some c"
  "os_fopen_r q w = (Fopen_enoent, w') \<Longrightarrow> content w q = None"
  by (auto simp: os_fopen_r_def content_def split: prod.splits option.splits if_splits dest: fault_frame)

lemma os_rename_result:
  assumes "os_rename p q w = (ok, w')"
  shows "if ok then w_files w' = (w_files w)(p := None, q := w_files w p) else w_files w' = w_files w"
  using assms by (auto simp: os_rename_def split: prod.splits if_splits dest!: fault_frame)

lemma os_unlink_result:
  assumes "os_unlink p w = (ok, w')"
  shows "if ok then w_files w' = (w_files w)(p := None) else w_files w' = w_files w"
  using assms by (auto simp: os_unlink_def split: prod.splits if_splits dest!: fault_frame)

lemma wrote_content: "wrote p s w w' \<Longrightarrow> content w p = Some c \<Longrightarrow> content w' p = Some (c @ s)"
  by (auto simp: wrote_def content_def)

lemma db_store_write_touched:
  assumes "db_store_write cfg s remove p w = Some (ret, w')"
  shows "touched (p_tmp p) w w'"
proof -
  obtain r w1 where o: "os_fopen_r (p_db p) w = (r, w1)" by (cases "os_fopen_r (p_db p) w")
  obtain ok w2 where t: "os_fopen_w (p_tmp p) w1 = (ok, w2)" by (cases "os_fopen_w (p_tmp p) w1")
  obtain c w3 where ch: "db_store_chown cfg p w2 = (c, w3)" by (cases "db_store_chown cfg p w2")
  note t1 = touched_calls(3) [OF o, of "p_tmp p"]
  note t2 = touched_trans [OF t1 touched_calls(4) [OF t]]
  note t3 = touched_trans [OF t2 db_store_chown_touched [OF ch]]
  from assms show ?thesis
    using t1 t2 t3 touched_trans [OF t3 db_store_copy_touched]
    by (auto simp: db_store_write_def o t ch split: if_splits)
qed

lemma db_store_write_content:
  assumes "db_store_write cfg s remove p w = Some (0, w')" and s: "entry_ok s" and d: "p_tmp p \<noteq> p_db p"
    and ls: "file_lines w (p_db p) ls" "list_all line_ok ls" "db_unique (username s) ls"
  shows "content w' (p_tmp p) = Some (concat (db_put (username s) (db_new s remove) ls))"
proof -
  obtain r w1 where o: "os_fopen_r (p_db p) w = (r, w1)" by (cases "os_fopen_r (p_db p) w")
  obtain ok w2 where t: "os_fopen_w (p_tmp p) w1 = (ok, w2)" by (cases "os_fopen_w (p_tmp p) w1")
  obtain c w3 where ch: "db_store_chown cfg p w2 = (c, w3)" by (cases "db_store_chown cfg p w2")
  have ok: "ok" "c = 0" "r \<noteq> Fopen_error" and
    cp: "db_store_copy s remove p (case r of Opened f \<Rightarrow> Some f | _ \<Rightarrow> None) w3 = Some (0, w')"
    using assms(1) by (auto simp: db_store_write_def o t ch split: if_splits)
  have e: "content w3 (p_tmp p) = Some []"
    using os_fopen_w_empty t ok(1) db_store_chown_keeps [OF ch] by (auto simp: keeps_def)
  show ?thesis
  proof (cases r)
    case (Opened f)
    then have "f = concat ls" using ls(1) os_fopen_r_content(1) o by (auto simp: file_lines_def)
    then show ?thesis
      using wrote_content [OF db_store_copy_wrote [OF _ s ls(2,3)] e] cp Opened by simp
  next
    case Fopen_enoent
    then have "ls = []" using ls(1) os_fopen_r_content(2) o by (auto simp: file_lines_def)
    then show ?thesis
      using wrote_content [OF db_store_copy_new [OF _ s] e] cp Fopen_enoent by (simp add: db_put_def)
  qed (use ok in simp)
qed

text \<open>The result of a store: what it may touch, and the contents it leaves.\<close>

lemma db_store_cleanup_result:
  assumes "db_store_cleanup cfg p r w = Some (ret, w')" and "p_tmp p \<noteq> p_db p"
  shows "(\<forall>q. q \<noteq> p_db p \<longrightarrow> q \<noteq> p_tmp p \<longrightarrow> content w' q = content w q) \<and> w_locks w' = w_locks w \<and>
    w_devs w' = w_devs w \<and> same_env w w' \<and>
    (if ret = 0 then r = 0 \<and> content w' (p_db p) = content w (p_tmp p)
     else content w' (p_db p) = content w (p_db p))"
proof (cases "r = 0")
  case True
  obtain ok v where m: "os_rename (p_tmp p) (p_db p) w = (ok, v)" by (cases "os_rename (p_tmp p) (p_db p) w")
  have f: "w_locks v = w_locks w \<and> w_devs v = w_devs w \<and> same_env w v" by (rule os_frames(7) [OF m])
  show ?thesis
  proof (cases ok)
    case True
    then obtain x where "db_file_permissions cfg (p_db p) None v = Some (x, w')" and ret: "ret = 0"
      using assms(1) \<open>r = 0\<close> by (auto simp: db_store_cleanup_def m bind_eq_Some_conv)
    then have "keeps v w'" by (blast intro: db_file_permissions_keeps)
    then show ?thesis
      using os_rename_result [OF m] True \<open>r = 0\<close> f assms(2)
      by (auto simp: ret keeps_def content_def intro: same_env_trans)
  next
    case False
    then show ?thesis
      using assms os_rename_result [OF m] \<open>r = 0\<close> f by (auto simp: db_store_cleanup_def m content_def)
  qed
next
  case False
  obtain ok v where m: "os_unlink (p_tmp p) w = (ok, v)" by (cases "os_unlink (p_tmp p) w")
  then show ?thesis
    using assms False os_frames(5) [OF m] by (auto simp: db_store_cleanup_def m content_def)
qed

lemma touched_content: "touched p w v \<Longrightarrow> q \<noteq> p \<Longrightarrow> content v q = content w q"
  by (simp add: touched_def content_def)

lemma db_store_locked_frame:
  assumes "db_store_locked cfg s remove p w = Some (ret, w')" and d: "p_tmp p \<noteq> p_db p"
  shows "(\<forall>q. q \<noteq> p_db p \<longrightarrow> q \<noteq> p_tmp p \<longrightarrow> content w' q = content w q) \<and> w_locks w' = w_locks w \<and>
    w_devs w' = w_devs w \<and> same_env w w' \<and> (ret \<noteq> 0 \<longrightarrow> content w' (p_db p) = content w (p_db p))"
proof (cases "db cfg = CONFIG_DB_USER \<and> remove")
  case True
  obtain ok v where m: "os_unlink (p_db p) w = (ok, v)" by (cases "os_unlink (p_db p) w")
  then show ?thesis
    using assms True os_frames(5) [OF m] os_unlink_result [OF m]
    by (auto simp: db_store_locked_def m content_def split: if_splits)
next
  case False
  then obtain r v where a: "db_store_write cfg s remove p w = Some (r, v)" and
    b: "db_store_cleanup cfg p r v = Some (ret, w')"
    using assms(1) by (auto simp: db_store_locked_def bind_eq_Some_conv)
  have t: "touched (p_tmp p) w v" by (rule db_store_write_touched [OF a])
  show ?thesis
    using db_store_cleanup_result [OF b d] t touched_content [OF t] d
    by (auto simp: touched_def intro: same_env_trans)
qed

lemma db_store_locked_content:
  assumes "db_store_locked cfg s remove p w = Some (0, w')" and s: "entry_ok s" and d: "p_tmp p \<noteq> p_db p"
    and ls: "file_lines w (p_db p) ls" "list_all line_ok ls" "db_unique (username s) ls"
  shows "file_lines w' (p_db p)
    (if db cfg = CONFIG_DB_USER \<and> remove then [] else db_put (username s) (db_new s remove) ls)"
proof (cases "db cfg = CONFIG_DB_USER \<and> remove")
  case True
  obtain ok v where m: "os_unlink (p_db p) w = (ok, v)" by (cases "os_unlink (p_db p) w")
  then show ?thesis
    using assms(1) True os_unlink_result [OF m]
    by (auto simp: db_store_locked_def m file_lines_def content_def split: if_splits)
next
  case False
  then obtain r v where a: "db_store_write cfg s remove p w = Some (r, v)" and
    b: "db_store_cleanup cfg p r v = Some (0, w')"
    using assms(1) by (auto simp: db_store_locked_def bind_eq_Some_conv)
  have "r = 0" and c: "content w' (p_db p) = content v (p_tmp p)"
    using db_store_cleanup_result [OF b d] by auto
  then show ?thesis
    using db_store_write_content [OF _ s d ls] a False by (auto simp: file_lines_def)
qed

end
