(* ===== verification/Db_Map.thy ===== *)
theory Db_Map
  imports Db_Store
begin

text \<open>
  The abstract database: a map from user names to lines.  The lines of a file are recovered from
  its contents, a well-formed file is one whose lines the search accepts with at most one line
  per user, and the map of the file is looked up by loading and updated by storing.  Locking and
  unlocking, which frame both, are described by what they do to the lock table.
\<close>

subsection \<open>The lines of a file\<close>

function lines_of :: "string \<Rightarrow> string list" where
  "lines_of c =
     (if c = [] then []
      else if CHR 0x0A \<in> set c
      then (takeWhile (\<lambda>x. x \<noteq> CHR 0x0A) c @ [CHR 0x0A]) # lines_of (tl (dropWhile (\<lambda>x. x \<noteq> CHR 0x0A) c))
      else [c])"
  by pat_completeness auto
termination
proof (relation "measure length", goal_cases)
  case (2 c)
  have "length (dropWhile (\<lambda>x. x \<noteq> CHR 0x0A) c) \<le> length c" by (rule length_dropWhile_le)
  with 2 show ?case by (simp add: less_le_trans [OF diff_less])
qed simp

declare lines_of.simps [simp del]

lemma lines_of_Nil [simp]: "lines_of [] = []"
  by (subst lines_of.simps) simp

lemma concat_lines_of: "concat (lines_of c) = c"
proof (induction c rule: lines_of.induct)
  case (1 c)
  show ?case
  proof (cases "c \<noteq> [] \<and> CHR 0x0A \<in> set c")
    case True
    then obtain d where d: "dropWhile (\<lambda>x. x \<noteq> CHR 0x0A) c = CHR 0x0A # d"
      by (cases "dropWhile (\<lambda>x. x \<noteq> CHR 0x0A) c") (auto simp: dropWhile_eq_Nil_conv dropWhile_eq_Cons_conv)
    have "concat (lines_of c) = takeWhile (\<lambda>x. x \<noteq> CHR 0x0A) c @ CHR 0x0A # d"
      using 1 True d by (subst lines_of.simps) simp
    then show ?thesis using takeWhile_dropWhile_id [of "\<lambda>x. x \<noteq> CHR 0x0A" c] d by simp
  next
    case False
    then show ?thesis by (subst lines_of.simps) auto
  qed
qed

lemma lines_of_line:
  assumes "CHR 0x0A \<notin> set b"
  shows "lines_of (b @ CHR 0x0A # c) = (b @ [CHR 0x0A]) # lines_of c"
proof -
  have b: "\<And>x. x \<in> set b \<Longrightarrow> x \<noteq> CHR 0x0A" using assms by auto
  have "takeWhile (\<lambda>x. x \<noteq> CHR 0x0A) (b @ CHR 0x0A # c) = b"
    "dropWhile (\<lambda>x. x \<noteq> CHR 0x0A) (b @ CHR 0x0A # c) = CHR 0x0A # c"
    using b by (simp_all add: takeWhile_append2 dropWhile_append2)
  then show ?thesis by (subst lines_of.simps) simp
qed

lemma lines_of_concat: "list_all line_ok ls \<Longrightarrow> lines_of (concat ls) = ls"
proof (induction ls)
  case (Cons l ls)
  then have "l = butlast l @ [CHR 0x0A]" and b: "CHR 0x0A \<notin> set (butlast l)"
    using append_butlast_last_id [of l] by (simp_all add: line_ok_def)
  then obtain b where "l = b @ [CHR 0x0A]" "CHR 0x0A \<notin> set b" by metis
  then show ?case using lines_of_line [of b "concat ls"] Cons by simp
qed simp

definition db_lines :: "world \<Rightarrow> string \<Rightarrow> string list" where
  "db_lines w q = (case content w q of None \<Rightarrow> [] | Some c \<Rightarrow> lines_of c)"

definition file_wf :: "world \<Rightarrow> string \<Rightarrow> bool" where
  "file_wf w q \<longleftrightarrow> list_all line_ok (db_lines w q) \<and> (\<forall>u. db_unique u (db_lines w q))"

text \<open>The abstract database.\<close>

definition user_map :: "world \<Rightarrow> string \<Rightarrow> string \<Rightarrow> string option" where
  "user_map w q u = db_lookup u (db_lines w q)"

lemma file_lines_db_lines: "file_lines w q (db_lines w q)"
  by (simp add: file_lines_def db_lines_def concat_lines_of split: option.split)

lemma file_lines_wf: "file_lines w q ls \<Longrightarrow> list_all line_ok ls \<Longrightarrow> db_lines w q = ls"
  by (auto simp: file_lines_def db_lines_def lines_of_concat split: option.splits)

lemma content_db_lines: "content w' q = content w r \<Longrightarrow> db_lines w' q = db_lines w r"
  by (simp add: db_lines_def)

lemma content_user_map: "content w' q = content w q \<Longrightarrow> user_map w' q = user_map w q"
  by (simp add: user_map_def db_lines_def fun_eq_iff)

lemma content_file_wf: "content w' q = content w q \<Longrightarrow> file_wf w' q = file_wf w q"
  by (simp add: file_wf_def db_lines_def)

subsection \<open>Storing updates the map\<close>

definition map_store :: "cfg_t \<Rightarrow> state \<Rightarrow> bool \<Rightarrow> (string \<Rightarrow> string option) \<Rightarrow> string \<Rightarrow> string option" where
  "map_store cfg s remove m =
     (if remove then if db cfg = CONFIG_DB_USER then Map.empty else m(username s := None)
      else m(username s \<mapsto> db_line s))"

lemma db_store_locked_map:
  assumes st: "db_store_locked cfg s remove p w = Some (ret, w')" and s: "entry_ok s"
    and d: "p_tmp p \<noteq> p_db p" and wf: "file_wf w (p_db p)"
  shows "file_wf w' (p_db p) \<and>
    user_map w' (p_db p) = (if ret = 0 then map_store cfg s remove (user_map w (p_db p)) else user_map w (p_db p))"
proof (cases "ret = 0")
  case False
  then have "content w' (p_db p) = content w (p_db p)" using db_store_locked_frame [OF st d] by simp
  then show ?thesis using False wf content_user_map content_file_wf by metis
next
  case True
  let ?ls = "db_lines w (p_db p)" and ?u = "username s"
  let ?new = "if db cfg = CONFIG_DB_USER \<and> remove then [] else db_put ?u (db_new s remove) ?ls"
  have wf: "list_all line_ok ?ls" "\<And>v. db_unique v ?ls" using wf by (auto simp: file_wf_def)
  have ok: "list_all line_ok ?new" using wf db_new_ok(1) [OF s] line_ok_put by auto
  have un: "db_unique v ?new" for v
    using db_unique_put [OF wf(2) db_new_ok(2,3) [OF s] wf(2)] by (simp add: db_unique_def)
  have lines: "db_lines w' (p_db p) = ?new"
    using db_store_locked_content [OF _ s d file_lines_db_lines wf] st True file_lines_wf ok by auto
  have "db_lookup v ?new = map_store cfg s remove (user_map w (p_db p)) v" for v
    using db_lookup_put_same [OF db_line_ok(2) [OF s]] db_lookup_put_removed [OF wf(2)]
      db_lookup_put_other [of ?u v "db_new s remove" ?ls] db_new_ok(2) [OF s]
    by (cases "v = ?u") (auto simp: map_store_def user_map_def db_new_def db_lookup_def)
  then show ?thesis using ok un True by (auto simp: lines file_wf_def user_map_def)
qed

subsection \<open>Loading looks the map up\<close>

lemma db_parse_loop_codes: "db_parse_loop i fs \<in> {0, STATE_PARSE_ERROR}"
  by (induction i fs rule: db_parse_loop.induct) (subst db_parse_loop.simps, auto split: list.splits)

lemma db_load_numbers_codes: "db_load_numbers fs s = (r, s') \<Longrightarrow> r \<in> {0, STATE_PARSE_ERROR}"
  by (auto simp: db_load_numbers_def Let_def split: option.splits)

lemma db_load_spass_codes: "db_load_spass fs s = Some (r, s') \<Longrightarrow> r \<in> {0, STATE_PARSE_ERROR}"
  by (auto simp: db_load_spass_def bind_eq_Some_conv Let_def split: option.splits if_splits)

lemma db_load_checks_codes: "db_load_checks s \<in> {0, STATE_PARSE_ERROR}"
  by (auto simp: db_load_checks_def)

lemma db_load_fields_codes: "db_load_fields fs s = Some (r, s') \<Longrightarrow> r \<in> {0, STATE_PARSE_ERROR}"
  using db_load_checks_codes
  by (auto simp: db_load_fields_def bind_eq_Some_conv Let_def split_beta split: if_splits
      dest: db_load_spass_codes db_load_numbers_codes)

lemma db_load_locked_unchanged:
  assumes "db_load_locked q s w = Some (r, s', w')"
  shows "unchanged w w'"
proof -
  obtain x v where o: "os_fopen_r q w = (x, v)" by (cases "os_fopen_r q w")
  note v = unchanged_calls(3) [OF o]
  show ?thesis
  proof (cases x)
    case (Opened f)
    then obtain ret b rest w1 where f: "db_find_user_entry (username s) f None v = Some (ret, b, rest, w1)"
      using assms by (auto simp: db_load_locked_def o bind_eq_Some_conv)
    then have "w' = w1" using assms Opened
      by (auto simp: db_load_locked_def o bind_eq_Some_conv split: if_splits prod.splits)
    then show ?thesis using unchanged_trans [OF v] db_find_unchanged [OF f] by simp
  qed (use assms v in \<open>auto simp: db_load_locked_def o\<close>)
qed

lemma db_load_locked_map:
  assumes "db_load_locked q s w = Some (r, s', w')" and wf: "file_wf w q"
  shows "if r = 0 then \<exists>l. user_map w q (username s) = Some l \<and> entry_read s l = Some s'
    else r = STATE_NO_USER_ENTRY \<longrightarrow> user_map w q (username s) = None"
proof -
  obtain x v where o: "os_fopen_r q w = (x, v)" by (cases "os_fopen_r q w")
  show ?thesis
  proof (cases x)
    case (Opened f)
    then have f: "f = concat (db_lines w q)"
      using file_lines_db_lines [of w q] os_fopen_r_content(1) o by (auto simp: file_lines_def)
    have "list_all line_ok (db_lines w q)" using wf by (simp add: file_wf_def)
    from db_find_lookup [OF this, of "username s" v] obtain ret b rest w1 where
      fi: "db_find_user_entry (username s) f None v = Some (ret, b, rest, w1)" and
      c: "ret = STATE_IO_ERROR \<or> (ret = 0 \<and> user_map w q (username s) = Some b) \<or>
        (ret = STATE_NO_USER_ENTRY \<and> user_map w q (username s) = None)"
      by (auto simp: f user_map_def)
    obtain e fs where p: "db_parse_user_entry b = (e, fs)" by (cases "db_parse_user_entry b")
    have e: "e = 0 \<or> e = STATE_PARSE_ERROR" using p db_parse_loop_codes by (auto simp: db_parse_user_entry_def Let_def)
    consider "ret \<noteq> 0" | "ret = 0" "e \<noteq> 0" | "ret = 0" "e = 0" by blast
    then show ?thesis
    proof cases
      case 3
      then obtain rv s1 where l: "db_load_fields fs s = Some (rv, s1)"
        using assms(1) by (auto simp: db_load_locked_def o Opened fi p bind_eq_Some_conv)
      then have "r = rv" "s' = s1" using assms(1) 3 by (auto simp: db_load_locked_def o Opened fi p)
      then show ?thesis using l 3 c p db_load_fields_codes [OF l] by (auto simp: entry_read_def)
    qed (use assms(1) c e in \<open>auto simp: db_load_locked_def o Opened fi p\<close>)
  qed (use assms(1) in \<open>auto simp: db_load_locked_def o\<close>)
qed

end
