(* ===== verification/Db_Lock.thy ===== *)
theory Db_Lock
  imports Db_Map
begin

text \<open>
  Locking, unlocking, and the two operations of the file backend as a whole: what they do to
  the lock table, to the lock file and to the abstract database, whichever system calls fail.
\<close>

subsection \<open>Paths\<close>

definition db_name :: "cfg_t \<Rightarrow> string \<Rightarrow> world \<Rightarrow> string" where
  "db_name cfg u w =
     (if db cfg = CONFIG_DB_USER
      then case w_pwnam w u of None \<Rightarrow> [] | Some pw \<Rightarrow>
           (case pw_dir pw of None \<Rightarrow> [] | Some home \<Rightarrow> home @ ''/'' @ user_db_path cfg)
      else global_db_path cfg)"

lemma db_name_env: "same_env w w' \<Longrightarrow> db_name cfg u w' = db_name cfg u w"
  by (simp add: db_name_def same_env_def)

definition paths_ok :: "string \<Rightarrow> db_paths \<Rightarrow> bool" where
  "paths_ok n p \<longleftrightarrow> p_db p = n \<and> p_lck p = n @ ''.lck'' \<and> p_tmp p = n @ ''.tmp''"

lemma paths_ok_distinct: "paths_ok n p \<Longrightarrow> p_tmp p \<noteq> p_db p" "paths_ok n p \<Longrightarrow> p_lck p \<noteq> p_db p"
    "paths_ok n p \<Longrightarrow> p_lck p \<noteq> p_tmp p"
  by (simp_all add: paths_ok_def)

lemma db_path_rest_spec:
  "db_path_rest b n u g h w = Some (r, w') \<Longrightarrow>
   unchanged w w' \<and> (case r of Inl e \<Rightarrow> e \<noteq> 0 | Inr p \<Rightarrow> paths_ok n p)"
  by (auto simp: db_path_rest_def paths_ok_def split: prod.splits if_splits
      dest!: unchanged_calls(1) intro: unchanged_trans)

lemma db_path_rest_step:
  assumes "db_path_rest b n u g h v = Some (r, w')" and "unchanged w v"
  shows "unchanged w w' \<and> (case r of Inl e \<Rightarrow> e \<noteq> 0 | Inr p \<Rightarrow> paths_ok n p)"
  using db_path_rest_spec [OF assms(1)] unchanged_trans [OF assms(2)] by blast

lemma db_path_spec:
  assumes "db_path cfg u b w = Some (r, w')"
  shows "unchanged w w' \<and> (case r of Inl e \<Rightarrow> e \<noteq> 0 | Inr p \<Rightarrow> paths_ok (db_name cfg u w) p)"
proof -
  obtain b1 v1 where f1: "fault w = (b1, v1)" by (cases "fault w")
  obtain b2 v2 where f2: "fault v1 = (b2, v2)" by (cases "fault v1")
  note u1 = unchanged_calls(1) [OF f1]
  note u2 = unchanged_trans [OF u1 unchanged_calls(1) [OF f2]]
  note step = db_path_rest_step [OF _ u1] db_path_rest_step [OF _ u2]
  show ?thesis
  proof (cases "db cfg = CONFIG_DB_USER")
    case True
    note user = True
    show ?thesis
    proof (cases "w_pwnam w u = None \<or> (\<exists>pw. w_pwnam w u = Some pw \<and> pw_dir pw = None)")
      case True
      then show ?thesis using assms user by (auto simp: db_path_def split: option.splits)
    next
      case False
      then obtain pw h where pw: "w_pwnam w u = Some pw" "pw_dir pw = Some h" by auto
      then have n: "db_name cfg u w = h @ CHR ''/'' # user_db_path cfg" using user by (simp add: db_name_def)
      show ?thesis
        using assms user u1 u2 unfolding n
        by (auto simp: db_path_def pw f1 f2 Let_def split: if_splits dest!: step)
    qed
  next
    case False
    then have n: "db_name cfg u w = global_db_path cfg" by (simp add: db_name_def)
    show ?thesis
      using assms False u1 unfolding n by (auto simp: db_path_def f1 split: if_splits dest!: step)
  qed
qed

subsection \<open>Locking\<close>

text \<open>A call that may have touched the lock file of the database \<open>n\<close> only.\<close>

definition lock_frame :: "string \<Rightarrow> world \<Rightarrow> world \<Rightarrow> bool" where
  "lock_frame n w w' \<longleftrightarrow>
     (\<forall>q. q \<noteq> n @ ''.lck'' \<longrightarrow> content w' q = content w q) \<and> w_devs w' = w_devs w \<and> same_env w w'"

lemma lock_frame_refl [simp]: "lock_frame n w w"
  by (simp add: lock_frame_def)

lemma lock_frame_trans: "lock_frame n w v \<Longrightarrow> lock_frame n v x \<Longrightarrow> lock_frame n w x"
  by (auto simp: lock_frame_def intro: same_env_trans)

lemma keeps_lock_frame: "keeps w v \<Longrightarrow> lock_frame n w v"
  by (simp add: keeps_def lock_frame_def)

lemma touched_lock_frame: "touched (n @ ''.lck'') w v \<Longrightarrow> lock_frame n w v"
  by (simp add: touched_def lock_frame_def content_def)

lemma lock_frame_env: "lock_frame n w v \<Longrightarrow> same_env w v"
  by (simp add: lock_frame_def)

lemma lock_frame_map: "lock_frame n w v \<Longrightarrow> user_map v n = user_map w n"
  and lock_frame_wf: "lock_frame n w v \<Longrightarrow> file_wf v n = file_wf w n"
  by (rule content_user_map content_file_wf; simp add: lock_frame_def)+

lemma same_env_locks [simp]: "same_env w (w\<lparr>w_locks := l\<rparr>)"
  by (simp add: same_env_def)

lemma os_setlk_spec:
  "os_setlk fd p w = (ok, w') \<Longrightarrow>
   lock_frame n w w' \<and> w_locks w' = (if ok then (w_locks w)(fd \<mapsto> p) else w_locks w)"
  by (auto simp: os_setlk_def lock_frame_def content_def same_env_def split: prod.splits if_splits dest!: fault_frame)

lemma setlk_tries_spec:
  "setlk_tries k fd p w = (ok, w') \<Longrightarrow>
   lock_frame n w w' \<and> w_locks w' = (if ok then (w_locks w)(fd \<mapsto> p) else w_locks w)"
proof (induction k arbitrary: w)
  case (Suc k)
  obtain b v where o: "os_setlk fd p w = (b, v)" by (cases "os_setlk fd p w")
  note os_setlk_spec [OF o, of n]
  then show ?case
    using Suc.prems Suc.IH [of v] by (cases b) (auto simp: o intro: lock_frame_trans)
qed simp

lemma os_open_lck_spec:
  assumes "os_open_lck (n @ ''.lck'') w = (fd, w')"
  shows "lock_frame n w w' \<and> w_locks w' = w_locks w \<and> (fd = None \<or> fd = Some (w_fd w))"
  using os_frames(8) [OF assms] assms
  by (auto simp: lock_frame_def content_def os_open_lck_def same_env_def split: prod.splits if_splits dest!: fault_frame)

lemma db_file_lock_spec:
  assumes "db_file_lock cfg s w = Some (r, s', w')"
  shows "lock s = -1 \<and> lock_frame (db_name cfg (username s) w) w w' \<and>
    (if r = 0 then s' = s\<lparr>lock := w_fd w\<rparr> \<and>
       w_locks w' = (w_locks w)(w_fd w \<mapsto> db_name cfg (username s) w @ ''.lck'')
     else s' = s \<and> (w_locks w' = w_locks w \<or> w_locks w' = (w_locks w)(w_fd w := None)))"
proof -
  let ?n = "db_name cfg (username s) w"
  obtain x w1 where p: "db_path cfg (username s) True w = Some (x, w1)"
    using assms by (auto simp: db_file_lock_def bind_eq_Some_conv)
  have l: "lock s = -1" using assms by (auto simp: db_file_lock_def bind_eq_Some_conv)
  from db_path_spec [OF p] have u: "unchanged w w1"
    and x: "case x of Inl e \<Rightarrow> e \<noteq> 0 | Inr p \<Rightarrow> paths_ok ?n p" by auto
  have f1: "lock_frame ?n w w1" and l1: "w_locks w1 = w_locks w" and fd1: "w_fd w1 = w_fd w"
    using u unchanged_keeps keeps_lock_frame by (auto simp: unchanged_def same_env_def)
  show ?thesis
  proof (cases x)
    case (Inl e)
    then show ?thesis using assms l x f1 l1 by (auto simp: db_file_lock_def p)
  next
    case (Inr q)
    then have q: "p_lck q = ?n @ ''.lck''" using x by (simp add: paths_ok_def)
    obtain y w2 where pm: "db_file_permissions cfg (p_db q) (p_home q) w1 = Some (y, w2)"
      using assms by (auto simp: db_file_lock_def p Inr bind_eq_Some_conv)
    have k: "keeps w1 w2" by (rule db_file_permissions_keeps [OF pm])
    have f2: "lock_frame ?n w w2" using lock_frame_trans [OF f1 keeps_lock_frame [OF k]] .
    have l2: "w_locks w2 = w_locks w" and fd2: "w_fd w2 = w_fd w"
      using k l1 fd1 by (auto simp: keeps_def same_env_def)
    obtain fd w3 where o: "os_open_lck (?n @ ''.lck'') w2 = (fd, w3)" by (cases "os_open_lck (?n @ ''.lck'') w2")
    from os_open_lck_spec [OF o] have f3: "lock_frame ?n w w3" and l3: "w_locks w3 = w_locks w"
      and fd: "fd = None \<or> fd = Some (w_fd w)"
      using lock_frame_trans [OF f2] l2 fd2 by auto
    obtain ok w4 where t: "setlk_tries 20 (w_fd w) (?n @ ''.lck'') w3 = (ok, w4)"
      by (cases "setlk_tries 20 (w_fd w) (?n @ ''.lck'') w3")
    from setlk_tries_spec [OF t, of ?n] have f4: "lock_frame ?n w w4"
      and l4: "w_locks w4 = (if ok then (w_locks w)(w_fd w \<mapsto> ?n @ ''.lck'') else w_locks w)"
      using lock_frame_trans [OF f3] l3 by auto
    have f5: "lock_frame ?n w (os_close (w_fd w) w4)"
      using f4 by (simp add: lock_frame_def os_close_def content_def same_env_def)
    have l5: "w_locks (os_close (w_fd w) w4) = (w_locks w4)(w_fd w := None)"
      by (simp add: os_close_def)
    have res: "Some (r, s', w') =
        (if y = STATE_IO_ERROR then Some (STATE_LOCK_ERROR, s, w2)
         else if y = STATE_NO_USER_HOME then Some (y, s, w2)
         else if fd = None then Some (STATE_LOCK_ERROR, s, w3)
         else if ok then Some (0, s\<lparr>lock := w_fd w\<rparr>, w4)
         else Some (STATE_LOCK_ERROR, s, os_close (w_fd w) w4))"
      using assms l fd
      by (cases fd; cases "y = STATE_IO_ERROR"; cases "y = STATE_NO_USER_HOME")
         (simp_all add: db_file_lock_def p Inr pm q o t)
    show ?thesis
    proof (cases "y = STATE_IO_ERROR \<or> y = STATE_NO_USER_HOME")
      case True
      then have "s' = s" "r \<noteq> 0" "w' = w2" using res by auto
      then show ?thesis using l f2 l2 by simp
    next
      case False
      note y = False
      show ?thesis
      proof (cases "fd = None")
        case True
        then have "s' = s" "r \<noteq> 0" "w' = w3" using res y by auto
        then show ?thesis using l f3 l3 by simp
      next
        case False
        then show ?thesis using res y l f4 l4 f5 l5 by (cases ok) auto
      qed
    qed
  qed
qed

lemma db_file_unlock_spec:
  assumes "db_file_unlock cfg s w = Some (r, s', w')"
  shows "lock_frame (db_name cfg (username s) w) w w' \<and>
    ((s' = s \<and> w_locks w' = w_locks w \<and> (0 \<le> lock s \<longrightarrow> r \<noteq> 0)) \<or>
     (0 \<le> lock s \<and> s' = s\<lparr>lock := -1\<rparr> \<and> w_locks w' = (w_locks w)(lock s := None)))"
proof -
  let ?n = "db_name cfg (username s) w"
  obtain x w1 where p: "db_path cfg (username s) False w = Some (x, w1)"
    using assms by (auto simp: db_file_unlock_def bind_eq_Some_conv)
  from db_path_spec [OF p] have u: "unchanged w w1"
    and x: "case x of Inl e \<Rightarrow> e \<noteq> 0 | Inr p \<Rightarrow> paths_ok ?n p" by auto
  have f1: "lock_frame ?n w w1" and l1: "w_locks w1 = w_locks w"
    using u unchanged_keeps keeps_lock_frame by (auto simp: unchanged_def)
  show ?thesis
  proof (cases "(\<exists>e. x = Inl e) \<or> lock s < 0")
    case True
    then have "s' = s \<and> w' = w1 \<and> (0 \<le> lock s \<longrightarrow> r \<noteq> 0)"
      using assms x by (cases x) (simp_all add: db_file_unlock_def p)
    then show ?thesis using f1 l1 by simp
  next
    case False
    then obtain q where q: "x = Inr q" "p_lck q = ?n @ ''.lck''" "0 \<le> lock s"
      using x by (cases x) (auto simp: paths_ok_def)
    obtain b w2 where ul: "os_unlink (?n @ ''.lck'') w1 = (b, w2)" by (cases "os_unlink (?n @ ''.lck'') w1")
    obtain ok w3 where uk: "os_unlk (lock s) w2 = (ok, w3)" by (cases "os_unlk (lock s) w2")
    have f2: "lock_frame ?n w w2" and l2: "w_locks w2 = w_locks w"
      using lock_frame_trans [OF f1 touched_lock_frame [OF touched_calls(6) [OF ul]]]
        os_frames(5) [OF ul, THEN conjunct2, THEN conjunct1] l1 by simp_all
    have "lock_frame ?n w2 w3"
      using os_frames(10) [OF uk] by (simp add: lock_frame_def content_def)
    then have f3: "lock_frame ?n w w3" by (rule lock_frame_trans [OF f2])
    then have f4: "lock_frame ?n w (os_close (lock s) w3)"
      by (simp add: lock_frame_def os_close_def content_def same_env_def)
    have "w_locks (os_close (lock s) w3) = (w_locks w)(lock s := None)"
      using uk l2 by (auto simp: os_close_def os_unlk_def split: prod.splits if_splits dest!: fault_frame)
    then show ?thesis
      using assms f4 q by (auto simp: db_file_unlock_def p ul uk not_less)
  qed
qed

end
