(* ===== verification/State_Map.thy ===== *)
theory State_Map
  imports Db_Lock
begin

text \<open>
  The interface the PPP layer uses of the database: locking, loading, storing and unlocking a
  state, with the abstract database as what a caller can rely on.  The interface is a locale; it
  is interpreted on the operations of \<open>state.c\<close> over the file backend.
\<close>

subsection \<open>States that were read can be written\<close>

text \<open>What a state needs before its entry is read into it.\<close>

definition mem_ok :: "state \<Rightarrow> bool" where
  "mem_ok s \<longleftrightarrow> plain (username s) \<and> length (username s) \<le> STATE_MAX_FIELD_SIZE \<and>
     length (sequence_key s) = 32 \<and> length (spass s) = 40"

lemma entry_mem_ok: "entry_ok s \<Longrightarrow> mem_ok s"
  by (simp add: entry_ok_def mem_ok_def)

lemma load_key_length: "length (snd (load_key i n pos key)) = length key"
  by (induction i n pos key rule: load_key.induct) (auto split: option.splits)

lemma hex_to_binary_loop_length: "length (snd (hex_to_binary_loop i n hex byte binary)) = length binary"
  by (induction i n hex byte binary rule: hex_to_binary_loop.induct) (auto split: option.splits)

lemma hex_to_binary_length: "crypto_hex_to_binary hex n binary = Some (r, b) \<Longrightarrow> length b = length binary"
  using hex_to_binary_loop_length [of 0 n hex 0 binary]
  by (auto simp: crypto_hex_to_binary_def bind_eq_Some_conv)

text \<open>What a load never changes.\<close>

definition same_mem :: "state \<Rightarrow> state \<Rightarrow> bool" where
  "same_mem s s' \<longleftrightarrow> username s' = username s \<and> lock s' = lock s \<and> new_key s' = new_key s \<and>
     salt_mask s' = salt_mask s \<and> code_mask s' = code_mask s \<and>
     length (sequence_key s') = length (sequence_key s) \<and> length (spass s') = length (spass s)"

lemma same_mem_refl [simp]: "same_mem s s"
  by (simp add: same_mem_def)

lemma same_mem_trans: "same_mem s t \<Longrightarrow> same_mem t u \<Longrightarrow> same_mem s u"
  by (simp add: same_mem_def)

lemma scan_step:
  "(case x of None \<Rightarrow> (c, s) | Some v \<Rightarrow> F v) = (r, s') \<Longrightarrow> (r = c \<Longrightarrow> s' = s \<Longrightarrow> P) \<Longrightarrow>
   (\<And>v. F v = (r, s') \<Longrightarrow> P) \<Longrightarrow> P"
  by (cases x) auto

lemma db_load_numbers_frame: "db_load_numbers fs s = (r, s') \<Longrightarrow> same_mem s s'"
  unfolding db_load_numbers_def Let_def
  by (elim scan_step) (auto simp: same_mem_def)

lemma db_load_spass_frame:
  assumes "db_load_spass fs s = Some (r, s')"
  shows "same_mem s s' \<and> (r = 0 \<longrightarrow> spass_set s' \<in> {0, 1})"
proof (cases "length (fs ! 11) = 0")
  case True
  then show ?thesis using assms by (auto simp: db_load_spass_def same_mem_def)
next
  case False
  then obtain x b where c: "crypto_hex_to_binary (fs ! 11) 80 (spass s) = Some (x, b)"
    using assms by (auto simp: db_load_spass_def bind_eq_Some_conv)
  then show ?thesis
    using assms False hex_to_binary_length [OF c]
    by (cases "x = 0"; cases "scan_umax (fs ! 12)") (auto simp: db_load_spass_def same_mem_def)
qed

lemma db_load_fields_frame:
  assumes "db_load_fields fs s = Some (r, s')"
  shows "same_mem s s' \<and>
    (r = 0 \<longrightarrow> spass_set s' \<in> {0, 1} \<and> length (label s') < STATE_LABEL_SIZE \<and>
       length (contact s') < STATE_CONTACT_SIZE \<and> db_load_checks s' = 0)"
proof -
  obtain ok key where k: "load_key 0 32 (fs ! 2) (sequence_key s) = (ok, key)"
    by (cases "load_key 0 32 (fs ! 2) (sequence_key s)")
  have key: "length key = length (sequence_key s)" using load_key_length [of 0 32 "fs ! 2" "sequence_key s"] k by simp
  obtain r1 v1 where n1: "num_import (fs ! 3) NUM_FORMAT_HEX = (r1, v1)" by (cases "num_import (fs ! 3) NUM_FORMAT_HEX")
  obtain r2 v2 where n2: "num_import (fs ! 4) NUM_FORMAT_HEX = (r2, v2)" by (cases "num_import (fs ! 4) NUM_FORMAT_HEX")
  let ?s = "s\<lparr>sequence_key := key, counter := v1, latest_card := v2\<rparr>"
  obtain r3 s3 where n3: "db_load_numbers fs ?s = (r3, s3)" by (cases "db_load_numbers fs ?s")
  have f: "same_mem s (s\<lparr>sequence_key := key\<rparr>)" "same_mem s (s\<lparr>sequence_key := key, counter := v1\<rparr>)" "same_mem s ?s"
    by (simp_all add: same_mem_def key)
  note f3 = same_mem_trans [OF f(3) db_load_numbers_frame [OF n3]]
  note defs = db_load_fields_def k n1 n2 n3 Let_def
  show ?thesis
  proof (cases "ok \<and> r1 = 0 \<and> r2 = 0 \<and> r3 = 0")
    case False
    then have "r \<noteq> 0 \<and> s' \<in> {s\<lparr>sequence_key := key\<rparr>, s\<lparr>sequence_key := key, counter := v1\<rparr>, ?s, s3}"
      using assms by (cases ok; cases "r1 = 0"; cases "r2 = 0") (auto simp: defs)
    then show ?thesis using f f3 by auto
  next
    case True
    then obtain r4 s4 where n4: "db_load_spass fs s3 = Some (r4, s4)"
      using assms by (auto simp: defs bind_eq_Some_conv)
    note f4 = db_load_spass_frame [OF n4]
    have s4: "same_mem s s4" using same_mem_trans [OF f3] f4 by blast
    show ?thesis
    proof (cases "r4 = 0")
      case False
      then show ?thesis using assms True s4 by (auto simp: defs n4)
    next
      case zero: True
      then have "s' = s4\<lparr>label := take 29 (fs ! 13), contact := take 59 (fs ! 14)\<rparr>" "r = db_load_checks s'"
        using assms True by (auto simp: defs n4)
      then show ?thesis using s4 f4 zero by (simp add: same_mem_def min_def)
    qed
  qed
qed

lemma load_checks_entry:
  "db_load_checks s = 0 \<Longrightarrow> state_validate_str (label s) \<and> state_validate_str (contact s) \<and>
   2 \<le> code_length s \<and> code_length s \<le> 16 \<and> flags s \<le> 7"
  by (auto simp: db_load_checks_def not_less split: if_splits)

lemma same_mem_mem_ok: "same_mem s s' \<Longrightarrow> mem_ok s \<Longrightarrow> mem_ok s'"
  by (simp add: same_mem_def mem_ok_def)

lemma entry_read_ok:
  assumes "entry_read s l = Some s'" and "mem_ok s"
  shows "entry_ok s' \<and> same_mem s s'"
proof -
  obtain fs r where "db_load_fields fs s = Some (r, s')" "r = 0"
    using assms(1) by (auto simp: entry_read_def split: prod.splits option.splits if_splits)
  then show ?thesis
    using db_load_fields_frame [of fs s r s'] load_checks_entry [of s'] assms(2)
    by (simp add: entry_ok_def mem_ok_def same_mem_def)
qed

lemma db_load_locked_frame:
  assumes "db_load_locked q s w = Some (r, s', w')"
  shows "same_mem s s'"
proof -
  obtain x v where o: "os_fopen_r q w = (x, v)" by (cases "os_fopen_r q w")
  show ?thesis
  proof (cases x)
    case (Opened f)
    then obtain ret b rest w1 where f: "db_find_user_entry (username s) f None v = Some (ret, b, rest, w1)"
      using assms by (auto simp: db_load_locked_def o bind_eq_Some_conv)
    obtain e fs where p: "db_parse_user_entry b = (e, fs)" by (cases "db_parse_user_entry b")
    show ?thesis
    proof (cases "ret = 0 \<and> e = 0")
      case True
      then have "db_load_fields fs s = Some (r, s')"
        using assms by (auto simp: db_load_locked_def o Opened f p bind_eq_Some_conv)
      then show ?thesis using db_load_fields_frame by blast
    next
      case False
      then have "s' = s" using assms by (cases "ret = 0") (auto simp: db_load_locked_def o Opened f p)
      then show ?thesis by simp
    qed
  qed (use assms in \<open>auto simp: db_load_locked_def o\<close>)
qed

subsection \<open>The invariant of locks\<close>

text \<open>
  The state knows its lock: a locked state holds the one descriptor of the program, recorded
  under the name of the lock file; an unlocked one holds none.
\<close>

definition lock_inv :: "cfg_t \<Rightarrow> state \<Rightarrow> world \<Rightarrow> bool" where
  "lock_inv cfg s w \<longleftrightarrow> 0 < w_fd w \<and>
     (if 0 < lock s then lock s = w_fd w \<and> w_locks w = [w_fd w \<mapsto> db_name cfg (username s) w @ ''.lck'']
      else w_locks w = Map.empty)"

definition db_inv :: "cfg_t \<Rightarrow> state \<Rightarrow> world \<Rightarrow> bool" where
  "db_inv cfg s w \<longleftrightarrow> lock_inv cfg s w \<and> file_wf w (db_name cfg (username s) w) \<and> mem_ok s"

definition db_view :: "cfg_t \<Rightarrow> string \<Rightarrow> world \<Rightarrow> string \<Rightarrow> string option" where
  "db_view cfg u w = user_map w (db_name cfg u w)"

lemma lock_frame_view:
  "lock_frame (db_name cfg u w) w w' \<Longrightarrow> db_view cfg u w' = db_view cfg u w"
  using db_name_env [OF lock_frame_env] lock_frame_map by (simp add: db_view_def)

lemma lock_frame_inv:
  "lock_frame (db_name cfg u w) w w' \<Longrightarrow>
   db_name cfg u w' = db_name cfg u w \<and> file_wf w' (db_name cfg u w) = file_wf w (db_name cfg u w) \<and>
   w_fd w' = w_fd w"
  using db_name_env [OF lock_frame_env, of "db_name cfg u w" w w' cfg u] lock_frame_wf [of "db_name cfg u w" w w']
  by (auto simp: lock_frame_def same_env_def)

lemma mem_ok_lock [simp]: "mem_ok (s\<lparr>lock := x\<rparr>) = mem_ok s"
  by (simp add: mem_ok_def)

lemma file_lock_inv:
  assumes "db_inv cfg s w" and "db_file_lock cfg s w = Some (r, s', w')"
  shows "db_inv cfg s' w' \<and> db_view cfg (username s) w' = db_view cfg (username s) w \<and>
    (if r = 0 then \<exists>x > 0. s' = s\<lparr>lock := x\<rparr> else s' = s)"
proof -
  note l = db_file_lock_spec [OF assms(2)]
  have f: "lock_frame (db_name cfg (username s) w) w w'" using l by simp
  have "w_locks w = Map.empty" using assms(1) l by (simp add: db_inv_def lock_inv_def)
  note g = lock_frame_inv [OF f] lock_frame_view [OF f]
  show ?thesis
  proof (cases "r = 0")
    case True
    then have s': "s' = s\<lparr>lock := w_fd w\<rparr>" using l by simp
    have "0 < w_fd w" using assms(1) by (simp add: db_inv_def lock_inv_def)
    moreover have "db_inv cfg s' w'"
      using assms(1) l g True \<open>w_locks w = Map.empty\<close> by (simp add: db_inv_def lock_inv_def)
    ultimately show ?thesis using g s' True by auto
  next
    case False
    then have "db_inv cfg s' w'"
      using assms(1) l g \<open>w_locks w = Map.empty\<close> by (auto simp: db_inv_def lock_inv_def)
    then show ?thesis using l g False by simp
  qed
qed

lemma file_unlock_inv:
  assumes "db_inv cfg s w" and "db_file_unlock cfg s w = Some (r, s', w')"
  shows "db_inv cfg s' w' \<and> db_view cfg (username s) w' = db_view cfg (username s) w \<and>
    (\<exists>x. s' = s\<lparr>lock := x\<rparr> \<and> (r = 0 \<longrightarrow> x \<le> 0))"
proof -
  note l = db_file_unlock_spec [OF assms(2)]
  have f: "lock_frame (db_name cfg (username s) w) w w'" using l by simp
  note g = lock_frame_inv [OF f] lock_frame_view [OF f]
  show ?thesis
  proof (cases "s' = s \<and> w_locks w' = w_locks w")
    case True
    then have "db_inv cfg s' w'" using assms(1) g by (simp add: db_inv_def lock_inv_def)
    moreover have "r = 0 \<longrightarrow> lock s \<le> 0"
    proof
      assume "r = 0"
      then consider "lock s < 0" | "s' = s\<lparr>lock := -1\<rparr>" using l by force
      then show "lock s \<le> 0"
      proof cases
        case 2
        then have "lock s' = -1" by simp
        with True show ?thesis by simp
      qed simp
    qed
    ultimately show ?thesis using g True by (intro conjI exI [of _ "lock s"]) simp_all
  next
    case False
    then have s': "s' = s\<lparr>lock := -1\<rparr>" and "w_locks w' = (w_locks w)(lock s := None)" and "0 \<le> lock s"
      using l by blast+
    then have "db_inv cfg s' w'"
      using assms(1) g by (cases "0 < lock s") (simp_all add: db_inv_def lock_inv_def)
    then show ?thesis using g s' by auto
  qed
qed

subsection \<open>The operations of the backend\<close>

lemma db_inv_same_mem: "db_inv cfg s w \<Longrightarrow> same_mem s s' \<Longrightarrow> db_inv cfg s' w"
  by (auto simp: db_inv_def lock_inv_def same_mem_def mem_ok_def)

lemma db_inv_unchanged:
  assumes "unchanged w w'"
  shows "db_inv cfg s w' = db_inv cfg s w" "db_view cfg u w' = db_view cfg u w"
proof -
  have f: "lock_frame n w w'" for n by (rule keeps_lock_frame [OF unchanged_keeps [OF assms]])
  show "db_inv cfg s w' = db_inv cfg s w"
    using lock_frame_inv [OF f, of cfg "username s"] assms
    by (auto simp: db_inv_def lock_inv_def unchanged_def)
  show "db_view cfg u w' = db_view cfg u w" by (rule lock_frame_view [OF f])
qed

lemma load_locked_inv:
  assumes "db_inv cfg s w" and "db_load_locked (db_name cfg (username s) w) s w = Some (r, s', w')"
  shows "db_inv cfg s' w' \<and> db_view cfg (username s) w' = db_view cfg (username s) w \<and> same_mem s s' \<and>
    (if r = 0 then \<exists>l. db_view cfg (username s) w (username s) = Some l \<and> entry_read s l = Some s'
     else r = STATE_NO_USER_ENTRY \<longrightarrow> db_view cfg (username s) w (username s) = None)"
proof -
  note u = db_inv_unchanged [OF db_load_locked_unchanged [OF assms(2)]]
  note m = db_load_locked_frame [OF assms(2)]
  have "file_wf w (db_name cfg (username s) w)" using assms(1) by (simp add: db_inv_def)
  from db_load_locked_map [OF assms(2) this] show ?thesis
    using u db_inv_same_mem [OF assms(1) m] m by (simp add: db_view_def)
qed

lemma file_load_inv:
  assumes inv: "db_inv cfg s w" and lk: "0 < lock s" and ld: "db_file_load cfg s w = Some (r, s', w')"
  shows "db_inv cfg s' w' \<and> db_view cfg (username s) w' = db_view cfg (username s) w \<and> same_mem s s' \<and>
    (r = 0 \<longrightarrow> (\<exists>l. db_view cfg (username s) w (username s) = Some l \<and> entry_read s l = Some s'))"
proof -
  let ?u = "username s"
  obtain x w1 where p: "db_path cfg ?u True w = Some (x, w1)"
    using ld by (auto simp: db_file_load_def bind_eq_Some_conv)
  from db_path_spec [OF p] have u: "unchanged w w1"
    and x: "case x of Inl e \<Rightarrow> e \<noteq> 0 | Inr p \<Rightarrow> paths_ok (db_name cfg ?u w) p" by auto
  note i1 = db_inv_unchanged [OF u]
  show ?thesis
  proof (cases x)
    case (Inl e)
    then show ?thesis using ld x i1 inv by (auto simp: db_file_load_def p)
  next
    case (Inr q)
    obtain y w2 where pm: "db_file_permissions cfg (p_db q) (p_home q) w1 = Some (y, w2)"
      using ld by (auto simp: db_file_load_def p Inr bind_eq_Some_conv)
    have k: "keeps w w2" using keeps_trans [OF unchanged_keeps [OF u] db_file_permissions_keeps [OF pm]] .
    note f = lock_frame_inv [OF keeps_lock_frame [OF k], of cfg ?u] lock_frame_view [OF keeps_lock_frame [OF k], of cfg ?u]
    have i2: "db_inv cfg s w2" using inv f(1) k by (auto simp: db_inv_def lock_inv_def keeps_def)
    have v2: "db_view cfg ?u w2 = db_view cfg ?u w" by (rule f(2))
    have n2: "p_db q = db_name cfg ?u w2" using x Inr f(1) by (simp add: paths_ok_def)
    show ?thesis
    proof (cases "y = 0")
      case False
      then show ?thesis using ld lk i2 v2 by (auto simp: db_file_load_def p Inr pm)
    next
      case True
      then have "db_load_locked (p_db q) s w2 = Some (r, s', w')"
        using ld lk by (simp add: db_file_load_def p Inr pm)
      then show ?thesis using load_locked_inv [OF i2, of r s' w'] v2 by (simp add: n2 split: if_splits)
    qed
  qed
qed

lemma file_store_inv:
  assumes inv: "db_inv cfg s w" and lk: "0 < lock s" and ok: "entry_ok s"
    and st: "db_file_store cfg s remove w = Some (r, s', w')"
  shows "s' = s \<and> db_inv cfg s w' \<and> db_view cfg (username s) w' =
    (if r = 0 then map_store cfg s remove (db_view cfg (username s) w) else db_view cfg (username s) w)"
proof -
  let ?u = "username s"
  let ?n = "db_name cfg ?u w"
  obtain x w1 where p: "db_path cfg ?u False w = Some (x, w1)"
    using st by (auto simp: db_file_store_def bind_eq_Some_conv)
  from db_path_spec [OF p] have u: "unchanged w w1"
    and x: "case x of Inl e \<Rightarrow> e \<noteq> 0 | Inr p \<Rightarrow> paths_ok ?n p" by auto
  note i1 = db_inv_unchanged [OF u]
  have "same_env w w1" using u by (simp add: unchanged_def)
  from db_name_env [OF this, of cfg ?u] have n1: "db_name cfg ?u w1 = ?n" .
  show ?thesis
  proof (cases x)
    case (Inl e)
    then show ?thesis using st x i1 inv by (auto simp: db_file_store_def p)
  next
    case (Inr q)
    then have q: "paths_ok ?n q" using x by simp
    then have db: "p_db q = ?n" by (simp add: paths_ok_def)
    note d = paths_ok_distinct(1) [OF q]
    obtain ret w2 where l: "db_store_locked cfg s remove q w1 = Some (ret, w2)" and
      res: "r = ret" "s' = s" "w' = w2"
      using st lk by (cases "db_store_locked cfg s remove q w1") (auto simp: db_file_store_def p Inr)
    note fr = db_store_locked_frame [OF l d]
    have env: "same_env w1 w2" using fr by blast
    from db_name_env [OF this, of cfg ?u] have n2: "db_name cfg ?u w2 = ?n" using n1 by simp
    have inv1: "db_inv cfg s w1" using i1(1) inv by simp
    then have wf: "file_wf w1 (p_db q)" by (simp add: db_inv_def n1 db)
    note m = db_store_locked_map [OF l ok d wf]
    have li: "lock_inv cfg s w1" using inv1 by (simp add: db_inv_def)
    have lk12: "w_locks w2 = w_locks w1" using fr by blast
    have "lock_inv cfg s w2" using li lk12 n1 n2 env by (simp add: lock_inv_def same_env_def)
    then have "db_inv cfg s w2" using m ok entry_mem_ok by (simp add: db_inv_def n2 db)
    moreover have "db_view cfg ?u w1 = db_view cfg ?u w" by (rule i1(2))
    ultimately show ?thesis using m by (simp add: res db_view_def n1 n2 db)
  qed
qed

lemma entry_ok_new_key [simp]:
  "entry_ok (s\<lparr>new_key := x\<rparr>) = entry_ok s" "entry_ok (s\<lparr>lock := y\<rparr>) = entry_ok s"
  "db_line (s\<lparr>new_key := x\<rparr>) = db_line s" "db_line (s\<lparr>lock := y\<rparr>) = db_line s"
  "db_inv cfg (s\<lparr>new_key := x\<rparr>) w = db_inv cfg s w"
  by (simp_all add: entry_ok_def db_line_def db_entry_text_def db_inv_def lock_inv_def mem_ok_def)

lemma state_store_inv:
  assumes inv: "db_inv cfg s w" and lk: "0 < lock s" and ok: "entry_ok s"
    and st: "state_store cfg s False w = Some (r, s', w')"
  shows "db_inv cfg s' w' \<and> s' = s\<lparr>new_key := 0\<rparr> \<and> db_view cfg (username s) w' =
    (if r = 0 then (db_view cfg (username s) w)(username s \<mapsto> db_line s) else db_view cfg (username s) w)"
proof -
  have "new_key s \<noteq> 1" using st lk by (auto simp: state_store_def)
  then have "db_file_store cfg (s\<lparr>new_key := 0\<rparr>) False w = Some (r, s', w')"
    using st lk by (auto simp: state_store_def state_store_locked_def split: if_splits)
  from file_store_inv [OF _ _ _ this] show ?thesis
    using inv lk ok by (simp add: map_store_def split: if_splits)
qed

subsection \<open>The interface\<close>

locale user_db =
  fixes lk ul ld :: "state \<Rightarrow> world \<Rightarrow> (int \<times> state \<times> world) option"
    and st :: "state \<Rightarrow> bool \<Rightarrow> world \<Rightarrow> (int \<times> state \<times> world) option"
    and view :: "string \<Rightarrow> world \<Rightarrow> string \<Rightarrow> string option"
    and inv :: "state \<Rightarrow> world \<Rightarrow> bool"
  assumes lk_law: "inv s w \<Longrightarrow> lk s w = Some (r, s', w') \<Longrightarrow>
      inv s' w' \<and> view (username s) w' = view (username s) w \<and>
      (if r = 0 then \<exists>x > 0. s' = s\<lparr>lock := x\<rparr> else s' = s)"
    and ul_law: "inv s w \<Longrightarrow> ul s w = Some (r, s', w') \<Longrightarrow>
      inv s' w' \<and> view (username s) w' = view (username s) w \<and>
      (\<exists>x. s' = s\<lparr>lock := x\<rparr> \<and> (r = 0 \<longrightarrow> x \<le> 0))"
    and ld_law: "inv s w \<Longrightarrow> 0 < lock s \<Longrightarrow> ld s w = Some (r, s', w') \<Longrightarrow>
      inv s' w' \<and> view (username s) w' = view (username s) w \<and> same_mem s s' \<and>
      (r = 0 \<longrightarrow> (\<exists>l. view (username s) w (username s) = Some l \<and> entry_read s l = Some s'))"
    and st_law: "inv s w \<Longrightarrow> 0 < lock s \<Longrightarrow> entry_ok s \<Longrightarrow> st s False w = Some (r, s', w') \<Longrightarrow>
      inv s' w' \<and> s' = s\<lparr>new_key := 0\<rparr> \<and> view (username s) w' =
        (if r = 0 then (view (username s) w)(username s \<mapsto> db_line s) else view (username s) w)"
    and inv_mem: "inv s w \<Longrightarrow> mem_ok s"
    and inv_same_mem: "inv s w \<Longrightarrow> same_mem s s' \<Longrightarrow> inv s' w"
begin

text \<open>Lock and load: what is read is the line the database had before.\<close>

lemma lock_load:
  assumes "inv s w" and "lk s w = Some (0, s1, w1)" and "ld s1 w1 = Some (r, s2, w2)"
  shows "inv s2 w2 \<and> 0 < lock s2 \<and> view (username s) w2 = view (username s) w \<and>
    username s2 = username s \<and> same_mem s1 s2 \<and>
    (r = 0 \<longrightarrow> entry_ok s2 \<and> (\<exists>l. view (username s) w (username s) = Some l \<and> entry_read s1 l = Some s2))"
proof -
  obtain x where s1: "0 < x" "s1 = s\<lparr>lock := x\<rparr>" and i1: "inv s1 w1"
    and v1: "view (username s) w1 = view (username s) w"
    using lk_law [OF assms(1,2)] by auto
  then have u: "username s1 = username s" and lk1: "0 < lock s1" by simp_all
  note d = ld_law [OF i1 lk1 assms(3)]
  have "r = 0 \<longrightarrow> entry_ok s2" using d entry_read_ok inv_mem [OF i1] by blast
  then show ?thesis using d u lk1 v1 by (simp add: same_mem_def)
qed

text \<open>Store and unlock: the line of the user is replaced, or the database is as before.\<close>

lemma store_unlock:
  assumes "inv s w" and "0 < lock s" and "entry_ok s" and "st s False w = Some (r, s1, w1)"
    and "ul s1 w1 = Some (r', s2, w2)"
  shows "inv s2 w2 \<and> username s2 = username s \<and> (r' = 0 \<longrightarrow> lock s2 \<le> 0) \<and> view (username s) w2 =
    (if r = 0 then (view (username s) w)(username s \<mapsto> db_line s) else view (username s) w)"
proof -
  note a = st_law [OF assms(1-4)]
  then have u1: "username s1 = username s" by simp
  obtain x where "s2 = s1\<lparr>lock := x\<rparr>" "r' = 0 \<longrightarrow> x \<le> 0" "inv s2 w2"
    "view (username s) w2 = view (username s) w1"
    using ul_law [OF _ assms(5)] a u1 by auto
  then show ?thesis using a u1 by simp
qed

text \<open>What a load reads after a store.\<close>

lemma read_after_store:
  assumes "inv t v" and "0 < lock t" and "ld t v = Some (0, t', v')" and "entry_ok s"
    and "view (username t) v (username t) = Some (db_line s)"
  shows "t' = db_restore s t"
  using ld_law [OF assms(1-3)] assms(4,5) inv_mem [OF assms(1)] entry_read_line [of s t]
  by (auto simp: mem_ok_def)

end

text \<open>The operations of \<open>state.c\<close> over the file backend keep the contract.\<close>

lemma state_lock_file: "state_lock cfg s w = Some (r, s', w') \<Longrightarrow> db_file_lock cfg s w = Some (r, s', w')"
  by (simp add: state_lock_def split: if_splits)

lemma state_unlock_file: "state_unlock cfg s w = Some (r, s', w') \<Longrightarrow> db_file_unlock cfg s w = Some (r, s', w')"
  by (simp add: state_unlock_def split: if_splits)

lemma state_load_file: "state_load cfg s w = Some (r, s', w') \<Longrightarrow> db_file_load cfg s w = Some (r, s', w')"
  by (simp add: state_load_def split: if_splits)

interpretation backend: user_db "state_lock cfg" "state_unlock cfg" "state_load cfg" "state_store cfg"
  "db_view cfg" "db_inv cfg" for cfg
proof (unfold_locales, goal_cases)
  case (1 s w r s' w')
  then show ?case by (intro file_lock_inv state_lock_file)
next
  case (2 s w r s' w')
  then show ?case by (intro file_unlock_inv state_unlock_file)
next
  case (3 s w r s' w')
  then show ?case by (intro file_load_inv state_load_file)
next
  case (4 s w r s' w')
  then show ?case by (intro state_store_inv)
next
  case (5 s w)
  then show ?case by (simp add: db_inv_def)
next
  case (6 s w s')
  then show ?case by (rule db_inv_same_mem)
qed

end
