(* ===== verification/Ppp_Calc.thy ===== *)
theory Ppp_Calc
  imports Ppp
begin

text \<open>
  Passcards in numbers: the place of the next passcode, the last card and the last code that
  \<open>ppp_calculate\<close> computes, read as natural numbers.
\<close>

subsection \<open>Codes in a row\<close>

definition per_row :: "nat \<Rightarrow> nat" where
  "per_row n = [0, 0, 11, 8, 7, 5, 5, 4, 3, 3, 3, 2, 2, 2, 2, 2, 2] ! n"

lemma code_length_cases:
  "2 \<le> n \<Longrightarrow> n \<le> 16 \<Longrightarrow>
   n \<in> {2, 3, 4, 5, 6, 7, 8, 9, 10, 11, 12, 13, 14, 15, 16 :: nat}"
  unfolding insert_iff empty_iff by presburger

lemma per_row_bounds:
  assumes "2 \<le> n" "n \<le> 16"
  shows "2 \<le> per_row n" "per_row n \<le> 11"
  using code_length_cases [OF assms] by (auto simp: per_row_def)

lemma sint_small: "2 \<le> n \<Longrightarrow> n \<le> 16 \<Longrightarrow> sint (of_nat n :: u32) = int n"
  using code_length_cases [of n] by auto

lemma codes_per_row:
  assumes "2 \<le> c" "c \<le> (16 :: u32)"
  shows "ppp_get_codes_per_row (sint c) = Some (int (per_row (unat c)))"
proof -
  have n: "2 \<le> unat c" "unat c \<le> 16" using assms by (simp_all add: word_le_nat_alt)
  define m where "m = unat c"
  have "sint c = int m" using sint_small [OF n] by (simp add: m_def)
  then show ?thesis
    using code_length_cases [OF n] unfolding m_def [symmetric]
    by (auto simp: ppp_get_codes_per_row_def per_row_def)
qed

subsection \<open>The place of a code\<close>

lemma place_digits: "n = n div (10 * p) * (10 * p) + n mod (10 * p) div p * p + n mod p" for n p :: nat
proof -
  have "n mod (10 * p) mod p = n mod p" by (rule mod_mod_cancel) simp
  then show ?thesis
    using div_mult_mod_eq [of n "10 * p"] div_mult_mod_eq [of "n mod (10 * p)" p] by linarith
qed

lemma unat_ucast_u32 [simp]: "unat (ucast (x :: u32) :: u64) = unat x"
  using unat_mask_less [of x] by (simp add: unsigned_ucast_eq take_bit_nat_eq_self)

lemma row_word:
  fixes r p :: u64
  assumes p: "0 < unat p" "unat p \<le> 11" and r: "unat r < 10 * unat p"
  shows "unat (ucast (1 + (r - r mod p) div p) :: u8) = unat r div unat p + 1" (is "unat (ucast ?x :: u8) = ?n")
proof -
  have le: "r mod p \<le> r" by (simp add: word_le_nat_alt unat_mod)
  have "unat ((r - r mod p) div p) = (unat r - unat r mod unat p) div unat p"
    by (simp add: unat_div unat_sub [OF le] unat_mod)
  also have "\<dots> = unat r div unat p" using p by (simp add: minus_mod_eq_mult_div)
  finally have d: "unat ((r - r mod p) div p) = unat r div unat p" .
  have lt: "unat r div unat p < 10" using r by (simp add: less_mult_imp_div_less)
  have "unat ?x = ?n" using unat_add_no_wrap [of 1 "(r - r mod p) div p"] d lt by simp
  then show ?thesis using lt by (simp add: unsigned_ucast_eq take_bit_nat_eq_self)
qed

lemma column_word: "unat r = n mod (10 * unat p) \<Longrightarrow> unat (r mod p) = n mod unat p" for r p :: u64
  by (simp add: unat_mod mod_mod_cancel)

subsection \<open>The numbers of a state\<close>

text \<open>The largest number a counter can hold, as the code has it.\<close>

definition counter_range :: "state \<Rightarrow> nat" where
  "counter_range s = nval (if salted s then code_mask s else num_ii 0xFFFFFFFFFFFFFF 0xFFFFFFFFFFFFFFFF)"

definition calculated :: "state \<Rightarrow> state \<Rightarrow> bool" where
  "calculated s s' \<longleftrightarrow>
     (let p = per_row (unat (code_length s)); k = 10 * p; n = nval (ppp_unsalted s); q = counter_range s div k - 1
      in unat (codes_in_row s') = p \<and> unat (codes_on_card s') = k \<and>
         nval (current_card s') = n div k + 1 \<and> unat (current_row s') = n mod k div p + 1 \<and>
         current_column s' = of_nat (code (ppp_columns ! (n mod p))) \<and>
         nval (max_card s') = q \<and> nval (max_code s') = q * k)"

lemma num_cmp_zero': "0 \<le> num_cmp n num_zero"
  by (simp add: num_cmp_val nval_num_ii)

lemma place_frame [simp]:
  "salted (s\<lparr>codes_in_row := a, codes_on_card := b, current_card := c, current_row := d, current_column := e\<rparr>) = salted s"
  "ppp_unsalted (s\<lparr>codes_in_row := a, codes_on_card := b\<rparr>) = ppp_unsalted s"
  by (simp_all add: salted_def ppp_unsalted_def)

lemma ppp_calculate_ok:
  assumes c: "2 \<le> code_length s" "code_length s \<le> 16" and big: "110 \<le> counter_range s"
  shows "\<exists>s'. ppp_calculate s = Some s' \<and> calculated s s'"
proof -
  define p where "p = per_row (unat (code_length s))"
  define k where "k = 10 * p"
  define n where "n = nval (ppp_unsalted s)"
  define R where "R = counter_range s"
  have p: "2 \<le> p" "p \<le> 11" using per_row_bounds [of "unat (code_length s)"] c by (simp_all add: p_def word_le_nat_alt)
  let ?p = "of_nat p :: u32"
  have up: "unat ?p = p" and uk: "unat (?p * 10) = k" using p by (simp_all add: unat_of_nat_lt unat_word_ariths k_def)
  obtain q r where qr: "num_div_i (ppp_unsalted s) (ucast (?p * 10)) = (q, r)" by fastforce
  obtain q' r' where qr': "num_div_i (if salted s then code_mask s else num_ii 0xFFFFFFFFFFFFFF 0xFFFFFFFFFFFFFFFF)
     (ucast (?p * 10)) = (q', r')" by fastforce
  have k0: "0 < unat (ucast (?p * 10) :: u64)" using p uk by (simp add: k_def)
  note v = num_div_i_val [OF k0 qr, simplified uk unat_ucast_u32, folded n_def]
  note v' = num_div_i_val [OF k0 qr', simplified uk unat_ucast_u32, folded R_def counter_range_def]
  have one: "nval (num_i 1) = 1" by (simp add: nval_num_ii)
  have "n div k \<le> n div 20" using p by (intro div_le_mono2) (auto simp: k_def)
  then have nk: "n div k + 1 < 2 ^ 128" using nval_less [of "ppp_unsalted s"] by (simp add: n_def)
  have card: "nval (num_add q (num_i 1)) = n div k + 1" using nk by (simp only: nval_add v(1) one mod_less)
  have Rk: "1 \<le> R div k" using big p by (simp add: R_def k_def Suc_le_eq div_greater_zero_iff)
  have mc: "nval (num_sub q' (num_i 1)) = R div k - 1" using Rk by (simp add: nval_sub v'(1) one)
  have "(R div k - 1) * k \<le> R div k * k" by simp
  also have "\<dots> \<le> R" by simp
  also have "\<dots> < 2 ^ 128" unfolding R_def counter_range_def by (rule nval_less)
  finally have mx: "nval (num_mul_i (num_sub q' (num_i 1)) (ucast (?p * 10))) = (R div k - 1) * k"
    by (simp add: nval_mul_i mc uk)
  have r: "unat r = n mod k" by (rule v(2))
  have rk: "unat r < 10 * unat (ucast ?p :: u64)" using p by (simp add: r up k_def)
  have row: "unat (ucast (1 + (r - r mod ucast ?p) div ucast ?p) :: u8) = n mod k div p + 1"
    using row_word [of "ucast ?p" r] rk p by (simp add: up r)
  have col: "unat (r mod ucast ?p) = n mod p" using column_word [of r n "ucast ?p"] by (simp add: r up k_def)
  have per: "ppp_get_codes_per_row (sint (code_length s)) = Some (int p)"
    unfolding p_def by (rule codes_per_row [OF c])
  have cnt: "0 \<le> num_cmp (counter s) num_zero" using num_cmp_zero' by simp
  show ?thesis
    using c cnt row card mc mx up uk col
    by (cases "salted s") (use qr' in \<open>simp_all add: ppp_calculate_def per Let_def qr calculated_def p_def [symmetric] k_def [symmetric]
        n_def [symmetric] R_def [symmetric]\<close>)
qed

subsection \<open>Property\<close>

lemma column_code: "c < 12 \<Longrightarrow> unat (of_nat (code (ppp_columns ! c)) :: u8) = 65 + c"
proof -
  assume "c < 12"
  then have "c \<in> {0, 1, 2, 3, 4, 5, 6, 7, 8, 9, 10, 11}" unfolding insert_iff empty_iff by presburger
  then show ?thesis by (auto simp: ppp_columns_def code_def)
qed

lemma place_bounds:
  fixes n p :: nat
  assumes "0 < p"
  shows "n mod (10 * p) div p < 10" "n mod p < p"
proof -
  have "n mod (10 * p) < 10 * p" using assms by simp
  then show "n mod (10 * p) div p < 10" by (rule less_mult_imp_div_less)
qed (use assms in simp)

lemma ppp_calculate_fields:
  assumes "2 \<le> code_length s" "code_length s \<le> 16" "110 \<le> counter_range s"
    and "R = per_row (unat (code_length s))" "n = nval (ppp_unsalted s)"
  obtains t where "ppp_calculate s = Some t" "unat (codes_in_row t) = R" "unat (codes_on_card t) = 10 * R"
    "nval (current_card t) = n div (10 * R) + 1" "unat (current_row t) = n mod (10 * R) div R + 1"
    "unat (current_column t) = 65 + n mod R" "2 \<le> R" "R \<le> 11" "n mod (10 * R) div R < 10" "n mod R < R"
proof -
  have R: "2 \<le> R" "R \<le> 11"
    using per_row_bounds [of "unat (code_length s)"] assms(1,2,4) by (simp_all add: word_le_nat_alt)
  have b: "n mod (10 * R) div R < 10" "n mod R < R" using place_bounds [of R n] R by simp_all
  then have cb: "n mod R < 12" using R by linarith
  obtain t where "ppp_calculate s = Some t" and c: "calculated s t" using ppp_calculate_ok [OF assms(1-3)] by blast
  moreover have "unat (codes_in_row t) = R" "unat (codes_on_card t) = 10 * R"
    "nval (current_card t) = n div (10 * R) + 1" "unat (current_row t) = n mod (10 * R) div R + 1" "unat (current_column t) = 65 + n mod R"
    using c column_code [OF cb] by (simp_all add: calculated_def Let_def assms(4,5))
  ultimately show thesis using that R b by blast
qed

lemma place_in_card:
  fixes n R :: nat
  assumes "2 \<le> R" "R \<le> 11"
  shows "n mod (10 * R) div R * R + n mod R < 10 * R"
proof -
  have "n mod (10 * R) div R * R + n mod R = n mod (10 * R)"
    using place_digits [of n R] div_mult_mod_eq [of n "10 * R"] by linarith
  then show ?thesis using assms by simp
qed

text \<open>
  C12: for every accepted passcode length the place computation succeeds; the number of the next
  passcode without its salt is given back by the card, the row between 1 and 10 and the column
  letter it computes, and the last usable code is a whole number of cards within the range of
  counters, so it never exceeds that range.
\<close>

theorem ppp_calculate_place:
  assumes "2 \<le> code_length s" and "code_length s \<le> 16" and "110 \<le> counter_range s"
  shows "\<exists>s'. ppp_calculate s = Some s' \<and>
    unat (codes_on_card s') = 10 * unat (codes_in_row s') \<and> 1 \<le> unat (current_row s') \<and> unat (current_row s') \<le> 10 \<and>
    65 \<le> unat (current_column s') \<and> unat (current_column s') < 65 + unat (codes_in_row s') \<and>
    nval (ppp_unsalted s) = (nval (current_card s') - 1) * unat (codes_on_card s') +
      (unat (current_row s') - 1) * unat (codes_in_row s') + (unat (current_column s') - 65) \<and>
    nval (max_code s') = nval (max_card s') * unat (codes_on_card s') \<and>
    nval (max_code s') + unat (codes_on_card s') \<le> counter_range s \<and>
    counter_range s < nval (max_code s') + 2 * unat (codes_on_card s')"
proof -
  define p where "p = per_row (unat (code_length s))"
  define k where "k = 10 * p"
  define n where "n = nval (ppp_unsalted s)"
  define q where "q = counter_range s div k - 1"
  have p: "2 \<le> p" "p \<le> 11"
    using per_row_bounds [of "unat (code_length s)"] assms by (simp_all add: p_def word_le_nat_alt)
  obtain s' where s': "ppp_calculate s = Some s'" and c: "calculated s s'" using ppp_calculate_ok [OF assms] by blast
  have r: "unat (codes_in_row s') = p" "unat (codes_on_card s') = k" "nval (current_card s') = n div k + 1"
    "unat (current_row s') = n mod k div p + 1" "nval (max_card s') = q" "nval (max_code s') = q * k"
    using c by (simp_all add: calculated_def Let_def p_def k_def n_def q_def)
  have b: "n mod k div p < 10" "n mod p < p" using place_bounds [of p n] p by (simp_all add: k_def)
  then have "n mod p < 12" using p by linarith
  from column_code [OF this] have col: "unat (current_column s') = 65 + n mod p"
    using c by (simp add: calculated_def Let_def p_def n_def)
  have place: "n = n div k * k + n mod k div p * p + n mod p" unfolding k_def by (rule place_digits)
  have "1 \<le> counter_range s div k" using assms(3) p by (simp add: k_def Suc_le_eq div_greater_zero_iff)
  then have "q * k + k = counter_range s div k * k" unfolding q_def by (cases "counter_range s div k") simp_all
  moreover have "counter_range s div k * k + counter_range s mod k = counter_range s" by (rule div_mult_mod_eq)
  moreover have "counter_range s mod k < k" using p by (simp add: k_def)
  ultimately have "q * k + k \<le> counter_range s" "counter_range s < q * k + 2 * k" by linarith+
  then show ?thesis using s' r b col place by (intro exI [of _ s']) (simp add: k_def n_def [symmetric])
qed

definition sample_place :: state where
  "sample_place = state_zero\<lparr>code_length := 4, counter := num_i 123\<rparr>"

theorem ppp_calculate_place_witness:
  "\<exists>s'. ppp_calculate sample_place = Some s' \<and> 123 = (nval (current_card s') - 1) * unat (codes_on_card s') +
      (unat (current_row s') - 1) * unat (codes_in_row s') + (unat (current_column s') - 65)"
proof -
  have "110 \<le> counter_range sample_place" "nval (ppp_unsalted sample_place) = 123"
    by (simp_all add: counter_range_def ppp_unsalted_def salted_def sample_place_def state_zero_def nval_num_ii)
  then show ?thesis using ppp_calculate_place [of sample_place] by (auto simp: sample_place_def)
qed

end
