(* ===== verification/Ppp_Code.thy ===== *)
theory Ppp_Code
  imports Ppp_Calc Db_Entry
begin

text \<open>
  Passcodes as numbers: the characters of a passcode are the digits of the encrypted counter in
  the base of the alphabet, and authentication accepts exactly the passcode of the current
  counter of an enabled state that keeps the policy.
\<close>

subsection \<open>Digits of the cipher\<close>

lemma passcode_loop_digits:
  assumes "0 < length A" and "length A < 2 ^ 64"
  shows "passcode_loop n A c = map (\<lambda>i. A ! (nval c div length A ^ i mod length A)) [0..<n]"
proof (induction n arbitrary: c)
  case (Suc n)
  obtain q r where qr: "num_div_i c (of_nat (length A)) = (q, r)" by fastforce
  have L: "unat (of_nat (length A) :: u64) = length A" using assms(2) by (simp add: unat_of_nat_lt)
  then have v: "nval q = nval c div length A" "unat r = nval c mod length A"
    using num_div_i_val [OF _ qr] assms(1) by simp_all
  have "map (\<lambda>i. A ! (nval q div length A ^ i mod length A)) [0..<n] =
      map (\<lambda>i. A ! (nval c div length A ^ i mod length A)) (map Suc [0..<n])"
    by (simp add: v div_mult2_eq)
  moreover have "[0..<Suc n] = 0 # map Suc [0..<n]" by (simp add: upt_conv_Cons map_Suc_upt del: upt_Suc)
  ultimately show ?case by (simp add: qr v Suc.IH del: upt_Suc map_map)
qed simp

text \<open>The specification: the cipher of the salted counter, written in the base of the alphabet.\<close>

definition cipher_of :: "state \<Rightarrow> num_t \<Rightarrow> nat" where
  "cipher_of s c = nval (num_of_bin (crypto_aes_encrypt (sequence_key s) (num_to_bin (ppp_add_salt s c))))"

definition passcode_of :: "cfg_t \<Rightarrow> state \<Rightarrow> num_t \<Rightarrow> string" where
  "passcode_of cfg s c =
     (let A = alphabet_of cfg (sint (alphabet s))
      in map (\<lambda>i. A ! (cipher_of s c div length A ^ i mod length A)) [0..<unat (code_length s)])"

lemma verify_alphabet_length:
  assumes "ppp_verify_alphabet cfg i = 0" and "cfg_ok cfg"
  shows "0 < length (alphabet_of cfg i)" "length (alphabet_of cfg i) < 2 ^ 64"
  using assms by (auto simp: ppp_verify_alphabet_def cfg_ok_def passcode_ok_def Let_def split: if_splits)

lemma sint_code_length:
  fixes c :: u32
  assumes "2 \<le> sint c" "sint c \<le> 16"
  shows "2 \<le> c \<and> c \<le> 16"
proof -
  have "sint c = sint (of_nat (nat (sint c)) :: u32)"
    using assms sint_small [of "nat (sint c)"] by simp
  then have "c = of_nat (nat (sint c))" by (rule signed_word_eqI)
  moreover have "nat (sint c) \<in> {2, 3, 4, 5, 6, 7, 8, 9, 10, 11, 12, 13, 14, 15, 16}"
    using assms by (intro code_length_cases) simp_all
  ultimately show ?thesis by auto
qed

lemma verify_code_length_bounds:
  "ppp_verify_code_length cfg (sint (c :: u32)) = 0 \<Longrightarrow> 2 \<le> c \<and> c \<le> 16"
  using sint_code_length [of c] by (auto simp: ppp_verify_code_length_def split: if_splits)

lemma ppp_get_passcode_digits:
  assumes "2 \<le> code_length s" "code_length s \<le> 16"
    and "ppp_verify_alphabet cfg (sint (alphabet s)) = 0" and "cfg_ok cfg"
  shows "ppp_get_passcode cfg s c p = Some (0, passcode_of cfg s c)"
  using assms verify_alphabet_length [OF assms(3,4)]
  by (simp add: ppp_get_passcode_def Let_def passcode_loop_digits passcode_of_def cipher_of_def)

lemma ppp_state_verify_parts:
  "ppp_state_verify cfg s = Some 0 \<Longrightarrow>
   ppp_verify_alphabet cfg (sint (alphabet s)) = 0 \<and> ppp_verify_code_length cfg (sint (code_length s)) = 0 \<and>
   ppp_verify_flags cfg (flags s) = 0 \<and> ppp_verify_range s = Some 0"
  by (auto simp: ppp_state_verify_def bind_eq_Some_conv split: if_splits)

subsection \<open>Properties\<close>

text \<open>
  C6: a passcode has the length the state asks for, consists of characters of the selected
  alphabet, and its characters are, from the first on, the digits of the cipher of the salted
  counter, the least significant digit first; the cipher itself is the number the digits
  stand for, up to a multiple of the base to the length.
\<close>

theorem ppp_passcode_base:
  assumes "2 \<le> code_length s" and "code_length s \<le> 16"
    and "ppp_verify_alphabet cfg (sint (alphabet s)) = 0" and "cfg_ok cfg"
  shows "\<exists>p. ppp_get_passcode cfg s c buff = Some (0, p) \<and> length p = unat (code_length s) \<and>
    (\<forall>i < length p. p ! i = alphabet_of cfg (sint (alphabet s)) !
        (nval (num_of_bin (crypto_aes_encrypt (sequence_key s) (num_to_bin (ppp_add_salt s c)))) div
           length (alphabet_of cfg (sint (alphabet s))) ^ i mod length (alphabet_of cfg (sint (alphabet s)))) \<and>
       p ! i \<in> set (alphabet_of cfg (sint (alphabet s))))"
  using ppp_get_passcode_digits [OF assms] verify_alphabet_length [OF assms(3,4)]
  by (auto simp: passcode_of_def Let_def cipher_of_def)

theorem ppp_passcode_base_witness:
  "\<exists>p. ppp_get_passcode config_defaults sample_state num_zero [] = Some (0, p) \<and> length p = 4 \<and>
    (\<forall>i < length p. p ! i \<in> set alphabet_simple)"
proof -
  have A: "alphabet_of config_defaults 1 = alphabet_simple" by (simp add: alphabet_of_def alphabets_def)
  have d: "alphabet_change config_defaults = 1" "alphabet_min_length config_defaults = 32"
    "alphabet_max_length config_defaults = 88" by (simp_all add: config_defaults_def)
  have "ppp_verify_alphabet config_defaults (sint (alphabet sample_state)) = 0"
    by (simp add: ppp_verify_alphabet_def ppp_alphabet_count_def sample_state_def A alphabet_simple_def d)
  from ppp_passcode_base [OF _ _ this config_defaults_ok, of num_zero "[]"] show ?thesis
    by (auto simp: sample_state_def A)
qed

text \<open>
  C5: authentication succeeds exactly when the state is enabled, passes the policy and range
  checks, and the given text is the passcode of its counter; a longer or a shorter text, or a
  passcode of another length, never passes.
\<close>

theorem ppp_authenticate_iff:
  assumes "cfg_ok cfg"
  shows "ppp_authenticate cfg s (Some p) = Some 0 \<longleftrightarrow>
    flags s AND FLAG_DISABLED = 0 \<and> ppp_state_verify cfg s = Some 0 \<and> p = passcode_of cfg s (counter s)"
proof (cases "flags s AND FLAG_DISABLED = 0 \<and> ppp_state_verify cfg s = Some 0")
  case True
  note v = ppp_state_verify_parts [of cfg s]
  have "2 \<le> code_length s" "code_length s \<le> 16" using v True verify_code_length_bounds by blast+
  then have "ppp_get_passcode cfg s (counter s) [] = Some (0, passcode_of cfg s (counter s))"
    using v True assms by (intro ppp_get_passcode_digits) auto
  then show ?thesis using True by (auto simp: ppp_authenticate_def ppp_flag_check_def)
next
  case False
  then show ?thesis by (auto simp: ppp_authenticate_def ppp_flag_check_def bind_eq_Some_conv)
qed

theorem ppp_authenticate_iff_witness:
  "ppp_authenticate config_defaults (sample_state\<lparr>flags := 2\<rparr>) (Some ''abcd'') \<noteq> Some 0"
  using ppp_authenticate_iff [OF config_defaults_ok, of "sample_state\<lparr>flags := 2\<rparr>" "''abcd''"] by simp

end
