(* ===== verification/Ppp_Txn.thy ===== *)
theory Ppp_Txn
  imports State_Map Ppp_Access Ppp_Code
begin

text \<open>
  What the atomic operations of \<open>ppp.c\<close> do to the database: increment, skip, failure counting
  and out-of-band time lock, load, change, store and unlock, and through the interface
  \<open>user_db\<close> each of them is a change of the one entry of the user, or leaves the database alone.
\<close>

subsection \<open>The entry a state stands for\<close>

text \<open>The entry the database holds for the user of \<open>s\<close>, read into \<open>s\<close>.\<close>

definition stored :: "cfg_t \<Rightarrow> state \<Rightarrow> world \<Rightarrow> state option" where
  "stored cfg s w = Option.bind (db_view cfg (username s) w (username s)) (entry_read s)"

text \<open>Two states with the same entry.\<close>

definition same_entry :: "state \<Rightarrow> state \<Rightarrow> bool" where
  "same_entry s t \<longleftrightarrow>
     counter s = counter t \<and> sequence_key s = sequence_key t \<and> latest_card s = latest_card t \<and>
     code_length s = code_length t \<and> alphabet s = alphabet t \<and> flags s = flags t \<and>
     spass s = spass t \<and> spass_set s = spass_set t \<and> spass_time s = spass_time t \<and>
     label s = label t \<and> contact s = contact t \<and> failures s = failures t \<and>
     recent_failures s = recent_failures t \<and> channel_time s = channel_time t \<and>
     username s = username t"

lemma same_entry_refl [simp]: "same_entry s s"
  by (simp add: same_entry_def)

lemma same_entry_sym: "same_entry s t \<Longrightarrow> same_entry t s"
  by (simp add: same_entry_def)

lemma same_entry_trans: "same_entry s t \<Longrightarrow> same_entry t u \<Longrightarrow> same_entry s u"
  by (simp add: same_entry_def)

lemma same_entry_line: "same_entry s t \<Longrightarrow> db_line s = db_line t"
  by (simp add: same_entry_def db_line_def db_entry_text_def)

lemma same_entry_ok: "same_entry s t \<Longrightarrow> entry_ok s = entry_ok t"
  by (simp add: same_entry_def entry_ok_def)

lemma same_entry_lock [simp]: "same_entry (s\<lparr>lock := x\<rparr>) t = same_entry s t" "same_entry t (s\<lparr>lock := x\<rparr>) = same_entry t s"
  by (simp_all add: same_entry_def)

text \<open>The same entry, to be salted in the same way.\<close>

definition same_row :: "state \<Rightarrow> state \<Rightarrow> bool" where
  "same_row s t \<longleftrightarrow> same_entry s t \<and> salt_mask s = salt_mask t \<and> code_mask s = code_mask t"

subsection \<open>Reading does not look at the lock\<close>

lemma db_load_numbers_lock:
  "db_load_numbers fs (s\<lparr>lock := x\<rparr>) = map_prod id (\<lambda>t. t\<lparr>lock := x\<rparr>) (db_load_numbers fs s)"
  by (simp add: db_load_numbers_def Let_def split: option.split)

lemma db_load_spass_lock:
  "db_load_spass fs (s\<lparr>lock := x\<rparr>) = map_option (map_prod id (\<lambda>t. t\<lparr>lock := x\<rparr>)) (db_load_spass fs s)"
  by (cases "crypto_hex_to_binary (fs ! 11) 80 (spass s)")
    (auto simp: db_load_spass_def Let_def split_beta split: option.split)

lemma db_load_fields_lock:
  "db_load_fields fs (s\<lparr>lock := x\<rparr>) = map_option (map_prod id (\<lambda>t. t\<lparr>lock := x\<rparr>)) (db_load_fields fs s)"
proof -
  obtain ok key where k: "load_key 0 32 (fs ! 2) (sequence_key s) = (ok, key)"
    by (cases "load_key 0 32 (fs ! 2) (sequence_key s)")
  obtain r1 v1 where n1: "num_import (fs ! 3) NUM_FORMAT_HEX = (r1, v1)" by (cases "num_import (fs ! 3) NUM_FORMAT_HEX")
  obtain r2 v2 where n2: "num_import (fs ! 4) NUM_FORMAT_HEX = (r2, v2)" by (cases "num_import (fs ! 4) NUM_FORMAT_HEX")
  let ?s = "s\<lparr>sequence_key := key, counter := v1, latest_card := v2\<rparr>"
  obtain r3 s3 where n3: "db_load_numbers fs ?s = (r3, s3)" by (cases "db_load_numbers fs ?s")
  have e: "s\<lparr>lock := x, sequence_key := key, counter := v1, latest_card := v2\<rparr> = ?s\<lparr>lock := x\<rparr>" by simp
  have n3': "db_load_numbers fs (s\<lparr>lock := x, sequence_key := key, counter := v1, latest_card := v2\<rparr>) =
      (r3, s3\<lparr>lock := x\<rparr>)"
    by (simp only: e db_load_numbers_lock n3 map_prod_simp id_apply)
  show ?thesis
  proof (cases "ok \<and> r1 = 0 \<and> r2 = 0 \<and> r3 = 0")
    case False
    then show ?thesis using n3'
      by (cases ok; cases "r1 = 0"; cases "r2 = 0") (auto simp: db_load_fields_def k n1 n2 n3 Let_def)
  next
    case True
    then show ?thesis using n3'
      by (cases "db_load_spass fs s3")
        (auto simp: db_load_fields_def k n1 n2 n3 Let_def db_load_spass_lock db_load_checks_def)
  qed
qed

lemma entry_read_lock: "entry_read (s\<lparr>lock := x\<rparr>) l = map_option (\<lambda>t. t\<lparr>lock := x\<rparr>) (entry_read s l)"
  by (auto simp: entry_read_def db_load_fields_lock split_beta split: option.split)

subsection \<open>Loading\<close>

lemma ppp_calculate_frame:
  assumes "ppp_calculate s = Some s'"
  shows "same_entry s s' \<and> same_mem s s'"
proof -
  from assms obtain n where "ppp_get_codes_per_row (sint (code_length s)) = Some n"
    by (auto simp: ppp_calculate_def bind_eq_Some_conv)
  then show ?thesis using assms
    by (auto simp: ppp_calculate_def bind_eq_Some_conv Let_def split_beta same_entry_def same_mem_def)
qed

lemma ppp_state_load_db:
  assumes inv: "db_inv cfg s w" and ld: "ppp_state_load cfg s 0 w = Some (r, s', w')"
  shows "db_inv cfg s' w' \<and> username s' = username s \<and> db_view cfg (username s) w' = db_view cfg (username s) w \<and>
    salt_mask s' = salt_mask s \<and> code_mask s' = code_mask s \<and>
    (r = 0 \<longrightarrow> 0 < lock s' \<and> entry_ok s' \<and> (\<exists>t. stored cfg s w = Some t \<and> same_row t s') \<and>
       ppp_verify_range s' = Some 0 \<and> (\<exists>t. ppp_calculate t = Some s'))"
proof -
  let ?u = "username s"
  obtain r1 s1 w1 where lk: "state_lock cfg s w = Some (r1, s1, w1)"
    using ld by (auto simp: ppp_state_load_def bind_eq_Some_conv)
  note a = backend.lk_law [OF inv lk]
  show ?thesis
  proof (cases "r1 = 0")
    case False
    then show ?thesis using ld a by (auto simp: ppp_state_load_def lk)
  next
    case True
    then obtain x where s1: "s1 = s\<lparr>lock := x\<rparr>" using a by auto
    obtain r2 s2 w2 where c: "ppp_load_checked cfg s1 w1 = Some (r2, s2, w2)"
      using ld True by (auto simp: ppp_state_load_def lk bind_eq_Some_conv)
    obtain r3 s3 where l: "state_load cfg s1 w1 = Some (r3, s3, w2)"
      using c by (auto simp: ppp_load_checked_def bind_eq_Some_conv split: if_splits)
    note b = backend.lock_load [OF inv lk [unfolded True] l]
    have s2: "same_entry s3 s2 \<and> same_mem s3 s2" and r23: "r2 = 0 \<longrightarrow> r3 = 0 \<and> ppp_verify_range s2 = Some 0 \<and> ppp_calculate s3 = Some s2"
      using c ppp_calculate_frame [of s3] by (auto simp: ppp_load_checked_def l bind_eq_Some_conv split: if_splits)
    have inv2: "db_inv cfg s2 w2" using b db_inv_same_mem s2 by blast
    have u2: "username s2 = ?u" and lk2: "0 < lock s2" and m2: "salt_mask s2 = salt_mask s" "code_mask s2 = code_mask s"
      using b s2 by (simp_all add: same_mem_def s1)
    show ?thesis
    proof (cases "r2 = 0")
      case False
      then obtain r4 where "state_unlock cfg s2 w2 = Some (r4, s', w')" and "r = r2"
        using ld True by (auto simp: ppp_state_load_def lk c bind_eq_Some_conv)
      from backend.ul_law [OF inv2 this(1)] show ?thesis using u2 m2 b False \<open>r = r2\<close> by auto
    next
      case zero: True
      then have e: "s' = s2" "w' = w2" "r = 0" using ld True by (auto simp: ppp_state_load_def lk c)
      obtain l where v: "db_view cfg ?u w ?u = Some l" and rd: "entry_read s1 l = Some s3" and ok: "entry_ok s3"
        using b zero r23 by auto
      obtain t where t: "entry_read s l = Some t" "s3 = t\<lparr>lock := x\<rparr>"
        using rd unfolding s1 entry_read_lock by auto
      have "stored cfg s w = Some t" using v t by (simp add: stored_def)
      moreover have "same_row t s2" using s2 t by (simp add: same_row_def same_mem_def)
      moreover have "entry_ok s2" using ok s2 same_entry_ok by blast
      ultimately show ?thesis using inv2 u2 m2 lk2 b r23 zero by (auto simp: e)
    qed
  qed
qed

subsection \<open>Releasing\<close>

lemma release_flags:
  "(2 OR 4 :: u32) AND 2 \<noteq> 0" "(2 OR 4 :: u32) AND 4 \<noteq> 0" "(2 OR 4 :: u32) AND 8 = 0" "(2 OR 4 :: u32) AND 1 = 0"
  by simp_all

lemma ppp_release_store_db:
  assumes inv: "db_inv cfg s w" and lk: "0 < lock s" and ok: "entry_ok s"
    and rel: "ppp_state_release cfg s (PPP_STORE OR PPP_UNLOCK) w = Some (r, s', w')"
  shows "db_inv cfg s' w' \<and> (\<exists>x. s' = s\<lparr>new_key := 0, lock := x\<rparr> \<and> (r = 0 \<longrightarrow> x \<le> 0)) \<and>
    db_view cfg (username s) w' \<in>
      {db_view cfg (username s) w, (db_view cfg (username s) w)(username s \<mapsto> db_line s)} \<and>
    (r = 0 \<longrightarrow> db_view cfg (username s) w' = (db_view cfg (username s) w)(username s \<mapsto> db_line s))"
proof -
  obtain r1 s1 w1 where st: "state_store cfg s False w = Some (r1, s1, w1)"
    using rel by (auto simp: ppp_state_release_def bind_eq_Some_conv release_flags)
  obtain r2 where ul: "state_unlock cfg s1 w1 = Some (r2, s', w')" and r: "r = (if r1 \<noteq> 0 then r1 else r2)"
    using rel by (auto simp: ppp_state_release_def st bind_eq_Some_conv release_flags)
  note a = backend.st_law [OF inv lk ok st]
  then have u1: "username s1 = username s" and i1: "db_inv cfg s1 w1" by auto
  note b = backend.ul_law [OF i1 ul, unfolded u1]
  show ?thesis using a b r by auto
qed

lemma ppp_release_unlock_db:
  assumes inv: "db_inv cfg s w" and rel: "ppp_state_release cfg s PPP_UNLOCK w = Some (r, s', w')"
  shows "db_inv cfg s' w' \<and> (\<exists>x. s' = s\<lparr>lock := x\<rparr> \<and> (r = 0 \<longrightarrow> x \<le> 0)) \<and>
    db_view cfg (username s) w' = db_view cfg (username s) w"
proof -
  have "state_unlock cfg s w = Some (r, s', w')"
    using rel by (auto simp: ppp_state_release_def bind_eq_Some_conv)
  from backend.ul_law [OF inv this] show ?thesis by blast
qed

text \<open>The load, the change and the release of an entry, for every operation below.\<close>

definition entry_updated :: "cfg_t \<Rightarrow> state \<Rightarrow> world \<Rightarrow> (state \<Rightarrow> state) \<Rightarrow> world \<Rightarrow> bool" where
  "entry_updated cfg s w f w' \<longleftrightarrow>
     (\<exists>t. stored cfg s w = Some t \<and>
        db_view cfg (username s) w' = (db_view cfg (username s) w)(username s \<mapsto> db_line (f t)))"

text \<open>
  The interface of a change: it maps entries to entries of the same user and depends on nothing
  else.  Load, change, store and unlock then is that change of the database.
\<close>

locale entry_change =
  fixes f :: "state \<Rightarrow> state"
  assumes change_ok: "entry_ok s \<Longrightarrow> entry_ok (f s)"
    and change_mem: "username (f s) = username s \<and> lock (f s) = lock s \<and> new_key (f s) = new_key s"
    and change_inv: "db_inv cfg s w \<Longrightarrow> db_inv cfg (f s) w"
    and change_line: "same_row t s \<Longrightarrow> db_line (f t) = db_line (f s)"
begin

lemma load_release:
  assumes inv: "db_inv cfg s w" and ld: "ppp_state_load cfg s 0 w = Some (0, s1, w1)"
    and rel: "ppp_state_release cfg (f s1) (PPP_STORE OR PPP_UNLOCK) w1 = Some (r, s', w')"
  shows "db_inv cfg s' w' \<and> (\<exists>x. s' = (f s1)\<lparr>new_key := 0, lock := x\<rparr> \<and> (r = 0 \<longrightarrow> x \<le> 0)) \<and>
    (db_view cfg (username s) w' = db_view cfg (username s) w \<or> entry_updated cfg s w f w') \<and>
    (r = 0 \<longrightarrow> entry_updated cfg s w f w')"
proof -
  note a = ppp_state_load_db [OF inv ld]
  then obtain t where t: "stored cfg s w = Some t" "same_row t s1" and lk: "0 < lock (f s1)"
    and u: "username (f s1) = username s" and v: "db_view cfg (username s) w1 = db_view cfg (username s) w"
    and ok: "entry_ok (f s1)" and i: "db_inv cfg (f s1) w1"
    using change_ok change_mem change_inv by auto
  note b = ppp_release_store_db [OF i lk ok rel, unfolded u v]
  have "entry_updated cfg s w f w'"
    if "db_view cfg (username s) w' = (db_view cfg (username s) w)(username s \<mapsto> db_line (f s1))"
    using t(1) change_line [OF t(2)] that by (auto simp: entry_updated_def)
  then show ?thesis using b by blast
qed

end

subsection \<open>The atomic operations\<close>

definition next_counter :: "state \<Rightarrow> state" where
  "next_counter t = t\<lparr>counter := num_add (counter t) (num_i 1)\<rparr>"

lemma db_inv_frame:
  "username s' = username s \<Longrightarrow> lock s' = lock s \<Longrightarrow> sequence_key s' = sequence_key s \<Longrightarrow> spass s' = spass s \<Longrightarrow>
   db_inv cfg s w \<Longrightarrow> db_inv cfg s' w"
  by (simp add: db_inv_def lock_inv_def mem_ok_def)

interpretation next_counter: entry_change next_counter
proof (unfold_locales, goal_cases)
  case (4 t s)
  then show ?case by (intro same_entry_line) (simp add: same_row_def same_entry_def next_counter_def)
qed (auto simp: next_counter_def entry_ok_def elim: db_inv_frame [rotated 4])

lemma ppp_increment_db:
  assumes inv: "db_inv cfg s w" and inc: "ppp_increment cfg s w = Some (r, s', w')"
  shows "db_inv cfg s' w' \<and> username s' = username s \<and>
    (db_view cfg (username s) w' = db_view cfg (username s) w \<or>
     entry_updated cfg s w next_counter w') \<and>
    (r = 0 \<longrightarrow> lock s' \<le> 0 \<and> entry_updated cfg s w next_counter w' \<and>
       (\<exists>t. stored cfg s w = Some t \<and> counter s' = counter t) \<and> ppp_verify_range s' = Some 0)"
proof -
  obtain r1 s1 w1 where ld: "ppp_state_load cfg s 0 w = Some (r1, s1, w1)"
    using inc by (auto simp: ppp_increment_def bind_eq_Some_conv)
  note a = ppp_state_load_db [OF inv ld]
  show ?thesis
  proof (cases "r1 = 0")
    case False
    then show ?thesis using inc a by (auto simp: ppp_increment_def ld)
  next
    case True
    then obtain v where v: "ppp_state_verify cfg s1 = Some v"
      using inc by (auto simp: ppp_increment_def ld bind_eq_Some_conv)
    show ?thesis
    proof (cases "v \<noteq> 0 \<or> ppp_flag_check s1 FLAG_DISABLED")
      case bad: True
      then obtain r2 where "ppp_state_release cfg s1 PPP_UNLOCK w1 = Some (r2, s', w')" and "r \<noteq> 0"
        using inc True by (auto simp: ppp_increment_def ld v Let_def bind_eq_Some_conv split: if_splits)
      then show ?thesis using a ppp_release_unlock_db [of cfg s1 w1 r2 s' w'] by auto
    next
      case False
      then obtain s2 where rel: "ppp_state_release cfg (next_counter s1) (PPP_STORE OR PPP_UNLOCK) w1 = Some (r, s2, w')"
        and s': "s' = s2\<lparr>counter := counter s1\<rparr>"
        using inc True by (auto simp: ppp_increment_def ld v Let_def bind_eq_Some_conv next_counter_def)
      note ld0 = ld [unfolded True]
      note b = next_counter.load_release [OF inv ld0 rel]
      note b1 = b [THEN conjunct1] and b2 = b [THEN conjunct2, THEN conjunct1]
        and b3 = b [THEN conjunct2, THEN conjunct2, THEN conjunct1] and b4 = b [THEN conjunct2, THEN conjunct2, THEN conjunct2]
      obtain x where s2: "s2 = (next_counter s1)\<lparr>new_key := 0, lock := x\<rparr>" "r = 0 \<longrightarrow> x \<le> 0" using b2 by blast
      have "username s1 = username s" "ppp_verify_range s1 = Some 0" using a True by simp_all
      moreover have "ppp_verify_range s' = ppp_verify_range s1" by (simp add: s' s2(1) ppp_verify_range_def salted_def next_counter_def)
      ultimately have u: "username s' = username s" "counter s' = counter s1" "lock s' = x" "ppp_verify_range s' = Some 0"
        by (simp_all add: s' s2(1) next_counter_def)
      have "db_inv cfg s' w'" unfolding s' by (rule db_inv_frame [OF _ _ _ _ b1]) simp_all
      moreover obtain t where "stored cfg s w = Some t" "counter s1 = counter t"
        using a True by (auto simp: same_row_def same_entry_def)
      ultimately show ?thesis using b3 b4 u s2(2) by auto
    qed
  qed
qed

subsection \<open>Sessions one after the other\<close>

text \<open>The counter a line records.\<close>

definition line_counter :: "string \<Rightarrow> num_t" where
  "line_counter l = snd (num_import (snd (db_parse_user_entry l) ! 3) NUM_FORMAT_HEX)"

lemma db_load_numbers_counter: "db_load_numbers fs s = (r, s') \<Longrightarrow> counter s' = counter s"
  unfolding db_load_numbers_def Let_def by (elim scan_step) auto

lemma db_load_spass_counter: "db_load_spass fs s = Some (r, s') \<Longrightarrow> counter s' = counter s"
  by (cases "crypto_hex_to_binary (fs ! 11) 80 (spass s)")
    (auto simp: db_load_spass_def Let_def split_beta split: if_splits option.splits)

lemma db_load_fields_counter:
  assumes "db_load_fields fs s = Some (0, s')"
  shows "counter s' = snd (num_import (fs ! 3) NUM_FORMAT_HEX)"
proof -
  obtain ok key where k: "load_key 0 32 (fs ! 2) (sequence_key s) = (ok, key)"
    by (cases "load_key 0 32 (fs ! 2) (sequence_key s)")
  obtain r1 v1 where n1: "num_import (fs ! 3) NUM_FORMAT_HEX = (r1, v1)" by (cases "num_import (fs ! 3) NUM_FORMAT_HEX")
  obtain r2 v2 where n2: "num_import (fs ! 4) NUM_FORMAT_HEX = (r2, v2)" by (cases "num_import (fs ! 4) NUM_FORMAT_HEX")
  let ?s = "s\<lparr>sequence_key := key, counter := v1, latest_card := v2\<rparr>"
  obtain r3 s3 where n3: "db_load_numbers fs ?s = (r3, s3)" by (cases "db_load_numbers fs ?s")
  have "ok \<and> r1 = 0 \<and> r2 = 0 \<and> r3 = 0"
    using assms by (cases ok; cases "r1 = 0"; cases "r2 = 0"; cases "r3 = 0") (auto simp: db_load_fields_def k n1 n2 n3 Let_def)
  then obtain r4 s4 where "db_load_spass fs s3 = Some (r4, s4)" "counter s' = counter s4"
    using assms by (auto simp: db_load_fields_def k n1 n2 n3 Let_def bind_eq_Some_conv split: if_splits)
  then show ?thesis using db_load_spass_counter db_load_numbers_counter [OF n3] by (fastforce simp: n1)
qed

lemma entry_read_counter: "entry_read s l = Some t \<Longrightarrow> counter t = line_counter l"
  using db_load_fields_counter by (auto simp: entry_read_def line_counter_def split: prod.splits option.splits if_splits)

lemma line_counter_db_line [simp]: "entry_ok t \<Longrightarrow> line_counter (db_line t) = counter t"
  by (simp add: line_counter_def db_parse_ok)

lemma db_inv_next:
  "db_inv cfg s w \<Longrightarrow> lock s \<le> 0 \<Longrightarrow> username s' = username s \<Longrightarrow> mem_ok s' \<Longrightarrow> lock s' \<le> 0 \<Longrightarrow> db_inv cfg s' w"
  by (simp add: db_inv_def lock_inv_def)

lemma verify_range_no_wrap:
  assumes "ppp_verify_range s = Some 0"
  shows "nval (num_add (counter s) (num_i 1)) = nval (counter s) + 1"
proof -
  have "num_cmp (counter s) (num_ii 0xFFFFFFFFFFFFFFFF 0xFFFFFFFFFFFFFFF) \<le> 0"
    using assms by (auto simp: ppp_verify_range_def bind_eq_Some_conv split: if_splits)
  then have "nval (counter s) \<le> nval (num_ii 0xFFFFFFFFFFFFFFFF 0xFFFFFFFFFFFFFFF)"
    by (auto simp: num_cmp_val split: if_splits)
  then have "nval (counter s) + 1 < 2 ^ 128" by (simp add: nval_num_ii)
  then show ?thesis by (simp add: nval_add nval_num_ii)
qed

text \<open>
  Authentication attempts of a user, one session after the other until one fails: the counters
  they are given.
\<close>

fun increments :: "cfg_t \<Rightarrow> state list \<Rightarrow> world \<Rightarrow> (num_t list \<times> world) option" where
  "increments cfg [] w = Some ([], w)"
| "increments cfg (s # ss) w =
     do { (r, s, w) \<leftarrow> ppp_increment cfg s w;
          if r \<noteq> 0 then Some ([], w)
          else do { (cs, w) \<leftarrow> increments cfg ss w; Some (counter s # cs, w) } }"

lemma increment_step:
  assumes inv: "db_inv cfg s w" and inc: "ppp_increment cfg s w = Some (0, s', w')"
  shows "\<exists>l l'. db_view cfg (username s) w (username s) = Some l \<and> counter s' = line_counter l \<and>
    db_view cfg (username s) w' (username s) = Some l' \<and> nval (line_counter l') = nval (line_counter l) + 1"
proof -
  note a = ppp_increment_db [OF inv inc]
  obtain t where t: "stored cfg s w = Some t" "counter s' = counter t"
    and v: "db_view cfg (username s) w' (username s) = Some (db_line (next_counter t))"
    using a by (auto simp: entry_updated_def)
  obtain l where l: "db_view cfg (username s) w (username s) = Some l" "entry_read s l = Some t"
    using t(1) by (auto simp: stored_def bind_eq_Some_conv)
  have "entry_ok t" using entry_read_ok [OF l(2)] inv by (simp add: db_inv_def)
  then have "line_counter (db_line (next_counter t)) = num_add (counter t) (num_i 1)"
    using line_counter_db_line [OF next_counter.change_ok] by (simp add: next_counter_def)
  moreover have "nval (num_add (counter t) (num_i 1)) = nval (counter t) + 1"
    using verify_range_no_wrap [of s'] a t(2) by simp
  ultimately show ?thesis using l v t(2) entry_read_counter [OF l(2)] by simp
qed

lemma increments_counters:
  assumes "increments cfg ss w = Some (cs, w')" and "db_view cfg u w u = Some l"
    and "\<And>s. s \<in> set ss \<Longrightarrow> username s = u \<and> lock s \<le> 0 \<and> db_inv cfg s w"
  shows "map nval cs = [nval (line_counter l) ..< nval (line_counter l) + length cs]"
  using assms
proof (induction ss arbitrary: w l cs)
  case (Cons s ss)
  obtain r s1 w1 where i: "ppp_increment cfg s w = Some (r, s1, w1)"
    using Cons.prems(1) by (auto simp: bind_eq_Some_conv)
  show ?case
  proof (cases "r = 0")
    case False
    then show ?thesis using Cons.prems(1) by (simp add: i)
  next
    case True
    obtain cs' where c: "increments cfg ss w1 = Some (cs', w')" "cs = counter s1 # cs'"
      using Cons.prems(1) by (auto simp: i True bind_eq_Some_conv)
    have s: "username s = u" "db_inv cfg s w" using Cons.prems(3) by auto
    obtain l' where l': "counter s1 = line_counter l" "db_view cfg u w1 u = Some l'"
      "nval (line_counter l') = nval (line_counter l) + 1"
      using increment_step [OF s(2) i [unfolded True]] Cons.prems(2) by (auto simp: s(1))
    note a = ppp_increment_db [OF s(2) i]
    have "username x = u \<and> lock x \<le> 0 \<and> db_inv cfg x w1" if "x \<in> set ss" for x
      using Cons.prems(3) [of x] that a True s(1) by (auto intro: db_inv_next simp: db_inv_def [of cfg x w])
    then have "map nval cs' = [nval (line_counter l') ..< nval (line_counter l') + length cs']"
      using Cons.IH [OF c(1) l'(2)] by blast
    then show ?thesis using l' c(2) by (simp add: upt_conv_Cons del: upt_Suc)
  qed
qed simp

subsection \<open>Failures and out-of-band time\<close>

lemma salt_mask_text:
  "hex_bytes (rev (num_to_bin (num_ii 0xFFFFFFFFFFFFFFFF 0xFFFFFFFF00000000))) = ''FFFFFFFFFFFFFFFFFFFFFFFF00000000''"
  by code_simp

lemma code_mask_text:
  "hex_bytes (rev (num_to_bin (num_ii 0 0xFFFFFFFF))) = ''000000000000000000000000FFFFFFFF''"
  by code_simp

lemma state_init_mem:
  assumes "state_init (Some cfg) name mem = Some (r, s)"
  shows "r = 0 \<and> username s = name \<and> lock s = -1 \<and> new_key s = 0 \<and> length (sequence_key s) = 32 \<and> spass s = spass mem \<and>
    salt_mask s = num_ii 0xFFFFFFFFFFFFFFFF 0xFFFFFFFF00000000 \<and> code_mask s = num_i 0xFFFFFFFF"
proof -
  note a = num_import_hex_bytes [of "num_ii 0xFFFFFFFFFFFFFFFF 0xFFFFFFFF00000000", unfolded salt_mask_text]
  note b = num_import_hex_bytes [of "num_ii 0 0xFFFFFFFF", unfolded code_mask_text]
  show ?thesis using assms by (auto simp: state_init_def Let_def bind_eq_Some_conv a b)
qed

lemma unchanged_stored: "unchanged w v \<Longrightarrow> db_inv cfg s v = db_inv cfg s w \<and> stored cfg s v = stored cfg s w \<and> db_view cfg u v = db_view cfg u w"
  by (simp add: db_inv_unchanged stored_def)

text \<open>A database no session of the user holds a lock of.\<close>

definition db_free :: "cfg_t \<Rightarrow> string \<Rightarrow> world \<Rightarrow> bool" where
  "db_free cfg u w \<longleftrightarrow> 0 < w_fd w \<and> w_locks w = Map.empty \<and> file_wf w (db_name cfg u w) \<and>
     plain u \<and> length u \<le> STATE_MAX_FIELD_SIZE"

lemma db_free_inv:
  "db_free cfg (username s) w \<Longrightarrow> lock s \<le> 0 \<Longrightarrow> length (sequence_key s) = 32 \<Longrightarrow> length (spass s) = 40 \<Longrightarrow> db_inv cfg s w"
  by (simp add: db_free_def db_inv_def lock_inv_def mem_ok_def)

lemma db_inv_free: "db_inv cfg s w \<Longrightarrow> lock s \<le> 0 \<Longrightarrow> db_free cfg (username s) w"
  by (simp add: db_free_def db_inv_def lock_inv_def mem_ok_def)

context entry_change
begin

lemma update:
  assumes up: "ppp_update cfg u mem f w = Some (r, w')" and free: "db_free cfg u w" and mem: "length (spass mem) = 40"
  shows "(db_view cfg u w' = db_view cfg u w \<or>
      (\<exists>s. state_init (Some cfg) u mem = Some (0, s) \<and> entry_updated cfg s w f w')) \<and>
    (r = 0 \<longrightarrow> db_free cfg u w' \<and> (\<exists>s. state_init (Some cfg) u mem = Some (0, s) \<and> entry_updated cfg s w f w'))"
proof -
  obtain bad v where ft: "fault w = (bad, v)" by (cases "fault w")
  have un: "unchanged w v" using fault_frame [OF ft] by (simp add: unchanged_def)
  show ?thesis
  proof (cases bad)
    case True
    then show ?thesis using up unchanged_stored [OF un] by (simp add: ppp_update_def ppp_state_init_def ft)
  next
    case False
    then obtain s0 where si: "state_init (Some cfg) u mem = Some (0, s0)"
      using up state_init_mem [of cfg u mem]
      by (auto simp: ppp_update_def ppp_state_init_def ft bind_eq_Some_conv split: if_splits)
    note m = state_init_mem [OF si]
    have inv0: "db_inv cfg s0 w" using db_free_inv [of cfg s0 w] free m mem by simp
    then have inv: "db_inv cfg s0 v" using unchanged_stored [OF un] by simp
    have i: "ppp_state_init (Some cfg) u mem w = Some (0, Some s0, v)"
      using False si by (simp add: ppp_state_init_def ft)
    obtain r1 s1 w1 where ld: "ppp_state_load cfg s0 0 v = Some (r1, s1, w1)"
      using up by (auto simp: ppp_update_def i bind_eq_Some_conv)
    note a = ppp_state_load_db [OF inv ld]
    have fini: "db_view cfg u x' = db_view cfg u x \<and> (lock t \<le> 0 \<longrightarrow> x' = x)"
      if "ppp_state_fini cfg t x = Some x'" "db_inv cfg t x" "username t = u" for t x x'
      using that backend.ul_law [of cfg t x]
      by (auto simp: ppp_state_fini_def state_fini_def bind_eq_Some_conv split: if_splits)
    show ?thesis
    proof (cases "r1 = 0")
      case False
      then have "ppp_state_fini cfg s1 w1 = Some w'" "r = r1"
        using up by (auto simp: ppp_update_def i ld bind_eq_Some_conv)
      then show ?thesis using fini a m False unchanged_stored [OF un] by simp
    next
      case True
      then obtain s2 w2 where rel: "ppp_state_release cfg (f s1) (PPP_STORE OR PPP_UNLOCK) w1 = Some (r, s2, w2)"
        and fi: "ppp_state_fini cfg s2 w2 = Some w'"
        using up by (auto simp: ppp_update_def i ld bind_eq_Some_conv or.commute)
      note b = load_release [OF inv ld [unfolded True] rel]
      then have u2: "username s2 = u" and i2: "db_inv cfg s2 w2" using a m change_mem by auto
      note c = fini [OF fi i2 u2]
      have e: "entry_updated cfg s0 v f w2 \<Longrightarrow> entry_updated cfg s0 w f w'"
        using c m unchanged_stored [OF un] by (simp add: entry_updated_def)
      show ?thesis
      proof (intro conjI impI)
        show "db_view cfg u w' = db_view cfg u w \<or>
            (\<exists>s. state_init (Some cfg) u mem = Some (0, s) \<and> entry_updated cfg s w f w')"
          using b e si c m unchanged_stored [OF un] by auto
      next
        assume "r = 0"
        then have "lock s2 \<le> 0" using b by auto
        then show "db_free cfg u w'" using db_inv_free [OF i2] c u2 by simp
        show "\<exists>s. state_init (Some cfg) u mem = Some (0, s) \<and> entry_updated cfg s w f w'"
          using \<open>r = 0\<close> b e si by blast
      qed
    qed
  qed
qed

end

end
