(* ===== verification/Ppp_Run.thy ===== *)
theory Ppp_Run
  imports Ppp_Txn
begin

text \<open>
  What the program does when the system works: with no call failing, a regular state file in an
  existing home and no other session, locking, loading, storing and unlocking succeed, so the
  atomic operations return and return success.
\<close>

subsection \<open>Calls that do not fail\<close>

lemma quiet_calls:
  assumes "w_faults w = []"
  shows "os_stat p w = (w_files w p, w)"
    and "os_fopen_r p w = (case w_files w p of None \<Rightarrow> Fopen_enoent | Some f \<Rightarrow> Opened (f_data f), w)"
    and "os_unlk fd w = (True, w\<lparr>w_locks := (w_locks w)(fd := None)\<rparr>)"
    and "os_setlk fd p w = (True, w\<lparr>w_locks := (w_locks w)(fd \<mapsto> p)\<rparr>)"
    and "fst (os_open_lck p w) = Some (w_fd w)"
  using assms by (simp_all add: os_defs)

text \<open>The calls keep the absence of faults.\<close>

lemma quiet_kept:
  assumes "w_faults w = []"
  shows "w_faults (snd (os_open_lck p w)) = []" "w_faults (snd (os_fopen_w p w)) = []"
    "w_faults (snd (os_fputs p s w)) = []" "w_faults (snd (os_unlink p w)) = []"
    "w_faults (snd (os_rename p q w)) = []" "w_faults (snd (os_chown p u g w)) = []"
    "w_faults (os_close fd w) = []"
  using assms by (auto simp: os_defs split: option.splits)

lemma quiet_ok:
  assumes "w_faults w = []"
  shows "fst (os_fputs p s w)" "w_files w p \<noteq> None \<Longrightarrow> fst (os_rename p q w)"
    "w_files w p \<noteq> None \<Longrightarrow> fst (os_chown p u g w)"
    "(\<And>f. w_files w p = Some f \<Longrightarrow> f_kind f = Regular) \<Longrightarrow> fst (os_fopen_w p w)"
  using assms by (auto simp: os_defs split: option.splits)

subsection \<open>A home with a state file\<close>

text \<open>A user with a home, and with a state file in it.\<close>

definition has_home :: "cfg_t \<Rightarrow> string \<Rightarrow> world \<Rightarrow> bool" where
  "has_home cfg u w \<longleftrightarrow> w_faults w = [] \<and> db cfg = CONFIG_DB_USER \<and>
     (\<exists>pw h. w_pwnam w u = Some pw \<and> pw_dir pw = Some h)"

definition has_db :: "cfg_t \<Rightarrow> string \<Rightarrow> world \<Rightarrow> bool" where
  "has_db cfg u w \<longleftrightarrow> w_faults w = [] \<and> db cfg = CONFIG_DB_USER \<and>
     (\<exists>pw h d f. w_pwnam w u = Some pw \<and> pw_dir pw = Some h \<and> w_files w h = Some d \<and> f_kind d = Directory \<and>
        w_files w (db_name cfg u w) = Some f \<and> f_kind f = Regular) \<and>
     (\<forall>f. w_files w (db_name cfg u w @ ''.tmp'') = Some f \<longrightarrow> f_kind f = Regular)"

lemma has_db_home: "has_db cfg u w \<Longrightarrow> has_home cfg u w"
  by (auto simp: has_db_def has_home_def)

lemma has_home_path:
  assumes "has_home cfg u w"
  shows "\<exists>q. db_path cfg u b w = Some (Inr q, w) \<and> paths_ok (db_name cfg u w) q \<and>
    (b \<longrightarrow> (\<exists>pw. w_pwnam w u = Some pw \<and> p_home q = pw_dir pw))"
  using assms by (cases b) (auto simp: has_home_def db_path_def db_path_rest_def paths_ok_def db_name_def Let_def)

lemma has_db_permissions:
  assumes "has_db cfg u w" and "w_pwnam w u = Some pw"
  shows "db_file_permissions cfg (db_name cfg u w) (pw_dir pw) w = Some (0, w)"
  using assms by (auto simp: has_db_def db_file_permissions_def db_perm_user_def quiet_calls)

lemma db_file_permissions_total: "db cfg = CONFIG_DB_USER \<Longrightarrow> \<exists>r w'. db_file_permissions cfg q h w = Some (r, w')"
  by (auto simp: db_file_permissions_def split_beta)

lemma has_db_touched:
  assumes "has_db cfg u w" and t: "touched (db_name cfg u w @ ''.lck'') w v" and q: "w_faults v = []"
  shows "has_db cfg u v"
proof -
  have e: "same_env w v" using t by (simp add: touched_def)
  have n: "db_name cfg u v = db_name cfg u w" by (rule db_name_env [OF e])
  have f: "w_files v x = w_files w x" if "x \<noteq> db_name cfg u w @ ''.lck''" for x using t that by (simp add: touched_def)
  obtain pw h where h: "w_pwnam w u = Some pw" "pw_dir pw = Some h" "db cfg = CONFIG_DB_USER"
    using assms(1) by (auto simp: has_db_def)
  have d: "h \<noteq> db_name cfg u w @ ''.lck''" by (simp add: db_name_def h)
  have "w_pwnam v u = Some pw" using e h by (simp add: same_env_def)
  moreover have "w_files v h = w_files w h" by (rule f [OF d])
  moreover have "w_files v (db_name cfg u w) = w_files w (db_name cfg u w)" by (rule f) simp
  moreover have "w_files v (db_name cfg u w @ ''.tmp'') = w_files w (db_name cfg u w @ ''.tmp'')" by (rule f) simp
  ultimately show ?thesis using assms(1) q h by (simp add: has_db_def n)
qed

subsection \<open>Locking\<close>

lemma lock_runs:
  assumes "has_db cfg (username s) w" and "lock s = -1"
  shows "\<exists>w'. state_lock cfg s w = Some (0, s\<lparr>lock := w_fd w\<rparr>, w') \<and> has_db cfg (username s) w'"
proof -
  let ?u = "username s" and ?n = "db_name cfg (username s) w"
  have quiet: "w_faults w = []" and isf: "db_is_file cfg" using assms(1) by (simp_all add: has_db_def db_is_file_def)
  obtain q pw where q: "db_path cfg ?u True w = Some (Inr q, w)" "paths_ok ?n q" "w_pwnam w ?u = Some pw" "p_home q = pw_dir pw"
    using has_home_path [OF has_db_home [OF assms(1)], of True] by auto
  have perm: "db_file_permissions cfg (p_db q) (pw_dir pw) w = Some (0, w)"
    using has_db_permissions [OF assms(1) q(3)] q by (simp add: paths_ok_def)
  obtain fd v where o: "os_open_lck (p_lck q) w = (fd, v)" by (cases "os_open_lck (p_lck q) w")
  have fd: "fd = Some (w_fd w)" and qv: "w_faults v = []"
    using quiet_calls(5) [OF quiet, of "p_lck q"] quiet_kept(1) [OF quiet, of "p_lck q"] by (simp_all add: o)
  let ?v = "v\<lparr>w_locks := (w_locks v)(w_fd w \<mapsto> p_lck q)\<rparr>"
  have "setlk_tries 20 (w_fd w) (p_lck q) v = (True, ?v)"
    using setlk_tries.simps(2) [of 19] quiet_calls(4) [OF qv] by (simp add: numeral_eq_Suc)
  then have r: "state_lock cfg s w = Some (0, s\<lparr>lock := w_fd w\<rparr>, ?v)"
    using assms(2) isf by (simp add: state_lock_def db_file_lock_def q perm o fd)
  have lck: "p_lck q = ?n @ ''.lck''" using q by (simp add: paths_ok_def)
  have "touched (?n @ ''.lck'') w v" using os_frames(8) [OF o] by (simp add: touched_def lck)
  then have "has_db cfg ?u v" by (rule has_db_touched [OF assms(1) _ qv])
  then have "has_db cfg ?u ?v" by (simp add: has_db_def db_name_env [OF same_env_locks])
  then show ?thesis using r by blast
qed

subsection \<open>Loading\<close>

lemma db_find_runs:
  "list_all line_ok ls \<Longrightarrow> w_faults w = [] \<Longrightarrow> db_lookup u ls = Some l \<Longrightarrow>
   \<exists>rest. db_find_user_entry u (concat ls) None w = Some (0, l, rest, w)"
proof (induction ls)
  case Nil
  then show ?case by (simp add: db_lookup_def)
next
  case (Cons x ls)
  then show ?case by (auto simp: db_find_line db_lookup_Cons split: if_splits)
qed

lemma entry_read_fields:
  "entry_read t l = Some s \<Longrightarrow> \<exists>fs. db_parse_user_entry l = (0, fs) \<and> db_load_fields fs t = Some (0, s)"
  by (auto simp: entry_read_def split: prod.splits option.splits if_splits)

lemma load_runs:
  assumes "has_db cfg (username s) w" and "0 < lock s" and "file_wf w (db_name cfg (username s) w)"
    and st: "stored cfg s w = Some t"
  shows "state_load cfg s w = Some (0, t, w)"
proof -
  let ?u = "username s" and ?n = "db_name cfg (username s) w"
  have quiet: "w_faults w = []" and isf: "db_is_file cfg" using assms(1) by (simp_all add: has_db_def db_is_file_def)
  obtain q pw where q: "db_path cfg ?u True w = Some (Inr q, w)" "paths_ok ?n q" "w_pwnam w ?u = Some pw" "p_home q = pw_dir pw"
    using has_home_path [OF has_db_home [OF assms(1)], of True] by auto
  have db: "p_db q = ?n" using q by (simp add: paths_ok_def)
  have perm: "db_file_permissions cfg ?n (pw_dir pw) w = Some (0, w)"
    by (rule has_db_permissions [OF assms(1) q(3)])
  obtain f where f: "w_files w ?n = Some f" using assms(1) by (auto simp: has_db_def)
  have c: "f_data f = concat (db_lines w ?n)"
    using file_lines_db_lines [of w ?n] by (simp add: file_lines_def content_def f)
  obtain l where l: "db_lookup ?u (db_lines w ?n) = Some l" "entry_read s l = Some t"
    using st by (auto simp: stored_def db_view_def user_map_def bind_eq_Some_conv)
  obtain rest where r: "db_find_user_entry ?u (f_data f) None w = Some (0, l, rest, w)"
    using db_find_runs [OF _ quiet l(1)] assms(3) by (auto simp: file_wf_def c)
  obtain fs where "db_parse_user_entry l = (0, fs)" "db_load_fields fs s = Some (0, t)"
    using entry_read_fields [OF l(2)] by blast
  then have "db_load_locked ?n s w = Some (0, t, w)" by (simp add: db_load_locked_def quiet_calls(2) [OF quiet] f r)
  then show ?thesis using assms(2) isf by (simp add: state_load_def db_file_load_def q perm db)
qed

lemma unlock_runs:
  assumes "has_home cfg (username s) w" and "0 < lock s"
  shows "\<exists>w'. state_unlock cfg s w = Some (0, s\<lparr>lock := -1\<rparr>, w') \<and> w_faults w' = []"
proof -
  have quiet: "w_faults w = []" and isf: "db_is_file cfg" using assms(1) by (simp_all add: has_home_def db_is_file_def)
  obtain q where q: "db_path cfg (username s) False w = Some (Inr q, w)"
    using has_home_path [OF assms(1), of False] by auto
  obtain b v where o: "os_unlink (p_lck q) w = (b, v)" by (cases "os_unlink (p_lck q) w")
  have "w_faults v = []" using quiet_kept(4) [OF quiet, of "p_lck q"] by (simp add: o)
  then show ?thesis using assms(2) isf
    by (simp add: state_unlock_def db_file_unlock_def q o quiet_calls(3) quiet_kept(7))
qed

subsection \<open>Storing\<close>

lemma db_find_copy_runs:
  "list_all line_ok ls \<Longrightarrow> w_faults w = [] \<Longrightarrow>
   \<exists>r b rest w'. db_find_user_entry u (concat ls) (Some p) w = Some (r, b, rest, w') \<and> w_faults w' = [] \<and>
     find_result u ls p w (r, b, rest, w') \<and> r \<in> {0, STATE_NO_USER_ENTRY}"
proof -
  assume ls: "list_all line_ok ls" and q: "w_faults w = []"
  have "\<exists>r b rest w'. db_find_user_entry u (concat ls) (Some p) w = Some (r, b, rest, w') \<and> w_faults w' = [] \<and>
      r \<in> {0, STATE_NO_USER_ENTRY}"
    using ls q
  proof (induction ls arbitrary: w)
    case Nil
    then show ?case by (simp add: db_find_end)
  next
    case (Cons l ls)
    obtain ok v where o: "os_fputs p l w = (ok, v)" by (cases "os_fputs p l w")
    have "ok" "w_faults v = []" using quiet_ok(1) [of w p l] quiet_kept(3) [of w p l] Cons.prems by (simp_all add: o)
    then show ?case using Cons.IH [of v] Cons.prems by (simp add: db_find_line o)
  qed
  then show ?thesis using db_find_copy [OF ls, of u p w] by auto
qed

lemma wrote_exists: "wrote p s w w' \<Longrightarrow> w_files w p \<noteq> None \<Longrightarrow> w_files w' p \<noteq> None"
  by (auto simp: wrote_def)

lemma keeps_exists: "keeps w w' \<Longrightarrow> w_files w' p = None \<longleftrightarrow> w_files w p = None"
proof -
  assume "keeps w w'"
  then have "map_option f_data (w_files w' p) = map_option f_data (w_files w p)"
    by (simp only: keeps_def content_def)
  then show "w_files w' p = None \<longleftrightarrow> w_files w p = None"
    by (cases "w_files w p"; cases "w_files w' p") simp_all
qed

lemma db_store_flush_runs: "w_faults w = [] \<Longrightarrow> db_store_flush w = (0, w)"
  by (simp add: db_store_flush_def)

lemma db_store_copy_runs:
  assumes s: "entry_ok s" and ls: "list_all line_ok ls" and u: "db_unique (username s) ls" and q: "w_faults w = []"
  shows "\<exists>w'. db_store_copy s False p (Some (concat ls)) w = Some (0, w') \<and> w_faults w' = []"
proof -
  let ?t = "p_tmp p" and ?u = "username s"
  obtain r1 b1 rest w1 where f1: "db_find_user_entry ?u (concat ls) (Some ?t) w = Some (r1, b1, rest, w1)"
    and q1: "w_faults w1 = []" and r1: "find_result ?u ls ?t w (r1, b1, rest, w1)" "r1 \<in> {0, STATE_NO_USER_ENTRY}"
    using db_find_copy_runs [OF ls q] by blast
  obtain ok w2 where o: "os_fputs ?t (db_line s) w1 = (ok, w2)" by (cases "os_fputs ?t (db_line s) w1")
  have ok: "ok" "w_faults w2 = []" using quiet_ok(1) [OF q1, of ?t "db_line s"] quiet_kept(3) [OF q1, of ?t "db_line s"] by (simp_all add: o)
  have e: "db_store_entry s False p w1 = Some (0, w2)" by (simp add: db_store_entry_def db_generate_ok [OF s] o ok)
  obtain post where post: "rest = concat post" "list_all line_ok post" "\<forall>l \<in> set post. \<not> matches ?u l"
  proof (cases "r1 = 0")
    case True
    then obtain pre post where h: "ls = pre @ b1 # post" "matches ?u b1" "rest = concat post"
      using r1 by (auto simp: find_result_def)
    then show ?thesis using u ls that [of post] by (simp add: db_unique_def filter_empty_conv split: if_splits)
  next
    case False
    then show ?thesis using r1 that [of "[]"] by (simp add: find_result_def)
  qed
  obtain r3 b3 rest3 w3 where f3: "db_find_user_entry ?u (concat post) (Some ?t) w2 = Some (r3, b3, rest3, w3)"
    and q3: "w_faults w3 = []" and r3: "find_result ?u post ?t w2 (r3, b3, rest3, w3)" "r3 \<in> {0, STATE_NO_USER_ENTRY}"
    using db_find_copy_runs [OF post(2) ok(2)] by blast
  have "r3 = STATE_NO_USER_ENTRY" using r3 post(3) by (auto simp: find_result_def)
  then show ?thesis using r1(2) q3 by (auto simp: db_store_copy_def f1 e post(1) f3 db_store_flush_runs)
qed

lemma db_store_chown_runs:
  assumes q: "w_faults w = []" and "w_files w (p_db p) \<noteq> None" "w_files w (p_tmp p) \<noteq> None"
  shows "\<exists>w'. db_store_chown cfg p w = (0, w') \<and> w_faults w' = []"
proof -
  obtain f where f: "w_files w (p_db p) = Some f" using assms(2) by auto
  obtain ok v where o: "os_chown (p_tmp p) (f_uid f) (f_gid f) w = (ok, v)"
    by (cases "os_chown (p_tmp p) (f_uid f) (f_gid f) w")
  have "ok" "w_faults v = []"
    using quiet_ok(3) [OF q assms(3), of "f_uid f" "f_gid f"] quiet_kept(6) [OF q, of "p_tmp p" "f_uid f" "f_gid f"] by (simp_all add: o)
  then show ?thesis using q by (auto simp: db_store_chown_def quiet_calls(1) [OF q] f o)
qed

lemma db_store_locked_runs:
  assumes db: "has_db cfg (username s) w" and wf: "file_wf w (db_name cfg (username s) w)"
    and s: "entry_ok s" and q: "paths_ok (db_name cfg (username s) w) q"
  shows "\<exists>w'. db_store_locked cfg s False q w = Some (0, w') \<and> w_faults w' = []"
proof -
  let ?u = "username s" and ?n = "db_name cfg (username s) w"
  have n: "p_db q = ?n" "p_tmp q = ?n @ ''.tmp''" using q by (simp_all add: paths_ok_def)
  have quiet: "w_faults w = []" and us: "db cfg = CONFIG_DB_USER" using db by (simp_all add: has_db_def)
  obtain f where f: "w_files w ?n = Some f" using db by (auto simp: has_db_def)
  have c: "f_data f = concat (db_lines w ?n)"
    using file_lines_db_lines [of w ?n] by (simp add: file_lines_def content_def f)
  obtain ok v where o: "os_fopen_w (p_tmp q) w = (ok, v)" by (cases "os_fopen_w (p_tmp q) w")
  have "fst (os_fopen_w (p_tmp q) w)" by (rule quiet_ok(4) [OF quiet]) (use db in \<open>simp add: n has_db_def\<close>)
  then have ok: ok by (simp add: o)
  have qv: "w_faults v = []" using quiet_kept(2) [OF quiet, of "p_tmp q"] by (simp add: o)
  have ev: "w_files v (p_tmp q) \<noteq> None" using os_fopen_w_empty [of "p_tmp q" w v] o ok by (auto simp: content_def)
  have "w_files v (p_db q) = w_files w (p_db q)" using os_frames(3) [OF o] by (simp add: n)
  then obtain x where ch: "db_store_chown cfg q v = (0, x)" and qx: "w_faults x = []"
    using db_store_chown_runs [OF qv _ ev] f by (auto simp: n)
  have ex: "w_files x (p_tmp q) \<noteq> None"
    using keeps_exists [OF db_store_chown_keeps [OF ch]] ev by simp
  have ls: "list_all line_ok (db_lines w ?n)" "db_unique ?u (db_lines w ?n)" using wf by (simp_all add: file_wf_def)
  obtain y where cp: "db_store_copy s False q (Some (concat (db_lines w ?n))) x = Some (0, y)" and qy: "w_faults y = []"
    using db_store_copy_runs [OF s ls qx] by blast
  have ey: "w_files y (p_tmp q) \<noteq> None" by (rule wrote_exists [OF db_store_copy_wrote [OF cp s ls] ex])
  have wr: "db_store_write cfg s False q w = Some (0, y)"
    by (simp add: db_store_write_def quiet_calls(2) [OF quiet] n(1) f o ok ch c cp)
  obtain ok2 z where rn: "os_rename (p_tmp q) (p_db q) y = (ok2, z)" by (cases "os_rename (p_tmp q) (p_db q) y")
  have z: ok2 "w_faults z = []"
    using quiet_ok(2) [OF qy ey, of "p_db q"] quiet_kept(5) [OF qy, of "p_tmp q" "p_db q"] by (simp_all add: rn)
  obtain r where "db_file_permissions cfg (p_db q) None z = Some (r, z)"
    using us z(2) by (auto simp: db_file_permissions_def db_perm_user_def quiet_calls)
  then have "db_store_cleanup cfg q 0 y = Some (0, z)" using z by (simp add: db_store_cleanup_def rn)
  then show ?thesis using z wr by (simp add: db_store_locked_def)
qed

lemma store_runs:
  assumes db: "has_db cfg (username s) w" and lk: "0 < lock s" and wf: "file_wf w (db_name cfg (username s) w)"
    and s: "entry_ok s" "new_key s = 0"
  shows "\<exists>w'. state_store cfg s False w = Some (0, s\<lparr>new_key := 0\<rparr>, w') \<and> has_home cfg (username s) w'"
proof -
  let ?u = "username s"
  have isf: "db_is_file cfg" using db by (simp add: has_db_def db_is_file_def)
  obtain q where q: "db_path cfg ?u False w = Some (Inr q, w)" "paths_ok (db_name cfg ?u w) q"
    using has_home_path [OF has_db_home [OF db], of False] by auto
  have ok: "entry_ok (s\<lparr>new_key := 0\<rparr>)" using s by simp
  obtain w' where st: "db_store_locked cfg (s\<lparr>new_key := 0\<rparr>) False q w = Some (0, w')" "w_faults w' = []"
    using db_store_locked_runs [of cfg "s\<lparr>new_key := 0\<rparr>" w q] db wf ok q(2) by auto
  have "same_env w w'" using db_store_locked_frame [OF st(1) paths_ok_distinct(1) [OF q(2)]] by simp
  then have "has_home cfg ?u w'"
    using has_db_home [OF db] st(2) by (auto simp: has_home_def same_env_def)
  moreover have "state_store cfg s False w = Some (0, s\<lparr>new_key := 0\<rparr>, w')"
    using lk s isf by (simp add: state_store_def state_store_locked_def db_file_store_def q st)
  ultimately show ?thesis by blast
qed

subsection \<open>An increment that succeeds\<close>

lemma ppp_calculate_lock: "ppp_calculate (t\<lparr>lock := x\<rparr>) = map_option (\<lambda>u. u\<lparr>lock := x\<rparr>) (ppp_calculate t)"
proof (cases "ppp_get_codes_per_row (sint (code_length t))")
  case (Some n)
  then show ?thesis
    by (auto simp: ppp_calculate_def Let_def split_beta salted_def ppp_unsalted_def assert_that_def)
qed (auto simp: ppp_calculate_def assert_that_def)

lemma ppp_verify_lock [simp]: "ppp_verify_range (t\<lparr>lock := x\<rparr>) = ppp_verify_range t"
    "ppp_state_verify cfg (t\<lparr>lock := x\<rparr>) = ppp_state_verify cfg t"
  by (simp_all add: ppp_state_verify_def ppp_verify_range_def salted_def)

lemma load_state_runs:
  assumes db: "has_db cfg (username s) w" and inv: "db_inv cfg s w" and lk: "lock s = -1"
    and st: "stored cfg s w = Some t" and calc: "ppp_calculate t = Some t1" and ok: "ppp_verify_range t1 = Some 0"
  shows "\<exists>w'. ppp_state_load cfg s 0 w = Some (0, t1\<lparr>lock := w_fd w\<rparr>, w') \<and> has_db cfg (username s) w' \<and>
    db_inv cfg (t1\<lparr>lock := w_fd w\<rparr>) w' \<and> 0 < w_fd w"
proof -
  let ?u = "username s" and ?s = "s\<lparr>lock := w_fd w\<rparr>" and ?t = "t\<lparr>lock := w_fd w\<rparr>"
  obtain w1 where l: "state_lock cfg s w = Some (0, ?s, w1)" and db1: "has_db cfg ?u w1"
    using lock_runs [OF db lk] by blast
  have a: "db_inv cfg ?s w1" "db_view cfg ?u w1 = db_view cfg ?u w" and fd: "0 < w_fd w"
    using backend.lk_law [OF inv l] inv by (simp_all add: db_inv_def lock_inv_def)
  have "stored cfg ?s w1 = Some ?t"
    using st by (auto simp: stored_def a(2) bind_eq_Some_conv entry_read_lock)
  moreover have "file_wf w1 (db_name cfg ?u w1)" using a(1) by (simp add: db_inv_def)
  ultimately have ld: "state_load cfg ?s w1 = Some (0, ?t, w1)"
    using db1 fd by (intro load_runs) simp_all
  have r: "ppp_state_load cfg s 0 w = Some (0, t1\<lparr>lock := w_fd w\<rparr>, w1)"
    by (simp add: ppp_state_load_def l ppp_load_checked_def ld ppp_calculate_lock calc ok)
  then show ?thesis using ppp_state_load_db [OF inv r] db1 fd by blast
qed

text \<open>A usable entry: it can be loaded, its place computed, and it keeps the policy.\<close>

definition usable :: "cfg_t \<Rightarrow> state \<Rightarrow> world \<Rightarrow> state \<Rightarrow> state \<Rightarrow> bool" where
  "usable cfg s w t t1 \<longleftrightarrow> has_db cfg (username s) w \<and> db_inv cfg s w \<and> lock s = -1 \<and> new_key s = 0 \<and>
     stored cfg s w = Some t \<and> ppp_calculate t = Some t1 \<and> ppp_state_verify cfg t1 = Some 0"

lemma usable_load:
  assumes "usable cfg s w t t1"
  shows "\<exists>w1. ppp_state_load cfg s 0 w = Some (0, t1\<lparr>lock := w_fd w\<rparr>, w1) \<and> has_db cfg (username s) w1 \<and>
    db_inv cfg (t1\<lparr>lock := w_fd w\<rparr>) w1 \<and> 0 < w_fd w \<and> entry_ok (t1\<lparr>lock := w_fd w\<rparr>) \<and>
    username t1 = username s \<and> new_key t1 = 0 \<and> same_entry t t1"
proof -
  have u: "has_db cfg (username s) w" "db_inv cfg s w" "lock s = -1" "new_key s = 0" "stored cfg s w = Some t"
      "ppp_calculate t = Some t1" "ppp_verify_range t1 = Some 0"
    using assms ppp_state_verify_parts by (auto simp: usable_def)
  obtain w1 where ld: "ppp_state_load cfg s 0 w = Some (0, t1\<lparr>lock := w_fd w\<rparr>, w1)" and db1: "has_db cfg (username s) w1"
    and inv1: "db_inv cfg (t1\<lparr>lock := w_fd w\<rparr>) w1" and fd: "0 < w_fd w"
    using load_state_runs [OF u(1-3,5-7)] by blast
  have "same_entry t t1" "same_mem t t1" using ppp_calculate_frame [OF u(6)] by simp_all
  moreover have "same_mem s t" using u entry_read_ok by (auto simp: stored_def bind_eq_Some_conv db_inv_def)
  ultimately show ?thesis using ld db1 inv1 fd u(4) ppp_state_load_db [OF u(2) ld] by (auto simp: same_mem_def)
qed

context entry_change
begin

lemma release_runs:
  assumes "has_db cfg u w" and "db_inv cfg s w" and "0 < lock s" and "entry_ok s" and "username s = u" and "new_key s = 0"
  shows "\<exists>w'. ppp_state_release cfg (f s) (PPP_STORE OR PPP_UNLOCK) w = Some (0, (f s)\<lparr>new_key := 0, lock := -1\<rparr>, w') \<and> w_faults w' = []"
proof -
  let ?n = "f s"
  have nx: "username ?n = u" "0 < lock ?n" "new_key ?n = 0" using change_mem assms by simp_all
  have "file_wf w (db_name cfg u w)" using assms by (simp add: db_inv_def)
  then obtain w2 where st: "state_store cfg ?n False w = Some (0, ?n\<lparr>new_key := 0\<rparr>, w2)" and hm: "has_home cfg u w2"
    using store_runs [of cfg ?n w] assms(1) nx change_ok [OF assms(4)] by auto
  obtain w3 where "state_unlock cfg (?n\<lparr>new_key := 0\<rparr>) w2 = Some (0, ?n\<lparr>new_key := 0, lock := -1\<rparr>, w3)" "w_faults w3 = []"
    using unlock_runs [of cfg "?n\<lparr>new_key := 0\<rparr>" w2] hm nx by auto
  then show ?thesis by (simp add: ppp_state_release_def st)
qed

end

lemma ppp_increment_runs:
  assumes us: "usable cfg s w t t1" and fl: "flags t AND FLAG_DISABLED = 0"
  shows "\<exists>w'. ppp_increment cfg s w = Some (0, t1\<lparr>new_key := 0, lock := -1\<rparr>, w') \<and> counter t1 = counter t \<and> w_faults w' = []"
proof -
  let ?t = "t1\<lparr>lock := w_fd w\<rparr>"
  obtain w1 where ld: "ppp_state_load cfg s 0 w = Some (0, ?t, w1)" and db1: "has_db cfg (username s) w1"
    and m: "db_inv cfg ?t w1" "0 < w_fd w" "entry_ok ?t" "username t1 = username s" "new_key t1 = 0" "same_entry t t1"
    using usable_load [OF us] by blast
  have ok: "ppp_state_verify cfg ?t = Some 0" using us by (simp add: usable_def)
  have fl1: "\<not> ppp_flag_check ?t FLAG_DISABLED" using m(6) fl by (simp add: ppp_flag_check_def same_entry_def)
  obtain w3 where rel: "ppp_state_release cfg (next_counter ?t) (PPP_STORE OR PPP_UNLOCK) w1 =
      Some (0, (next_counter ?t)\<lparr>new_key := 0, lock := -1\<rparr>, w3)" "w_faults w3 = []"
    using next_counter.release_runs [OF db1 m(1)] m by auto
  from rel(1) have "ppp_increment cfg s w = Some (0, (next_counter ?t)\<lparr>new_key := 0, lock := -1, counter := counter t1\<rparr>, w3)"
    using ok fl1 by (simp add: ppp_increment_def ld Let_def next_counter_def)
  moreover have "(next_counter ?t)\<lparr>new_key := 0, lock := -1, counter := counter t1\<rparr> = t1\<lparr>new_key := 0, lock := -1\<rparr>"
    by (cases t1) (simp add: next_counter_def)
  ultimately show ?thesis using m(6) rel(2) by (simp add: same_entry_def)
qed

end
