(* ===== verification/Ppp_Safe.thy ===== *)
theory Ppp_Safe
  imports Ppp_Run
begin

text \<open>
  The properties of the atomic operations: every passcode number is given out once, a change
  touches one entry, a working system makes progress, and what skipping does to a salted
  counter.
\<close>

subsection \<open>A session of a sample user\<close>

definition sample_cfg :: cfg_t where
  "sample_cfg = config_defaults\<lparr>db := CONFIG_DB_USER, pam_spass_require := 1\<rparr>"

lemma sample_cfg_ok: "cfg_ok sample_cfg"
  using config_defaults_ok by (simp add: sample_cfg_def cfg_ok_defs)

definition sample_entry :: state where
  "sample_entry = sample_state\<lparr>flags := 4\<rparr>"

definition sample_session :: state where
  "sample_session = snd (the (state_init (Some sample_cfg) ''ann'' state_zero))"

lemma state_init_total: "2 \<le> passcode_def_length cfg \<Longrightarrow> passcode_def_length cfg \<le> 16 \<Longrightarrow> \<exists>r s. state_init (Some cfg) u m = Some (r, s)"
  using num_import_hex_bytes [of "num_ii 0xFFFFFFFFFFFFFFFF 0xFFFFFFFF00000000", unfolded salt_mask_text]
    num_import_hex_bytes [of "num_ii 0 0xFFFFFFFF", unfolded code_mask_text]
  by (simp add: state_init_def Let_def)

lemma sample_init: "state_init (Some sample_cfg) ''ann'' state_zero = Some (0, sample_session)"
proof -
  have "passcode_def_length sample_cfg = 4" by (simp add: sample_cfg_def config_defaults_def)
  then obtain r s where r: "state_init (Some sample_cfg) ''ann'' state_zero = Some (r, s)"
    using state_init_total [of sample_cfg "''ann''" state_zero] by auto
  then have "r = 0" using state_init_mem by blast
  then show ?thesis using r by (simp add: sample_session_def)
qed

definition sample_inode :: "file_kind \<Rightarrow> string \<Rightarrow> inode" where
  "sample_inode k c = \<lparr>f_kind = k, f_mode = 0x180, f_uid = 1000, f_gid = 1000, f_data = c\<rparr>"

definition sample_world :: world where
  "sample_world =
     \<lparr>w_files = [''/h'' \<mapsto> sample_inode Directory [], ''/h/.otpasswd'' \<mapsto> sample_inode Regular (db_line sample_entry),
        CONFIG_PATH \<mapsto> (sample_inode Regular [])\<lparr>f_uid := 0, f_gid := 0\<rparr>],
      w_pwnam = [''ann'' \<mapsto> \<lparr>pw_uid = 1000, pw_gid = 1000, pw_dir = Some ''/h''\<rparr>], w_pwuid = Map.empty,
      w_uid = 1000, w_euid = 1000, w_egid = 1000, w_umask = 0x3F, w_devs = Map.empty, w_now = 5, w_fd = 3,
      w_locks = Map.empty, w_faults = []\<rparr>"

lemma sample_fields [simp]:
  "username sample_session = ''ann''" "lock sample_session = -1" "new_key sample_session = 0"
  "length (sequence_key sample_session) = 32" "length (spass sample_session) = 40"
  "salt_mask sample_session = num_ii 0xFFFFFFFFFFFFFFFF 0xFFFFFFFF00000000"
  "code_mask sample_session = num_i 0xFFFFFFFF"
  using state_init_mem [OF sample_init] by (simp_all add: state_zero_def)

lemma sample_entry_fields [simp]:
  "username sample_entry = ''ann''" "counter sample_entry = num_ii 7 12" "flags sample_entry = 4"
  "code_length sample_entry = 4" "alphabet sample_entry = 1"
  by (simp_all add: sample_entry_def sample_state_def)

lemma sample_entry_entry_ok: "entry_ok sample_entry"
  using sample_entry_ok by (simp add: sample_entry_def entry_ok_def)

lemma sample_db_name: "db_name sample_cfg ''ann'' sample_world = ''/h/.otpasswd''"
  by (simp add: db_name_def sample_cfg_def sample_world_def config_defaults_def)

lemma sample_lines: "db_lines sample_world ''/h/.otpasswd'' = [db_line sample_entry]"
  using lines_of_concat [of "[db_line sample_entry]"] db_line_ok(1) [OF sample_entry_entry_ok]
  by (simp add: db_lines_def content_def sample_world_def sample_inode_def)

lemma sample_has_db: "has_db sample_cfg ''ann'' sample_world"
  unfolding has_db_def sample_db_name
  by (simp add: sample_world_def sample_inode_def sample_cfg_def)

lemma sample_inv: "db_inv sample_cfg sample_session sample_world"
proof -
  have "db_unique u [db_line sample_entry]" for u by (simp add: db_unique_def)
  then have "file_wf sample_world ''/h/.otpasswd''"
    using db_line_ok(1) [OF sample_entry_entry_ok] by (simp add: file_wf_def sample_lines)
  moreover have "plain ''ann''" by (simp add: plain_def)
  ultimately show ?thesis
    by (simp add: db_inv_def sample_db_name lock_inv_def mem_ok_def) (simp add: sample_world_def)
qed

lemma sample_view: "db_view sample_cfg ''ann'' sample_world ''ann'' = Some (db_line sample_entry)"
  using db_line_ok(2) [OF sample_entry_entry_ok]
  by (simp add: db_view_def sample_db_name user_map_def sample_lines db_lookup_def)

lemma sample_stored: "stored sample_cfg sample_session sample_world = Some (db_restore sample_entry sample_session)"
  by (simp add: stored_def sample_view entry_read_line [OF sample_entry_entry_ok])

lemma sample_usable: "\<exists>t1. usable sample_cfg sample_session sample_world (db_restore sample_entry sample_session) t1"
proof -
  let ?t = "db_restore sample_entry sample_session"
  have r: "counter_range ?t = 0xFFFFFFFF" by (simp add: counter_range_def salted_def nval_num_ii)
  obtain t1 where t1: "ppp_calculate ?t = Some t1" and c: "calculated ?t t1"
    using ppp_calculate_ok [of ?t] r by auto
  have e: "same_entry ?t t1" "same_mem ?t t1" using ppp_calculate_frame [OF t1] by simp_all
  have k: "unat (codes_on_card t1) = 70" "nval (max_code t1) = (0xFFFFFFFF div 70 - 1) * 70"
    using c by (simp_all add: calculated_def Let_def r per_row_def)
  have s: "salted t1" "counter t1 = num_ii 7 12" "code_mask t1 = num_i 0xFFFFFFFF"
    "flags t1 = 4" "alphabet t1 = 1" "code_length t1 = 4"
    using e by (simp_all add: salted_def same_entry_def same_mem_def)
  have n: "num_and (num_ii 7 12) (num_i 0xFFFFFFFF) = num_i 12" by (simp add: num_and_def num_ii_def)
  have "0 < codes_on_card t1" using k(1) by (metis unat_gt_0 word_gt_0 zero_less_numeral)
  then have "ppp_verify_range t1 = Some 0"
    by (simp add: ppp_verify_range_def s n num_cmp_val nval_num_ii k(2))
  moreover have A: "alphabet_of sample_cfg 1 = alphabet_simple" by (simp add: alphabet_of_def alphabets_def)
  have "salt sample_cfg = 1" "show_policy sample_cfg = 0" "alphabet_change sample_cfg = 1"
    "alphabet_min_length sample_cfg = 32" "alphabet_max_length sample_cfg = 88"
    "passcode_min_length sample_cfg = 2" "passcode_max_length sample_cfg = 16"
    by (simp_all add: sample_cfg_def config_defaults_def)
  then have "ppp_verify_flags sample_cfg (flags t1) = 0" "ppp_verify_alphabet sample_cfg (sint (alphabet t1)) = 0"
    "ppp_verify_code_length sample_cfg (sint (code_length t1)) = 0"
    by (simp_all add: ppp_verify_flags_def ppp_verify_alphabet_def ppp_alphabet_count_def A alphabet_simple_def
        ppp_verify_code_length_def s)
  ultimately have "ppp_state_verify sample_cfg t1 = Some 0" by (simp add: ppp_state_verify_def)
  then show ?thesis using t1 sample_has_db sample_inv sample_stored by (intro exI [of _ t1]) (simp add: usable_def)
qed

lemma sample_increment:
  "\<exists>s' w'. ppp_increment sample_cfg sample_session sample_world = Some (0, s', w') \<and> counter s' = num_ii 7 12"
  using ppp_increment_runs sample_usable by fastforce

subsection \<open>Increment\<close>

text \<open>
  C3: whatever calls fail, an increment keeps the database well formed and never touches the
  entry of another user; when it reports success the lock is released, the caller has the
  counter the database held, and the entry of the user is that entry with the counter one
  higher.
\<close>

theorem ppp_increment_refines:
  assumes "db_inv cfg s w" and "ppp_increment cfg s w = Some (r, s', w')"
  shows "db_inv cfg s' w' \<and> (\<forall>v. v \<noteq> username s \<longrightarrow> db_view cfg (username s) w' v = db_view cfg (username s) w v) \<and>
    (r = 0 \<longrightarrow> lock s' \<le> 0 \<and> (\<exists>t. stored cfg s w = Some t \<and> counter s' = counter t \<and>
       db_view cfg (username s) w' = (db_view cfg (username s) w)
         (username s \<mapsto> db_line (t\<lparr>counter := num_add (counter t) (num_i 1)\<rparr>))))"
  using ppp_increment_db [OF assms] by (auto simp: entry_updated_def next_counter_def)

theorem ppp_increment_refines_witness:
  "\<exists>s' w'. ppp_increment sample_cfg sample_session sample_world = Some (0, s', w') \<and> lock s' \<le> 0 \<and>
    db_view sample_cfg ''ann'' w' ''bob'' = db_view sample_cfg ''ann'' sample_world ''bob''"
proof -
  obtain s' w' where r: "ppp_increment sample_cfg sample_session sample_world = Some (0, s', w')"
    using sample_increment by blast
  from ppp_increment_refines [OF sample_inv r] show ?thesis using r by simp
qed

text \<open>
  C2: no passcode is used twice: the sessions of a user that follow each other and succeed are
  given consecutive counters, hence different ones, whatever else fails.
\<close>

theorem increments_consecutive:
  assumes "increments cfg ss w = Some (cs, w')"
    and "\<forall>s \<in> set ss. username s = u \<and> lock s \<le> 0 \<and> db_inv cfg s w"
  shows "(\<exists>c. map nval cs = [c ..< c + length cs]) \<and> distinct cs"
proof (cases cs)
  case (Cons c cs')
  then obtain s ss' where "ss = s # ss'" using assms(1) by (cases ss) auto
  then obtain s1 w1 where i: "ppp_increment cfg s w = Some (0, s1, w1)" and s: "username s = u" "db_inv cfg s w"
    using assms Cons by (auto simp: bind_eq_Some_conv split: if_splits)
  obtain l where l: "db_view cfg u w u = Some l" using increment_step [OF s(2) i] s(1) by auto
  have m: "map nval cs = [nval (line_counter l) ..< nval (line_counter l) + length cs]"
    by (rule increments_counters [OF assms(1) l]) (use assms(2) in blast)
  have "distinct (map nval cs)" by (subst m) simp
  then have "distinct cs" unfolding distinct_map by (rule conjunct1)
  with m show ?thesis by blast
qed simp

theorem increments_consecutive_witness:
  "\<exists>cs w'. increments sample_cfg [sample_session] sample_world = Some (cs, w') \<and> cs = [num_ii 7 12] \<and> distinct cs"
proof -
  obtain s' w' where r: "ppp_increment sample_cfg sample_session sample_world = Some (0, s', w')" "counter s' = num_ii 7 12"
    using sample_increment by blast
  then have i: "increments sample_cfg [sample_session] sample_world = Some ([num_ii 7 12], w')" by simp
  from increments_consecutive [OF i, of "''ann''"] show ?thesis using i sample_inv by simp
qed



subsection \<open>Skip\<close>

definition skip_change :: "num_t \<Rightarrow> state \<Rightarrow> state" where
  "skip_change k s = s\<lparr>counter := ppp_add_salt (s\<lparr>counter := k\<rparr>) k\<rparr>"

interpretation skip: entry_change "skip_change k" for k
proof (unfold_locales, goal_cases)
  case (4 t s)
  then show ?case
    by (intro same_entry_line) (simp add: same_row_def same_entry_def skip_change_def ppp_add_salt_def salted_def)
qed (auto simp: skip_change_def entry_ok_def elim: db_inv_frame [rotated 4])

lemma ppp_skip_db:
  assumes inv: "db_inv cfg s w" and sk: "ppp_skip cfg s k w = Some (0, s', w')"
  shows "db_inv cfg s' w' \<and> lock s' \<le> 0 \<and> entry_updated cfg s w (skip_change k) w' \<and>
    (\<exists>t s1. ppp_calculate t = Some s1 \<and> num_cmp k (max_code s1) < 0 \<and> flags s1 = flags t \<and>
       code_mask s1 = code_mask s \<and> salt_mask s1 = salt_mask s \<and> (\<exists>e. stored cfg s w = Some e \<and> same_row e s1))"
proof -
  obtain r1 s1 w1 where ld: "ppp_state_load cfg s 0 w = Some (r1, s1, w1)"
    using sk by (auto simp: ppp_skip_def bind_eq_Some_conv)
  have r1: "r1 = 0" using sk by (auto simp: ppp_skip_def ld split: if_splits)
  note a = ppp_state_load_db [OF inv ld]
  obtain v where v: "ppp_state_verify cfg s1 = Some v" using sk r1 by (auto simp: ppp_skip_def ld bind_eq_Some_conv)
  have ok: "v = 0 \<and> \<not> ppp_flag_check s1 FLAG_DISABLED \<and> num_cmp k (max_code s1) < 0"
    using sk r1 by (auto simp: ppp_skip_def ld v Let_def bind_eq_Some_conv split: if_splits)
  have rel: "ppp_state_release cfg (skip_change k s1) (PPP_STORE OR PPP_UNLOCK) w1 = Some (0, s', w')"
    using sk r1 ok by (simp add: ppp_skip_def ld v Let_def skip_change_def not_le)
  note b = skip.load_release [OF inv ld [unfolded r1] rel]
  obtain t where t: "ppp_calculate t = Some s1" using a r1 by blast
  have "flags s1 = flags t" using ppp_calculate_frame [OF t] by (simp add: same_entry_def)
  then have "\<exists>t s1. ppp_calculate t = Some s1 \<and> num_cmp k (max_code s1) < 0 \<and> flags s1 = flags t \<and>
       code_mask s1 = code_mask s \<and> salt_mask s1 = salt_mask s \<and> (\<exists>e. stored cfg s w = Some e \<and> same_row e s1)"
    using t ok a r1 by (intro exI [of _ t] exI [of _ s1]) auto
  then show ?thesis using b by auto
qed

text \<open>A number below \<open>2 ^ 32\<close> has no salt.\<close>

lemma small_masks:
  assumes "nval k < 2 ^ 32"
  shows "num_and k (num_i 0xFFFFFFFF) = k" "num_and k (num_ii 0xFFFFFFFFFFFFFFFF 0xFFFFFFFF00000000) = num_zero"
proof -
  have h: "hi k = 0" using assms by (cases "hi k = 0") (auto simp: nval_def unat_gt_0 [symmetric])
  then have "unat (lo k) < 2 ^ 32" using assms by (simp add: nval_def)
  then have l: "take_bit 32 (lo k) = lo k" by (simp add: word_unat_eq_iff unsigned_take_bit_eq take_bit_nat_eq_self)
  have m: "(0xFFFFFFFF :: u64) = mask 32" "(0xFFFFFFFF00000000 :: u64) = NOT (mask 32)" by (simp_all add: mask_eq_exp_minus_1)
  have "lo k AND 0xFFFFFFFF = lo k" unfolding m by (simp add: take_bit_eq_mask [symmetric] l)
  moreover have "lo k AND 0xFFFFFFFF00000000 = 0"
    by (subst l [symmetric]) (simp only: m take_bit_eq_mask and.assoc, simp)
  ultimately show "num_and k (num_i 0xFFFFFFFF) = k" "num_and k (num_ii 0xFFFFFFFFFFFFFFFF 0xFFFFFFFF00000000) = num_zero"
    using h by (simp_all add: num_and_def num_ii_def)
qed

lemma calculated_max_code:
  assumes "ppp_calculate t = Some s" and "num_cmp k (max_code s) < 0" and "110 \<le> counter_range t"
  shows "nval k < counter_range t"
proof -
  have "2 \<le> code_length t \<and> code_length t \<le> 16" using assms(1) by (auto simp: ppp_calculate_def bind_eq_Some_conv)
  then obtain s2 where "ppp_calculate t = Some s2" "calculated t s2" using ppp_calculate_ok assms(3) by blast
  then have "nval (max_code s) \<le> counter_range t div unat (codes_on_card s) * unat (codes_on_card s)"
    using assms(1) by (simp add: calculated_def Let_def)
  also have "\<dots> \<le> counter_range t" by simp
  finally show ?thesis using assms(2) by (simp add: num_cmp_val split: if_splits)
qed

text \<open>
  C13: a successful skip stores exactly the number the caller gave as the new counter.  The code
  takes the salt from the counter after it has overwritten it, so for a salted key the salt is
  lost: the stored counter has no bit of the salt mask.
\<close>

theorem ppp_skip_loses_salt:
  assumes "db_inv cfg s w" and "ppp_skip cfg s k w = Some (0, s', w')"
    and m: "salt_mask s = num_ii 0xFFFFFFFFFFFFFFFF 0xFFFFFFFF00000000" "code_mask s = num_i 0xFFFFFFFF"
  shows "\<exists>t. stored cfg s w = Some t \<and>
    db_view cfg (username s) w' = (db_view cfg (username s) w)(username s \<mapsto> db_line (t\<lparr>counter := k\<rparr>)) \<and>
    (salted t \<longrightarrow> num_and k (salt_mask s) = num_zero)"
proof -
  note a = ppp_skip_db [OF assms(1,2)]
  then obtain t0 s1 where c: "ppp_calculate t0 = Some s1" "num_cmp k (max_code s1) < 0"
      "flags s1 = flags t0" "code_mask s1 = code_mask s" "salt_mask s1 = salt_mask s"
      "\<exists>e. stored cfg s w = Some e \<and> same_row e s1" by blast
  obtain t where t: "stored cfg s w = Some t" "same_row t s1"
    and v: "db_view cfg (username s) w' = (db_view cfg (username s) w)(username s \<mapsto> db_line (skip_change k t))"
    using a c(6) by (auto simp: entry_updated_def)
  have f: "flags t = flags s1" "code_mask t = code_mask s" "salt_mask t = salt_mask s"
    using t(2) c by (simp_all add: same_row_def same_entry_def)
  have small: "nval k < 2 ^ 32" if "salted t"
  proof -
    have "code_mask t0 = code_mask s1" using ppp_calculate_frame [OF c(1)] by (simp add: same_mem_def)
    then have "counter_range t0 = 0xFFFFFFFF"
      using that f c m by (simp add: counter_range_def salted_def nval_num_ii)
    then show ?thesis using calculated_max_code [OF c(1,2)] by simp
  qed
  have "skip_change k t = t\<lparr>counter := k\<rparr>"
  proof (cases "salted t")
    case True
    have "num_add k num_zero = k" by (rule num_eqI) (use nval_less [of k] in \<open>simp add: nval_add nval_num_ii\<close>)
    with True show ?thesis
      using small_masks [OF small [OF True]] by (simp add: skip_change_def ppp_add_salt_def salted_def f m)
  qed (simp add: skip_change_def ppp_add_salt_def salted_def)
  then show ?thesis using t(1) v small_masks(2) [OF small] m by auto
qed

lemma ppp_skip_runs:
  assumes us: "usable cfg s w t t1" and fl: "flags t AND FLAG_DISABLED = 0" and k: "num_cmp k (max_code t1) < 0"
  shows "\<exists>s' w'. ppp_skip cfg s k w = Some (0, s', w')"
proof -
  let ?t = "t1\<lparr>lock := w_fd w\<rparr>"
  obtain w1 where ld: "ppp_state_load cfg s 0 w = Some (0, ?t, w1)" and db1: "has_db cfg (username s) w1"
    and m: "db_inv cfg ?t w1" "0 < w_fd w" "entry_ok ?t" "username t1 = username s" "new_key t1 = 0" "same_entry t t1"
    using usable_load [OF us] by blast
  have ok: "ppp_state_verify cfg ?t = Some 0" using us by (simp add: usable_def)
  have fl1: "\<not> ppp_flag_check ?t FLAG_DISABLED" using m(6) fl by (simp add: ppp_flag_check_def same_entry_def)
  obtain w3 where rel: "ppp_state_release cfg (skip_change k ?t) (PPP_STORE OR PPP_UNLOCK) w1 =
      Some (0, (skip_change k ?t)\<lparr>new_key := 0, lock := -1\<rparr>, w3)"
    using skip.release_runs [OF db1 m(1)] m by auto
  have "\<exists>s' w'. ppp_state_release cfg (skip_change k ?t) (PPP_STORE OR PPP_UNLOCK) w1 = Some (0, s', w')"
    using rel by blast
  then show ?thesis using ok fl1 k by (simp add: ppp_skip_def ld Let_def skip_change_def not_le)
qed

theorem ppp_skip_loses_salt_witness:
  "\<exists>s' w' t. ppp_skip sample_cfg sample_session (num_i 40) sample_world = Some (0, s', w') \<and>
    stored sample_cfg sample_session sample_world = Some t \<and> salted t \<and> counter t = num_ii 7 12 \<and>
    db_view sample_cfg ''ann'' w' ''ann'' = Some (db_line (t\<lparr>counter := num_i 40\<rparr>))"
proof -
  let ?t = "db_restore sample_entry sample_session"
  obtain t1 where us: "usable sample_cfg sample_session sample_world ?t t1" using sample_usable by blast
  then have c: "ppp_calculate ?t = Some t1" by (simp add: usable_def)
  have "counter_range ?t = 0xFFFFFFFF" by (simp add: counter_range_def salted_def nval_num_ii)
  then have "nval (max_code t1) = (0xFFFFFFFF div 70 - 1) * 70"
    using ppp_calculate_ok [of ?t] c by (simp add: calculated_def Let_def per_row_def)
  then have k: "num_cmp (num_i 40) (max_code t1) < 0" by (simp add: num_cmp_val nval_num_ii)
  obtain s' w' where r: "ppp_skip sample_cfg sample_session (num_i 40) sample_world = Some (0, s', w')"
    using ppp_skip_runs [OF us _ k] by auto
  from ppp_skip_loses_salt [OF sample_inv r] show ?thesis using r by (simp add: sample_stored salted_def)
qed

subsection \<open>Failures and out-of-band time\<close>



interpretation oob_time: entry_change "\<lambda>t. t\<lparr>channel_time := now\<rparr>" for now
proof (unfold_locales, goal_cases)
  case (4 t s)
  then show ?case by (intro same_entry_line) (simp add: same_row_def same_entry_def)
qed (auto simp: entry_ok_def elim: db_inv_frame [rotated 4])

context entry_change
begin

lemma update_user:
  assumes "ppp_update cfg u mem f w = Some (r, w')" and "db_free cfg u w" and "length (spass mem) = 40"
  shows "(\<forall>v. v \<noteq> u \<longrightarrow> db_view cfg u w' v = db_view cfg u w v) \<and>
    (r = 0 \<longrightarrow> db_free cfg u w' \<and> (\<exists>s0 t. state_init (Some cfg) u mem = Some (0, s0) \<and> stored cfg s0 w = Some t \<and>
        db_view cfg u w' u = Some (db_line (f t))))"
proof -
  note c = update [OF assms]
  have e: "\<exists>t. stored cfg s0 w = Some t \<and> db_view cfg u w' = (db_view cfg u w)(u \<mapsto> db_line (f t))"
    if "state_init (Some cfg) u mem = Some (0, s0)" "entry_updated cfg s0 w f w'" for s0
    using that(2) state_init_mem [OF that(1)] by (simp add: entry_updated_def)
  have "\<forall>v. v \<noteq> u \<longrightarrow> db_view cfg u w' v = db_view cfg u w v" using c e by fastforce
  moreover have "\<exists>s0 t. state_init (Some cfg) u mem = Some (0, s0) \<and> stored cfg s0 w = Some t \<and>
      db_view cfg u w' u = Some (db_line (f t))" if r: "r = 0"
  proof -
    obtain s0 where s0: "state_init (Some cfg) u mem = Some (0, s0)" "entry_updated cfg s0 w f w'" using c r by blast
    then show ?thesis using e [OF s0] by auto
  qed
  ultimately show ?thesis using c by blast
qed

lemma update_runs:
  assumes si: "state_init (Some cfg) u mem = Some (0, s)" and us: "usable cfg s w t t1" and q: "w_faults w = []"
  shows "\<exists>w'. ppp_update cfg u mem f w = Some (0, w')"
proof -
  let ?t = "t1\<lparr>lock := w_fd w\<rparr>"
  have i: "ppp_state_init (Some cfg) u mem w = Some (0, Some s, w)" by (simp add: ppp_state_init_def si q)
  obtain w1 where ld: "ppp_state_load cfg s 0 w = Some (0, ?t, w1)" and db1: "has_db cfg (username s) w1"
    and m: "db_inv cfg ?t w1" "0 < w_fd w" "entry_ok ?t" "username t1 = username s" "new_key t1 = 0"
    using usable_load [OF us] by blast
  obtain w3 where "ppp_state_release cfg (f ?t) (PPP_STORE OR PPP_UNLOCK) w1 = Some (0, (f ?t)\<lparr>new_key := 0, lock := -1\<rparr>, w3)"
    using release_runs [OF db1 m(1)] m by auto
  then show ?thesis
    by (simp add: ppp_update_def i ld or.commute ppp_state_fini_def state_fini_def)
qed

end



text \<open>
  Recording the out-of-band time stores the clock in the entry of the user and changes
  nothing else of the database; after success no lock is left.
\<close>

theorem ppp_oob_time_refines:
  assumes "ppp_oob_time cfg s mem w = Some (r, w')" and "db_free cfg (username s) w" and "length (spass mem) = 40"
  shows "(\<forall>v. v \<noteq> username s \<longrightarrow> db_view cfg (username s) w' v = db_view cfg (username s) w v) \<and>
    (r = 0 \<longrightarrow> db_free cfg (username s) w' \<and>
      (\<exists>s0 t. state_init (Some cfg) (username s) mem = Some (0, s0) \<and> stored cfg s0 w = Some t \<and>
        db_view cfg (username s) w' (username s) = Some (db_line (t\<lparr>channel_time := w_now w\<rparr>))))"
  using oob_time.update_user [OF assms(1) [unfolded ppp_oob_time_def] assms(2,3)] by simp

theorem ppp_oob_time_refines_witness:
  "\<exists>w'. ppp_oob_time sample_cfg sample_session state_zero sample_world = Some (0, w') \<and> db_free sample_cfg ''ann'' w'"
proof -
  obtain t1 where us: "usable sample_cfg sample_session sample_world (db_restore sample_entry sample_session) t1"
    using sample_usable by blast
  have q: "w_faults sample_world = []" by (simp add: sample_world_def)
  obtain w' where r: "ppp_oob_time sample_cfg sample_session state_zero sample_world = Some (0, w')"
    using oob_time.update_runs [OF sample_init us q] by (auto simp: ppp_oob_time_def)
  have "db_free sample_cfg ''ann'' sample_world" using db_inv_free [OF sample_inv] by simp
  then show ?thesis using r ppp_oob_time_refines [OF r] by (simp add: state_zero_def)
qed

end
