(* ===== verification/Pam_Safe.thy ===== *)
theory Pam_Safe
  imports Pam Ppp_Safe
begin

text \<open>
  What the PAM module guarantees: it lets a user in only for the passcode of a counter that an
  increment of the same user has just taken out of the database, and which requests it fails
  to answer.
\<close>

subsection \<open>The user of a session does not change\<close>












subsection \<open>Prompt and authentication\<close>


lemma authenticate_prompt: "ppp_authenticate cfg (s\<lparr>prompt := x\<rparr>) p = ppp_authenticate cfg s p"
  by (cases p) (simp_all add: ppp_authenticate_def ppp_state_verify_def ppp_verify_range_def ppp_get_passcode_def
      ppp_flag_check_def ppp_add_salt_def salted_def)


subsection \<open>The loop\<close>











subsection \<open>Who is let in\<close>








subsection \<open>A login that succeeds\<close>

lemma increment_authenticates:
  assumes us: "usable cfg s w t t1" and fl: "flags t AND FLAG_DISABLED = 0" and ok: "cfg_ok cfg"
  shows "\<exists>w'. ppp_increment cfg s w = Some (0, t1\<lparr>new_key := 0, lock := -1\<rparr>, w') \<and> w_faults w' = [] \<and>
    (\<forall>x. ppp_authenticate cfg (t1\<lparr>new_key := 0, lock := -1, prompt := x\<rparr>) (Some (passcode_of cfg t1 (counter t1))) = Some 0) \<and>
    length (passcode_of cfg t1 (counter t1)) = unat (code_length t1)"
proof -
  let ?s = "t1\<lparr>new_key := 0, lock := -1\<rparr>"
  have "same_entry t t1" using us ppp_calculate_frame by (auto simp: usable_def)
  then have f: "flags t1 AND FLAG_DISABLED = 0" using fl by (simp add: same_entry_def)
  have v: "ppp_state_verify cfg t1 = Some 0" using us by (simp add: usable_def)
  note q = ppp_state_verify_parts [OF v]
  have p: "ppp_get_passcode cfg t1 (counter t1) [] = Some (0, passcode_of cfg t1 (counter t1))"
    using q verify_code_length_bounds [of cfg "code_length t1"] ok by (intro ppp_get_passcode_digits) auto
  have "ppp_authenticate cfg t1 (Some (passcode_of cfg t1 (counter t1))) = Some 0"
    using f v p by (simp add: ppp_authenticate_def ppp_flag_check_def)
  moreover have "ppp_authenticate cfg ?s q = ppp_authenticate cfg t1 q" for q
    by (cases q) (simp_all add: ppp_authenticate_def ppp_state_verify_def ppp_verify_range_def ppp_get_passcode_def
        ppp_flag_check_def ppp_add_salt_def salted_def)
  ultimately have "ppp_authenticate cfg (?s\<lparr>prompt := x\<rparr>) (Some (passcode_of cfg t1 (counter t1))) = Some 0" for x
    by (subst authenticate_prompt) simp
  then show ?thesis using ppp_increment_runs [OF us fl] by (auto simp: passcode_of_def Let_def)
qed

definition sample_pam_env :: pam_env where
  "sample_pam_env = \<lparr>e_child = \<lambda>_. Child_done, e_mem = state_zero\<rparr>"

definition sample_pam_io :: pam_io where
  "sample_pam_io = \<lparr>io_queries = [], io_shown = [], io_oob = []\<rparr>"


lemma print_2d_length: "1 \<le> unat n \<Longrightarrow> unat n \<le> 10 \<Longrightarrow> length (print_2d n) = 2"
proof -
  assume "1 \<le> unat n" "unat n \<le> 10"
  then have "unat n \<in> {1, 2, 3, 4, 5, 6, 7, 8, 9, 10}" unfolding insert_iff empty_iff by presburger
  then show ?thesis by (auto simp: print_2d_def nat_str.simps)
qed

lemma calculated_row:
  assumes "ppp_calculate t = Some s" and "110 \<le> counter_range t"
  shows "1 \<le> unat (current_row s) \<and> unat (current_row s) \<le> 10"
proof -
  have c: "2 \<le> code_length t" "code_length t \<le> 16" using assms(1) by (auto simp: ppp_calculate_def bind_eq_Some_conv)
  have "calculated t s" using ppp_calculate_ok [OF c assms(2)] assms(1) by simp
  moreover have "0 < per_row (unat (code_length t))"
    using per_row_bounds [of "unat (code_length t)"] c by (simp add: word_le_nat_alt)
  ultimately show ?thesis using place_bounds(1) by (simp add: calculated_def Let_def Suc_le_eq)
qed

lemma sample_reserve:
  "\<exists>x s' w' p. auth_reserve sample_cfg (auth_start 0) sample_session sample_pam_io sample_world =
     Some (0, (auth_start 0)\<lparr>l_first_try := False, l_prompt := x\<rparr>, s', sample_pam_io, w') \<and> lock s' = -1 \<and>
     ppp_authenticate sample_cfg s' (Some p) = Some 0 \<and> p \<noteq> ''.''"
proof -
  obtain t1 where us: "usable sample_cfg sample_session sample_world (db_restore sample_entry sample_session) t1"
    using sample_usable by blast
  have e: "same_entry (db_restore sample_entry sample_session) t1" "codes_on_card t1 > 0"
    using us ppp_calculate_frame [of _ t1] ppp_state_verify_parts [of sample_cfg t1]
    by (auto simp: usable_def ppp_verify_range_def bind_eq_Some_conv)
  then have l: "code_length t1 = 4" by (simp add: same_entry_def)
  have fl: "flags (db_restore sample_entry sample_session) AND FLAG_DISABLED = 0" by simp
  let ?p = "passcode_of sample_cfg t1 (counter t1)"
  let ?s = "t1\<lparr>new_key := 0, lock := -1\<rparr>"
  obtain w' where i: "ppp_increment sample_cfg sample_session sample_world = Some (0, ?s, w')" and q: "w_faults w' = []"
    and a: "\<And>x. ppp_authenticate sample_cfg (t1\<lparr>new_key := 0, lock := -1, prompt := x\<rparr>) (Some ?p) = Some 0"
    and n: "length ?p = 4"
    using increment_authenticates [OF us fl sample_cfg_ok] l by auto
  have dot: "?p \<noteq> ''.''" using n by auto
  have "counter_range (db_restore sample_entry sample_session) = 0xFFFFFFFF"
    by (simp add: counter_range_def salted_def nval_num_ii)
  then have row: "length (print_2d (current_row t1)) = 2"
    using us calculated_row [of "db_restore sample_entry sample_session" t1] print_2d_length by (simp add: usable_def)
  obtain x where g: "ppp_get_str ?s PPP_FIELD_PROMPT w' = Some (0, Some x, ?s\<lparr>prompt := Some x\<rparr>, w')"
  proof -
    obtain num where "num_export (current_card t1) NUM_FORMAT_DEC = Some num" using num_export_total by blast
    then show ?thesis using that q e(2)
      by (simp add: ppp_get_str_def ppp_get_prompt_def ppp_prompt_text_def row)
  qed
  have "auth_reserve sample_cfg (auth_start 0) sample_session sample_pam_io sample_world =
      Some (0, (auth_start 0)\<lparr>l_first_try := False, l_prompt := Some x\<rparr>, ?s\<lparr>prompt := Some x\<rparr>, sample_pam_io, w')"
    by (simp add: auth_reserve_def auth_start_def ph_increment_def i g)
  then show ?thesis using a dot by (intro exI [of _ "Some x"] exI [of _ "?s\<lparr>prompt := Some x\<rparr>"] exI [of _ w'] exI [of _ ?p]) simp
qed





subsection \<open>The limit on guesses\<close>













subsection \<open>A request that stops the module\<close>

text \<open>
  C31: in a configuration without out-of-band delivery (the default) or with delivery at every
  login, a user who answers the prompt with a dot makes the module run into its failing
  assertion: the process that loaded it is aborted, no code is returned.
\<close>

theorem pam_dot_aborts:
  assumes "auth_reserve cfg l s io w = Some (0, l', s', io', w')" and "\<not> l_oob_sent l'"
    and "pam_oob cfg \<in> {OOB_DISABLED, OOB_ALWAYS}"
  shows "auth_step cfg env l (Some (Some ''.'') # as) s io w = None"
  using assms by (auto simp: auth_step_def auth_answer_def auth_dot_def bind_eq_None_conv)


theorem pam_dot_aborts_witness:
  "auth_step sample_cfg sample_pam_env (auth_start 0) [Some (Some ''.'')] sample_session sample_pam_io sample_world = None"
proof -
  obtain x s' w' where r: "auth_reserve sample_cfg (auth_start 0) sample_session sample_pam_io sample_world =
      Some (0, (auth_start 0)\<lparr>l_first_try := False, l_prompt := x\<rparr>, s', sample_pam_io, w')" using sample_reserve by blast
  show ?thesis by (rule pam_dot_aborts [OF r]) (simp_all add: auth_start_def sample_cfg_def config_defaults_def)
qed

end
