(* ===== verification/Agent_Hdr.thy ===== *)
theory Agent_Hdr
  imports Ppp_Access
begin

text \<open>
  The protocol layer of the agent, \<open>src/src/agent/agent_private.c\<close> and \<open>agent_private.h\<close>: the
  header that carries a request or a reply, its setters and getters, and reading and writing
  it through a pipe.  The pipe delivers its bytes in pieces of any size; \<open>agent_read\<close> keeps
  what it has read too much in a buffer.
\<close>

abbreviation (input) AGENT_OK :: int where "AGENT_OK \<equiv> 0"
abbreviation (input) AGENT_ERR :: int where "AGENT_ERR \<equiv> 5000"
abbreviation (input) AGENT_ERR_REQ :: int where "AGENT_ERR_REQ \<equiv> 5001"
abbreviation (input) AGENT_ERR_REQ_ARG :: int where "AGENT_ERR_REQ_ARG \<equiv> 5002"
abbreviation (input) AGENT_ERR_INIT_USER :: int where "AGENT_ERR_INIT_USER \<equiv> 5005"
abbreviation (input) AGENT_ERR_PROTOCOL_MISMATCH :: int where "AGENT_ERR_PROTOCOL_MISMATCH \<equiv> 5010"
abbreviation (input) AGENT_ERR_DISCONNECT :: int where "AGENT_ERR_DISCONNECT \<equiv> 5011"
abbreviation (input) AGENT_ERR_POLICY :: int where "AGENT_ERR_POLICY \<equiv> 5012"
abbreviation (input) AGENT_ERR_POLICY_REGENERATION :: int where "AGENT_ERR_POLICY_REGENERATION \<equiv> 5013"
abbreviation (input) AGENT_ERR_POLICY_GENERATION :: int where "AGENT_ERR_POLICY_GENERATION \<equiv> 5014"
abbreviation (input) AGENT_ERR_POLICY_DISABLED :: int where "AGENT_ERR_POLICY_DISABLED \<equiv> 5015"
abbreviation (input) AGENT_ERR_POLICY_SALT :: int where "AGENT_ERR_POLICY_SALT \<equiv> 5016"
abbreviation (input) AGENT_ERR_POLICY_SHOW :: int where "AGENT_ERR_POLICY_SHOW \<equiv> 5017"
abbreviation (input) AGENT_ERR_MUST_CREATE_STATE :: int where "AGENT_ERR_MUST_CREATE_STATE \<equiv> 5018"
abbreviation (input) AGENT_ERR_MUST_DROP_STATE :: int where "AGENT_ERR_MUST_DROP_STATE \<equiv> 5019"
abbreviation (input) AGENT_ERR_NO_STATE :: int where "AGENT_ERR_NO_STATE \<equiv> 5020"

abbreviation (input) AGENT_PROTOCOL_VERSION :: u32 where "AGENT_PROTOCOL_VERSION \<equiv> 0xDEAD0000"
abbreviation (input) AGENT_ARG_MAX :: nat where "AGENT_ARG_MAX \<equiv> 255"

text \<open>\<open>h_str\<close> is the whole array of 255 characters, NUL included.\<close>

record agent_header =
  h_version :: u32
  h_type :: u32
  h_status :: u32
  h_int :: u32
  h_int2 :: u32
  h_num :: num_t
  h_str :: string

definition header_ok :: "agent_header \<Rightarrow> bool" where
  "header_ok h \<longleftrightarrow> length (h_str h) = AGENT_ARG_MAX"

record agent =
  a_shdr :: agent_header
  a_rhdr :: agent_header
  a_username :: string
  new_state :: int
  a_s :: "state option"
  a_sent :: "agent_header list"

subsection \<open>Setters and getters\<close>

definition agent_hdr_init :: "agent \<Rightarrow> int \<Rightarrow> agent" where
  "agent_hdr_init a status =
     a\<lparr>a_shdr := (a_shdr a)\<lparr>h_version := AGENT_PROTOCOL_VERSION, h_status := word_of_int status,
                 h_int := 0, h_int2 := 0, h_num := num_i 0, h_str := replicate AGENT_ARG_MAX (CHR 0x00)\<rparr>\<rparr>"

definition agent_hdr_sanitize :: "agent \<Rightarrow> agent" where
  "agent_hdr_sanitize a = agent_hdr_init a 0"

definition agent_hdr_set_num :: "agent \<Rightarrow> num_t \<Rightarrow> agent" where
  "agent_hdr_set_num a n = a\<lparr>a_shdr := (a_shdr a)\<lparr>h_num := n\<rparr>\<rparr>"

definition agent_hdr_set_int :: "agent \<Rightarrow> u32 \<Rightarrow> u32 \<Rightarrow> agent" where
  "agent_hdr_set_int a i j = a\<lparr>a_shdr := (a_shdr a)\<lparr>h_int := i, h_int2 := j\<rparr>\<rparr>"

text \<open>\<open>strncpy\<close> to 254 characters pads with NUL and leaves the last character as it is.\<close>

definition agent_hdr_set_str :: "agent \<Rightarrow> string option \<Rightarrow> agent option" where
  "agent_hdr_set_str a str_arg =
     (case str_arg of
        None \<Rightarrow> Some (a\<lparr>a_shdr := (a_shdr a)\<lparr>h_str := replicate AGENT_ARG_MAX (CHR 0x00)\<rparr>\<rparr>)
      | Some s \<Rightarrow>
          do { assert_that (length s < AGENT_ARG_MAX);
               Some (a\<lparr>a_shdr := (a_shdr a)\<lparr>h_str :=
                 s @ replicate (AGENT_ARG_MAX - 1 - length s) (CHR 0x00) @
                 drop (AGENT_ARG_MAX - 1) (h_str (a_shdr a))\<rparr>\<rparr>) })"

definition agent_hdr_set_bin_str :: "agent \<Rightarrow> string option \<Rightarrow> nat \<Rightarrow> agent option" where
  "agent_hdr_set_bin_str a str_arg len =
     (case str_arg of
        None \<Rightarrow> Some (a\<lparr>a_shdr := (a_shdr a)\<lparr>h_str := replicate AGENT_ARG_MAX (CHR 0x00)\<rparr>\<rparr>)
      | Some s \<Rightarrow>
          do { assert_that (len < AGENT_ARG_MAX);
               Some (a\<lparr>a_shdr := (a_shdr a)\<lparr>h_str := take len s @ drop len (h_str (a_shdr a))\<rparr>\<rparr>) })"

definition agent_hdr_set_status :: "agent \<Rightarrow> int \<Rightarrow> agent" where
  "agent_hdr_set_status a status = a\<lparr>a_shdr := (a_shdr a)\<lparr>h_status := word_of_int status\<rparr>\<rparr>"

definition agent_hdr_set_type :: "agent \<Rightarrow> int \<Rightarrow> agent" where
  "agent_hdr_set_type a t = a\<lparr>a_shdr := (a_shdr a)\<lparr>h_type := word_of_int t\<rparr>\<rparr>"

definition agent_hdr_get_type :: "agent \<Rightarrow> int" where
  "agent_hdr_get_type a = sint (h_type (a_rhdr a))"

definition agent_hdr_get_status :: "agent \<Rightarrow> int" where
  "agent_hdr_get_status a = sint (h_type (a_rhdr a))"

definition agent_hdr_get_arg_int :: "agent \<Rightarrow> int" where
  "agent_hdr_get_arg_int a = sint (h_int (a_rhdr a))"

definition agent_hdr_get_arg_int2 :: "agent \<Rightarrow> int" where
  "agent_hdr_get_arg_int2 a = sint (h_int2 (a_rhdr a))"

definition agent_hdr_get_arg_num :: "agent \<Rightarrow> num_t" where
  "agent_hdr_get_arg_num a = h_num (a_rhdr a)"

text \<open>
  The string argument as a C string.  Nothing checks that the client has terminated it; reading
  an unterminated argument runs past the array, which is \<open>None\<close> here.
\<close>

definition agent_hdr_get_arg_str :: "agent \<Rightarrow> string option" where
  "agent_hdr_get_arg_str a =
     (if CHR 0x00 \<in> set (h_str (a_rhdr a)) then Some (c_str (h_str (a_rhdr a))) else None)"

subsection \<open>Pipes\<close>

text \<open>The bytes of a header in the order they are written.\<close>

definition header_bytes :: "agent_header \<Rightarrow> bytes" where
  "header_bytes h =
     le_bytes 4 (ucast (h_version h)) @ le_bytes 4 (ucast (h_type h)) @ le_bytes 4 (ucast (h_status h)) @
     le_bytes 4 (ucast (h_int h)) @ le_bytes 4 (ucast (h_int2 h)) @ num_to_bin (h_num h) @
     map (\<lambda>c. of_nat (code c)) (h_str h)"

text \<open>
  \<open>agent_hdr_send\<close> refuses to talk while the state is locked.  A pipe whose other end is closed
  makes the write fail.
\<close>

definition agent_hdr_send :: "agent \<Rightarrow> world \<Rightarrow> int \<times> agent \<times> world" where
  "agent_hdr_send a w =
     (if (case a_s a of None \<Rightarrow> False | Some s \<Rightarrow> ppp_is_locked s) then (AGENT_ERR, a, w)
      else let (bad, w) = fault w
           in if bad then (AGENT_ERR_DISCONNECT, a, w)
              else (AGENT_OK, a\<lparr>a_sent := a_sent a @ [a_shdr a]\<rparr>, w))"

text \<open>
  What \<open>read\<close> still has to give is a list of nonempty pieces of at most 300 bytes; \<open>buffered\<close> is
  the part of the last piece that has not been used.  The result is the data, or \<open>None\<close> when
  the other end has gone.
\<close>

record pipe =
  buffered :: bytes
  pieces :: "bytes list"

fun agent_read_pieces :: "nat \<Rightarrow> bytes \<Rightarrow> bytes \<Rightarrow> bytes list \<Rightarrow> bytes option \<times> pipe" where
  "agent_read_pieces len acc buf ps =
     (if len \<le> length buf
      then (Some (acc @ take len buf), \<lparr>buffered = drop len buf, pieces = ps\<rparr>)
      else case ps of
             [] \<Rightarrow> (None, \<lparr>buffered = [], pieces = []\<rparr>)
           | p # ps \<Rightarrow> if p = [] then (None, \<lparr>buffered = [], pieces = ps\<rparr>)
                      else agent_read_pieces (len - length buf) (acc @ buf) p ps)"

declare agent_read_pieces.simps [simp del]

definition agent_read :: "nat \<Rightarrow> pipe \<Rightarrow> bytes option \<times> pipe" where
  "agent_read len p = agent_read_pieces len [] (buffered p) (pieces p)"

definition word32_of :: "bytes \<Rightarrow> u32" where
  "word32_of b = of_nat (le_val b)"

definition agent_hdr_recv :: "agent \<Rightarrow> pipe \<Rightarrow> int \<times> agent \<times> pipe" where
  "agent_hdr_recv a p =
     (if (case a_s a of None \<Rightarrow> False | Some s \<Rightarrow> ppp_is_locked s) then (AGENT_ERR, a, p)
      else case agent_read 4 p of (None, p) \<Rightarrow> (AGENT_ERR_DISCONNECT, a, p) | (Some v, p) \<Rightarrow>
           let a = a\<lparr>a_rhdr := (a_rhdr a)\<lparr>h_version := word32_of v\<rparr>\<rparr> in
           case agent_read 4 p of (None, p) \<Rightarrow> (AGENT_ERR_DISCONNECT, a, p) | (Some v, p) \<Rightarrow>
           let a = a\<lparr>a_rhdr := (a_rhdr a)\<lparr>h_type := word32_of v\<rparr>\<rparr> in
           case agent_read 4 p of (None, p) \<Rightarrow> (AGENT_ERR_DISCONNECT, a, p) | (Some v, p) \<Rightarrow>
           let a = a\<lparr>a_rhdr := (a_rhdr a)\<lparr>h_status := word32_of v\<rparr>\<rparr> in
           case agent_read 4 p of (None, p) \<Rightarrow> (AGENT_ERR_DISCONNECT, a, p) | (Some v, p) \<Rightarrow>
           let a = a\<lparr>a_rhdr := (a_rhdr a)\<lparr>h_int := word32_of v\<rparr>\<rparr> in
           case agent_read 4 p of (None, p) \<Rightarrow> (AGENT_ERR_DISCONNECT, a, p) | (Some v, p) \<Rightarrow>
           let a = a\<lparr>a_rhdr := (a_rhdr a)\<lparr>h_int2 := word32_of v\<rparr>\<rparr> in
           case agent_read 16 p of (None, p) \<Rightarrow> (AGENT_ERR_DISCONNECT, a, p) | (Some v, p) \<Rightarrow>
           let a = a\<lparr>a_rhdr := (a_rhdr a)\<lparr>h_num := num_of_bin v\<rparr>\<rparr> in
           case agent_read AGENT_ARG_MAX p of (None, p) \<Rightarrow> (AGENT_ERR_DISCONNECT, a, p) | (Some v, p) \<Rightarrow>
           let a = a\<lparr>a_rhdr := (a_rhdr a)\<lparr>h_str := map (\<lambda>b. char_of (unat b)) v\<rparr>\<rparr>
           in (if h_version (a_rhdr a) \<noteq> AGENT_PROTOCOL_VERSION then AGENT_ERR_PROTOCOL_MISMATCH else AGENT_OK,
               a, p))"

end
