(* ===== verification/Agent_Wire.thy ===== *)
theory Agent_Wire
  imports Agent_Hdr
begin

text \<open>
  The protocol on the wire: a header that one side writes is the header the other side reads,
  however the pipe cuts the bytes into pieces and whatever follows them.
\<close>

subsection \<open>Reading from a pipe\<close>

definition pipe_bytes :: "pipe \<Rightarrow> bytes" where
  "pipe_bytes p = buffered p @ concat (pieces p)"

definition pipe_ok :: "pipe \<Rightarrow> bool" where
  "pipe_ok p \<longleftrightarrow> [] \<notin> set (pieces p)"

lemma agent_read_pieces_spec:
  "[] \<notin> set ps \<Longrightarrow> len \<le> length (buf @ concat ps) \<Longrightarrow>
   \<exists>p'. agent_read_pieces len acc buf ps = (Some (acc @ take len (buf @ concat ps)), p') \<and>
     pipe_bytes p' = drop len (buf @ concat ps) \<and> pipe_ok p'"
proof (induction len acc buf ps rule: agent_read_pieces.induct)
  case (1 len acc buf ps)
  show ?case
  proof (cases "len \<le> length buf")
    case True
    then show ?thesis using 1(2) by (auto simp: agent_read_pieces.simps [of len] pipe_bytes_def pipe_ok_def)
  next
    case False
    then obtain q qs where ps: "ps = q # qs" using 1(3) by (cases ps) auto
    then show ?thesis
      using 1(1) [OF False ps] 1(2,3) False by (auto simp: agent_read_pieces.simps [of len])
  qed
qed

text \<open>A read of the next field: the pipe gives \<open>f\<close> and keeps the rest.\<close>

lemma agent_read_field:
  assumes "pipe_ok p" and "pipe_bytes p = f @ r" and "length f = n"
  shows "\<exists>p'. agent_read n p = (Some f, p') \<and> pipe_bytes p' = r \<and> pipe_ok p'"
proof -
  have e: "buffered p @ concat (pieces p) = f @ r" using assms(2) by (simp add: pipe_bytes_def)
  have "[] \<notin> set (pieces p)" using assms(1) by (simp add: pipe_ok_def)
  from agent_read_pieces_spec [OF this, of n "buffered p" "[]", unfolded e] show ?thesis
    using assms(3) by (simp add: agent_read_def)
qed

subsection \<open>Fields of a header\<close>

lemma word32_of_bytes [simp]: "word32_of (le_bytes 4 (ucast (x :: u32))) = x"
proof -
  have "unat x < 2 ^ 32" using unat_mask_less [of x] by simp
  then have "unat (ucast x :: u64) mod 256 ^ 4 = unat x" by (simp add: unsigned_ucast_eq take_bit_nat_eq_self)
  then show ?thesis by (simp add: word32_of_def le_val_le_bytes)
qed

lemma char_of_byte [simp]: "char_of (unat (of_nat (code c) :: u8)) = c"
proof -
  have "code c < 256" by (simp add: code_def)
  then show ?thesis by (simp add: unat_of_nat_lt) (simp add: code_def)
qed

lemma header_str [simp]: "map (\<lambda>b. char_of (unat b)) (map (\<lambda>c. of_nat (code c) :: u8) s) = s"
  by (simp add: comp_def)

lemma agent_hdr_recv_ok:
  assumes h: "header_ok h" and p: "pipe_ok p" "pipe_bytes p = header_bytes h @ rest"
    and l: "\<And>s. a_s a = Some s \<Longrightarrow> \<not> ppp_is_locked s"
  shows "\<exists>p'. agent_hdr_recv a p = (if h_version h \<noteq> AGENT_PROTOCOL_VERSION then AGENT_ERR_PROTOCOL_MISMATCH else AGENT_OK,
      a\<lparr>a_rhdr := h\<rparr>, p') \<and> pipe_bytes p' = rest \<and> pipe_ok p'"
proof -
  have n: "length (num_to_bin (h_num h)) = 16" by simp
  have b: "pipe_bytes p = le_bytes 4 (ucast (h_version h)) @ le_bytes 4 (ucast (h_type h)) @ le_bytes 4 (ucast (h_status h)) @
     le_bytes 4 (ucast (h_int h)) @ le_bytes 4 (ucast (h_int2 h)) @ num_to_bin (h_num h) @
     map (\<lambda>c. of_nat (code c)) (h_str h) @ rest" using p(2) by (simp add: header_bytes_def)
  obtain p1 where p1: "agent_read 4 p = (Some (le_bytes 4 (ucast (h_version h))), p1)" "pipe_ok p1"
    and b1: "pipe_bytes p1 = le_bytes 4 (ucast (h_type h)) @ le_bytes 4 (ucast (h_status h)) @
     le_bytes 4 (ucast (h_int h)) @ le_bytes 4 (ucast (h_int2 h)) @ num_to_bin (h_num h) @
     map (\<lambda>c. of_nat (code c)) (h_str h) @ rest" using agent_read_field [OF p(1) b] by auto
  obtain p2 where p2: "agent_read 4 p1 = (Some (le_bytes 4 (ucast (h_type h))), p2)" "pipe_ok p2"
    and b2: "pipe_bytes p2 = le_bytes 4 (ucast (h_status h)) @
     le_bytes 4 (ucast (h_int h)) @ le_bytes 4 (ucast (h_int2 h)) @ num_to_bin (h_num h) @
     map (\<lambda>c. of_nat (code c)) (h_str h) @ rest" using agent_read_field [OF p1(2) b1] by auto
  obtain p3 where p3: "agent_read 4 p2 = (Some (le_bytes 4 (ucast (h_status h))), p3)" "pipe_ok p3"
    and b3: "pipe_bytes p3 = le_bytes 4 (ucast (h_int h)) @ le_bytes 4 (ucast (h_int2 h)) @ num_to_bin (h_num h) @
     map (\<lambda>c. of_nat (code c)) (h_str h) @ rest" using agent_read_field [OF p2(2) b2] by auto
  obtain p4 where p4: "agent_read 4 p3 = (Some (le_bytes 4 (ucast (h_int h))), p4)" "pipe_ok p4"
    and b4: "pipe_bytes p4 = le_bytes 4 (ucast (h_int2 h)) @ num_to_bin (h_num h) @
     map (\<lambda>c. of_nat (code c)) (h_str h) @ rest" using agent_read_field [OF p3(2) b3] by auto
  obtain p5 where p5: "agent_read 4 p4 = (Some (le_bytes 4 (ucast (h_int2 h))), p5)" "pipe_ok p5"
    and b5: "pipe_bytes p5 = num_to_bin (h_num h) @ map (\<lambda>c. of_nat (code c)) (h_str h) @ rest"
    using agent_read_field [OF p4(2) b4] by auto
  obtain p6 where p6: "agent_read 16 p5 = (Some (num_to_bin (h_num h)), p6)" "pipe_ok p6"
    and b6: "pipe_bytes p6 = map (\<lambda>c. of_nat (code c)) (h_str h) @ rest"
    using agent_read_field [OF p5(2) b5 n] by auto
  obtain p7 where p7: "agent_read 255 p6 = (Some (map (\<lambda>c. of_nat (code c)) (h_str h)), p7)" "pipe_ok p7"
    and b7: "pipe_bytes p7 = rest"
    using agent_read_field [OF p6(2) b6] h by (auto simp: header_ok_def)
  have u: "\<not> (case a_s a of None \<Rightarrow> False | Some s \<Rightarrow> ppp_is_locked s)" using l by (auto split: option.split)
  show ?thesis
    using u b7 p7(2) by (simp add: agent_hdr_recv_def p1 p2 p3 p4 p5 p6 p7 del: map_map)
qed

end
