(* ===== verification/Security.thy ===== *)
theory Security
  imports Os
begin

text \<open>
  Process privileges of the agent, \<open>src/src/agent/security.c\<close>: the credentials the kernel keeps
  for a process with the rules of \<open>setresuid\<close> and its relatives, what \<open>security_init\<close> remembers
  of them, and the two ways the agent gives up root for good.  \<open>None\<close> is \<open>exit(EXIT_FAILURE)\<close>.
\<close>

subsection \<open>The kernel's rules\<close>

record creds =
  ruid :: u32
  euid :: u32
  suid :: u32
  rgid :: u32
  egid :: u32
  sgid :: u32

definition uid_allowed :: "creds \<Rightarrow> u32 \<Rightarrow> bool" where
  "uid_allowed c u \<longleftrightarrow> euid c = 0 \<or> u \<in> {ruid c, euid c, suid c}"

definition gid_allowed :: "creds \<Rightarrow> u32 \<Rightarrow> bool" where
  "gid_allowed c g \<longleftrightarrow> euid c = 0 \<or> g \<in> {rgid c, egid c, sgid c}"

definition setresuid :: "u32 \<Rightarrow> u32 \<Rightarrow> u32 \<Rightarrow> creds \<Rightarrow> creds option" where
  "setresuid r e s c =
     (if uid_allowed c r \<and> uid_allowed c e \<and> uid_allowed c s
      then Some (c\<lparr>ruid := r, euid := e, suid := s\<rparr>) else None)"

definition setresgid :: "u32 \<Rightarrow> u32 \<Rightarrow> u32 \<Rightarrow> creds \<Rightarrow> creds option" where
  "setresgid r e s c =
     (if gid_allowed c r \<and> gid_allowed c e \<and> gid_allowed c s
      then Some (c\<lparr>rgid := r, egid := e, sgid := s\<rparr>) else None)"

definition setuid :: "u32 \<Rightarrow> creds \<Rightarrow> creds option" where
  "setuid u c =
     (if euid c = 0 then Some (c\<lparr>ruid := u, euid := u, suid := u\<rparr>)
      else if u = ruid c \<or> u = suid c then Some (c\<lparr>euid := u\<rparr>) else None)"

definition setgid :: "u32 \<Rightarrow> creds \<Rightarrow> creds option" where
  "setgid g c =
     (if euid c = 0 then Some (c\<lparr>rgid := g, egid := g, sgid := g\<rparr>)
      else if g = rgid c \<or> g = sgid c then Some (c\<lparr>egid := g\<rparr>) else None)"

subsection \<open>What the agent remembers\<close>

record security =
  real_uid :: u32
  set_uid :: u32
  real_gid :: u32
  set_gid :: u32
  is_suid :: bool
  has_tty :: bool

text \<open>
  \<open>env_ok\<close> says that changing to the root directory, ignoring the signals and clearing the
  environment succeed.
\<close>

definition security_init :: "creds \<Rightarrow> bool \<Rightarrow> bool \<Rightarrow> bool \<Rightarrow> security option" where
  "security_init c tty0 tty1 env_ok =
     (let tty = tty1 \<or> tty0
      in if \<not> env_ok then None
         else if rgid c \<noteq> egid c then None
         else if ruid c \<noteq> euid c \<and> euid c \<noteq> 0 then None
         else Some \<lparr>real_uid = ruid c, set_uid = euid c, real_gid = rgid c, set_gid = egid c,
                    is_suid = (ruid c \<noteq> euid c), has_tty = tty\<rparr>)"

definition ensure_no_privileges :: "security \<Rightarrow> creds \<Rightarrow> creds option" where
  "ensure_no_privileges sec c =
     (if real_gid sec \<noteq> set_gid sec \<and> setgid (set_gid sec) c \<noteq> None then None
      else if real_uid sec \<noteq> set_uid sec \<and> setuid (set_uid sec) c \<noteq> None then None
      else Some c)"

definition security_permanent_switch :: "u32 \<Rightarrow> u32 \<Rightarrow> creds \<Rightarrow> creds option" where
  "security_permanent_switch uid gid c =
     do { c \<leftarrow> setresgid gid gid gid c;
          c \<leftarrow> setresuid uid uid uid c;
          if euid c \<noteq> uid then None else Some c }"

definition security_permanent_drop :: "security \<Rightarrow> creds \<Rightarrow> creds option" where
  "security_permanent_drop sec c =
     do { c \<leftarrow> setresgid (real_gid sec) (real_gid sec) (real_gid sec) c;
          c \<leftarrow> setresuid (real_uid sec) (real_uid sec) (real_uid sec) c;
          if euid c \<noteq> ruid c \<or> egid c \<noteq> rgid c then None
          else if real_uid sec \<noteq> 0 then ensure_no_privileges sec c
          else Some c }"

definition security_is_privileged :: "security \<Rightarrow> bool" where
  "security_is_privileged sec \<longleftrightarrow> real_uid sec = 0"

definition security_is_suid :: "security \<Rightarrow> bool" where
  "security_is_suid sec = is_suid sec"

definition security_is_tty_detached :: "security \<Rightarrow> bool" where
  "security_is_tty_detached sec \<longleftrightarrow> \<not> has_tty sec"

definition security_get_calling_user :: "security \<Rightarrow> world \<Rightarrow> string option" where
  "security_get_calling_user sec w = w_pwuid w (real_uid sec)"

text \<open>A specification that starts with a digit is a number, any other a name that must exist.\<close>

definition security_parse_user :: "string \<Rightarrow> world \<Rightarrow> string option" where
  "security_parse_user spec w =
     (if spec \<noteq> [] \<and> isdigit (hd spec)
      then let (r, v) = scan_d spec
           in if r \<noteq> 1 then None else w_pwuid w (word_of_int v)
      else if w_pwnam w spec = None then None else Some spec)"

subsection \<open>Root is not regained\<close>

text \<open>Any sequence of calls that change the identity of the process.\<close>

inductive cred_step :: "creds \<Rightarrow> creds \<Rightarrow> bool" where
  step_setresuid: "setresuid r e s c = Some c' \<Longrightarrow> cred_step c c'"
| step_setuid: "setuid u c = Some c' \<Longrightarrow> cred_step c c'"
| step_setresgid: "setresgid r e s c = Some c' \<Longrightarrow> cred_step c c'"
| step_setgid: "setgid g c = Some c' \<Longrightarrow> cred_step c c'"

inductive_cases cred_stepE: "cred_step c c'"

definition powerless :: "u32 \<Rightarrow> creds \<Rightarrow> bool" where
  "powerless u c \<longleftrightarrow> u \<noteq> 0 \<and> ruid c = u \<and> euid c = u \<and> suid c = u"

lemmas cred_defs = setresuid_def setresgid_def setuid_def setgid_def uid_allowed_def gid_allowed_def

lemma powerless_step: "cred_step c c' \<Longrightarrow> powerless u c \<Longrightarrow> powerless u c'"
  by (erule cred_stepE) (auto simp: powerless_def cred_defs split: if_splits)

lemma powerless_steps: "cred_step\<^sup>*\<^sup>* c c' \<Longrightarrow> powerless u c \<Longrightarrow> powerless u c'"
  by (induction rule: rtranclp_induct) (auto intro: powerless_step)

lemma permanent_switch_powerless:
  "security_permanent_switch uid gid c = Some c' \<Longrightarrow> uid \<noteq> 0 \<Longrightarrow> powerless uid c'"
  by (auto simp: security_permanent_switch_def powerless_def cred_defs bind_eq_Some_conv split: if_splits)

lemma permanent_drop_powerless:
  "security_permanent_drop sec c = Some c' \<Longrightarrow> real_uid sec \<noteq> 0 \<Longrightarrow> powerless (real_uid sec) c'"
  by (auto simp: security_permanent_drop_def ensure_no_privileges_def powerless_def cred_defs
      bind_eq_Some_conv split: if_splits)

end
