(* ===== verification/Request.thy ===== *)
theory Request
  imports Agent_Hdr Security
begin

text \<open>
  The requests of the agent, \<open>src/src/agent/request.c\<close>: the policy check, the execution and the
  reply.  \<open>priv\<close> is \<open>security_is_privileged()\<close>, \<open>mem\<close> the memory of new states.
\<close>

abbreviation (input) AGENT_REQ_INIT :: int where "AGENT_REQ_INIT \<equiv> 1"
abbreviation (input) AGENT_REQ_DISCONNECT :: int where "AGENT_REQ_DISCONNECT \<equiv> 2"
abbreviation (input) AGENT_REQ_USER_SET :: int where "AGENT_REQ_USER_SET \<equiv> 3"
abbreviation (input) AGENT_REQ_REPLY :: int where "AGENT_REQ_REPLY \<equiv> 4"
abbreviation (input) AGENT_REQ_STATE_NEW :: int where "AGENT_REQ_STATE_NEW \<equiv> 5"
abbreviation (input) AGENT_REQ_STATE_LOAD :: int where "AGENT_REQ_STATE_LOAD \<equiv> 6"
abbreviation (input) AGENT_REQ_STATE_STORE :: int where "AGENT_REQ_STATE_STORE \<equiv> 7"
abbreviation (input) AGENT_REQ_STATE_DROP :: int where "AGENT_REQ_STATE_DROP \<equiv> 8"
abbreviation (input) AGENT_REQ_KEY_GENERATE :: int where "AGENT_REQ_KEY_GENERATE \<equiv> 9"
abbreviation (input) AGENT_REQ_KEY_REMOVE :: int where "AGENT_REQ_KEY_REMOVE \<equiv> 10"
abbreviation (input) AGENT_REQ_FLAG_ADD :: int where "AGENT_REQ_FLAG_ADD \<equiv> 11"
abbreviation (input) AGENT_REQ_FLAG_CLEAR :: int where "AGENT_REQ_FLAG_CLEAR \<equiv> 12"
abbreviation (input) AGENT_REQ_FLAG_GET :: int where "AGENT_REQ_FLAG_GET \<equiv> 13"
abbreviation (input) AGENT_REQ_GET_NUM :: int where "AGENT_REQ_GET_NUM \<equiv> 15"
abbreviation (input) AGENT_REQ_GET_INT :: int where "AGENT_REQ_GET_INT \<equiv> 16"
abbreviation (input) AGENT_REQ_GET_STR :: int where "AGENT_REQ_GET_STR \<equiv> 17"
abbreviation (input) AGENT_REQ_GET_ALPHABET :: int where "AGENT_REQ_GET_ALPHABET \<equiv> 18"
abbreviation (input) AGENT_REQ_GET_WARNINGS :: int where "AGENT_REQ_GET_WARNINGS \<equiv> 19"
abbreviation (input) AGENT_REQ_GET_PASSCODE :: int where "AGENT_REQ_GET_PASSCODE \<equiv> 20"
abbreviation (input) AGENT_REQ_GET_PROMPT :: int where "AGENT_REQ_GET_PROMPT \<equiv> 21"
abbreviation (input) AGENT_REQ_SET_NUM :: int where "AGENT_REQ_SET_NUM \<equiv> 22"
abbreviation (input) AGENT_REQ_SET_INT :: int where "AGENT_REQ_SET_INT \<equiv> 23"
abbreviation (input) AGENT_REQ_SET_STR :: int where "AGENT_REQ_SET_STR \<equiv> 24"
abbreviation (input) AGENT_REQ_SET_SPASS :: int where "AGENT_REQ_SET_SPASS \<equiv> 25"
abbreviation (input) AGENT_REQ_AUTHENTICATE :: int where "AGENT_REQ_AUTHENTICATE \<equiv> 26"
abbreviation (input) AGENT_REQ_SKIP :: int where "AGENT_REQ_SKIP \<equiv> 27"
abbreviation (input) AGENT_REQ_UPDATE_LATEST :: int where "AGENT_REQ_UPDATE_LATEST \<equiv> 28"
abbreviation (input) AGENT_REQ_CLEAR_RECENT_FAILURES :: int where "AGENT_REQ_CLEAR_RECENT_FAILURES \<equiv> 29"

subsection \<open>Replies and states\<close>

definition send_reply :: "agent \<Rightarrow> int \<Rightarrow> world \<Rightarrow> agent \<times> world" where
  "send_reply a status w =
     (let a = agent_hdr_set_type (agent_hdr_set_status a status) AGENT_REQ_REPLY;
          (_, a, w) = agent_hdr_send a w
      in (a, w))"

definition req_state_init ::
    "cfg_t \<Rightarrow> state \<Rightarrow> bool \<Rightarrow> bool \<Rightarrow> agent \<Rightarrow> world \<Rightarrow> (int \<times> agent \<times> world) option" where
  "req_state_init cfg mem load lck a w =
     do { assert_that (a_s a = None);
          (ret, s, w) \<leftarrow> ppp_state_init (Some cfg) (a_username a) mem w;
          case s of
            None \<Rightarrow> Some (ret, a, w)
          | Some s \<Rightarrow>
              if \<not> load then Some (0, a\<lparr>a_s := Some s, new_state := 1\<rparr>, w)
              else do { let a = a\<lparr>new_state := 0\<rparr>;
                        (ret, s, w) \<leftarrow> ppp_state_load cfg s (if lck then 0 else PPP_DONT_LOCK) w;
                        let ret = (if ret = STATE_NUMSPACE then 0 else ret);
                        if ret \<noteq> 0
                        then do { w \<leftarrow> ppp_state_fini cfg s w; Some (ret, a, w) }
                        else Some (ret, a\<lparr>a_s := Some s\<rparr>, w) } }"

definition req_state_fini ::
    "cfg_t \<Rightarrow> bool \<Rightarrow> bool \<Rightarrow> bool \<Rightarrow> agent \<Rightarrow> world \<Rightarrow> (int \<times> agent \<times> world) option" where
  "req_state_fini cfg store remove keep a w =
     do { assert_that (\<not> (store \<and> remove));
          case a_s a of
            None \<Rightarrow> Some (AGENT_ERR_NO_STATE, a, w)
          | Some s \<Rightarrow>
              do { let fl = (if remove then PPP_REMOVE else if store then PPP_STORE else 0);
                   let fl = (if keep then fl OR PPP_UNLOCK else fl);
                   (ret, s, w) \<leftarrow> ppp_state_release cfg s fl w;
                   let a = a\<lparr>new_state := 0\<rparr>;
                   if keep then Some (ret, a\<lparr>a_s := Some s\<rparr>, w)
                   else do { w \<leftarrow> ppp_state_fini cfg s w; Some (ret, a\<lparr>a_s := None\<rparr>, w) } } }"

definition req_init_atomical :: "cfg_t \<Rightarrow> state \<Rightarrow> agent \<Rightarrow> world \<Rightarrow> (int \<times> agent \<times> world) option" where
  "req_init_atomical cfg mem a w =
     (if new_state a \<noteq> 0
      then do { assert_that (a_s a \<noteq> None); Some (AGENT_OK, a, w) }
      else do { (ret, a, w) \<leftarrow> (if a_s a \<noteq> None then req_state_fini cfg False False False a w
                              else Some (AGENT_OK, a, w));
                if ret \<noteq> AGENT_OK then Some (ret, a, w)
                else req_state_init cfg mem True True a w })"

definition req_fini_atomical :: "cfg_t \<Rightarrow> int \<Rightarrow> agent \<Rightarrow> world \<Rightarrow> (int \<times> agent \<times> world) option" where
  "req_fini_atomical cfg prev_ret a w =
     (if new_state a \<noteq> 0
      then do { assert_that (a_s a \<noteq> None); Some (prev_ret, a, w) }
      else if prev_ret = 0 then req_state_fini cfg True False True a w
      else do { (_, a, w) \<leftarrow> req_state_fini cfg False False True a w; Some (prev_ret, a, w) })"

subsection \<open>Policy\<close>

definition policy_flag_add :: "cfg_t \<Rightarrow> bool \<Rightarrow> u32 \<Rightarrow> int" where
  "policy_flag_add cfg priv r_int =
     (if FLAG_SALTED AND r_int \<noteq> 0 \<and> salt cfg = CONFIG_DISALLOW then AGENT_ERR_POLICY_SALT
      else if priv then AGENT_OK
      else if FLAG_DISABLED AND r_int \<noteq> 0 \<and> disabling cfg = CONFIG_DISALLOW then AGENT_ERR_POLICY_DISABLED
      else if FLAG_SHOW AND r_int \<noteq> 0 \<and> show_policy cfg = CONFIG_DISALLOW then AGENT_ERR_POLICY_SHOW
      else AGENT_OK)"

definition policy_flag_clear :: "cfg_t \<Rightarrow> bool \<Rightarrow> u32 \<Rightarrow> int" where
  "policy_flag_clear cfg priv r_int =
     (if FLAG_SALTED AND r_int \<noteq> 0 \<and> salt cfg = CONFIG_ENFORCE then AGENT_ERR_POLICY_SALT
      else if priv then AGENT_OK
      else if FLAG_DISABLED AND r_int \<noteq> 0 \<and> disabling cfg = CONFIG_DISALLOW then AGENT_ERR_POLICY_DISABLED
      else if FLAG_SHOW AND r_int \<noteq> 0 \<and> show_policy cfg = CONFIG_ENFORCE then AGENT_ERR_POLICY_SHOW
      else AGENT_OK)"

definition policy_state_new :: "cfg_t \<Rightarrow> bool \<Rightarrow> state \<Rightarrow> agent \<Rightarrow> world \<Rightarrow> (int \<times> agent \<times> world) option" where
  "policy_state_new cfg priv mem a w =
     (if a_s a \<noteq> None then Some (AGENT_ERR_MUST_DROP_STATE, a, w)
      else if priv then Some (AGENT_OK, a, w)
      else do { (ret, a, w) \<leftarrow> req_state_init cfg mem True False a w;
                case a_s a of
                  None \<Rightarrow> Some (if key_generation cfg = CONFIG_DISALLOW then AGENT_ERR_POLICY_GENERATION
                                else AGENT_OK, a, w)
                | Some s \<Rightarrow>
                    do { let denied = (if ppp_flag_check s FLAG_DISABLED \<and> disabling cfg = CONFIG_DISALLOW
                                       then AGENT_ERR_POLICY
                                       else if key_regeneration cfg = CONFIG_DISALLOW
                                       then AGENT_ERR_POLICY_REGENERATION else 0);
                         (ret, a, w) \<leftarrow> req_state_fini cfg False False False a w;
                         Some (if denied \<noteq> 0 then denied else if ret \<noteq> 0 then AGENT_ERR else AGENT_OK, a, w) } })"

definition request_verify_policy ::
    "cfg_t \<Rightarrow> bool \<Rightarrow> state \<Rightarrow> agent \<Rightarrow> world \<Rightarrow> (int \<times> agent \<times> world) option" where
  "request_verify_policy cfg priv mem a w =
     (let t = agent_hdr_get_type a;
          r_int = agent_hdr_get_arg_int a;
          bits = h_int (a_rhdr a);
          check = (\<lambda>c. Some (if \<not> priv \<and> c = CONFIG_DISALLOW then AGENT_ERR_POLICY else AGENT_OK, a, w))
      in if t = AGENT_REQ_USER_SET then Some (if priv then AGENT_OK else AGENT_ERR_POLICY, a, w)
         else if t = AGENT_REQ_DISCONNECT then Some (AGENT_OK, a, w)
         else if t = AGENT_REQ_KEY_GENERATE then check (key_generation cfg)
         else if t = AGENT_REQ_KEY_REMOVE then check (key_removal cfg)
         else if t = AGENT_REQ_AUTHENTICATE then check (shell_auth cfg)
         else if t = AGENT_REQ_STATE_NEW then policy_state_new cfg priv mem a w
         else if t \<in> {AGENT_REQ_STATE_LOAD, AGENT_REQ_STATE_STORE, AGENT_REQ_STATE_DROP, AGENT_REQ_GET_NUM,
                      AGENT_REQ_GET_INT, AGENT_REQ_GET_WARNINGS, AGENT_REQ_UPDATE_LATEST,
                      AGENT_REQ_CLEAR_RECENT_FAILURES} then Some (AGENT_OK, a, w)
         else if t = AGENT_REQ_GET_STR
         then Some (if (r_int = PPP_FIELD_KEY \<or> r_int = PPP_FIELD_COUNTER) \<and> key_print cfg \<noteq> CONFIG_ALLOW \<and> \<not> priv
                    then AGENT_ERR_POLICY else AGENT_OK, a, w)
         else if t = AGENT_REQ_GET_PASSCODE then check (passcode_print cfg)
         else if t = AGENT_REQ_GET_PROMPT then Some (AGENT_OK, a, w)
         else if t = AGENT_REQ_SKIP then check (skipping cfg)
         else if t \<in> {AGENT_REQ_SET_NUM, AGENT_REQ_SET_INT, AGENT_REQ_SET_STR, AGENT_REQ_SET_SPASS}
         then Some (AGENT_OK, a, w)
         else if t = AGENT_REQ_FLAG_ADD then Some (policy_flag_add cfg priv bits, a, w)
         else if t = AGENT_REQ_FLAG_CLEAR then Some (policy_flag_clear cfg priv bits, a, w)
         else if t = AGENT_REQ_FLAG_GET then Some (AGENT_OK, a, w)
         else if t = AGENT_REQ_GET_ALPHABET then Some (AGENT_OK, a, w)
         else Some (AGENT_ERR, a, w))"

subsection \<open>Execution\<close>

text \<open>
  Every group of requests gives the return value of \<open>request_execute\<close>; \<open>reply\<close> sends the reply
  and returns \<open>AGENT_OK\<close>.
\<close>

definition reply :: "int \<Rightarrow> agent \<Rightarrow> world \<Rightarrow> (int \<times> agent \<times> world) option" where
  "reply ret a w = (let (a, w) = send_reply a ret w in Some (AGENT_OK, a, w))"

definition req_user_set :: "cfg_t \<Rightarrow> agent \<Rightarrow> world \<Rightarrow> (int \<times> agent \<times> world) option" where
  "req_user_set cfg a w =
     do { r_str \<leftarrow> agent_hdr_get_arg_str a;
          case security_parse_user r_str w of
            None \<Rightarrow> reply AGENT_ERR_INIT_USER a w
          | Some user \<Rightarrow>
              do { let a = a\<lparr>a_username := user\<rparr>;
                   (_, a, w) \<leftarrow> (if a_s a \<noteq> None then req_state_fini cfg False False False a w
                               else Some (0, a, w));
                   reply AGENT_OK (a\<lparr>a_s := None\<rparr>) w } }"

definition req_state ::
    "cfg_t \<Rightarrow> state \<Rightarrow> int \<Rightarrow> agent \<Rightarrow> world \<Rightarrow> (int \<times> agent \<times> world) option" where
  "req_state cfg mem t a w =
     (if t = AGENT_REQ_STATE_NEW
      then if a_s a \<noteq> None then Some (AGENT_ERR_MUST_DROP_STATE, a, w)
           else do { (ret, a, w) \<leftarrow> req_state_init cfg mem False False a w;
                     if ret \<noteq> 0 then Some (ret, a, w) else reply ret a w }
      else if t = AGENT_REQ_STATE_LOAD
      then if a_s a \<noteq> None then Some (AGENT_ERR_MUST_DROP_STATE, a, w)
           else do { (ret, a, w) \<leftarrow> req_state_init cfg mem True False a w; reply ret a w }
      else if t = AGENT_REQ_STATE_STORE
      then do { (ret, a, w) \<leftarrow> req_state_fini cfg True False False a w; reply ret a w }
      else if a_s a \<noteq> None
      then do { (ret, a, w) \<leftarrow> req_state_fini cfg False False False a w; reply ret a w }
      else reply AGENT_ERR_NO_STATE a w)"

definition req_key_generate ::
    "cfg_t \<Rightarrow> bool \<Rightarrow> state \<Rightarrow> agent \<Rightarrow> world \<Rightarrow> (int \<times> agent \<times> world) option" where
  "req_key_generate cfg priv mem a w =
     (case a_s a of
        None \<Rightarrow> reply AGENT_ERR_MUST_CREATE_STATE a w
      | Some s \<Rightarrow>
          do { (ret, s, w) \<leftarrow> ppp_key_generate cfg s (if priv then 0 else PPP_CHECK_POLICY) mem w;
               reply ret (a\<lparr>a_s := Some s\<rparr>) w })"

definition req_key_remove :: "cfg_t \<Rightarrow> state \<Rightarrow> agent \<Rightarrow> world \<Rightarrow> (int \<times> agent \<times> world) option" where
  "req_key_remove cfg mem a w =
     (if a_s a \<noteq> None then reply AGENT_ERR_MUST_DROP_STATE a w
      else do { (ret, a, w) \<leftarrow> req_state_init cfg mem True True a w;
                if ret \<noteq> 0 then reply ret a w
                else do { (ret, a, w) \<leftarrow> req_state_fini cfg False True False a w; reply ret a w } })"

text \<open>
  The requests that change one thing: take the state, change it in memory, and store it unless
  the change was refused.
\<close>

definition req_change ::
    "cfg_t \<Rightarrow> state \<Rightarrow> (state \<Rightarrow> world \<Rightarrow> (int \<times> state \<times> world) option) \<Rightarrow> agent \<Rightarrow> world \<Rightarrow> (int \<times> agent \<times> world) option" where
  "req_change cfg mem change a w =
     do { (ret, a, w) \<leftarrow> req_init_atomical cfg mem a w;
          if ret \<noteq> 0 then reply ret a w
          else do { s \<leftarrow> a_s a;
                    (ret, s, w) \<leftarrow> change s w;
                    (ret, a, w) \<leftarrow> req_fini_atomical cfg ret (a\<lparr>a_s := Some s\<rparr>) w;
                    reply ret a w } }"

definition req_flag_change ::
    "cfg_t \<Rightarrow> state \<Rightarrow> (u32 \<Rightarrow> u32) \<Rightarrow> agent \<Rightarrow> world \<Rightarrow> (int \<times> agent \<times> world) option" where
  "req_flag_change cfg mem f a w =
     req_change cfg mem (\<lambda>s w.
       do { (ret, s) \<leftarrow> ppp_set_int cfg s PPP_FIELD_FLAGS (f (flags s)) PPP_CHECK_POLICY; Some (ret, s, w) }) a w"

definition req_set_int :: "cfg_t \<Rightarrow> bool \<Rightarrow> state \<Rightarrow> agent \<Rightarrow> world \<Rightarrow> (int \<times> agent \<times> world) option" where
  "req_set_int cfg priv mem a w =
     req_change cfg mem (\<lambda>s w.
       do { (ret, s) \<leftarrow> ppp_set_int cfg s (agent_hdr_get_arg_int a) (h_int2 (a_rhdr a))
                        (if priv then 0 else PPP_CHECK_POLICY);
            Some (ret, s, w) }) a w"

definition req_set_str :: "cfg_t \<Rightarrow> bool \<Rightarrow> state \<Rightarrow> agent \<Rightarrow> world \<Rightarrow> (int \<times> agent \<times> world) option" where
  "req_set_str cfg priv mem a w =
     req_change cfg mem (\<lambda>s w.
       do { r_str \<leftarrow> agent_hdr_get_arg_str a;
            (ret, s) \<leftarrow> ppp_set_str cfg s (agent_hdr_get_arg_int a) (Some r_str)
                        (if priv then 0 else PPP_CHECK_POLICY);
            Some (ret, s, w) }) a w"

text \<open>
  The condition the code tests after \<open>ppp_set_spass\<close> always holds, so the state is always stored
  and the result of the check is returned when storing succeeds.
\<close>

definition req_set_spass :: "cfg_t \<Rightarrow> bool \<Rightarrow> state \<Rightarrow> agent \<Rightarrow> world \<Rightarrow> (int \<times> agent \<times> world) option" where
  "req_set_spass cfg priv mem a w =
     do { (ret, a, w) \<leftarrow> req_init_atomical cfg mem a w;
          if ret \<noteq> 0 then reply ret a w
          else do { s \<leftarrow> a_s a;
                    arg \<leftarrow> (if agent_hdr_get_arg_int a \<noteq> 0 then Some None
                           else map_option Some (agent_hdr_get_arg_str a));
                    let (ret2, s, w) = ppp_set_spass cfg s arg (if priv then 0 else PPP_CHECK_POLICY) (spass mem) w;
                    let a = a\<lparr>a_s := Some s\<rparr>;
                    if ret2 = PPP_ERROR_SPASS_SET \<or> PPP_ERROR_SPASS_UNSET \<noteq> 0
                    then do { (ret, a, w) \<leftarrow> req_fini_atomical cfg 0 a w;
                              reply (if ret = 0 then uint ret2 else ret) a w }
                    else do { (ret, a, w) \<leftarrow> req_fini_atomical cfg (uint ret2) a w; reply ret a w } } }"

definition latest_refused :: "state \<Rightarrow> num_t \<Rightarrow> bool" where
  "latest_refused s r_num \<longleftrightarrow>
     num_cmp (latest_card s) r_num > 0 \<or>
     (num_cmp (num_add (latest_card s) (num_i 1)) r_num \<noteq> 0 \<and>
      num_cmp (num_add (current_card s) (num_i 1)) r_num \<noteq> 0)"

definition req_update_latest :: "cfg_t \<Rightarrow> state \<Rightarrow> agent \<Rightarrow> world \<Rightarrow> (int \<times> agent \<times> world) option" where
  "req_update_latest cfg mem a w =
     (let r_num = agent_hdr_get_arg_num a
      in if (case a_s a of None \<Rightarrow> False | Some s \<Rightarrow> latest_refused s r_num)
         then reply AGENT_ERR_REQ_ARG a w
         else req_change cfg mem (\<lambda>s w.
                if latest_refused s r_num then Some (AGENT_ERR_REQ_ARG, s, w)
                else do { (ret, s) \<leftarrow> ppp_set_num s PPP_FIELD_LATEST_CARD r_num; Some (ret, s, w) }) a w)"

definition req_get :: "int \<Rightarrow> agent \<Rightarrow> world \<Rightarrow> (int \<times> agent \<times> world) option" where
  "req_get t a w =
     (case a_s a of
        None \<Rightarrow> reply AGENT_ERR_NO_STATE a w
      | Some s \<Rightarrow>
          if t = AGENT_REQ_FLAG_GET
          then reply AGENT_OK (agent_hdr_set_int (agent_hdr_init a 0) (flags s) 0) w
          else if t = AGENT_REQ_GET_NUM
          then do { (ret, n) \<leftarrow> ppp_get_num s (agent_hdr_get_arg_int a);
                    reply AGENT_OK (agent_hdr_set_num (agent_hdr_init a 0) n) w }
          else do { (ret, v) \<leftarrow> ppp_get_int s (agent_hdr_get_arg_int a);
                    reply AGENT_OK (agent_hdr_set_int (agent_hdr_init a 0) v 0) w })"

definition req_get_str :: "agent \<Rightarrow> world \<Rightarrow> (int \<times> agent \<times> world) option" where
  "req_get_str a w =
     (let r_int = agent_hdr_get_arg_int a
      in case a_s a of
           None \<Rightarrow> do { (ret, a, w) \<leftarrow> reply AGENT_ERR_NO_STATE a w;
                        Some (ret, if r_int = PPP_FIELD_KEY then agent_hdr_sanitize a else a, w) }
         | Some s \<Rightarrow>
             do { (_, str, s, w) \<leftarrow> ppp_get_str s r_int w;
                  let a = agent_hdr_init (a\<lparr>a_s := Some s\<rparr>) 0;
                  a \<leftarrow> (if r_int = PPP_FIELD_KEY then agent_hdr_set_bin_str a str 32
                       else agent_hdr_set_str a (map_option c_str str));
                  (ret, a, w) \<leftarrow> reply AGENT_OK a w;
                  Some (ret, if r_int = PPP_FIELD_KEY then agent_hdr_sanitize a else a, w) })"

definition req_get_passcode :: "cfg_t \<Rightarrow> agent \<Rightarrow> world \<Rightarrow> (int \<times> agent \<times> world) option" where
  "req_get_passcode cfg a w =
     (case a_s a of
        None \<Rightarrow> reply AGENT_ERR_NO_STATE a w
      | Some s \<Rightarrow>
          do { let r_num = agent_hdr_get_arg_num a;
               let a = agent_hdr_init a 0;
               (ret, passcode) \<leftarrow> ppp_get_passcode cfg s r_num [];
               a \<leftarrow> (if ret = 0 then agent_hdr_set_str a (Some passcode) else Some a);
               reply ret a w })"

definition req_get_prompt :: "agent \<Rightarrow> world \<Rightarrow> (int \<times> agent \<times> world) option" where
  "req_get_prompt a w =
     (case a_s a of
        None \<Rightarrow> reply AGENT_ERR_NO_STATE a w
      | Some s \<Rightarrow>
          do { let r_num = agent_hdr_get_arg_num a;
               let a = agent_hdr_init a 0;
               (s, w) \<leftarrow> ppp_get_prompt s False r_num w;
               a \<leftarrow> agent_hdr_set_str (a\<lparr>a_s := Some s\<rparr>) (map_option c_str (prompt s));
               reply (if prompt s = None then AGENT_ERR else AGENT_OK) a w })"

definition req_get_warnings :: "agent \<Rightarrow> world \<Rightarrow> (int \<times> agent \<times> world) option" where
  "req_get_warnings a w =
     (case a_s a of
        None \<Rightarrow> reply AGENT_ERR_NO_STATE a w
      | Some s \<Rightarrow>
          do { warnings \<leftarrow> ppp_get_warning_conditions s;
               reply AGENT_OK (agent_hdr_set_int a warnings (recent_failures s)) w })"

definition req_get_alphabet :: "cfg_t \<Rightarrow> agent \<Rightarrow> world \<Rightarrow> (int \<times> agent \<times> world) option" where
  "req_get_alphabet cfg a w =
     do { let (ret, alpha) = ppp_alphabet_get cfg (agent_hdr_get_arg_int a);
          a \<leftarrow> agent_hdr_set_str (agent_hdr_init a 0) alpha;
          reply ret a w }"

definition req_skip :: "cfg_t \<Rightarrow> agent \<Rightarrow> world \<Rightarrow> (int \<times> agent \<times> world) option" where
  "req_skip cfg a w =
     (case a_s a of
        None \<Rightarrow> reply AGENT_ERR_NO_STATE a w
      | Some s \<Rightarrow> do { (ret, s, w) \<leftarrow> ppp_skip cfg s (agent_hdr_get_arg_num a) w;
                      reply ret (a\<lparr>a_s := Some s\<rparr>) w })"

definition req_clear_failures :: "cfg_t \<Rightarrow> state \<Rightarrow> agent \<Rightarrow> world \<Rightarrow> (int \<times> agent \<times> world) option" where
  "req_clear_failures cfg mem a w =
     (case a_s a of
        None \<Rightarrow> reply AGENT_ERR_NO_STATE a w
      | Some s \<Rightarrow> do { (ret, w) \<leftarrow> ppp_failures cfg s mem 1 w; reply ret a w })"

definition req_authenticate :: "cfg_t \<Rightarrow> agent \<Rightarrow> world \<Rightarrow> (int \<times> agent \<times> world) option" where
  "req_authenticate cfg a w =
     (case a_s a of
        None \<Rightarrow> reply AGENT_ERR_NO_STATE a w
      | Some s \<Rightarrow>
          do { (ret, s, w) \<leftarrow> ppp_increment cfg s w;
               let a = a\<lparr>a_s := Some s\<rparr>;
               if ret \<noteq> 0 then reply ret a w
               else do { r_str \<leftarrow> agent_hdr_get_arg_str a;
                         ret \<leftarrow> ppp_authenticate cfg s (Some r_str);
                         reply ret a w } })"

definition req_disconnect :: "cfg_t \<Rightarrow> agent \<Rightarrow> world \<Rightarrow> (int \<times> agent \<times> world) option" where
  "req_disconnect cfg a w =
     (if a_s a \<noteq> None
      then do { (_, a, w) \<leftarrow> req_state_fini cfg False False False a w; Some (AGENT_REQ_DISCONNECT, a, w) }
      else Some (AGENT_REQ_DISCONNECT, a, w))"

definition request_execute ::
    "cfg_t \<Rightarrow> bool \<Rightarrow> state \<Rightarrow> agent \<Rightarrow> world \<Rightarrow> (int \<times> agent \<times> world) option" where
  "request_execute cfg priv mem a w =
     (let t = agent_hdr_get_type a; bits = h_int (a_rhdr a)
      in if t = AGENT_REQ_DISCONNECT then req_disconnect cfg a w
         else if t = AGENT_REQ_USER_SET then req_user_set cfg a w
         else if t \<in> {AGENT_REQ_STATE_NEW, AGENT_REQ_STATE_LOAD, AGENT_REQ_STATE_STORE, AGENT_REQ_STATE_DROP}
         then req_state cfg mem t a w
         else if t = AGENT_REQ_KEY_GENERATE then req_key_generate cfg priv mem a w
         else if t = AGENT_REQ_KEY_REMOVE then req_key_remove cfg mem a w
         else if t = AGENT_REQ_FLAG_ADD then req_flag_change cfg mem (\<lambda>f. f OR bits) a w
         else if t = AGENT_REQ_FLAG_CLEAR then req_flag_change cfg mem (\<lambda>f. f AND NOT bits) a w
         else if t \<in> {AGENT_REQ_FLAG_GET, AGENT_REQ_GET_NUM, AGENT_REQ_GET_INT} then req_get t a w
         else if t = AGENT_REQ_GET_STR then req_get_str a w
         else if t = AGENT_REQ_GET_PASSCODE then req_get_passcode cfg a w
         else if t = AGENT_REQ_GET_PROMPT then req_get_prompt a w
         else if t = AGENT_REQ_GET_WARNINGS then req_get_warnings a w
         else if t = AGENT_REQ_UPDATE_LATEST then req_update_latest cfg mem a w
         else if t = AGENT_REQ_SKIP then req_skip cfg a w
         else if t = AGENT_REQ_CLEAR_RECENT_FAILURES then req_clear_failures cfg mem a w
         else if t = AGENT_REQ_AUTHENTICATE then req_authenticate cfg a w
         else if t = AGENT_REQ_GET_ALPHABET then req_get_alphabet cfg a w
         else if t = AGENT_REQ_SET_INT then req_set_int cfg priv mem a w
         else if t = AGENT_REQ_SET_STR then req_set_str cfg priv mem a w
         else if t = AGENT_REQ_SET_NUM then reply AGENT_ERR a w
         else if t = AGENT_REQ_SET_SPASS then req_set_spass cfg priv mem a w
         else Some (1, a, w))"

definition request_handle ::
    "cfg_t \<Rightarrow> bool \<Rightarrow> state \<Rightarrow> agent \<Rightarrow> pipe \<Rightarrow> world \<Rightarrow> (int \<times> agent \<times> pipe \<times> world) option" where
  "request_handle cfg priv mem a p w =
     (let (ret, a, p) = agent_hdr_recv a p
      in if ret \<noteq> 0 then Some (1, a, p, w)
         else do { (ret, a, w) \<leftarrow> request_verify_policy cfg priv mem a w;
                   if ret = AGENT_ERR_POLICY
                   then let (a, w) = send_reply a AGENT_ERR_POLICY w in Some (0, a, p, w)
                   else if ret \<noteq> 0
                   then let (a, w) = send_reply a ret w in Some (ret, a, p, w)
                   else do { (ret, a, w) \<leftarrow> request_execute cfg priv mem a w; Some (ret, a, p, w) } })"

end
