(* ===== verification/Agent_Main.thy ===== *)
theory Agent_Main
  imports Request
begin

text \<open>
  The agent program, \<open>src/src/agent/agent.c\<close>: what the command line asks for, the check of the
  installation, the start of a server with its initial frame and its privileges, and the loop
  over the requests of the client.  Messages to the terminal are not modelled; \<open>strdup\<close> is taken
  to succeed.  \<open>None\<close> is an abort or \<open>exit(EXIT_FAILURE)\<close>.
\<close>

subsection \<open>The command line\<close>

text \<open>\<open>args\<close> is the command line without the name of the program.\<close>

datatype agent_mode = Run_testcases bool | Check_config | Refuse | Serve

definition agent_mode :: "string list \<Rightarrow> security \<Rightarrow> agent_mode" where
  "agent_mode args sec =
     (if \<not> security_is_tty_detached sec \<or> args \<noteq> []
      then if args \<noteq> [] \<and> hd args = ''--testcase'' \<and> (\<not> security_is_suid sec \<or> security_is_privileged sec)
           then Run_testcases (length args = 2 \<and> args ! 1 = ''--fast'')
           else if length args = 1 \<and> hd args = ''--check-config'' \<and> (\<not> security_is_suid sec \<or> security_is_privileged sec)
           then Check_config
           else Refuse
      else Serve)"

subsection \<open>Checking the installation\<close>

abbreviation (input) S_ISUID :: u32 where "S_ISUID \<equiv> 0x800"
abbreviation (input) S_ISGID :: u32 where "S_ISGID \<equiv> 0x400"
abbreviation (input) PRINT_STDOUT :: int where "PRINT_STDOUT \<equiv> 64"
abbreviation (input) PRINT_SYSLOG :: int where "PRINT_SYSLOG \<equiv> 128"

text \<open>The part for the global database; \<open>mem\<close> is the memory of the state.\<close>

definition verify_config_global :: "cfg_t \<Rightarrow> security \<Rightarrow> inode \<Rightarrow> state \<Rightarrow> world \<Rightarrow> (int \<times> world) option" where
  "verify_config_global cfg sec st mem w =
     (if f_uid st \<noteq> 0 \<or> f_gid st \<noteq> 0 then Some (8, w)
      else if f_mode st AND S_ISUID = 0 then Some (9, w)
      else if f_mode st AND S_ISGID \<noteq> 0 then Some (9, w)
      else if \<not> security_is_privileged sec then Some (10, w)
      else do { (ret, w) \<leftarrow> ppp_init (Some cfg) PRINT_STDOUT w;
                if ret \<noteq> 0 then Some (11, w)
                else do { (ret, s, w) \<leftarrow> ppp_state_init (Some cfg) ''root'' mem w;
                          case s of
                            None \<Rightarrow> Some (12, w)
                          | Some s \<Rightarrow>
                              do { (ret, s, w) \<leftarrow> ppp_state_load cfg s PPP_DONT_LOCK w;
                                   if ret \<noteq> 0 \<and> ret \<noteq> STATE_NON_EXISTENT \<and> ret \<noteq> STATE_NO_USER_ENTRY
                                   then do { w \<leftarrow> ppp_state_fini cfg s w; Some (13, w) }
                                   else do { (ret, s, w) \<leftarrow> (if ret = 0 then ppp_state_release cfg s 0 w
                                                           else Some (0, s, w));
                                             w \<leftarrow> ppp_state_fini cfg s w;
                                             Some (if ret \<noteq> 0 then 14 else 0, w) } } } })"

definition do_verify_config ::
    "cfg_t option \<Rightarrow> security \<Rightarrow> string \<Rightarrow> state \<Rightarrow> world \<Rightarrow> (int \<times> world) option" where
  "do_verify_config cfg sec agent_bin mem w =
     (case cfg of
        None \<Rightarrow> Some (1, w)
      | Some c \<Rightarrow>
          if db c = CONFIG_DB_UNCONFIGURED then Some (2, w)
          else let (ret, w) = cfg_permissions cfg w
               in if ret = PPP_ERROR_CONFIG_OWNERSHIP then Some (4, w)
                  else if ret = PPP_ERROR_CONFIG_PERMISSIONS then Some (5, w)
                  else if ret \<noteq> 0 then Some (3, w)
                  else let (st, w) = os_stat agent_bin w
                       in case st of
                            None \<Rightarrow> Some (7, w)
                          | Some st \<Rightarrow>
                              if db c \<noteq> CONFIG_DB_GLOBAL
                              then Some (if f_mode st AND (S_ISUID OR S_ISGID) \<noteq> 0 then 9 else 0, w)
                              else verify_config_global c sec st mem w)"

subsection \<open>Starting the server\<close>

abbreviation (input) AGENT_ERR_INIT_CONFIGURATION :: int where "AGENT_ERR_INIT_CONFIGURATION \<equiv> 5003"
abbreviation (input) AGENT_ERR_INIT_PRIVILEGES :: int where "AGENT_ERR_INIT_PRIVILEGES \<equiv> 5004"

text \<open>\<open>memset\<close> to zero, then the protocol version; \<open>agent_server\<close> of \<open>agent_interface.c\<close>.\<close>

definition agent_blank :: agent where
  "agent_blank =
     (let h = \<lparr>h_version = 0, h_type = 0, h_status = 0, h_int = 0, h_int2 = 0, h_num = num_zero,
               h_str = replicate AGENT_ARG_MAX (CHR 0x00)\<rparr>
      in \<lparr>a_shdr = h\<lparr>h_version := AGENT_PROTOCOL_VERSION\<rparr>, a_rhdr = h, a_username = [], new_state = 0,
          a_s = None, a_sent = []\<rparr>)"

definition agent_server :: "world \<Rightarrow> agent option \<times> world" where
  "agent_server w = (let (nomem, w) = fault w in (if nomem then None else Some agent_blank, w))"

definition send_init_reply :: "agent \<Rightarrow> int \<Rightarrow> int \<Rightarrow> world \<Rightarrow> int \<times> agent \<times> world" where
  "send_init_reply a status error_code w =
     agent_hdr_send (agent_hdr_set_type (agent_hdr_set_int (agent_hdr_set_status a status)
       (word_of_int error_code) 0) AGENT_REQ_INIT) w"

text \<open>Closing the two descriptors may fail; the state of the agent is disposed of.\<close>

definition agent_disconnect :: "cfg_t option \<Rightarrow> agent \<Rightarrow> world \<Rightarrow> (int \<times> world) option" where
  "agent_disconnect cfg a w =
     (let (bad1, w) = fault w; (bad2, w) = fault w;
          ret = (if bad1 then 1 else 0) + (if bad2 then 1 else 0)
      in case a_s a of
           None \<Rightarrow> Some (ret, w)
         | Some s \<Rightarrow> do { c \<leftarrow> cfg; w \<leftarrow> ppp_state_fini c s w; Some (ret, w) })"

text \<open>The identity of the process as the file system sees it.\<close>

definition as_creds :: "creds \<Rightarrow> world \<Rightarrow> world" where
  "as_creds c w = w\<lparr>w_uid := ruid c, w_euid := euid c, w_egid := egid c\<rparr>"

definition agent_drop :: "cfg_t \<Rightarrow> security \<Rightarrow> creds \<Rightarrow> creds option" where
  "agent_drop cfg sec c =
     (if db cfg = CONFIG_DB_GLOBAL then security_permanent_switch (user_uid cfg) (user_gid cfg) c
      else if db cfg \<in> {CONFIG_DB_MYSQL, CONFIG_DB_LDAP, CONFIG_DB_USER}
      then if \<not> security_is_privileged sec then security_permanent_drop sec c else Some c
      else Some c)"

subsection \<open>The loop\<close>

text \<open>The bytes a pipe still has to give.\<close>

definition pipe_size :: "pipe \<Rightarrow> nat" where
  "pipe_size p = length (buffered p) + sum_list (map length (pieces p))"

lemma agent_read_pieces_size:
  "agent_read_pieces len acc buf ps = (r, p) \<Longrightarrow>
   pipe_size p \<le> length buf + sum_list (map length ps) \<and>
   (r \<noteq> None \<longrightarrow> pipe_size p + len = length buf + sum_list (map length ps))"
proof (induction len acc buf ps rule: agent_read_pieces.induct)
  case (1 len acc buf ps)
  show ?case
  proof (cases "len \<le> length buf")
    case True
    then show ?thesis using 1(2) by (auto simp: agent_read_pieces.simps pipe_size_def)
  next
    case False
    then show ?thesis using 1
      by (auto simp: agent_read_pieces.simps [of len] pipe_size_def split: list.splits if_splits)
  qed
qed

lemma agent_read_size:
  "agent_read len p = (r, p') \<Longrightarrow> pipe_size p' \<le> pipe_size p \<and> (r \<noteq> None \<longrightarrow> pipe_size p' + len = pipe_size p)"
  using agent_read_pieces_size [of len "[]" "buffered p" "pieces p" r p'] by (simp add: agent_read_def pipe_size_def)

lemma agent_hdr_recv_size:
  assumes "agent_hdr_recv a p = (0, a', p')"
  shows "pipe_size p' + 291 = pipe_size p"
  using assms
  by (auto simp: agent_hdr_recv_def Let_def split: if_splits prod.splits option.splits dest!: agent_read_size)

lemma request_handle_size:
  assumes "request_handle cfg priv mem a p w = Some (0, a', p', w')"
  shows "pipe_size p' + 291 = pipe_size p"
proof -
  obtain r b q where "agent_hdr_recv a p = (r, b, q)" by (cases "agent_hdr_recv a p") auto
  moreover from this have "r = 0 \<and> p' = q"
    using assms by (auto simp: request_handle_def bind_eq_Some_conv Let_def split: if_splits prod.splits)
  ultimately show ?thesis using agent_hdr_recv_size by blast
qed

text \<open>
  \<open>mem n\<close> is the memory the \<open>n\<close>th request gets for a new state.  Each request takes a header
  from the pipe, so the loop ends when the client has no more to say.
\<close>

function agent_rounds ::
    "cfg_t \<Rightarrow> bool \<Rightarrow> (nat \<Rightarrow> state) \<Rightarrow> nat \<Rightarrow> agent \<Rightarrow> pipe \<Rightarrow> world \<Rightarrow> (int \<times> agent \<times> pipe \<times> world) option" where
  "agent_rounds cfg priv mem n a p w =
     (case request_handle cfg priv (mem n) a p w of
        None \<Rightarrow> None
      | Some (ret, a, p, w) \<Rightarrow>
          if ret = AGENT_REQ_DISCONNECT then Some (0, a, p, w)
          else if ret \<noteq> 0 then Some (ret, a, p, w)
          else agent_rounds cfg priv mem (Suc n) a p w)"
  by pat_completeness auto
termination
  by (relation "measure (\<lambda>(c, q, m, n, a, p, w). pipe_size p)") (use request_handle_size in fastforce)+

declare agent_rounds.simps [simp del]

definition main_loop ::
    "cfg_t \<Rightarrow> bool \<Rightarrow> (nat \<Rightarrow> state) \<Rightarrow> agent \<Rightarrow> pipe \<Rightarrow> world \<Rightarrow> (int \<times> agent \<times> world) option" where
  "main_loop cfg priv mem a p w =
     (let (ret, a, w) = send_init_reply a 0 0 w
      in do { (ret, a, _, w) \<leftarrow> (if ret \<noteq> 0 then Some (ret, a, p, w) else agent_rounds cfg priv mem 0 a p w);
              (_, w) \<leftarrow> agent_disconnect (Some cfg) a w;
              Some (ret, a, w) })"

definition init_error :: "cfg_t option \<Rightarrow> agent \<Rightarrow> int \<Rightarrow> int \<Rightarrow> world \<Rightarrow> (int \<times> agent \<times> world) option" where
  "init_error cfg a ret error_desc w =
     (let (_, a, w) = send_init_reply a ret error_desc w
      in do { (_, w) \<leftarrow> agent_disconnect cfg a w; Some (1, a, w) })"

text \<open>
  The server part of \<open>main\<close>: the exit code, the agent with the frames it has sent, the
  credentials it ends with and the world.
\<close>

definition agent_serve ::
    "cfg_t option \<Rightarrow> security \<Rightarrow> (nat \<Rightarrow> state) \<Rightarrow> creds \<Rightarrow> pipe \<Rightarrow> world \<Rightarrow> (int \<times> agent option \<times> creds \<times> world) option" where
  "agent_serve cfg sec mem c p w =
     (let fail = (\<lambda>a ret desc w. map_option (\<lambda>(r, a, w). (r, Some a, c, w)) (init_error cfg a ret desc w));
          (a, w) = agent_server w
      in case a of
           None \<Rightarrow> Some (1, None, c, w)
         | Some a \<Rightarrow>
        (case security_get_calling_user sec w of
           None \<Rightarrow> fail a AGENT_ERR_INIT_USER 0 w
         | Some user \<Rightarrow>
             do { let a = (agent_hdr_init a 0)\<lparr>a_username := user\<rparr>;
                  (ret, w) \<leftarrow> ppp_init cfg PRINT_SYSLOG w;
                  if ret \<noteq> 0 then fail a AGENT_ERR_INIT_CONFIGURATION ret w
                  else do { cf \<leftarrow> cfg;
                            if db cf \<noteq> CONFIG_DB_USER \<and> \<not> security_is_suid sec \<and> \<not> security_is_privileged sec
                            then fail a AGENT_ERR_INIT_PRIVILEGES 0 w
                            else do { c \<leftarrow> agent_drop cf sec c;
                                      (r, a, w) \<leftarrow> main_loop cf (security_is_privileged sec) mem a p (as_creds c w);
                                      Some (r, Some a, c, w) } } }))"

end
