(* ===== verification/Agent_Client.thy ===== *)
theory Agent_Client
  imports Agent_Wire Agent_Main
begin

text \<open>
  The client library, \<open>src/src/agent/agent_interface.c\<close>: starting the agent, one function for
  each request, and the texts of its errors and warnings.  The client keeps the same header
  structures as the agent, so the model shares the setters and getters.  \<open>p\<close> is the pipe from
  the agent.  What a function gives back through a pointer is a component of its result.
\<close>

abbreviation (input) AGENT_ERR_INIT_EMERGENCY :: int where "AGENT_ERR_INIT_EMERGENCY \<equiv> 5006"
abbreviation (input) AGENT_ERR_INIT_EXECUTABLE :: int where "AGENT_ERR_INIT_EXECUTABLE \<equiv> 5007"
abbreviation (input) AGENT_ERR_MEMORY :: int where "AGENT_ERR_MEMORY \<equiv> 5008"
abbreviation (input) AGENT_ERR_SERVER_INIT :: int where "AGENT_ERR_SERVER_INIT \<equiv> 5009"

record client =
  c_agent :: agent
  c_pid :: int
  c_error :: int

definition on_agent :: "(agent \<Rightarrow> agent) \<Rightarrow> client \<Rightarrow> client" where
  "on_agent f c = c\<lparr>c_agent := f (c_agent c)\<rparr>"

subsection \<open>A query\<close>

definition agent_query :: "client \<Rightarrow> int \<Rightarrow> pipe \<Rightarrow> world \<Rightarrow> int \<times> client \<times> pipe \<times> world" where
  "agent_query c request p w =
     (let (ret, a, w) = agent_hdr_send (agent_hdr_set_type (c_agent c) request) w;
          c = c\<lparr>c_agent := a\<rparr>
      in if ret \<noteq> 0 then (ret, c\<lparr>c_error := 1\<rparr>, p, w)
         else let (ret, a, p) = agent_hdr_recv a p; c = c\<lparr>c_agent := a\<rparr>
              in if ret \<noteq> 0 then (ret, c\<lparr>c_error := 1\<rparr>, p, w)
                 else (sint (h_status (a_rhdr a)), c, p, w))"

subsection \<open>Starting the agent\<close>

abbreviation (input) S_IXOTH :: u32 where "S_IXOTH \<equiv> 1"

fun find_executable :: "string list \<Rightarrow> world \<Rightarrow> (int \<times> string option) \<times> world" where
  "find_executable [] w = ((AGENT_ERR_INIT_EXECUTABLE, None), w)"
| "find_executable (x # xs) w =
     (let (st, w) = os_stat x w
      in case st of
           None \<Rightarrow> find_executable xs w
         | Some st \<Rightarrow> if f_kind st \<noteq> Regular \<or> f_mode st AND S_IXOTH = 0 then find_executable xs w
                      else ((0, Some x), w))"

definition get_agent_executable :: "string option \<Rightarrow> world \<Rightarrow> (int \<times> string option) \<times> world" where
  "get_agent_executable agent w =
     find_executable (case agent of Some a \<Rightarrow> [a] | None \<Rightarrow> [''/usr/bin/agent_otp'', ''/usr/local/bin/agent_otp'']) w"

text \<open>
  The parent's side: \<open>pid\<close> is the result of \<open>fork\<close>, \<open>wait\<close> that of \<open>agent_wait\<close>.  A frame of the
  agent that reports an error is turned into the error of the call.
\<close>

definition agent_connect ::
    "string option \<Rightarrow> int \<Rightarrow> int \<Rightarrow> pipe \<Rightarrow> world \<Rightarrow> int \<times> client option \<times> pipe \<times> world" where
  "agent_connect agent_executable pid wait p w =
     (let (nomem, w) = fault w
      in if nomem then (AGENT_ERR_MEMORY, None, p, w)
         else let (bad1, w) = fault w
              in if bad1 then (1, None, p, w)
                 else let (bad2, w) = fault w
                      in if bad2 then (1, None, p, w)
                         else let ((ret, _), w) = get_agent_executable agent_executable w
                              in if ret \<noteq> 0 then (ret, None, p, w)
                                 else if wait \<noteq> 0 then (AGENT_ERR_SERVER_INIT, None, p, w)
                                 else let (ret, a, p) = agent_hdr_recv agent_blank p
                                      in if ret \<noteq> 0 then (ret, None, p, w)
                                         else if h_type (a_rhdr a) \<noteq> word_of_int AGENT_REQ_INIT
                                         then (AGENT_ERR_SERVER_INIT, None, p, w)
                                         else let ret = sint (h_status (a_rhdr a))
                                              in if ret = AGENT_ERR_INIT_EMERGENCY then (AGENT_ERR_SERVER_INIT, None, p, w)
                                                 else if ret \<noteq> 0 then (ret, None, p, w)
                                                 else (AGENT_OK, Some \<lparr>c_agent = a, c_pid = pid, c_error = 0\<rparr>, p, w))"

text \<open>For the client; the server, with \<open>pid = -1\<close>, informs nobody.\<close>

definition agent_set_user :: "client \<Rightarrow> string \<Rightarrow> pipe \<Rightarrow> world \<Rightarrow> (int \<times> client \<times> pipe \<times> world) option" where
  "agent_set_user c user p w =
     (let c = on_agent (\<lambda>a. a\<lparr>a_username := user\<rparr>) c
      in if c_pid c = -1 then Some (0, c, p, w)
         else do { a \<leftarrow> agent_hdr_set_str (agent_hdr_init (c_agent c) 0) (Some user);
                   Some (agent_query (c\<lparr>c_agent := a\<rparr>) AGENT_REQ_USER_SET p w) })"

subsection \<open>Requests without an argument\<close>

definition agent_state_new :: "client \<Rightarrow> pipe \<Rightarrow> world \<Rightarrow> int \<times> client \<times> pipe \<times> world" where
  "agent_state_new c = agent_query c AGENT_REQ_STATE_NEW"

definition agent_state_load :: "client \<Rightarrow> pipe \<Rightarrow> world \<Rightarrow> int \<times> client \<times> pipe \<times> world" where
  "agent_state_load c = agent_query c AGENT_REQ_STATE_LOAD"

definition agent_state_store :: "client \<Rightarrow> pipe \<Rightarrow> world \<Rightarrow> int \<times> client \<times> pipe \<times> world" where
  "agent_state_store c = agent_query c AGENT_REQ_STATE_STORE"

definition agent_state_drop :: "client \<Rightarrow> pipe \<Rightarrow> world \<Rightarrow> int \<times> client \<times> pipe \<times> world" where
  "agent_state_drop c = agent_query c AGENT_REQ_STATE_DROP"

definition agent_key_generate :: "client \<Rightarrow> pipe \<Rightarrow> world \<Rightarrow> int \<times> client \<times> pipe \<times> world" where
  "agent_key_generate c = agent_query c AGENT_REQ_KEY_GENERATE"

definition agent_key_remove :: "client \<Rightarrow> pipe \<Rightarrow> world \<Rightarrow> int \<times> client \<times> pipe \<times> world" where
  "agent_key_remove c = agent_query c AGENT_REQ_KEY_REMOVE"

definition agent_clear_recent_failures :: "client \<Rightarrow> pipe \<Rightarrow> world \<Rightarrow> int \<times> client \<times> pipe \<times> world" where
  "agent_clear_recent_failures c =
     agent_query (on_agent (\<lambda>a. agent_hdr_init a 0) c) AGENT_REQ_CLEAR_RECENT_FAILURES"

subsection \<open>Requests with a number\<close>

definition with_int :: "u32 \<Rightarrow> u32 \<Rightarrow> client \<Rightarrow> client" where
  "with_int i j = on_agent (\<lambda>a. agent_hdr_set_int (agent_hdr_init a 0) i j)"

definition with_num :: "num_t \<Rightarrow> client \<Rightarrow> client" where
  "with_num n = on_agent (\<lambda>a. agent_hdr_set_num (agent_hdr_init a 0) n)"

definition agent_flag_add :: "client \<Rightarrow> u32 \<Rightarrow> pipe \<Rightarrow> world \<Rightarrow> int \<times> client \<times> pipe \<times> world" where
  "agent_flag_add c fl = agent_query (with_int fl 0 c) AGENT_REQ_FLAG_ADD"

definition agent_flag_clear :: "client \<Rightarrow> u32 \<Rightarrow> pipe \<Rightarrow> world \<Rightarrow> int \<times> client \<times> pipe \<times> world" where
  "agent_flag_clear c fl = agent_query (with_int fl 0 c) AGENT_REQ_FLAG_CLEAR"

definition agent_set_int :: "client \<Rightarrow> u32 \<Rightarrow> u32 \<Rightarrow> pipe \<Rightarrow> world \<Rightarrow> int \<times> client \<times> pipe \<times> world" where
  "agent_set_int c field integer = agent_query (with_int field integer c) AGENT_REQ_SET_INT"

definition agent_skip :: "client \<Rightarrow> num_t \<Rightarrow> pipe \<Rightarrow> world \<Rightarrow> int \<times> client \<times> pipe \<times> world" where
  "agent_skip c n = agent_query (with_num n c) AGENT_REQ_SKIP"

definition agent_update_latest_card :: "client \<Rightarrow> num_t \<Rightarrow> pipe \<Rightarrow> world \<Rightarrow> int \<times> client \<times> pipe \<times> world" where
  "agent_update_latest_card c n = agent_query (with_num n c) AGENT_REQ_UPDATE_LATEST"

subsection \<open>Requests that give a value\<close>

definition agent_flag_get :: "client \<Rightarrow> pipe \<Rightarrow> world \<Rightarrow> int \<times> int option \<times> client \<times> pipe \<times> world" where
  "agent_flag_get c p w =
     (let (ret, c, p, w) = agent_query (on_agent (\<lambda>a. agent_hdr_init a 0) c) AGENT_REQ_FLAG_GET p w
      in (ret, if ret \<noteq> 0 then None else Some (agent_hdr_get_arg_int (c_agent c)), c, p, w))"

definition agent_get_num :: "client \<Rightarrow> u32 \<Rightarrow> pipe \<Rightarrow> world \<Rightarrow> int \<times> num_t option \<times> client \<times> pipe \<times> world" where
  "agent_get_num c field p w =
     (let (ret, c, p, w) = agent_query (with_int field 0 c) AGENT_REQ_GET_NUM p w
      in (ret, if ret \<noteq> 0 then None else Some (agent_hdr_get_arg_num (c_agent c)), c, p, w))"

definition agent_get_int :: "client \<Rightarrow> u32 \<Rightarrow> pipe \<Rightarrow> world \<Rightarrow> int \<times> int option \<times> client \<times> pipe \<times> world" where
  "agent_get_int c field p w =
     (let (ret, c, p, w) = agent_query (with_int field 0 c) AGENT_REQ_GET_INT p w
      in (ret, if ret \<noteq> 0 then None else Some (agent_hdr_get_arg_int (c_agent c)), c, p, w))"

text \<open>A copy of the string the reply carries; \<open>strdup\<close> may fail.\<close>

definition strdup_reply :: "client \<Rightarrow> world \<Rightarrow> (int \<times> string option \<times> world) option" where
  "strdup_reply c w =
     do { s \<leftarrow> agent_hdr_get_arg_str (c_agent c);
          let (nomem, w) = fault w;
          Some (if nomem then (AGENT_ERR_MEMORY, None, w) else (AGENT_OK, Some s, w)) }"

definition agent_get_str ::
    "client \<Rightarrow> u32 \<Rightarrow> pipe \<Rightarrow> world \<Rightarrow> (int \<times> string option \<times> client \<times> pipe \<times> world) option" where
  "agent_get_str c field p w =
     (let (ret, c, p, w) = agent_query (with_int field 0 c) AGENT_REQ_GET_STR p w
      in if ret \<noteq> 0 then Some (ret, None, c, p, w)
         else do { (ret, s, w) \<leftarrow> strdup_reply c w; Some (ret, s, c, p, w) })"

definition agent_get_key :: "client \<Rightarrow> pipe \<Rightarrow> world \<Rightarrow> int \<times> string option \<times> client \<times> pipe \<times> world" where
  "agent_get_key c p w =
     (let (ret, c, p, w) = agent_query (with_int (word_of_int PPP_FIELD_KEY) 0 c) AGENT_REQ_GET_STR p w
      in (ret, if ret \<noteq> 0 then None else Some (take 32 (h_str (a_rhdr (c_agent c)))), c, p, w))"

definition agent_get_alphabet ::
    "client \<Rightarrow> u32 \<Rightarrow> pipe \<Rightarrow> world \<Rightarrow> (int \<times> string option \<times> client \<times> pipe \<times> world) option" where
  "agent_get_alphabet c i p w =
     (let (ret, c, p, w) = agent_query (with_int i 0 c) AGENT_REQ_GET_ALPHABET p w
      in if ret \<noteq> 0 \<and> ret \<noteq> PPP_ERROR_POLICY then Some (ret, None, c, p, w)
         else do { s \<leftarrow> agent_hdr_get_arg_str (c_agent c); Some (ret, Some s, c, p, w) })"

definition agent_get_warnings :: "client \<Rightarrow> pipe \<Rightarrow> world \<Rightarrow> int \<times> (int \<times> int) \<times> client \<times> pipe \<times> world" where
  "agent_get_warnings c p w =
     (let (ret, c, p, w) = agent_query (with_int 0 0 c) AGENT_REQ_GET_WARNINGS p w
      in (ret, (agent_hdr_get_arg_int (c_agent c), agent_hdr_get_arg_int2 (c_agent c)), c, p, w))"

definition agent_get_passcode ::
    "client \<Rightarrow> num_t \<Rightarrow> pipe \<Rightarrow> world \<Rightarrow> (int \<times> string option \<times> client \<times> pipe \<times> world) option" where
  "agent_get_passcode c n p w =
     (let (ret, c, p, w) = agent_query (with_num n c) AGENT_REQ_GET_PASSCODE p w
      in if ret \<noteq> AGENT_OK then Some (ret, None, c, p, w)
         else do { s \<leftarrow> agent_hdr_get_arg_str (c_agent c); Some (ret, Some (take 16 s), c, p, w) })"

definition agent_get_prompt ::
    "client \<Rightarrow> num_t \<Rightarrow> pipe \<Rightarrow> world \<Rightarrow> (int \<times> string option \<times> client \<times> pipe \<times> world) option" where
  "agent_get_prompt c n p w =
     (let (ret, c, p, w) = agent_query (with_num n c) AGENT_REQ_GET_PROMPT p w
      in if ret \<noteq> AGENT_OK then Some (ret, None, c, p, w)
         else do { (ret, s, w) \<leftarrow> strdup_reply c w; Some (ret, s, c, p, w) })"

subsection \<open>Requests with a string\<close>

definition agent_set_str ::
    "client \<Rightarrow> u32 \<Rightarrow> string option \<Rightarrow> pipe \<Rightarrow> world \<Rightarrow> (int \<times> client \<times> pipe \<times> world) option" where
  "agent_set_str c field str p w =
     do { a \<leftarrow> agent_hdr_set_str (c_agent (with_int field 0 c)) str;
          Some (agent_query (c\<lparr>c_agent := a\<rparr>) AGENT_REQ_SET_STR p w) }"

definition agent_set_spass ::
    "client \<Rightarrow> string option \<Rightarrow> bool \<Rightarrow> pipe \<Rightarrow> world \<Rightarrow> (int \<times> client \<times> pipe \<times> world) option" where
  "agent_set_spass c str remove_spass p w =
     do { let c = with_int (if remove_spass then 1 else 0) 0 c;
          a \<leftarrow> (if remove_spass then Some (c_agent c) else agent_hdr_set_str (c_agent c) str);
          Some (agent_query (c\<lparr>c_agent := a\<rparr>) AGENT_REQ_SET_SPASS p w) }"

definition agent_authenticate ::
    "client \<Rightarrow> string \<Rightarrow> pipe \<Rightarrow> world \<Rightarrow> (int \<times> client \<times> pipe \<times> world) option" where
  "agent_authenticate c passcode p w =
     do { a \<leftarrow> agent_hdr_set_str (agent_hdr_init (c_agent c) 0) (Some passcode);
          Some (agent_query (c\<lparr>c_agent := a\<rparr>) AGENT_REQ_AUTHENTICATE p w) }"

subsection \<open>Texts\<close>

definition agent_is_agent_error :: "int \<Rightarrow> int" where
  "agent_is_agent_error error =
     (if error \<ge> 5000 \<and> error < 5100 then 1
      else if error \<ge> 1000 \<and> error < 1100 then 2
      else if error \<ge> 3000 \<and> error < 3100 then 3
      else 0)"

definition agent_strerror :: "int \<Rightarrow> string" where
  "agent_strerror error =
     (if error = AGENT_OK then ''No error''
      else if error = AGENT_ERR then ''Generic agent error.''
      else if error = AGENT_ERR_REQ then ''Coding error: Illegal request to agent.''
      else if error = AGENT_ERR_REQ_ARG then ''Coding error: Illegal request argument sent to agent.''
      else if error = AGENT_ERR_INIT_CONFIGURATION then ''Configuration error or unable to read configuration file.''
      else if error = AGENT_ERR_INIT_PRIVILEGES
      then ''Configuration problem: DB option set to '' @ [CHR 0x27] @ ''global'' @ [CHR 0x27] @ '', but OTP agent is not SUID-root.''
      else if error = AGENT_ERR_INIT_USER then ''Unable to switch to selected user.''
      else if error = AGENT_ERR_INIT_EXECUTABLE then ''Unable to locate agent executable!''
      else if error = AGENT_ERR_MEMORY then ''Error while allocating memory.''
      else if error = AGENT_ERR_SERVER_INIT then ''Error during agent initialization.''
      else if error = AGENT_ERR_PROTOCOL_MISMATCH then ''Agent protocol mismatch. Reinstall software.''
      else if error = AGENT_ERR_DISCONNECT then ''Agent unexpectedly disconnected.''
      else if error = AGENT_ERR_POLICY then ''Requested action is denied by the policy.''
      else if error = AGENT_ERR_POLICY_REGENERATION then ''Key regeneration is denied by the policy.''
      else if error = AGENT_ERR_POLICY_GENERATION then ''Key generation is denied by the policy.''
      else if error = AGENT_ERR_POLICY_DISABLED then ''Changing disabled flag is denied by the policy.''
      else if error = AGENT_ERR_POLICY_SALT then ''Salt option setting is fixed by the policy.''
      else if error = AGENT_ERR_POLICY_SHOW then ''Show option setting is fixed by the policy.''
      else if error = AGENT_ERR_MUST_CREATE_STATE then ''Coding error: Must create state before generating key.''
      else if error = AGENT_ERR_MUST_DROP_STATE then ''Coding error: Must drop state before removing it.''
      else if error = AGENT_ERR_NO_STATE then ''Coding error: Action requires created/read state.''
      else if agent_is_agent_error error \<noteq> 0 then ppp_get_error_desc error
      else ''Not an agent/PPP error.'')"

text \<open>
  The messages for the bits of a result; a bit that has no message is a failing \<open>assert\<close>.
\<close>

fun print_bits :: "(u32 \<times> string) list \<Rightarrow> u32 \<Rightarrow> string option" where
  "print_bits [] bits = do { assert_that (bits = 0); Some [] }"
| "print_bits ((b, text) # ts) bits =
     (if bits AND b \<noteq> 0 then map_option (\<lambda>r. text @ [CHR 0x0A] @ r) (print_bits ts (bits AND NOT b))
      else print_bits ts bits)"

definition print_d :: "int \<Rightarrow> string" where
  "print_d i = (if i < 0 then CHR ''-'' # nat_str upper_digit 10 (nat (- i)) else nat_str upper_digit 10 (nat i))"

definition agent_print_spass_errors :: "u32 \<Rightarrow> string option" where
  "agent_print_spass_errors errors =
     print_bits [(1, ''Static password too short.''),
       (2, ''Not enough digits in password.''),
       (4, ''Not enough uppercase characters in password.''),
       (8, ''Not enough special characters in password.''),
       (16, ''Strange error indeed: Unsupported ascii character.''),
       (32, ''Non-ascii character in static password.''),
       (64, ''Static password change is denied by the policy.''),
       (128, ''Static password set.''),
       (256, ''Static password unset.'')] errors"

definition agent_print_ppp_warnings :: "u32 \<Rightarrow> u32 \<Rightarrow> string option" where
  "agent_print_ppp_warnings warnings failed =
     print_bits [(PPP_WARN_LAST_CARD, ''PPP WARNING: You'' @ [CHR 0x27] @ ''ve reached your last printed card.''),
       (PPP_WARN_NOTHING_LEFT, ''PPP WARNING: You'' @ [CHR 0x27] @ ''ve ran out of printed passcards!''),
       (PPP_WARN_RECENT_FAILURES, ''PPP WARNING: There were '' @ print_d (sint failed) @ '' recent failures.'')] warnings"

subsection \<open>A query and its reply\<close>

text \<open>What a client that holds no state does with a reply of any status.\<close>

lemma agent_query_reply:
  assumes "a_s (c_agent c) = None" and "w_faults w = []" and r: "header_ok r" "h_version r = AGENT_PROTOCOL_VERSION"
    and p: "pipe_ok p" "pipe_bytes p = header_bytes r @ rest"
  shows "\<exists>p'. agent_query c req p w =
      (sint (h_status r),
       c\<lparr>c_agent := (c_agent c)\<lparr>a_shdr := (a_shdr (c_agent c))\<lparr>h_type := word_of_int req\<rparr>,
          a_sent := a_sent (c_agent c) @ [(a_shdr (c_agent c))\<lparr>h_type := word_of_int req\<rparr>], a_rhdr := r\<rparr>\<rparr>, p', w) \<and>
    pipe_bytes p' = rest \<and> pipe_ok p'"
proof -
  let ?a = "agent_hdr_set_type (c_agent c) req"
  let ?b = "?a\<lparr>a_sent := a_sent ?a @ [a_shdr ?a]\<rparr>"
  have s: "agent_hdr_send ?a w = (AGENT_OK, ?b, w)" using assms(1,2) by (simp add: agent_hdr_send_def agent_hdr_set_type_def)
  obtain p' where p': "agent_hdr_recv ?b p = (AGENT_OK, ?b\<lparr>a_rhdr := r\<rparr>, p')" "pipe_bytes p' = rest" "pipe_ok p'"
    using agent_hdr_recv_ok [OF r(1) p, of ?b] r(2) assms(1) by (auto simp: agent_hdr_set_type_def)
  have "agent_query c req p w = (sint (h_status r), c\<lparr>c_agent := ?b\<lparr>a_rhdr := r\<rparr>\<rparr>, p', w)"
    by (simp add: agent_query_def s p'(1))
  then show ?thesis using p'(2,3) by (intro exI [of _ p']) (simp add: agent_hdr_set_type_def)
qed

text \<open>The string a client puts into its header is the string the agent reads out of it.\<close>

lemma set_str_get_str:
  assumes "length s < AGENT_ARG_MAX" and "CHR 0x00 \<notin> set s" and "agent_hdr_set_str (agent_hdr_init a 0) (Some s) = Some b"
    and "a_rhdr d = (a_shdr b)\<lparr>h_type := t\<rparr>"
  shows "agent_hdr_get_arg_str d = Some s"
proof -
  have n: "takeWhile (\<lambda>c. c \<noteq> CHR 0x00) (s @ replicate (254 - length s) (CHR 0x00) @ [CHR 0x00]) = s"
  proof (cases "254 - length s")
    case (Suc n)
    then show ?thesis using assms(2) by (subst takeWhile_append2) auto
  next
    case 0
    then show ?thesis using assms(2) by (subst takeWhile_append2) auto
  qed
  show ?thesis using assms(1,3,4) n
    by (auto simp: agent_hdr_get_arg_str_def agent_hdr_set_str_def agent_hdr_init_def c_str_def)
qed

end
