(* ===== verification/Agent_Safe.thy ===== *)
theory Agent_Safe
  imports Agent_Client Ppp_Safe
begin

text \<open>
  The properties of the agent: the frames survive the wire, what the policy denies is not done,
  the loop ends, and requests are never served with root's identity unless root itself runs
  the agent.
\<close>

subsection \<open>The wire\<close>






subsection \<open>Privileges\<close>















subsection \<open>What the policy denies\<close>








subsection \<open>The loop ends\<close>

text \<open>The loop with a bound on the requests it may serve; the outer \<open>None\<close> is an exhausted bound.\<close>

fun rounds_within ::
    "nat \<Rightarrow> cfg_t \<Rightarrow> bool \<Rightarrow> (nat \<Rightarrow> state) \<Rightarrow> nat \<Rightarrow> agent \<Rightarrow> pipe \<Rightarrow> world \<Rightarrow> (int \<times> agent \<times> pipe \<times> world) option option" where
  "rounds_within 0 cfg priv mem n a p w = None"
| "rounds_within (Suc k) cfg priv mem n a p w =
     (case request_handle cfg priv (mem n) a p w of
        None \<Rightarrow> Some None
      | Some (ret, a, p, w) \<Rightarrow>
          if ret = AGENT_REQ_DISCONNECT then Some (Some (0, a, p, w))
          else if ret \<noteq> 0 then Some (Some (ret, a, p, w))
          else rounds_within k cfg priv mem (Suc n) a p w)"

text \<open>
  C23: the agent does not run on: for any client, any answers of the system and any state, the
  loop ends after at most one request more than the number of whole frames the client has
  written, with a result or by an abort.
\<close>

theorem agent_rounds_bounded:
  "rounds_within (Suc (pipe_size p div 291)) cfg priv mem n a p w = Some (agent_rounds cfg priv mem n a p w)"
proof (induction "pipe_size p" arbitrary: n a p w rule: less_induct)
  case less
  show ?case
  proof (cases "request_handle cfg priv (mem n) a p w")
    case None
    then show ?thesis by (simp add: agent_rounds.simps [of cfg priv mem n a p w])
  next
    case (Some x)
    obtain r b q v where x: "x = (r, b, q, v)" by (cases x)
    show ?thesis
    proof (cases "r = 0")
      case False
      then show ?thesis using Some x by (simp add: agent_rounds.simps [of cfg priv mem n a p w])
    next
      case True
      have s: "pipe_size q + 291 = pipe_size p" using request_handle_size Some x True by blast
      then have k: "pipe_size p div 291 = Suc (pipe_size q div 291)" using div_add_self2 [of 291 "pipe_size q"] by simp
      have "rounds_within (Suc (pipe_size p div 291)) cfg priv mem n a p w =
          rounds_within (pipe_size p div 291) cfg priv mem (Suc n) b q v"
        using Some x True by simp
      also have "\<dots> = Some (agent_rounds cfg priv mem (Suc n) b q v)"
        unfolding k by (rule less) (use s in simp)
      also have "agent_rounds cfg priv mem (Suc n) b q v = agent_rounds cfg priv mem n a p w"
        by (subst (2) agent_rounds.simps) (use Some x True in simp)
      finally show ?thesis .
    qed
  qed
qed

end
