(* ===== verification/Sha256_Spec.thy ===== *)
theory Sha256_Spec
  imports Sha256
begin

text \<open>
  The hash function as the standard (FIPS 180-4) describes it: padding, message schedule, the
  eight working variables and the rounds; and the proof that the code of coreutils, with its
  buffers, its sliding window of sixteen words and its variables that change roles, computes it.
\<close>

subsection \<open>The standard\<close>

definition rotr :: "nat \<Rightarrow> u32 \<Rightarrow> u32" where
  "rotr n x = drop_bit n x OR push_bit (32 - n) x"

definition Ch :: "u32 \<Rightarrow> u32 \<Rightarrow> u32 \<Rightarrow> u32" where
  "Ch x y z = (x AND y) XOR (NOT x AND z)"

definition Maj :: "u32 \<Rightarrow> u32 \<Rightarrow> u32 \<Rightarrow> u32" where
  "Maj x y z = (x AND y) XOR (x AND z) XOR (y AND z)"

definition Sigma0 :: "u32 \<Rightarrow> u32" where
  "Sigma0 x = rotr 2 x XOR rotr 13 x XOR rotr 22 x"

definition Sigma1 :: "u32 \<Rightarrow> u32" where
  "Sigma1 x = rotr 6 x XOR rotr 11 x XOR rotr 25 x"

definition sigma0 :: "u32 \<Rightarrow> u32" where
  "sigma0 x = rotr 7 x XOR rotr 18 x XOR drop_bit 3 x"

definition sigma1 :: "u32 \<Rightarrow> u32" where
  "sigma1 x = rotr 17 x XOR rotr 19 x XOR drop_bit 10 x"

text \<open>Four bytes as a big-endian word, and back.\<close>

definition be_word :: "u8 \<Rightarrow> u8 \<Rightarrow> u8 \<Rightarrow> u8 \<Rightarrow> u32" where
  "be_word a b c d = push_bit 24 (ucast a) OR push_bit 16 (ucast b) OR push_bit 8 (ucast c) OR ucast d"

definition be_bytes :: "u32 \<Rightarrow> bytes" where
  "be_bytes w = [ucast (drop_bit 24 w), ucast (drop_bit 16 w), ucast (drop_bit 8 w), ucast w]"

fun schedule :: "bytes \<Rightarrow> nat \<Rightarrow> u32" where
  "schedule b t =
     (if t < 16 then be_word (b ! (4 * t)) (b ! (4 * t + 1)) (b ! (4 * t + 2)) (b ! (4 * t + 3))
      else sigma1 (schedule b (t - 2)) + schedule b (t - 7) + sigma0 (schedule b (t - 15)) + schedule b (t - 16))"

declare schedule.simps [simp del]

type_synonym sha_vars = "u32 \<times> u32 \<times> u32 \<times> u32 \<times> u32 \<times> u32 \<times> u32 \<times> u32"

definition round_spec :: "u32 \<Rightarrow> u32 \<Rightarrow> sha_vars \<Rightarrow> sha_vars" where
  "round_spec k w v =
     (case v of (a, b, c, d, e, f, g, h) \<Rightarrow>
        let t1 = h + Sigma1 e + Ch e f g + k + w;
            t2 = Sigma0 a + Maj a b c
        in (t1 + t2, a, b, c, d + t1, e, f, g))"

definition vars_of :: "u32 list \<Rightarrow> sha_vars" where
  "vars_of r = (r ! 0, r ! 1, r ! 2, r ! 3, r ! 4, r ! 5, r ! 6, r ! 7)"

definition block_spec :: "bytes \<Rightarrow> u32 list \<Rightarrow> u32 list" where
  "block_spec b st =
     (case fold (\<lambda>t. round_spec (sha256_round_constants ! t) (schedule b t)) [0..<64] (vars_of st) of
        (a, b, c, d, e, f, g, h) \<Rightarrow> map2 (+) st [a, b, c, d, e, f, g, h])"

text \<open>The padded message is a whole number of blocks.\<close>

definition sha256_pad :: "bytes \<Rightarrow> bytes" where
  "sha256_pad m =
     (let n = length m
      in m @ 0x80 # replicate ((119 - n mod 64) mod 64) 0 @
         be_bytes (of_nat (8 * n div 2 ^ 32)) @ be_bytes (of_nat (8 * n)))"

definition sha256_spec :: "bytes \<Rightarrow> bytes" where
  "sha256_spec m =
     (let p = sha256_pad m
      in concat (map be_bytes
           (fold (\<lambda>i. block_spec (take 64 (drop (64 * i) p))) [0..<length p div 64]
              [0x6a09e667, 0xbb67ae85, 0x3c6ef372, 0xa54ff53a, 0x510e527f, 0x9b05688c, 0x1f83d9ab, 0x5be0cd19])))"

subsection \<open>Functions and words\<close>

lemma code_functions:
  "S0 x = sigma0 x" "S1 x = sigma1 x" "SS0 x = Sigma0 x" "SS1 x = Sigma1 x"
  by (simp_all add: S0_def S1_def SS0_def SS1_def sigma0_def sigma1_def Sigma0_def Sigma1_def rol_def rotr_def or.commute)

lemma F1_Ch: "F1 e f g = Ch e f g"
  by (rule bit_eqI) (auto simp: F1_def Ch_def bit_simps)

lemma F2_Maj: "F2 a b c = Maj a b c"
  by (rule bit_eqI) (auto simp: F2_def Maj_def bit_simps)


lemma byte_bits: "bit (x :: u8) n \<Longrightarrow> n < 8"
  by (rule bit_imp_le_length [of x n, simplified])

lemma le_word_or:
  fixes v :: u32
  shows "ucast (x :: u8) + 256 * v = ucast x OR push_bit 8 v"
proof -
  have "256 * v = push_bit 8 v" by (simp add: push_bit_eq_mult mult.commute)
  moreover have "ucast x + push_bit 8 v = ucast x OR push_bit 8 v"
    by (rule disjunctive_add_eq_or) (rule bit_eqI, auto simp: bit_simps dest: byte_bits)
  ultimately show ?thesis by simp
qed

lemma le_word: "of_nat (le_val [a, b, c, d]) = be_word d c b a"
proof -
  have "of_nat (le_val [a, b, c, d]) = (ucast a :: u32) + 256 * (ucast b + 256 * (ucast c + 256 * ucast d))"
    by simp
  also have "\<dots> = be_word d c b a"
    by (simp only: le_word_or) (rule bit_eqI, auto simp: be_word_def bit_simps dest: byte_bits)
  finally show ?thesis .
qed

lemma be_word_bit:
  "bit (be_word a b c d) n \<longleftrightarrow>
    (if n < 8 then bit d n else if n < 16 then bit c (n - 8) else if n < 24 then bit b (n - 16) else n < 32 \<and> bit a (n - 24))"
  by (auto simp: be_word_def bit_simps dest: byte_bits)

lemma SWAP_bit:
  "bit (SWAP v) n \<longleftrightarrow>
    (if n < 8 then bit v (24 + n) else if n < 16 then bit v (8 + n) else if n < 24 then bit v (n - 8) else n < 32 \<and> bit v (n - 24))"
proof -
  have m: "(0xff00 :: u32) = push_bit 8 (mask 8)" by (simp add: push_bit_eq_mult mask_eq_exp_minus_1)
  show ?thesis unfolding SWAP_def m
    by (auto simp: bit_simps add.commute dest: bit_imp_le_length)
qed

lemma SWAP_be_word: "SWAP (be_word d c b a) = be_word a b c d"
  by (rule bit_eqI) (auto simp: SWAP_bit be_word_bit)

lemma get_uint32_be: "4 * t + 4 \<le> length b \<Longrightarrow>
    SWAP (get_uint32 b t) = be_word (b ! (4 * t)) (b ! (4 * t + 1)) (b ! (4 * t + 2)) (b ! (4 * t + 3))"
proof -
  assume l: "4 * t + 4 \<le> length b"
  have "take 4 (drop (4 * t) b) = [b ! (4 * t), b ! (4 * t + 1), b ! (4 * t + 2), b ! (4 * t + 3)]"
    using l by (intro nth_equalityI) (auto simp: less_Suc_eq numeral_eq_Suc)
  then show ?thesis by (simp add: get_uint32_def le_word SWAP_be_word del: le_val.simps)
qed

lemma set_uint32_be: "set_uint32 (SWAP w) = be_bytes w"
proof -
  have "ucast (drop_bit k (ucast (SWAP w) :: u64)) = (ucast (drop_bit (24 - k) w) :: u8)" if "k \<in> {0, 8, 16, 24}" for k
    using that by (intro bit_eqI) (auto simp: bit_simps SWAP_bit dest: bit_imp_le_length)
  from this [of 0] this [of 8] this [of 16] this [of 24] show ?thesis
    by (simp add: set_uint32_def be_bytes_def numeral_eq_Suc) (simp add: eval_nat_numeral)?
qed


subsection \<open>Rounds\<close>

text \<open>The working variables in the registers before round \<open>t\<close>.\<close>

definition vars_at :: "nat \<Rightarrow> u32 list \<Rightarrow> sha_vars" where
  "vars_at t r =
     (let role = (\<lambda>j. r ! ((j + 7 * t) mod 8))
      in (role 0, role 1, role 2, role 3, role 4, role 5, role 6, role 7))"

lemma vars_at_0: "vars_at 0 r = vars_of r"
  by (simp add: vars_at_def vars_of_def)

lemma role_mod: "(j + 7 * t) mod 8 = (j + 7 * (t mod 8)) mod (8 :: nat)"
  by (metis mod_add_right_eq mod_mult_right_eq)

lemma vars_at_mod: "vars_at t r = vars_at (t mod 8) r"
  by (simp only: vars_at_def role_mod [of _ t] Let_def)

lemma sha256_R_mod: "sha256_R t k m r = sha256_R (t mod 8) k m r"
  by (simp only: sha256_R_def role_mod [of _ t] Let_def)

lemma list_8:
  assumes "length r = 8"
  obtains a b c d e f g h where "r = [a, b, c, d, e, f, g, h]"
  using assms by (auto simp: numeral_eq_Suc length_Suc_conv)

lemma round_vars_small:
  assumes "length r = 8" and "t \<in> {0, 1, 2, 3, 4, 5, 6, 7}"
  shows "vars_at (Suc t mod 8) (sha256_R t k m r) = round_spec k m (vars_at t r)"
proof -
  obtain a b c d e f g h where r: "r = [a, b, c, d, e, f, g, h]" using list_8 [OF assms(1)] .
  show ?thesis using assms(2) unfolding r insert_iff empty_iff
    by (elim disjE) (simp_all add: vars_at_def sha256_R_def round_spec_def Let_def
      code_functions F1_Ch F2_Maj add_ac)
qed

lemma round_vars:
  assumes "length r = 8"
  shows "vars_at (Suc t) (sha256_R t k m r) = round_spec k m (vars_at t r)"
proof -
  have "t mod 8 \<in> {0, 1, 2, 3, 4, 5, 6, 7}" by (rule less_8) simp
  from round_vars_small [OF assms this] show ?thesis
    by (simp only: vars_at_mod [of "Suc t"] vars_at_mod [of t] sha256_R_mod [of t] mod_Suc_eq)
qed


text \<open>The window of sixteen words before round \<open>t\<close>.\<close>

definition window :: "bytes \<Rightarrow> nat \<Rightarrow> u32 list \<Rightarrow> bool" where
  "window b t x \<longleftrightarrow> length x = 16 \<and> (\<forall>u. u < max t 16 \<longrightarrow> max t 16 \<le> u + 16 \<longrightarrow> x ! (u mod 16) = schedule b u)"

lemma window_0:
  assumes "64 \<le> length b"
  shows "window b 0 (map (\<lambda>t. SWAP (get_uint32 b t)) [0..<16])"
  using assms by (auto simp: window_def get_uint32_be schedule.simps)

lemma window_early: "window b t x \<Longrightarrow> t < 16 \<Longrightarrow> x ! t = schedule b t \<and> window b (Suc t) x"
  by (auto simp: window_def max_def)

lemma window_late:
  assumes w: "window b t x" and t: "16 \<le> t" and m: "sha256_M t x = (m, y)"
  shows "m = schedule b t \<and> window b (Suc t) y"
proof -
  have g: "x ! (u mod 16) = schedule b u" if "u < t" "t \<le> u + 16" for u
    using w t that by (simp add: window_def max_def split: if_split_asm)
  have "(t - 16) mod 16 = t mod 16" using t by (metis le_add_diff_inverse2 mod_add_self2)
  then have "m = schedule b t"
    using m t g [of "t - 2"] g [of "t - 7"] g [of "t - 15"] g [of "t - 16"]
    by (auto simp: sha256_M_def Let_def code_functions schedule.simps [of b t])
  moreover have y: "y = x[t mod 16 := m]" using m by (auto simp: sha256_M_def Let_def)
  moreover have ne: "u mod 16 \<noteq> t mod 16" if "u < t" "t \<le> u + 15" for u
  proof
    assume "u mod 16 = t mod 16"
    then have "(t - u) mod 16 = 0" using that by (metis mod_eq_dvd_iff_nat dvd_imp_mod_0 less_imp_le)
    then show False using that by simp
  qed
  moreover have "y ! (u mod 16) = schedule b u" if "u \<le> t" "t \<le> u + 15" for u
  proof (cases "u = t")
    case True
    then show ?thesis using \<open>m = schedule b t\<close> w by (simp add: y window_def)
  next
    case False
    then have "u mod 16 \<noteq> t mod 16" using ne that by simp
    then show ?thesis using g [of u] that False by (simp add: y)
  qed
  ultimately show ?thesis using w t by (auto simp: window_def max_def less_Suc_eq_le)
qed

lemma step_rounds:
  assumes "length st = 8" and "64 \<le> length b"
  shows "case fold sha256_step [0..<t] (st, map (\<lambda>t. SWAP (get_uint32 b t)) [0..<16]) of (r, x) \<Rightarrow>
    length r = 8 \<and> window b t x \<and>
    vars_at t r = fold (\<lambda>t. round_spec (sha256_round_constants ! t) (schedule b t)) [0..<t] (vars_of st)"
proof (induction t)
  case 0
  then show ?case using assms window_0 by (simp add: vars_at_0)
next
  case (Suc t)
  obtain r x where f: "fold sha256_step [0..<t] (st, map (\<lambda>t. SWAP (get_uint32 b t)) [0..<16]) = (r, x)"
    by (cases "fold sha256_step [0..<t] (st, map (\<lambda>t. SWAP (get_uint32 b t)) [0..<16])")
  then have i: "length r = 8" "window b t x"
    "vars_at t r = fold (\<lambda>t. round_spec (sha256_round_constants ! t) (schedule b t)) [0..<t] (vars_of st)"
    using Suc by simp_all
  obtain m y where m: "(if t < 16 then (x ! t, x) else sha256_M t x) = (m, y)" by fastforce
  then have "m = schedule b t \<and> window b (Suc t) y"
    using window_early [OF i(2)] window_late [OF i(2)] by (auto split: if_split_asm)
  moreover have "sha256_step t (r, x) = (sha256_R t (sha256_round_constants ! t) m r, y)"
    by (simp add: sha256_step_def m)
  moreover have "length (sha256_R t k m r) = 8" for k using i(1) by (simp add: sha256_R_def Let_def)
  ultimately show ?case using f i round_vars [OF i(1)] by simp
qed

lemma one_block_spec:
  assumes "length st = 8" and "64 \<le> length b"
  shows "sha256_one_block b st = block_spec b st"
proof -
  obtain r x where f: "fold sha256_step [0..<64] (st, map (\<lambda>t. SWAP (get_uint32 b t)) [0..<16]) = (r, x)"
    by (cases "fold sha256_step [0..<64] (st, map (\<lambda>t. SWAP (get_uint32 b t)) [0..<16])")
  then have r: "length r = 8" and v: "vars_at 64 r =
      fold (\<lambda>t. round_spec (sha256_round_constants ! t) (schedule b t)) [0..<64] (vars_of st)"
    using step_rounds [OF assms, of 64] by simp_all
  have "vars_at 64 r = vars_of r" by (simp add: vars_at_mod [of 64] vars_at_0)
  moreover obtain a b c d e f g h where "r = [a, b, c, d, e, f, g, h]" using list_8 [OF r] .
  ultimately show ?thesis using f v [symmetric] by (simp add: sha256_one_block_def block_spec_def vars_of_def)
qed


subsection \<open>Blocks\<close>

lemma schedule_take: "t < 64 \<Longrightarrow> 64 \<le> length b \<Longrightarrow> schedule (take 64 b) t = schedule b t"
proof (induction t rule: less_induct)
  case (less t)
  then show ?case by (simp add: schedule.simps [of _ t])
qed

lemma block_spec_take: "64 \<le> length b \<Longrightarrow> block_spec (take 64 b) st = block_spec b st"
proof -
  assume "64 \<le> length b"
  then have "fold (\<lambda>t. round_spec (sha256_round_constants ! t) (schedule (take 64 b) t)) [0..<64] v =
      fold (\<lambda>t. round_spec (sha256_round_constants ! t) (schedule b t)) [0..<64] v" for v
    by (intro fold_cong) (auto simp: schedule_take)
  then show ?thesis by (simp add: block_spec_def)
qed

lemma block_spec_length: "length st = 8 \<Longrightarrow> length (block_spec b st) = 8"
  by (simp add: block_spec_def split: prod.split)

lemma blocks_spec:
  "length st = 8 \<Longrightarrow>
   sha256_blocks p st = fold (\<lambda>i. block_spec (take 64 (drop (64 * i) p))) [0..<length p div 64] st"
proof (induction p st rule: sha256_blocks.induct)
  case (1 p st)
  show ?case
  proof (cases "length p < 64")
    case False
    have "length p div 64 = Suc (length (drop 64 p) div 64)"
      using False div_add_self2 [of 64 "length p - 64"] by simp
    then have d: "[0..<length p div 64] = 0 # map Suc [0..<length (drop 64 p) div 64]"
      by (simp add: upt_conv_Cons map_Suc_upt del: upt_Suc)
    have "sha256_blocks p st = sha256_blocks (drop 64 p) (block_spec (take 64 p) st)"
      using 1(2) False by (simp add: sha256_blocks.simps [of p st] one_block_spec block_spec_take)
    moreover have "sha256_one_block p st = block_spec (take 64 p) st"
      using 1(2) False by (simp add: one_block_spec block_spec_take)
    ultimately show ?thesis
      using 1(1) [OF False] 1(2) block_spec_length by (simp only: d fold_Cons fold_map comp_def) (simp add: ac_simps comp_def)
  qed (simp add: sha256_blocks.simps [of p st])
qed

lemma blocks_append:
  assumes "64 dvd length x"
  shows "sha256_blocks (x @ y) st = sha256_blocks y (sha256_blocks x st)"
  using assms
proof (induction x st rule: sha256_blocks.induct)
  case (1 x st)
  show ?case
  proof (cases "length x < 64")
    case True
    then have "x = []" using 1(2) by (auto dest: dvd_imp_le)
    then show ?thesis by (simp add: sha256_blocks.simps [of "[]"])
  next
    case False
    have "sha256_one_block (x @ y) st = sha256_one_block x st"
    proof -
      have "take 4 (drop (4 * t) (x @ y)) = take 4 (drop (4 * t) x)" if "t < 16" for t
        using False that by simp
      then have "map (\<lambda>t. SWAP (get_uint32 (x @ y) t)) [0..<16] = map (\<lambda>t. SWAP (get_uint32 x t)) [0..<16]"
        unfolding get_uint32_def by (intro map_cong refl) (metis atLeastLessThan_iff set_upt)
      then show ?thesis by (simp only: sha256_one_block_def Let_def)
    qed
    then show ?thesis using False 1(1) [OF False] 1(2)
      by (simp add: sha256_blocks.simps [of x st] sha256_blocks.simps [of "x @ y" st])
  qed
qed


subsection \<open>Buffered input\<close>

text \<open>
  The context after the input \<open>pre @ r\<close>: the blocks of \<open>pre\<close> are hashed and \<open>r\<close> waits in the
  buffer.  The counter of the code is right up to \<open>2 ^ 32\<close> bytes at least.
\<close>

definition sha_iv :: "u32 list" where
  "sha_iv = [0x6a09e667, 0xbb67ae85, 0x3c6ef372, 0xa54ff53a, 0x510e527f, 0x9b05688c, 0x1f83d9ab, 0x5be0cd19]"

definition hashed :: "sha256_ctx \<Rightarrow> bytes \<Rightarrow> bool" where
  "hashed c pre \<longleftrightarrow> 64 dvd length pre \<and> sha_state c = sha256_blocks pre sha_iv \<and> sha_total1 c = 0 \<and>
     sha_total0 c = of_nat (length pre)"

definition ctx_holds :: "sha256_ctx \<Rightarrow> bytes \<Rightarrow> bytes \<Rightarrow> bool" where
  "ctx_holds c pre r \<longleftrightarrow> hashed c pre \<and>
     sha_buflen c = length r \<and> length r \<le> 64 \<and> length (sha_buffer c) = 128 \<and> take (length r) (sha_buffer c) = r"

lemma hashed_buffer [simp]: "hashed (c\<lparr>sha_buffer := b\<rparr>) pre = hashed c pre" "hashed (c\<lparr>sha_buflen := n\<rparr>) pre = hashed c pre"
  by (simp_all add: hashed_def)

lemma add_total_small:
  assumes "sha_total0 c = of_nat k" and "sha_total1 c = 0" and "k + n < 2 ^ 32"
  shows "sha256_add_total n c = c\<lparr>sha_total0 := of_nat (k + n), sha_total1 := 0\<rparr>"
proof -
  have "unat (of_nat (k + n) :: u32) = k + n" using assms(3) by (intro unat_of_nat_lt) simp
  then have "unat (of_nat k + of_nat n :: u32) = k + n" by simp
  then show ?thesis using assms by (simp add: sha256_add_total_def Let_def)
qed

lemma process_block_holds:
  assumes "hashed c pre" and "64 dvd n" and "n \<le> length x" and "length pre + n < 2 ^ 32"
  shows "sha256_process_block x n c =
    c\<lparr>sha_state := sha256_blocks (pre @ take n x) sha_iv, sha_total0 := of_nat (length (pre @ take n x)), sha_total1 := 0\<rparr>"
  using assms add_total_small [of c "length pre" n] blocks_append [of pre "take n x" sha_iv]
  by (simp add: sha256_process_block_def hashed_def min_def)

lemma process_block_hashed:
  assumes "hashed c pre" and "64 dvd n" and "n \<le> length x" and "length pre + n < 2 ^ 32"
  shows "hashed (sha256_process_block x n c) (pre @ take n x)"
    and "sha_buffer (sha256_process_block x n c) = sha_buffer c" and "sha_buflen (sha256_process_block x n c) = sha_buflen c"
  using process_block_holds [OF assms] assms by (simp_all add: hashed_def min_def)

lemma memcpy_length [simp]: "pos + length src \<le> length dst \<Longrightarrow> length (memcpy_at dst pos src) = length dst"
  by (simp add: memcpy_at_def)

lemma memcpy_take: "take pos dst = r \<Longrightarrow> length r = pos \<Longrightarrow> take (pos + length src) (memcpy_at dst pos src) = r @ src"
  by (auto simp: memcpy_at_def)

lemma unaligned_loop_holds:
  assumes "ctx_holds c pre []" and "length pre + length b < 2 ^ 32" and "sha256_unaligned_loop b c = (b', c')"
  shows "\<exists>x. b = x @ b' \<and> ctx_holds c' (pre @ x) [] \<and> length b' \<le> 64"
  using assms
proof (induction b c arbitrary: pre rule: sha256_unaligned_loop.induct)
  case (1 b c)
  show ?case
  proof (cases "length b > 64")
    case False
    then show ?thesis using 1(2,4) by (simp add: sha256_unaligned_loop.simps [of b c])
  next
    case True
    let ?c = "c\<lparr>sha_buffer := memcpy_at (sha_buffer c) 0 (take 64 b)\<rparr>"
    have l: "length (sha_buffer c) = 128" using 1(2) by (simp add: ctx_holds_def)
    have m: "take 64 (sha_buffer ?c) = take 64 b" using memcpy_take [of 0 "sha_buffer c" "[]" "take 64 b"] True by simp
    have h: "ctx_holds ?c pre []" using 1(2) l True by (simp add: ctx_holds_def)
    have h': "ctx_holds (sha256_process_block (sha_buffer ?c) 64 ?c) (pre @ take 64 b) []"
      using process_block_hashed [of ?c pre 64 "sha_buffer ?c"] h m l True 1(3) by (simp add: ctx_holds_def)
    have "sha256_unaligned_loop (drop 64 b) (sha256_process_block (sha_buffer ?c) 64 ?c) = (b', c')"
      using 1(4) True by (simp add: sha256_unaligned_loop.simps [of b c])
    from 1(1) [OF True refl h' _ this] obtain x where "drop 64 b = x @ b'" "ctx_holds c' ((pre @ take 64 b) @ x) []" "length b' \<le> 64"
      using 1(3) True by auto
    then show ?thesis by (intro exI [of _ "take 64 b @ x"]) (metis append.assoc append_take_drop_id)
  qed
qed


lemma buffered_rest:
  assumes "hashed p pre" and "length buf = 128" and "length d = n" and "n \<le> 64"
  shows "ctx_holds (p\<lparr>sha_buflen := n, sha_buffer := memcpy_at buf 0 d\<rparr>) pre d"
  using assms memcpy_take [of 0 buf "[]" d] by (simp add: ctx_holds_def)

text \<open>Filling up the buffer.\<close>

lemma fill_buffer:
  assumes h: "ctx_holds c pre r" and n: "add = (if 128 - length r > length b then length b else 128 - length r)"
    and bound: "length pre + length r + length b < 2 ^ 32"
    and c1: "c1 = c\<lparr>sha_buffer := memcpy_at (sha_buffer c) (length r) (take add b), sha_buflen := length r + add\<rparr>"
    and c2: "c2 = (if sha_buflen c1 > 64
      then let c = sha256_process_block (sha_buffer c1) (sha_buflen c1 div 64 * 64) c1; n = sha_buflen c mod 64
           in c\<lparr>sha_buflen := n,
                sha_buffer := memcpy_at (sha_buffer c) 0 (take n (drop ((length r + add) div 64 * 64) (sha_buffer c)))\<rparr>
      else c1)"
  shows "\<exists>pre' r'. ctx_holds c2 pre' r' \<and> pre' @ r' = pre @ r @ take add b \<and> (add < length b \<longrightarrow> r' = [])"
proof -
  let ?k = "length r + add" and ?x = "r @ take add b"
  have r: "length r \<le> 64" "length (sha_buffer c) = 128" "take (length r) (sha_buffer c) = r" "hashed c pre"
    using h by (simp_all add: ctx_holds_def)
  have ad: "add \<le> length b" "?k \<le> 128" "length ?x = ?k" using n r by (auto split: if_splits)
  have l1: "length (sha_buffer c1) = 128" using ad r by (simp add: c1)
  have x: "take ?k (sha_buffer c1) = ?x" using memcpy_take [of "length r" "sha_buffer c" r "take add b"] r ad by (simp add: c1)
  have h1: "hashed c1 pre" using r by (simp add: c1)
  show ?thesis
  proof (cases "?k > 64")
    case False
    then have "ctx_holds c2 pre ?x" using h1 x l1 ad by (simp add: c2 ctx_holds_def) (simp add: c1)
    moreover have "\<not> add < length b" using False n by (auto split: if_splits)
    ultimately show ?thesis by blast
  next
    case True
    let ?q = "?k div 64 * 64" and ?m = "?k mod 64"
    have q: "?q \<le> ?k" "64 dvd ?q" "?q + ?m = ?k" by simp_all
    let ?p = "sha256_process_block (sha_buffer c1) ?q c1"
    have c1b: "sha_buflen c1 = ?k" by (simp add: c1)
    have t: "take ?q (sha_buffer c1) = take ?q ?x" using x q(1) by (metis min.absorb1 take_take)
    note p = process_block_hashed [OF h1 q(2), of "sha_buffer c1"]
    have p1: "hashed ?p (pre @ take ?q ?x)" "sha_buffer ?p = sha_buffer c1" "sha_buflen ?p = ?k"
      using p l1 ad q(1) bound t c1b by (simp_all add: ac_simps)
    let ?d = "take ?m (drop ?q (sha_buffer c1))"
    have d: "?d = drop ?q ?x" using x q(3) by (metis drop_take add_diff_cancel_left')
    have ld: "length ?d = ?m" unfolding d by (simp only: length_drop ad(3) minus_div_mult_eq_mod)
    have c2': "c2 = ?p\<lparr>sha_buflen := ?m, sha_buffer := memcpy_at (sha_buffer c1) 0 ?d\<rparr>"
      using True by (simp add: c2 c1b p1 Let_def)
    have "ctx_holds c2 (pre @ take ?q ?x) ?d"
      unfolding c2' by (rule buffered_rest [OF p1(1) l1]) (simp_all only: ld mod_less_divisor zero_less_numeral less_imp_le)
    then have "ctx_holds c2 (pre @ take ?q ?x) (drop ?q ?x)" unfolding d .
    moreover have "drop ?q ?x = []" if "add < length b"
    proof -
      have "?k = 128" using n that r by (auto split: if_splits)
      then show ?thesis using ad by simp
    qed
    moreover have "(pre @ take ?q ?x) @ drop ?q ?x = pre @ r @ take add b" by (simp only: append.assoc append_take_drop_id)
    ultimately show ?thesis by blast
  qed
qed


text \<open>The whole blocks of the input, by either loop.\<close>

lemma whole_blocks:
  assumes h: "ctx_holds c pre []" and l: "64 \<le> length b" and bound: "length pre + length b < 2 ^ 32"
    and r: "(if unal then sha256_unaligned_loop b c
      else (drop (length b div 64 * 64) b, sha256_process_block b (length b div 64 * 64) c)) = (b', c')"
  shows "\<exists>x. b = x @ b' \<and> ctx_holds c' (pre @ x) [] \<and> length b' \<le> 64"
proof (cases unal)
  case True
  then show ?thesis using unaligned_loop_holds [OF h bound] r by simp
next
  case False
  let ?q = "length b div 64 * 64"
  have q: "?q \<le> length b" "64 dvd ?q" "length b - ?q \<le> 64" using minus_div_mult_eq_mod [of "length b" 64] by simp_all
  have "ctx_holds (sha256_process_block b ?q c) (pre @ take ?q b) []"
    using process_block_hashed [of c pre ?q b] h q bound by (simp add: ctx_holds_def)
  then show ?thesis using False r q by (intro exI [of _ "take ?q b"]) auto
qed

text \<open>What is left goes into the buffer.\<close>

lemma left_bytes:
  assumes h: "ctx_holds c pre r" and l: "length b \<le> 64" and e: "b \<noteq> []"
    and bound: "length pre + length r + length b < 2 ^ 32"
    and c1: "c1 = c\<lparr>sha_buffer := memcpy_at (sha_buffer c) (length r) b\<rparr>" and n: "n = length r + length b"
    and c2: "c2 = (if n \<ge> 64
      then let c = sha256_process_block (sha_buffer c1) 64 c1; n = n - 64
           in c\<lparr>sha_buffer := memcpy_at (sha_buffer c) 0 (take n (drop 64 (sha_buffer c))), sha_buflen := n\<rparr>
      else c1\<lparr>sha_buflen := n\<rparr>)"
  shows "\<exists>pre' r'. ctx_holds c2 pre' r' \<and> pre' @ r' = pre @ r @ b"
proof -
  have r: "length r \<le> 64" "length (sha_buffer c) = 128" "take (length r) (sha_buffer c) = r" "hashed c pre"
    using h by (simp_all add: ctx_holds_def)
  let ?x = "r @ b"
  have l1: "length (sha_buffer c1) = 128" using l r by (simp add: c1)
  have x: "take n (sha_buffer c1) = ?x" using memcpy_take [of "length r" "sha_buffer c" r b] r by (simp add: c1 n)
  have h1: "hashed c1 pre" using r by (simp add: c1)
  show ?thesis
  proof (cases "n \<ge> 64")
    case False
    then have "ctx_holds c2 pre ?x" using h1 x l1 by (simp add: c2 ctx_holds_def n)
    then show ?thesis by blast
  next
    case True
    let ?p = "sha256_process_block (sha_buffer c1) 64 c1"
    have t: "take 64 (sha_buffer c1) = take 64 ?x" using x True by (metis min.absorb1 take_take)
    have n128: "n \<le> 128" using l r n by simp
    have p1: "hashed ?p (pre @ take 64 ?x)" "sha_buffer ?p = sha_buffer c1"
      using process_block_hashed [OF h1, of 64 "sha_buffer c1"] l1 bound t True n by simp_all
    let ?d = "take (n - 64) (drop 64 (sha_buffer c1))"
    have d: "?d = drop 64 ?x" using x by (metis drop_take)
    have ld: "length ?d = n - 64" using n128 l1 by simp
    have c2': "c2 = ?p\<lparr>sha_buflen := n - 64, sha_buffer := memcpy_at (sha_buffer c1) 0 ?d\<rparr>"
      using True by (simp add: c2 p1 Let_def)
    have "ctx_holds c2 (pre @ take 64 ?x) ?d"
      unfolding c2' by (rule buffered_rest [OF p1(1) l1]) (use ld n128 in simp_all)
    then have "ctx_holds c2 (pre @ take 64 ?x) (drop 64 ?x)" unfolding d .
    moreover have "(pre @ take 64 ?x) @ drop 64 ?x = pre @ r @ b" by (simp only: append.assoc append_take_drop_id)
    ultimately show ?thesis by blast
  qed
qed

lemma let_pair: "(let (x, y) = (a, b) in g x y) = g a b"
  by simp

lemma process_bytes_holds:
  assumes h: "ctx_holds c pre r" and bound: "length pre + length r + length b < 2 ^ 32"
  shows "\<exists>pre' r'. ctx_holds (sha256_process_bytes unal b c) pre' r' \<and> pre' @ r' = pre @ r @ b"
proof -
  let ?f = "if sha_buflen c \<noteq> 0
         then let left_over = sha_buflen c;
                  add = (if 128 - left_over > length b then length b else 128 - left_over);
                  ctx = c\<lparr>sha_buffer := memcpy_at (sha_buffer c) left_over (take add b),
                            sha_buflen := left_over + add\<rparr>;
                  ctx = (if sha_buflen ctx > 64
                         then let ctx = sha256_process_block (sha_buffer ctx) (sha_buflen ctx div 64 * 64) ctx;
                                  n = sha_buflen ctx mod 64
                              in ctx\<lparr>sha_buflen := n,
                                     sha_buffer := memcpy_at (sha_buffer ctx) 0
                                       (take n (drop ((left_over + add) div 64 * 64) (sha_buffer ctx)))\<rparr>
                         else ctx)
              in (drop add b, ctx)
         else (b, c)"
  obtain b1 c1 where f: "?f = (b1, c1)" by (cases ?f)
  have len: "sha_buflen c = length r" using h by (simp add: ctx_holds_def)
  have "\<exists>pre1 r1. ctx_holds c1 pre1 r1 \<and> pre1 @ r1 @ b1 = pre @ r @ b \<and> (b1 \<noteq> [] \<longrightarrow> r1 = [] \<or> length b1 < 64)"
  proof (cases "r = []")
    case True
    then show ?thesis using f h len by auto
  next
    case False
    then have nz: "length r \<noteq> 0" by simp
    note f2 = f [unfolded len if_P [OF nz] Let_def prod.inject]
    note fb = fill_buffer [OF h refl bound refl refl, unfolded Let_def, unfolded f2 [THEN conjunct2]]
    obtain pre1 r1 where p: "ctx_holds c1 pre1 r1"
      "pre1 @ r1 = pre @ r @ take (if 128 - length r > length b then length b else 128 - length r) b"
      "(if 128 - length r > length b then length b else 128 - length r) < length b \<longrightarrow> r1 = []"
      using fb by (elim exE conjE) blast
    have "pre1 @ r1 @ b1 = pre @ r @ b" unfolding f2 [THEN conjunct1, symmetric] append.assoc [symmetric] p(2)
      by (simp only: append.assoc append_take_drop_id)
    moreover have "b1 \<noteq> [] \<longrightarrow> r1 = []" using p(3) f2 [THEN conjunct1] by (auto split: if_splits)
    ultimately show ?thesis using p(1) by blast
  qed
  then obtain pre1 r1 where h1: "ctx_holds c1 pre1 r1" and e1: "pre1 @ r1 @ b1 = pre @ r @ b"
    and n1: "64 \<le> length b1 \<longrightarrow> r1 = []" by force
  let ?g = "if length b1 \<ge> 64
         then if unal then sha256_unaligned_loop b1 c1
              else (drop (length b1 div 64 * 64) b1, sha256_process_block b1 (length b1 div 64 * 64) c1)
         else (b1, c1)"
  obtain b2 c2 where g: "?g = (b2, c2)" by (cases ?g)
  have bd1: "length pre1 + length r1 + length b1 < 2 ^ 32" using arg_cong [OF e1, of length] bound by simp
  have "\<exists>pre2. ctx_holds c2 pre2 r1 \<and> pre2 @ r1 @ b2 = pre @ r @ b \<and> length b2 \<le> 64"
  proof (cases "64 \<le> length b1")
    case True
    then have "r1 = []" using n1 by blast
    then show ?thesis using whole_blocks [of c1 pre1 b1 unal b2 c2] h1 True bd1 g e1 by force
  qed (use g h1 e1 in auto)
  then obtain pre2 where h2: "ctx_holds c2 pre2 r1" and e2: "pre2 @ r1 @ b2 = pre @ r @ b" and l2: "length b2 \<le> 64" by blast
  have bd2: "length pre2 + length r1 + length b2 < 2 ^ 32" using arg_cong [OF e2, of length] bound by simp
  show ?thesis
  proof (cases "b2 = []")
    case True
    then have "sha256_process_bytes unal b c = c2"
      unfolding sha256_process_bytes_def f let_pair g by simp
    then show ?thesis using h2 e2 True by auto
  next
    case False
    have len2: "sha_buflen c2 = length r1" using h2 by (simp add: ctx_holds_def)
    have nz: "0 < length b2" using False by simp
    have e: "sha256_process_bytes unal b c = (let left_over = sha_buflen c2;
                  ctx = c2\<lparr>sha_buffer := memcpy_at (sha_buffer c2) left_over b2\<rparr>;
                  left_over = left_over + length b2
              in if left_over \<ge> 64
                 then let ctx = sha256_process_block (sha_buffer ctx) 64 ctx;
                          left_over = left_over - 64
                      in ctx\<lparr>sha_buffer := memcpy_at (sha_buffer ctx) 0 (take left_over (drop 64 (sha_buffer ctx))),
                             sha_buflen := left_over\<rparr>
                 else ctx\<lparr>sha_buflen := left_over\<rparr>)"
      unfolding sha256_process_bytes_def f let_pair g if_P [OF nz] by (rule refl)
    show ?thesis unfolding e Let_def len2
      using left_bytes [OF h2 l2 False bd2 refl refl refl, unfolded Let_def] e2 by (elim exE conjE) (rule exI, rule exI, rule conjI, assumption, simp only:)
  qed
qed

subsection \<open>The digest\<close>

lemma pad_length: "bytes \<le> 64 \<Longrightarrow> n mod 64 = bytes mod 64 \<Longrightarrow>
    (if bytes < 56 then 16 else 32 :: nat) * 4 - 8 - bytes = Suc ((119 - n mod 64) mod 64)" for bytes n :: nat
proof -
  assume "bytes \<le> 64" and n: "n mod 64 = bytes mod 64"
  then consider "bytes < 56" | "56 \<le> bytes" "bytes < 64" | "bytes = 64" by linarith
  then show ?thesis
  proof cases
    case 1
    then have "119 - bytes = 64 + (55 - bytes)" by simp
    then have "(119 - bytes) mod 64 = 55 - bytes" by (metis mod_add_self1 mod_less diff_le_self le_less_trans numeral_less_iff semiring_norm(76,78,79,80,81))
    then show ?thesis using 1 n by simp
  qed (simp_all add: n)
qed

lemma memcpy_trailer:
  assumes "b \<le> p" and "p + 8 \<le> length buf" and "length hi = 4" and "length lo = 4" and "length z = p - b"
  shows "take (p + 8) (memcpy_at (memcpy_at (memcpy_at buf p hi) (p + 4) lo) b z) = take b buf @ z @ hi @ lo"
proof -
  have 1: "memcpy_at buf p hi = take p buf @ hi @ drop (p + 4) buf" using assms by (simp add: memcpy_at_def)
  have 2: "memcpy_at (memcpy_at buf p hi) (p + 4) lo = take p buf @ hi @ lo @ drop (p + 8) buf"
    using assms unfolding 1 by (simp add: memcpy_at_def min_def add.commute)
  have "memcpy_at (take p buf @ hi @ lo @ drop (p + 8) buf) b z = take b buf @ z @ hi @ lo @ drop (p + 8) buf"
    using assms by (simp add: memcpy_at_def min_def)
  then show ?thesis unfolding 2 using assms by (simp add: min_def)
qed

lemma process_block_state: "sha_state (sha256_process_block b n c) = sha256_blocks (take n b) (sha_state c)"
  by (simp add: sha256_process_block_def sha256_add_total_def Let_def)

lemma conclude_holds:
  assumes h: "ctx_holds c pre r" and bound: "length pre + length r < 2 ^ 32"
  shows "sha_state (sha256_conclude_ctx c) = sha256_blocks (sha256_pad (pre @ r)) sha_iv"
proof -
  let ?n = "length pre + length r" and ?b = "length r"
  let ?s = "if ?b < 56 then 16 else 32 :: nat"
  have r: "?b \<le> 64" "length (sha_buffer c) = 128" "take ?b (sha_buffer c) = r" "hashed c pre" "sha_buflen c = ?b"
    using h by (simp_all add: ctx_holds_def)
  have dv: "64 dvd length pre" using r(4) by (simp add: hashed_def)
  then have nm: "?n mod 64 = ?b mod 64" by (simp add: mod_add_left_eq [symmetric])
  let ?c = "c\<lparr>sha_total0 := of_nat ?n, sha_total1 := 0\<rparr>"
  have tot: "sha256_add_total ?b c = ?c" using add_total_small [of c "length pre" ?b] r(4) bound by (simp add: hashed_def)
  let ?hi = "set_uint32 (SWAP (drop_bit 29 (of_nat ?n)))" and ?lo = "set_uint32 (SWAP (push_bit 3 (of_nat ?n)))"
  let ?p = "4 * (?s - 2)" and ?z = "take (4 * (?s - 2) - ?b) fillbuf"
  have s: "4 * (?s - 1) = ?p + 4" "4 * ?s = ?p + 8" "?b \<le> ?p" "?p + 8 \<le> 128" using r(1) by simp_all
  have s5: "?p - ?b \<le> 64" using r(1) by (cases "?b < 56") simp_all
  have lz: "length ?z = ?p - ?b" using s5 by (simp add: fillbuf_def)
  have w: "length ?hi = 4" "length ?lo = 4" by (simp_all add: set_uint32_be be_bytes_def)
  let ?buf = "memcpy_at (memcpy_at (memcpy_at (sha_buffer c) ?p ?hi) (?p + 4) ?lo) ?b ?z"
  have buf: "take (?p + 8) ?buf = r @ ?z @ ?hi @ ?lo"
    using memcpy_trailer [OF s(3) _ w lz, of "sha_buffer c"] r(2,3) s(4) by simp
  have "sha_state (sha256_conclude_ctx c) = sha256_blocks (take (?p + 8) ?buf) (sha_state c)"
    unfolding sha256_conclude_ctx_def Let_def r(5) tot process_block_state
    by (cases "?b < 56") simp_all
  also have "\<dots> = sha256_blocks (pre @ r @ ?z @ ?hi @ ?lo) sha_iv"
    unfolding buf using blocks_append [OF dv] r(4) by (simp add: hashed_def)
  also have "pre @ r @ ?z @ ?hi @ ?lo = sha256_pad (pre @ r)"
  proof -
    have "?p - ?b = Suc ((119 - ?n mod 64) mod 64)" using pad_length [OF r(1) nm] by (auto split: if_splits)
    moreover have "take (Suc k) fillbuf = 0x80 # replicate k 0" if "k \<le> 63" for k
      using that by (simp add: fillbuf_def min_def)
    ultimately have z: "?z = 0x80 # replicate ((119 - ?n mod 64) mod 64) 0" by simp
    have "unat (of_nat ?n :: u32) = ?n" by (rule unat_of_nat_lt) (use bound in simp)
    then have "unat (drop_bit 29 (of_nat ?n :: u32)) = ?n div 2 ^ 29" by (simp only: unat_drop_bit)
    moreover have "8 * ?n div 2 ^ 32 = ?n div 2 ^ 29"
      using div_mult_mult1 [of "8 :: nat" ?n "2 ^ 29"] by simp
    moreover have "unat (of_nat (?n div 2 ^ 29) :: u32) = ?n div 2 ^ 29"
      using bound by (intro unat_of_nat_lt) (simp add: less_mult_imp_div_less)
    ultimately have "drop_bit 29 (of_nat ?n :: u32) = of_nat (8 * ?n div 2 ^ 32)"
      by (simp only: word_unat_eq_iff)
    moreover have "push_bit 3 (of_nat ?n :: u32) = of_nat (8 * ?n)" by (simp add: push_bit_eq_mult mult.commute)
    ultimately show ?thesis
      unfolding sha256_pad_def Let_def z set_uint32_be by (simp only: length_append append.assoc append_Cons)
  qed
  finally show ?thesis .
qed


lemma sha256_digest:
  assumes "length data < 2 ^ 32" and "length garbage = 128"
  shows "sha256_buffer unal garbage data = sha256_spec data"
proof -
  have "ctx_holds (sha256_init_ctx garbage) [] []"
    using assms(2) by (simp add: ctx_holds_def hashed_def sha256_init_ctx_def sha_iv_def sha256_blocks.simps [of "[]"])
  then obtain pre r where h: "ctx_holds (sha256_process_bytes unal data (sha256_init_ctx garbage)) pre r"
    and e: "pre @ r = data"
    using process_bytes_holds [of "sha256_init_ctx garbage" "[]" "[]" data unal] assms(1) by auto
  have "length pre + length r < 2 ^ 32" using arg_cong [OF e, of length] assms(1) by simp
  from conclude_holds [OF h this] show ?thesis
    by (simp add: sha256_buffer_def sha256_finish_ctx_def sha256_read_ctx_def set_uint32_be e sha256_spec_def Let_def
        blocks_spec sha_iv_def)
qed

text \<open>
  C26: the hash of the program is SHA-256: for data of less than four gigabytes, whatever the
  alignment of the pointer and the initial contents of the buffer on the stack, the code gives
  the digest of the standard.
\<close>

theorem sha256_buffer_spec:
  assumes "length data < 2 ^ 32" and "length garbage = 128"
  shows "sha256_buffer unal garbage data = sha256_spec data"
  using sha256_digest [OF assms] .

theorem sha256_buffer_spec_witness:
  "sha256_buffer True (replicate 128 7) [0x61, 0x62, 0x63] = sha256_spec [0x61, 0x62, 0x63]"
  by (rule sha256_buffer_spec) simp_all


lemma block_specs_length: "length st = 8 \<Longrightarrow> length (fold (\<lambda>i. block_spec (f i)) is st) = 8"
  by (induction "is" arbitrary: st) (simp_all add: block_spec_length)

lemma sha256_spec_length: "length (sha256_spec m) = 32"
proof -
  have l: "length (concat (map be_bytes ws)) = 4 * length ws" for ws
    by (induction ws) (simp_all add: be_bytes_def)
  show ?thesis unfolding sha256_spec_def Let_def l by (subst block_specs_length) simp_all
qed

end
