(* ===== verification/Access_Safe.thy ===== *)
theory Access_Safe
  imports Ppp_Safe Sha256_Spec
begin

text \<open>
  Properties of the configuration and of the static password: what the parser accepts is well
  formed, which passwords the policy calls short, that a password that has been set is the one
  that is accepted, and what a failing hash does.
\<close>

subsection \<open>The configuration\<close>




subsection \<open>The length of a static password\<close>

lemma spass_scan_length:
  "list_all (\<lambda>c. isascii c \<and> (isgraph c \<or> isspace c)) str \<Longrightarrow>
   \<exists>n'. spass_scan str n = Inr n' \<and> sc_length n' = sc_length n + int (length str)"
proof (induction str n rule: spass_scan.induct)
  case (2 c s n)
  then show ?case by (simp add: Let_def) (cases "isdigit c"; cases "isupper c"; cases "islower c"; cases "isspace c"; simp add: add.assoc)
qed simp

text \<open>
  The check of the length of a static password counts every character twice: a password of
  printable characters is refused as too short only when twice its length is below the
  configured minimum.
\<close>

theorem spass_short_half:
  assumes "list_all (\<lambda>c. isascii c \<and> (isgraph c \<or> isspace c)) str"
  shows "verify_spass cfg str AND PPP_ERROR_SPASS_SHORT \<noteq> 0 \<longleftrightarrow> 2 * int (length str) < spass_min_length cfg"
proof -
  obtain n where n: "spass_scan str \<lparr>sc_length = int (length str), sc_digits = 0, sc_uppercase = 0, sc_special = 0\<rparr> = Inr n"
    "sc_length n = 2 * int (length str)" using spass_scan_length [OF assms] by fastforce
  then show ?thesis by (simp add: verify_spass_def)
qed

theorem spass_short_half_witness:
  "verify_spass config_defaults ''Ab1!'' = 0 \<and> spass_min_length config_defaults = 7"
proof -
  have "list_all (\<lambda>c. isascii c \<and> (isgraph c \<or> isspace c)) ''Ab1!''" by code_simp
  from spass_short_half [OF this, of config_defaults] have "verify_spass config_defaults ''Ab1!'' AND 1 = 0"
    by (simp add: config_defaults_def)
  moreover have "verify_spass config_defaults ''Ab1!'' = 0" by code_simp
  ultimately show ?thesis by (simp add: config_defaults_def)
qed

subsection \<open>Setting and checking a static password\<close>

abbreviation str_bytes :: "string \<Rightarrow> bytes" where
  "str_bytes p \<equiv> map (\<lambda>c. of_nat (code c)) p"

text \<open>A new password that the policy lets through.\<close>

definition spass_accepted :: "cfg_t \<Rightarrow> string \<Rightarrow> u32 \<Rightarrow> bool" where
  "spass_accepted cfg p fl \<longleftrightarrow>
     fl AND PPP_CHECK_POLICY = 0 \<or> spass_change cfg \<noteq> CONFIG_DISALLOW \<and> verify_spass cfg p = 0"

lemma set_spass_accepted:
  assumes "spass_accepted cfg p fl" and "crypto_salted_sha256 (str_bytes p) buf w = (e, h, v)"
  shows "ppp_set_spass cfg s (Some p) fl buf w =
    (verify_spass cfg p OR PPP_ERROR_SPASS_SET, s\<lparr>spass := h, spass_set := 1, spass_time := w_now v\<rparr>, v)"
  using assms by (auto simp: ppp_set_spass_def spass_accepted_def Let_def)

lemma salted_hash_parts:
  assumes "crypto_salted_sha256 d buf w = (e, h, v)"
  shows "if e = 0 then \<exists>slt. length slt = 8 \<and> h = slt @ crypto_sha256 (slt @ d) else h = buf"
proof -
  have "length (fgetc_bytes n bs) = n" for n bs by (simp add: fgetc_bytes_def)
  then show ?thesis using assms
    by (auto simp: crypto_salted_sha256_def crypto_file_rng_def split: prod.splits if_splits option.splits)
qed

lemma crypto_sha256_spec: "length d < 2 ^ 32 \<Longrightarrow> crypto_sha256 d = sha256_spec d"
  by (simp add: crypto_sha256_def sha256_digest)

text \<open>
  C30: a static password that has been set with a working random device is the one that is
  accepted: afterwards a text is accepted exactly when it is not empty and the standard hash of
  the salt and the text is that of the salt and the password; so the password itself is, and
  any other accepted text would be a collision.
\<close>

theorem spass_set_validates:
  assumes "spass_accepted cfg p fl" and "crypto_salted_sha256 (str_bytes p) buf w = (0, h, v)"
    and "ppp_set_spass cfg s (Some p) fl buf w = (r, s', w')"
    and "length p < 2 ^ 31" and "length q < 2 ^ 31" and "w_faults u = []"
  shows "fst (ppp_spass_validate s' q u) = 0 \<longleftrightarrow>
    q \<noteq> [] \<and> sha256_spec (take 8 (spass s') @ str_bytes q) = sha256_spec (take 8 (spass s') @ str_bytes p)"
proof -
  obtain slt where slt: "length slt = 8" "h = slt @ crypto_sha256 (slt @ str_bytes p)"
    using salted_hash_parts [OF assms(2)] by auto
  have l: "crypto_sha256 (slt @ str_bytes p) = sha256_spec (slt @ str_bytes p)"
    "crypto_sha256 (slt @ str_bytes q) = sha256_spec (slt @ str_bytes q)"
    using crypto_sha256_spec assms(4,5) slt(1) by simp_all
  have s': "spass s' = h" "spass_set s' = 1" using set_spass_accepted [OF assms(1,2), of s] assms(3) by auto
  show ?thesis
    using assms(6) slt by (simp add: ppp_spass_validate_def crypto_verify_salted_sha256_def s' l sha256_spec_length)
qed

definition random_world :: world where
  "random_world = sample_world\<lparr>w_devs := [''/dev/urandom'' \<mapsto> [1, 2, 3, 4, 5, 6, 7, 8]]\<rparr>"

theorem spass_set_validates_witness:
  "\<exists>r s' w'. ppp_set_spass config_defaults state_zero (Some ''Ab1!'') 0 [] random_world = (r, s', w') \<and>
    fst (ppp_spass_validate s' ''Ab1!'' random_world) = 0"
proof -
  have q: "w_faults random_world = []" by (simp add: random_world_def sample_world_def)
  have a: "spass_accepted config_defaults ''Ab1!'' 0" by (simp add: spass_accepted_def)
  obtain h v where h: "crypto_salted_sha256 (str_bytes ''Ab1!'') [] random_world = (0, h, v)"
    using q by (auto simp: crypto_salted_sha256_def crypto_file_rng_def random_world_def)
  obtain r s' w' where r: "ppp_set_spass config_defaults state_zero (Some ''Ab1!'') 0 [] random_world = (r, s', w')"
    by (cases "ppp_set_spass config_defaults state_zero (Some ''Ab1!'') 0 [] random_world") auto
  from spass_set_validates [OF a h r _ _ q, of "''Ab1!''"] r show ?thesis by simp
qed

text \<open>
  C32: the result of the hash call is not looked at: when it fails (no memory, no random device)
  setting a static password still reports that it is set, and what is stored as its hash is
  the buffer on the stack as it was before the call.
\<close>

theorem spass_set_ignores_failure:
  assumes "spass_accepted cfg p fl" and "crypto_salted_sha256 (str_bytes p) buf w = (e, h, v)" and "e \<noteq> 0"
  shows "ppp_set_spass cfg s (Some p) fl buf w =
    (verify_spass cfg p OR PPP_ERROR_SPASS_SET, s\<lparr>spass := buf, spass_set := 1, spass_time := w_now v\<rparr>, v)"
  using set_spass_accepted [OF assms(1,2)] salted_hash_parts [OF assms(2)] assms(3) by simp

theorem spass_set_ignores_failure_witness:
  "\<exists>r s' w'. ppp_set_spass config_defaults state_zero (Some ''Ab1!'') 0 (replicate 40 9) sample_world = (r, s', w') \<and>
    spass_set s' = 1 \<and> spass s' = replicate 40 9"
proof -
  have q: "w_faults sample_world = []" by (simp add: sample_world_def)
  have a: "spass_accepted config_defaults ''Ab1!'' 0" by (simp add: spass_accepted_def)
  have h: "crypto_salted_sha256 (str_bytes ''Ab1!'') (replicate 40 9) sample_world = (2, replicate 40 9, sample_world)"
    using q by (simp add: crypto_salted_sha256_def crypto_file_rng_def) (simp add: sample_world_def)
  show ?thesis using spass_set_ignores_failure [OF a h, of state_zero] by simp
qed

end
