(* ===== verification/Sha256_Stream.thy ===== *)
theory Sha256_Stream
  imports Sha256_Spec
begin

text \<open>
  \<open>sha256_stream\<close> of \<open>src/src/crypto/coreutils_sha256.c\<close>, the hash of an open file, which the program
  itself does not call: reading in blocks with partial reads, and its agreement with the standard.

  What the stream still has to give is a list of pieces; \<open>fread\<close> gives at most one of them at a time.
  \<open>st_eager\<close> says whether the end of the file is noticed together with the last bytes, \<open>st_error\<close>
  that the stream ends with an error.
\<close>

record stream =
  st_pieces :: "bytes list"
  st_eager :: bool
  st_error :: bool

definition stream_size :: "stream \<Rightarrow> nat" where
  "stream_size s = sum_list (map length (st_pieces s))"

text \<open>The bytes read, \<open>feof\<close> after the call, and the stream.\<close>

definition fread :: "nat \<Rightarrow> stream \<Rightarrow> bytes \<times> bool \<times> stream" where
  "fread n s =
     (case st_pieces s of
        [] \<Rightarrow> ([], \<not> st_error s, s)
      | p # ps \<Rightarrow>
          let rest = (if drop n p = [] then ps else drop n p # ps)
          in (take n p, rest = [] \<and> st_eager s \<and> \<not> st_error s, s\<lparr>st_pieces := rest\<rparr>))"

lemma fread_frame:
  assumes "fread n s = (d, e, s')"
  shows "concat (st_pieces s) = d @ concat (st_pieces s')" "st_error s' = st_error s" "length d \<le> n"
    "[] \<notin> set (st_pieces s) \<Longrightarrow> [] \<notin> set (st_pieces s')"
    "e \<Longrightarrow> \<not> st_error s \<and> st_pieces s' = []"
    "[] \<notin> set (st_pieces s) \<Longrightarrow> 0 < n \<Longrightarrow> d = [] \<Longrightarrow> st_pieces s = []"
proof -
  have "concat (st_pieces s) = d @ concat (st_pieces s') \<and> st_error s' = st_error s \<and> length d \<le> n \<and>
    ([] \<notin> set (st_pieces s) \<longrightarrow> [] \<notin> set (st_pieces s')) \<and> (e \<longrightarrow> \<not> st_error s \<and> st_pieces s' = []) \<and>
    ([] \<notin> set (st_pieces s) \<longrightarrow> 0 < n \<longrightarrow> d = [] \<longrightarrow> st_pieces s = [])"
  proof (cases "st_pieces s")
    case Nil
    then show ?thesis using assms by (auto simp: fread_def)
  next
    case (Cons p ps)
    have "take n p @ drop n p = p" by simp
    then show ?thesis using assms Cons by (cases "drop n p = []") (auto simp: fread_def Let_def simp flip: append_assoc)
  qed
  then show "concat (st_pieces s) = d @ concat (st_pieces s')" "st_error s' = st_error s" "length d \<le> n"
    "[] \<notin> set (st_pieces s) \<Longrightarrow> [] \<notin> set (st_pieces s')"
    "e \<Longrightarrow> \<not> st_error s \<and> st_pieces s' = []"
    "[] \<notin> set (st_pieces s) \<Longrightarrow> 0 < n \<Longrightarrow> d = [] \<Longrightarrow> st_pieces s = []" by blast+
qed

lemma fread_size: "fread n s = (d, e, s') \<Longrightarrow> stream_size s = length d + stream_size s'"
  using arg_cong [OF fread_frame(1), of n s d e s' length] by (simp add: stream_size_def length_concat)

abbreviation (input) BLOCKSIZE :: nat where "BLOCKSIZE \<equiv> 32768"

text \<open>The part of the block read so far is \<open>buffer\<close>; the result is what is left for the last call, or \<open>None\<close> for an error.\<close>

function sha256_stream_loop :: "bytes \<Rightarrow> stream \<Rightarrow> sha256_ctx \<Rightarrow> (bytes \<times> sha256_ctx) option" where
  "sha256_stream_loop buffer s ctx =
     (case fread (BLOCKSIZE - length buffer) s of
        (d, eof, s') \<Rightarrow>
          if length (buffer @ d) = BLOCKSIZE
          then sha256_stream_loop [] s' (sha256_process_block (buffer @ d) BLOCKSIZE ctx)
          else if d = [] then (if st_error s' then None else Some (buffer @ d, ctx))
          else if eof then Some (buffer @ d, ctx)
          else sha256_stream_loop (buffer @ d) s' ctx)"
  by pat_completeness auto
termination
  by (relation "inv_image (less_than <*lex*> less_than) (\<lambda>(b, s, c). (stream_size s, length b))")
    (auto dest!: fread_size [OF sym])

declare sha256_stream_loop.simps [simp del]

definition sha256_stream :: "bool \<Rightarrow> bytes \<Rightarrow> stream \<Rightarrow> int \<times> bytes option" where
  "sha256_stream nomem garbage s =
     (if nomem then (1, None)
      else case sha256_stream_loop [] s (sha256_init_ctx garbage) of
             None \<Rightarrow> (1, None)
           | Some (buffer, ctx) \<Rightarrow>
               (0, Some (sha256_finish_ctx (if length buffer > 0 then sha256_process_bytes False buffer ctx else ctx))))"

subsection \<open>Agreement with the standard\<close>

lemma stream_loop_holds:
  assumes "ctx_holds c pre []" and "length b < BLOCKSIZE" and "[] \<notin> set (st_pieces s)"
    and "length pre + length b + stream_size s < 2 ^ 32"
  shows "case sha256_stream_loop b s c of None \<Rightarrow> st_error s
    | Some (b', c') \<Rightarrow> \<not> st_error s \<and> (\<exists>pre'. ctx_holds c' pre' [] \<and> pre' @ b' = pre @ b @ concat (st_pieces s))"
  using assms
proof (induction b s c arbitrary: pre rule: sha256_stream_loop.induct)
  case (1 b s c)
  obtain d e s' where f: "fread (BLOCKSIZE - length b) s = (d, e, s')" by (metis prod_cases3)
  note fr = fread_frame [OF f]
  have sz: "stream_size s = length d + stream_size s'" by (rule fread_size [OF f])
  have cat: "concat (st_pieces s) = d @ concat (st_pieces s')" by (rule fr(1))
  show ?case
  proof (cases "length (b @ d) = BLOCKSIZE")
    case True
    let ?c = "sha256_process_block (b @ d) BLOCKSIZE c"
    have h: "hashed c pre" using 1(3) by (simp add: ctx_holds_def)
    have "ctx_holds ?c (pre @ b @ d) []"
      using process_block_hashed [OF h, of BLOCKSIZE "b @ d"] True 1(3,6) sz by (simp add: ctx_holds_def)
    from 1(1) [OF f [symmetric] refl True this] show ?thesis
      using f True fr(2,4) 1(5,6) sz cat by (auto simp: sha256_stream_loop.simps [of b s c] split: option.splits)
  next
    case False
    note nf = False
    show ?thesis
    proof (cases "d = []")
      case True
      then have "st_pieces s = []" using fr(6) 1(4,5) by simp
      then show ?thesis using f nf True fr(2) 1(3) by (auto simp: sha256_stream_loop.simps [of b s c])
    next
      case d: False
      show ?thesis
      proof (cases e)
        case True
        then show ?thesis using f nf d fr(5) 1(3) cat by (auto simp: sha256_stream_loop.simps [of b s c])
      next
        case False
        have "length (b @ d) < BLOCKSIZE" using nf fr(3) 1(4) by simp
        from 1(2) [OF f [symmetric] refl nf d False 1(3) this] show ?thesis
          using f nf d False fr(2,4) 1(5,6) sz cat by (auto simp: sha256_stream_loop.simps [of b s c] split: option.splits)
      qed
    qed
  qed
qed

text \<open>
  However the stream is cut into pieces, its hash is that of its contents; an error of the stream is
  reported.
\<close>

lemma sha256_stream_spec:
  assumes "[] \<notin> set (st_pieces s)" and "stream_size s < 2 ^ 32" and "length garbage = 128"
  shows "sha256_stream False garbage s = (if st_error s then (1, None) else (0, Some (sha256_spec (concat (st_pieces s)))))"
proof -
  have h: "ctx_holds (sha256_init_ctx garbage) [] []"
    using assms(3) by (simp add: ctx_holds_def hashed_def sha256_init_ctx_def sha_iv_def sha256_blocks.simps [of "[]"])
  have l: "case sha256_stream_loop [] s (sha256_init_ctx garbage) of None \<Rightarrow> st_error s
    | Some (b', c') \<Rightarrow> \<not> st_error s \<and> (\<exists>pre'. ctx_holds c' pre' [] \<and> pre' @ b' = concat (st_pieces s))"
    using stream_loop_holds [OF h, of "[]" s, unfolded append_Nil] assms(1,2) by simp
  show ?thesis
  proof (cases "sha256_stream_loop [] s (sha256_init_ctx garbage)")
    case None
    then show ?thesis using l assms(2) by (simp add: sha256_stream_def)
  next
    case (Some p)
    obtain b c where p: "p = (b, c)" by fastforce
    obtain pre where ok: "\<not> st_error s" and c: "ctx_holds c pre []" and e: "pre @ b = concat (st_pieces s)"
      using l assms(2) Some p by auto
    have n: "length pre + length b < 2 ^ 32" using assms(2) arg_cong [OF e, of length] by (simp add: stream_size_def length_concat)
    let ?c = "if length b > 0 then sha256_process_bytes False b c else c"
    obtain pre' r' where "ctx_holds ?c pre' r'" "pre' @ r' = concat (st_pieces s)"
    proof (cases "b = []")
      case True
      then show thesis using that [of pre "[]"] c e by simp
    next
      case False
      then show thesis using that process_bytes_holds [OF c, of b False] n e by auto
    qed
    note d = this
    have "length pre' + length r' < 2 ^ 32" using assms(2) arg_cong [OF d(2), of length] by (simp add: stream_size_def length_concat)
    from conclude_holds [OF d(1) this] have "sha256_finish_ctx ?c = sha256_spec (concat (st_pieces s))"
      by (simp add: sha256_finish_ctx_def sha256_read_ctx_def set_uint32_be d(2) sha256_spec_def Let_def blocks_spec sha_iv_def)
    then show ?thesis using ok by (simp add: sha256_stream_def Some p)
  qed
qed

end
