(* ===== verification/Cards.thy ===== *)
theory Cards
  imports Agent_Client
begin

text \<open>
  Printed passcards, \<open>src/src/utility/cards.c\<close>: the layout of one card in a character buffer and
  of six cards in a LaTeX document.  The buffers are modelled with their sizes: a write that
  reaches past the end of a buffer is \<open>None\<close>.
\<close>

subsection \<open>Buffers\<close>

definition put :: "string \<Rightarrow> nat \<Rightarrow> string \<Rightarrow> string option" where
  "put buf pos s = do { assert_that (pos + length s \<le> length buf); Some (memcpy_at buf pos s) }"

abbreviation (input) NL :: char where "NL \<equiv> CHR 0x0A"
abbreviation (input) BS :: char where "BS \<equiv> CHR 0x5C"
abbreviation (input) NUL :: char where "NUL \<equiv> CHR 0x00"

abbreviation (input) STATE_LABEL_SIZE :: nat where "STATE_LABEL_SIZE \<equiv> 30"
abbreviation (input) CARD_ROWS :: nat where "CARD_ROWS \<equiv> 10"

definition card_columns :: string where
  "card_columns = ''ABCDEFGHIJKLMNOP''"

subsection \<open>One card\<close>

text \<open>\<open>sprintf(card, "%2d: ", i)\<close>, with the NUL it writes.\<close>

definition row_head :: "nat \<Rightarrow> string" where
  "row_head i = (let d = nat_str upper_digit 10 i in replicate (2 - length d) (CHR '' '') @ d @ '': '' @ [NUL])"

function card_head_columns :: "nat \<Rightarrow> nat \<Rightarrow> nat \<Rightarrow> string \<Rightarrow> nat \<Rightarrow> (string \<times> nat) option" where
  "card_head_columns in_row len i buf pos =
     do { assert_that (i \<le> length card_columns);
          buf \<leftarrow> put buf pos [(card_columns @ [NUL]) ! i];
          let i = i + 1;
          let pos = pos + len + 1;
          if i < in_row then card_head_columns in_row len i buf pos else Some (buf, pos) }"
  by pat_completeness auto
termination by (relation "measure (\<lambda>(in_row, _, i, _). in_row - i)") auto

declare card_head_columns.simps [simp del]

text \<open>
  The passcodes from the one at column \<open>y\<close> on.  The array \<open>passcode[17]\<close> holds what the agent has
  answered, padded with NUL.  The inner \<open>None\<close> is an error of the agent.
\<close>

function card_row ::
    "nat \<Rightarrow> nat \<Rightarrow> nat \<Rightarrow> string \<Rightarrow> nat \<Rightarrow> num_t \<Rightarrow> client \<Rightarrow> pipe \<Rightarrow> world \<Rightarrow>
     ((string \<times> nat \<times> num_t) option \<times> client \<times> pipe \<times> world) option" where
  "card_row in_row len y buf pos code_num a p w =
     (if y < in_row
      then do { (ret, passcode, a, p, w) \<leftarrow> agent_get_passcode a code_num p w;
                case passcode of
                  None \<Rightarrow> Some (None, a, p, w)
                | Some s \<Rightarrow>
                    if ret \<noteq> 0 then Some (None, a, p, w)
                    else do { buf \<leftarrow> put buf pos (take len (s @ replicate (17 - length s) NUL));
                              (buf, pos) \<leftarrow>
                                (if y + 1 \<noteq> in_row then Some (buf, pos + len + 1)
                                 else do { buf \<leftarrow> put buf (pos + len) [NL]; Some (buf, pos + len + 1) });
                              card_row in_row len (y + 1) buf pos (num_add code_num (num_i 1)) a p w } }
      else Some (Some (buf, pos, code_num), a, p, w))"
  by pat_completeness auto
termination by (relation "measure (\<lambda>(in_row, _, y, _). in_row - y)") auto

declare card_row.simps [simp del]

function card_rows ::
    "nat \<Rightarrow> nat \<Rightarrow> nat \<Rightarrow> string \<Rightarrow> nat \<Rightarrow> num_t \<Rightarrow> client \<Rightarrow> pipe \<Rightarrow> world \<Rightarrow>
     (string option \<times> client \<times> pipe \<times> world) option" where
  "card_rows in_row len i buf pos code_num a p w =
     (if i < 1 + CARD_ROWS
      then do { buf \<leftarrow> put buf pos (row_head i);
                (r, a, p, w) \<leftarrow> card_row in_row len 0 buf (pos + 4) code_num a p w;
                case r of
                  None \<Rightarrow> Some (None, a, p, w)
                | Some (buf, pos, code_num) \<Rightarrow>
                    card_rows in_row len (i + 1) buf pos code_num a p w }
      else Some (Some buf, a, p, w))"
  by pat_completeness auto
termination by (relation "measure (\<lambda>(_, _, i, _). 11 - i)") auto

declare card_rows.simps [simp del]

text \<open>
  The label: the one of the state, or the name of the host, for which the result of \<open>malloc\<close> is not
  checked.  \<open>host\<close> is what \<open>gethostname\<close> gives.
\<close>

definition card_label :: "string \<Rightarrow> string \<Rightarrow> world \<Rightarrow> (string \<times> world) option" where
  "card_label host lab w =
     (if length lab > 0 then Some (lab, w)
      else do { let (nomem, w) = fault w;
                assert_that (\<not> nomem);
                Some (takeWhile (\<lambda>c. c \<noteq> NUL) (take STATE_LABEL_SIZE host), w) })"

text \<open>The label cut to its place, and the number cut to what the label leaves.\<close>

definition cut_label :: "nat \<Rightarrow> string \<Rightarrow> string" where
  "cut_label width lab =
     (let label_len_max = width - 8
      in if length lab > label_len_max then take (label_len_max - 3) lab @ ''...'' else lab)"

definition cut_number :: "nat \<Rightarrow> string \<Rightarrow> string \<Rightarrow> string" where
  "cut_number width lab num =
     (if length num + 3 + length lab > width
      then let place = width - 3 - length lab in CHR ''*'' # drop (length num - place + 1) num
      else num)"

definition card_first_line :: "nat \<Rightarrow> string \<Rightarrow> string \<Rightarrow> string \<Rightarrow> string option" where
  "card_first_line width lab num buf =
     do { let lab = cut_label width lab;
          let num = cut_number width lab num;
          buf \<leftarrow> put buf 0 lab;
          let pos = width - length num - 2;
          buf \<leftarrow> put buf pos ''['';
          buf \<leftarrow> put buf (pos + 1) num;
          buf \<leftarrow> put buf (pos + 1 + length num) '']'';
          put buf (pos + 2 + length num) [NL] }"

definition card_width :: "nat \<Rightarrow> nat \<Rightarrow> nat" where
  "card_width in_row len = (1 + len) * in_row + 3"

definition card_size :: "nat \<Rightarrow> nat \<Rightarrow> nat" where
  "card_size in_row len = (card_width in_row len + 1) * (CARD_ROWS + 2) + 1"

definition card_ascii ::
    "string \<Rightarrow> client \<Rightarrow> num_t \<Rightarrow> pipe \<Rightarrow> world \<Rightarrow> (string option \<times> client \<times> pipe \<times> world) option" where
  "card_ascii host a passcard p w =
     (let (ret, field, a, p, w) = agent_get_int a (word_of_int PPP_FIELD_CODE_LENGTH) p w
      in case field of
           None \<Rightarrow> Some (None, a, p, w)
         | Some l \<Rightarrow>
             do { r \<leftarrow> ppp_get_codes_per_row l;
                  let len = nat l;
                  let in_row = nat r;
                  let on_card = in_row * CARD_ROWS;
                  let width = card_width in_row len;
                  let size = card_size in_row len;
                  let (nomem, w) = fault w;
                  if nomem then Some (None, a, p, w)
                  else do { let buf = replicate size (CHR '' '');
                            (ret, lab, a, p, w) \<leftarrow> agent_get_str a (word_of_int PPP_FIELD_LABEL) p w;
                            if ret \<noteq> 0 then Some (None, a, p, w)
                            else do { (lab, w) \<leftarrow> card_label host (case lab of None \<Rightarrow> [] | Some s \<Rightarrow> s) w;
                                      num \<leftarrow> num_export passcard NUM_FORMAT_DEC;
                                      buf \<leftarrow> card_first_line width lab num buf;
                                      (buf, pos) \<leftarrow> card_head_columns in_row len 0 buf (width + 1 + 4);
                                      buf \<leftarrow> put buf (pos - 1) [NL];
                                      let code_num = num_mul_i (num_sub passcard (num_i 1)) (of_nat on_card);
                                      (r, a, p, w) \<leftarrow> card_rows in_row len 1 buf pos code_num a p w;
                                      case r of
                                        None \<Rightarrow> Some (None, a, p, w)
                                      | Some buf \<Rightarrow>
                                          do { buf \<leftarrow> put buf (size - 1) [NUL]; Some (Some buf, a, p, w) } } } })"

subsection \<open>Six cards in a LaTeX document\<close>

definition latex_intro :: string where
  "latex_intro =
     BS # ''documentclass[11pt,twocolumn,a4paper]{article}'' @ [NL] @
     BS # ''usepackage{fullpage}'' @ [NL] @
     BS # ''pagestyle{empty}'' @ [NL] @
     BS # ''begin{document}'' @ [NL]"

definition latex_block_start :: string where
  "latex_block_start = BS # ''begin{verbatim}'' @ [NL]"

definition latex_block_stop :: string where
  "latex_block_stop = BS # ''end{verbatim}'' @ [NL] @ BS # ''newpage''"

definition latex_outro :: string where
  "latex_outro = BS # ''end{document}'' @ [NL]"

definition latex_size :: nat where
  "latex_size =
     (length latex_intro + 1) + (length latex_outro + 1) + (length latex_block_start + 1) * 2 +
     (length latex_block_stop + 1) * 2 + (60 * CARD_ROWS) * 6"

text \<open>The cards \<open>i\<close> to \<open>final\<close>, with a line feed between them.\<close>

function latex_cards ::
    "string \<Rightarrow> nat \<Rightarrow> nat \<Rightarrow> num_t \<Rightarrow> string \<Rightarrow> nat \<Rightarrow> client \<Rightarrow> pipe \<Rightarrow> world \<Rightarrow>
     ((string \<times> nat) option \<times> client \<times> pipe \<times> world) option" where
  "latex_cards host i final number whole_card pos a p w =
     (if i \<le> final
      then do { (part, a, p, w) \<leftarrow> card_ascii host a (num_add number (num_i (of_nat i))) p w;
                case part of
                  None \<Rightarrow> Some (None, a, p, w)
                | Some part \<Rightarrow>
                    do { let part = takeWhile (\<lambda>c. c \<noteq> NUL) part;
                         whole_card \<leftarrow> put whole_card pos part;
                         let pos = pos + length part;
                         (whole_card, pos) \<leftarrow>
                           (if i \<noteq> final then do { whole_card \<leftarrow> put whole_card pos [NL]; Some (whole_card, pos + 1) }
                            else Some (whole_card, pos));
                         latex_cards host (i + 1) final number whole_card pos a p w } }
      else Some (Some (whole_card, pos), a, p, w))"
  by pat_completeness auto
termination by (relation "measure (\<lambda>(_, i, final, _). Suc final - i)") auto

declare latex_cards.simps [simp del]

text \<open>A text appended at the position that is advanced by it.\<close>

definition put_end :: "string \<Rightarrow> string \<times> nat \<Rightarrow> (string \<times> nat) option" where
  "put_end s bp = do { b \<leftarrow> put (fst bp) (snd bp) s; Some (b, snd bp + length s) }"

definition card_latex ::
    "string \<Rightarrow> client \<Rightarrow> num_t \<Rightarrow> pipe \<Rightarrow> world \<Rightarrow> (string option \<times> client \<times> pipe \<times> world) option" where
  "card_latex host a number p w =
     (let (ret, m, a, p, w) = agent_get_num a (word_of_int PPP_FIELD_MAX_CARD) p w
      in case m of
           None \<Rightarrow> Some (None, a, p, w)
         | Some mx \<Rightarrow>
             if num_cmp number (num_sub mx (num_i 5)) > 0 then Some (None, a, p, w)
             else let (nomem, w) = fault w
                  in if nomem then Some (None, a, p, w)
                     else do { b \<leftarrow> put_end latex_intro (replicate latex_size NUL, 0);
                               (whole_card, pos) \<leftarrow> put_end latex_block_start b;
                               (r, a, p, w) \<leftarrow> latex_cards host 0 2 number whole_card pos a p w;
                               case r of
                                 None \<Rightarrow> Some (None, a, p, w)
                               | Some b \<Rightarrow>
                                   do { b \<leftarrow> put_end [NL, NL] b;
                                        b \<leftarrow> put_end latex_block_stop b;
                                        (whole_card, pos) \<leftarrow> put_end latex_block_start b;
                                        (r, a, p, w) \<leftarrow> latex_cards host 3 5 number whole_card pos a p w;
                                        case r of
                                          None \<Rightarrow> Some (None, a, p, w)
                                        | Some b \<Rightarrow>
                                            do { b \<leftarrow> put_end latex_block_stop b;
                                                 b \<leftarrow> put_end latex_outro b;
                                                 Some (Some (fst b), a, p, w) } } })"

end
