(* ===== verification/Actions_Helpers.thy ===== *)
theory Actions_Helpers
  imports Cards
begin

text \<open>
  The helpers of the command line utility, \<open>src/src/utility/actions_helpers.c\<close>: questions to the
  user, the texts that show the state, options sent to the agent, and the specification of a
  passcode or a passcard on the command line.  The terminal is a text still to be read, the text
  written so far, and whether it echoes; what a command shows is modelled, prompts, hints and error
  messages are left out.
\<close>

subsection \<open>The utility and its surroundings\<close>

record uio =
  u_agent :: client
  u_pipe :: pipe
  u_world :: world
  u_in :: string
  u_out :: string
  u_echo :: bool

definition ask :: "(client \<Rightarrow> pipe \<Rightarrow> world \<Rightarrow> int \<times> client \<times> pipe \<times> world) \<Rightarrow> uio \<Rightarrow> int \<times> uio" where
  "ask f u =
     (let (ret, c, p, w) = f (u_agent u) (u_pipe u) (u_world u) in (ret, u\<lparr>u_agent := c, u_pipe := p, u_world := w\<rparr>))"

definition ask_str :: "(client \<Rightarrow> pipe \<Rightarrow> world \<Rightarrow> (int \<times> client \<times> pipe \<times> world) option) \<Rightarrow> uio \<Rightarrow> (int \<times> uio) option" where
  "ask_str f u =
     do { (ret, c, p, w) \<leftarrow> f (u_agent u) (u_pipe u) (u_world u);
          Some (ret, u\<lparr>u_agent := c, u_pipe := p, u_world := w\<rparr>) }"

definition fetch :: "(client \<Rightarrow> pipe \<Rightarrow> world \<Rightarrow> int \<times> 'a \<times> client \<times> pipe \<times> world) \<Rightarrow> uio \<Rightarrow> int \<times> 'a \<times> uio" where
  "fetch f u =
     (let (ret, x, c, p, w) = f (u_agent u) (u_pipe u) (u_world u)
      in (ret, x, u\<lparr>u_agent := c, u_pipe := p, u_world := w\<rparr>))"

definition fetch_str ::
    "(client \<Rightarrow> pipe \<Rightarrow> world \<Rightarrow> (int \<times> 'a \<times> client \<times> pipe \<times> world) option) \<Rightarrow> uio \<Rightarrow> (int \<times> 'a \<times> uio) option" where
  "fetch_str f u =
     do { (ret, x, c, p, w) \<leftarrow> f (u_agent u) (u_pipe u) (u_world u);
          Some (ret, x, u\<lparr>u_agent := c, u_pipe := p, u_world := w\<rparr>) }"

definition u_fault :: "uio \<Rightarrow> bool \<times> uio" where
  "u_fault u = (let (bad, w) = fault (u_world u) in (bad, u\<lparr>u_world := w\<rparr>))"

definition say :: "string \<Rightarrow> uio \<Rightarrow> uio" where
  "say s u = u\<lparr>u_out := u_out u @ s\<rparr>"

text \<open>\<open>fgets(buf, n, stdin)\<close>: the C string in the buffer, or \<open>None\<close> at the end of the input.\<close>

definition u_gets :: "nat \<Rightarrow> uio \<Rightarrow> string option \<times> uio" where
  "u_gets n u =
     (if u_in u = [] then (None, u)
      else let l = fgets_len n (u_in u) in (Some (c_str (take l (u_in u))), u\<lparr>u_in := drop l (u_in u)\<rparr>))"

definition strcasecmp_eq :: "string \<Rightarrow> string \<Rightarrow> bool" where
  "strcasecmp_eq a b \<longleftrightarrow> map tolower a = map tolower b"

text \<open>The options of the command line; \<open>NULL\<close> is \<open>None\<close>, no action is the character 0.\<close>

record options_t =
  action :: char
  action_arg :: "string option"
  o_label :: "string option"
  o_contact :: "string option"
  o_spass :: "string option"
  o_username :: "string option"
  verbose :: int
  flag_set_mask :: u32
  flag_clear_mask :: u32
  set_codelength :: int
  set_alphabet :: int
  user_has_state :: bool

subsection \<open>Questions\<close>

abbreviation (input) QUERY_YES :: int where "QUERY_YES \<equiv> 0"
abbreviation (input) QUERY_NO :: int where "QUERY_NO \<equiv> 2"
abbreviation (input) QUERY_OBSCURE :: int where "QUERY_OBSCURE \<equiv> 1"

text \<open>
  The last character is stripped whether or not it is a line feed; for an empty string (a line
  that starts with a NUL) the write is in front of the buffer.
\<close>

definition ah_yes_or_no :: "uio \<Rightarrow> (int \<times> uio) option" where
  "ah_yes_or_no u =
     (let (line, u) = u_gets 20 u
      in case line of
           None \<Rightarrow> Some (1, u)
         | Some buf \<Rightarrow>
             do { assert_that (buf \<noteq> []);
                  let buf = butlast buf;
                  Some (if strcasecmp_eq buf ''yes'' then QUERY_YES
                        else if strcasecmp_eq buf ''no'' then QUERY_NO
                        else QUERY_OBSCURE, u) })"

text \<open>The loop does not end when the input has ended.\<close>

partial_function (option) ah_enforced_yes_or_no :: "uio \<Rightarrow> (int \<times> uio) option" where
  "ah_enforced_yes_or_no u =
     do { (ret, u) \<leftarrow> ah_yes_or_no u;
          if ret \<noteq> QUERY_YES \<and> ret \<noteq> QUERY_NO then ah_enforced_yes_or_no u else Some (ret, u) }"

declare ah_enforced_yes_or_no.simps [code]

definition ah_get_pass :: "uio \<Rightarrow> string option \<times> uio" where
  "ah_get_pass u =
     (let (bad, u) = u_fault u
      in if bad then (None, u)
         else let copy = u_echo u; (bad, u) = u_fault u
              in if bad then (None, u)
                 else let u = u\<lparr>u_echo := False\<rparr>;
                          (buf, u) = u_gets 128 u;
                          (res, u) =
                            (case buf of
                               None \<Rightarrow> (None, u)
                             | Some buf \<Rightarrow>
                                 let (buf2, u) = u_gets 128 u
                                 in (case buf2 of
                                       None \<Rightarrow> None
                                     | Some buf2 \<Rightarrow> if buf = buf2 then Some (butlast buf) else None, u));
                          (bad, u) = u_fault u
                      in (res, if bad then u else u\<lparr>u_echo := copy\<rparr>))"

subsection \<open>What the user is shown\<close>

definition num_print_dec :: "num_t \<Rightarrow> uio \<Rightarrow> uio option" where
  "num_print_dec n u = map_option (\<lambda>s. say s u) (num_export n NUM_FORMAT_DEC)"

definition num_print_hex :: "num_t \<Rightarrow> bool \<Rightarrow> uio \<Rightarrow> uio option" where
  "num_print_hex n msb u = map_option (\<lambda>s. say s u) (num_export n (if msb then NUM_FORMAT_HEX else NUM_FORMAT_PPP_HEX))"

definition crypto_print_hex :: "bytes \<Rightarrow> uio \<Rightarrow> uio" where
  "crypto_print_hex b u = say (concat (map print_02X b) @ [NL]) u"

definition get_num :: "int \<Rightarrow> uio \<Rightarrow> int \<times> num_t option \<times> uio" where
  "get_num field = fetch (\<lambda>c. agent_get_num c (word_of_int field))"

definition get_int :: "int \<Rightarrow> uio \<Rightarrow> int \<times> int option \<times> uio" where
  "get_int field = fetch (\<lambda>c. agent_get_int c (word_of_int field))"

definition get_str :: "int \<Rightarrow> uio \<Rightarrow> (int \<times> string option \<times> uio) option" where
  "get_str field = fetch_str (\<lambda>c. agent_get_str c (word_of_int field))"

text \<open>Several numbers from the agent, up to the first error.\<close>

fun get_nums :: "int list \<Rightarrow> uio \<Rightarrow> (int + num_t list) \<times> uio" where
  "get_nums [] u = (Inr [], u)"
| "get_nums (f # fs) u =
     (case get_num f u of
        (ret, Some n, u) \<Rightarrow> (case get_nums fs u of (Inr ns, u) \<Rightarrow> (Inr (n # ns), u) | (Inl e, u) \<Rightarrow> (Inl e, u))
      | (ret, None, u) \<Rightarrow> (Inl ret, u))"

fun get_ints :: "int list \<Rightarrow> uio \<Rightarrow> (int + int list) \<times> uio" where
  "get_ints [] u = (Inr [], u)"
| "get_ints (f # fs) u =
     (case get_int f u of
        (ret, Some n, u) \<Rightarrow> (case get_ints fs u of (Inr ns, u) \<Rightarrow> (Inr (n # ns), u) | (Inl e, u) \<Rightarrow> (Inl e, u))
      | (ret, None, u) \<Rightarrow> (Inl ret, u))"

definition print_field :: "string \<Rightarrow> num_t \<Rightarrow> uio \<Rightarrow> uio option" where
  "print_field name n u = do { u \<leftarrow> num_print_dec n (say name u); Some (say [NL] u) }"

definition ah_show_state :: "uio \<Rightarrow> (int \<times> uio) option" where
  "ah_show_state u =
     (case get_nums [PPP_FIELD_CURRENT_CARD, PPP_FIELD_UNSALTED_COUNTER, PPP_FIELD_LATEST_CARD, PPP_FIELD_MAX_CARD, PPP_FIELD_MAX_CODE] u of
        (Inl ret, u) \<Rightarrow> Some (ret, u)
      | (Inr ns, u) \<Rightarrow>
          (case get_ints [PPP_FIELD_FAILURES, PPP_FIELD_RECENT_FAILURES, PPP_FIELD_SPASS_SET] u of
             (Inl ret, u) \<Rightarrow> Some (ret, u)
           | (Inr is, u) \<Rightarrow>
               do { u \<leftarrow> print_field ''Current card        = '' (ns ! 0) u;
                    u \<leftarrow> print_field ''Current code        = '' (ns ! 1) u;
                    u \<leftarrow> print_field ''Latest printed card = '' (ns ! 2) u;
                    u \<leftarrow> print_field ''Max card            = '' (ns ! 3) u;
                    u \<leftarrow> print_field ''Max code            = '' (ns ! 4) u;
                    let u = say (if is ! 2 \<noteq> 0 then ''Static password is set.'' else ''Static password is not set.'') u;
                    let u = say [NL, NL] u;
                    let u = say (''All auth failures   = '' @ print_d (is ! 0) @ [NL]) u;
                    Some (0, say (''Recent failures     = '' @ print_d (is ! 1) @ [NL]) u) }))"

definition ah_show_flags :: "uio \<Rightarrow> (int \<times> uio) option" where
  "ah_show_flags u =
     (case fetch agent_flag_get u of
        (ret, None, u) \<Rightarrow> Some (ret, u)
      | (ret, Some fl, u) \<Rightarrow>
     (case get_ints [PPP_FIELD_CODE_LENGTH, PPP_FIELD_ALPHABET] u of
        (Inl ret, u) \<Rightarrow> Some (ret, u)
      | (Inr is, u) \<Rightarrow>
          do { (ret, con, u) \<leftarrow> get_str PPP_FIELD_CONTACT u;
               if ret \<noteq> 0 then Some (ret, u)
               else do { (ret, lab, u) \<leftarrow> get_str PPP_FIELD_LABEL u;
                         if ret \<noteq> 0 then Some (ret, u)
                         else let fl = (word_of_int fl :: u32);
                                  u = say (if fl AND FLAG_SHOW \<noteq> 0 then ''show=on '' else ''show=off '') u;
                                  u = say (if fl AND FLAG_DISABLED \<noteq> 0 then ''disabled=on '' else ''disabled=off '') u;
                                  u = say (''alphabet='' @ print_d (is ! 1) @ '' '') u;
                                  u = say (''code_length='' @ print_d (is ! 0) @ '' '') u;
                                  u = say ((if fl AND FLAG_SALTED \<noteq> 0 then ''(salt=on)'' else ''(salt=off)'') @ [NL]) u;
                                  u = say (case lab of
                                             Some (x # xs) \<Rightarrow> ''Passcard label='' @ [CHR 0x22] @ (x # xs) @ [CHR 0x22] @ '', ''
                                           | _ \<Rightarrow> ''No label, '') u;
                                  u = say (case con of
                                             Some (x # xs) \<Rightarrow> ''contact='' @ [CHR 0x22] @ (x # xs) @ [CHR 0x22] @ ''.'' @ [NL]
                                           | _ \<Rightarrow> ''no contact information.'' @ [NL]) u
                              in Some (0, u) } }))"

definition ah_show_keys :: "uio \<Rightarrow> (int \<times> uio) option" where
  "ah_show_keys u =
     (case fetch agent_get_key u of
        (ret, None, u) \<Rightarrow> Some (ret, u)
      | (ret, Some key, u) \<Rightarrow>
          (case get_num PPP_FIELD_COUNTER u of
             (ret, None, u) \<Rightarrow> Some (ret, u)
           | (ret, Some cnt, u) \<Rightarrow>
               do { let u = crypto_print_hex (map (\<lambda>c. of_nat (code c)) key) (say ''Key     = '' u);
                    u \<leftarrow> num_print_hex cnt True (say ''Counter = '' u);
                    Some (0, say [NL] u) }))"

subsection \<open>Options sent to the agent\<close>

definition set_int :: "int \<Rightarrow> int \<Rightarrow> uio \<Rightarrow> int \<times> uio" where
  "set_int field x = ask (\<lambda>c. agent_set_int c (word_of_int field) (word_of_int x))"

definition set_str :: "int \<Rightarrow> string \<Rightarrow> uio \<Rightarrow> (int \<times> uio) option" where
  "set_str field s = ask_str (\<lambda>c. agent_set_str c (word_of_int field) (Some s))"

text \<open>\<open>unless_error r f\<close>: the next step where the last one has returned 0.\<close>

definition unless_error :: "int \<times> uio \<Rightarrow> (uio \<Rightarrow> (int \<times> uio) option) \<Rightarrow> (int \<times> uio) option" where
  "unless_error r f = (case r of (ret, u) \<Rightarrow> if ret \<noteq> 0 then Some (ret, u) else f u)"

definition ah_set_options :: "options_t \<Rightarrow> uio \<Rightarrow> (int \<times> uio) option" where
  "ah_set_options opt u =
     unless_error (if flag_set_mask opt \<noteq> 0 then ask (\<lambda>c. agent_flag_add c (flag_set_mask opt)) u else (0, u)) (\<lambda>u.
     unless_error (if flag_clear_mask opt \<noteq> 0 then ask (\<lambda>c. agent_flag_clear c (flag_clear_mask opt)) u else (0, u)) (\<lambda>u.
     unless_error (if set_codelength opt \<noteq> -1 then set_int PPP_FIELD_CODE_LENGTH (set_codelength opt) u else (0, u)) (\<lambda>u.
     unless_error (if set_alphabet opt \<noteq> -1 then set_int PPP_FIELD_ALPHABET (set_alphabet opt) u else (0, u)) (\<lambda>u.
     do { r \<leftarrow> (case o_contact opt of Some s \<Rightarrow> set_str PPP_FIELD_CONTACT s u | None \<Rightarrow> Some (0, u));
          unless_error r (\<lambda>u.
     do { r \<leftarrow> (case o_label opt of Some s \<Rightarrow> set_str PPP_FIELD_LABEL s u | None \<Rightarrow> Some (0, u));
          unless_error r (\<lambda>u. Some (0, u)) }) }))))"

subsection \<open>The specification of a passcode or a passcard\<close>

definition isalpha :: "char \<Rightarrow> bool" where
  "isalpha c \<longleftrightarrow> isupper c \<or> islower c"

definition toupper :: "char \<Rightarrow> char" where
  "toupper c = (if islower c then char_of (code c - 32) else c)"

text \<open>\<open>%d\<close> within a longer format: the number and the rest of the text.\<close>

definition scan_d_rest :: "string \<Rightarrow> (int \<times> string) option" where
  "scan_d_rest s =
     (let t = dropWhile isspace s;
          t = (if t \<noteq> [] \<and> (hd t = CHR ''-'' \<or> hd t = CHR ''+'') then tl t else t)
      in if takeWhile isdigit t = [] then None else Some (snd (scan_d s), dropWhile isdigit t))"

text \<open>
  \<open>%c%d[%40[^]]\<close> and \<open>%d%c[%40[^]]\<close>; what the formats have after that is not converted.  \<open>None\<close> is a
  result other than 3.
\<close>

definition scan_number :: "string \<Rightarrow> string \<Rightarrow> string option" where
  "scan_number stop s =
     (if s \<noteq> [] \<and> hd s = CHR ''['' \<and> takeWhile (\<lambda>c. c \<notin> set stop) (take 40 (tl s)) \<noteq> []
      then Some (takeWhile (\<lambda>c. c \<notin> set stop) (take 40 (tl s))) else None)"

definition scan_crr :: "string \<Rightarrow> (char \<times> int \<times> string) option" where
  "scan_crr s =
     (case s of [] \<Rightarrow> None
      | c # s \<Rightarrow> do { (row, s) \<leftarrow> scan_d_rest s; num \<leftarrow> scan_number '']'' s; Some (c, row, num) })"

definition scan_rrc :: "string \<Rightarrow> (char \<times> int \<times> string) option" where
  "scan_rrc s =
     do { (row, s) \<leftarrow> scan_d_rest s;
          case s of [] \<Rightarrow> None | c # s \<Rightarrow> do { num \<leftarrow> scan_number '']'' s; Some (c, row, num) } }"

text \<open>\<open>row\<close> is a \<open>char\<close>, so the row on the command line is cut down to eight bits.\<close>

definition ah_get_passcode_number :: "num_t \<Rightarrow> num_t \<Rightarrow> char \<Rightarrow> int \<Rightarrow> uio \<Rightarrow> int \<times> num_t \<times> uio" where
  "ah_get_passcode_number passcard passcode column row u =
     (case get_ints [PPP_FIELD_CODES_ON_CARD, PPP_FIELD_CODES_IN_ROW] u of
        (Inl ret, u) \<Rightarrow> (ret, passcode, u)
      | (Inr is, u) \<Rightarrow>
          let on_card = is ! 0; in_row = is ! 1; row = sint (word_of_int row :: u8); col = sint (of_nat (code column) :: u8)
          in if col < 65 \<or> col \<ge> 65 + in_row then (1, passcode, u)
             else if row < 1 \<or> row > 10 then (1, passcode, u)
             else let passcode = num_mul_i (num_sub passcard (num_i 1)) (word_of_int on_card);
                      passcode = num_add passcode (num_i (word_of_int ((row - 1) * in_row)));
                      passcode = num_add passcode (num_i (word_of_int (col - 65)))
                  in (0, passcode, u))"

abbreviation (input) PRINT_CODE :: int where "PRINT_CODE \<equiv> 1"
abbreviation (input) PRINT_CARD :: int where "PRINT_CARD \<equiv> 2"

text \<open>
  What the function selects, the number it stores through the pointer \<open>item\<close> (whose value before the
  call is given), and the utility after the questions to the agent.
\<close>

definition ah_parse_code_spec :: "string \<Rightarrow> num_t \<Rightarrow> uio \<Rightarrow> int \<times> num_t \<times> uio" where
  "ah_parse_code_spec spec item u =
     (case get_nums [PPP_FIELD_CURRENT_CARD, PPP_FIELD_UNSALTED_COUNTER, PPP_FIELD_LATEST_CARD, PPP_FIELD_MAX_CARD, PPP_FIELD_MAX_CODE] u of
        (Inl ret, u) \<Rightarrow> (5, item, u)
      | (Inr ns, u) \<Rightarrow>
     (let current = ns ! 0; unsalted = ns ! 1; latest = ns ! 2;
          has_passcard_mark = (\<exists>c \<in> set spec. c = CHR ''['' \<or> c = CHR '']'');
          has_row_mark = (length (filter (\<lambda>c. isascii c \<and> isalpha c) spec) = 1)
      in if strcasecmp_eq spec ''current'' then (PRINT_CODE, unsalted, u)
         else if strcasecmp_eq spec ''[current]'' then (PRINT_CARD, current, u)
         else if strcasecmp_eq spec ''next'' \<or> strcasecmp_eq spec ''[next]''
         then (PRINT_CARD, if num_cmp current latest > 0 then current else num_add latest (num_i 1), u)
         else if \<not> has_row_mark \<and> spec \<noteq> [] \<and> isdigit (hd spec)
         then if \<not> list_all isdigit spec then (-1, item, u)
              else let (ret, item) = num_import spec NUM_FORMAT_DEC
                   in if ret \<noteq> 0 then (-1, item, u)
                      else if num_cmp (num_i 1) item > 0 then (-1, item, u)
                      else (PRINT_CODE, num_sub item (num_i 1), u)
         else if spec \<noteq> [] \<and> hd spec = CHR ''['' \<and> last spec = CHR '']''
         then case scan_number '']s'' spec of
                None \<Rightarrow> (-1, item, u)
              | Some number \<Rightarrow>
                  let (ret, item) = num_import number NUM_FORMAT_DEC
                  in if ret \<noteq> 0 then (-1, item, u)
                     else if num_cmp (num_i 1) item > 0 then (-1, item, u)
                     else (PRINT_CARD, item, u)
         else if has_passcard_mark
         then case (if isascii (hd spec) \<and> isalpha (hd spec) then scan_crr spec
                    else if isdigit (hd spec) then scan_rrc spec
                    else None) of
                None \<Rightarrow> (-1, item, u)
              | Some (column, row, number) \<Rightarrow>
                  let column = toupper column
                  in if code column < 65 \<or> code column > 74 then (-1, item, u)
                     else let (ret, passcard) = num_import number NUM_FORMAT_DEC
                          in if ret \<noteq> 0 then (-1, item, u)
                             else if num_cmp (num_i 1) passcard > 0 then (-1, item, u)
                             else let (ret, item, u) = ah_get_passcode_number passcard item column row u
                                  in if ret \<noteq> 0 then (ret, item, u) else (PRINT_CODE, item, u)
         else (-1, item, u)))"

end
