(* ===== verification/Actions.thy ===== *)
theory Actions
  imports Actions_Helpers
begin

text \<open>
  The actions of the command line utility, \<open>src/src/utility/actions.c\<close>.  Each gives the value it
  returns and the utility after it; \<open>None\<close> is a crash, a failing assertion, or a loop that does
  not end.  \<open>host\<close> is the name of the machine.
\<close>

abbreviation (input) OPTION_KEY :: char where "OPTION_KEY \<equiv> CHR ''k''"
abbreviation (input) OPTION_REMOVE :: char where "OPTION_REMOVE \<equiv> CHR ''r''"
abbreviation (input) OPTION_SKIP :: char where "OPTION_SKIP \<equiv> CHR ''s''"
abbreviation (input) OPTION_TEXT :: char where "OPTION_TEXT \<equiv> CHR ''t''"
abbreviation (input) OPTION_LATEX :: char where "OPTION_LATEX \<equiv> CHR ''l''"
abbreviation (input) OPTION_PROMPT :: char where "OPTION_PROMPT \<equiv> CHR ''P''"
abbreviation (input) OPTION_AUTH :: char where "OPTION_AUTH \<equiv> CHR ''a''"
abbreviation (input) OPTION_WARN :: char where "OPTION_WARN \<equiv> CHR ''w''"
abbreviation (input) OPTION_INFO :: char where "OPTION_INFO \<equiv> CHR ''i''"
abbreviation (input) OPTION_INFO_KEY :: char where "OPTION_INFO_KEY \<equiv> CHR ''I''"
abbreviation (input) OPTION_CONFIG :: char where "OPTION_CONFIG \<equiv> CHR ''c''"
abbreviation (input) OPTION_SPASS :: char where "OPTION_SPASS \<equiv> CHR ''p''"
abbreviation (input) OPTION_USER :: char where "OPTION_USER \<equiv> CHR ''u''"
abbreviation (input) OPTION_VERBOSE :: char where "OPTION_VERBOSE \<equiv> CHR ''v''"
abbreviation (input) OPTION_CHECK :: char where "OPTION_CHECK \<equiv> CHR ''x''"
abbreviation (input) OPTION_VERSION :: char where "OPTION_VERSION \<equiv> CHR ''Q''"
abbreviation (input) OPTION_HELP :: char where "OPTION_HELP \<equiv> CHR ''h''"
abbreviation (input) OPTION_ALPHABETS :: char where "OPTION_ALPHABETS \<equiv> CHR ''A''"

subsection \<open>Before and after an action\<close>

text \<open>
  \<open>pid\<close> and \<open>wait\<close> are the results of \<open>fork\<close> and \<open>agent_wait\<close>.  The third component of the result
  says whether there is an agent to disconnect from.
\<close>

definition action_init :: "int \<Rightarrow> int \<Rightarrow> options_t \<Rightarrow> uio \<Rightarrow> (int \<times> options_t \<times> bool \<times> uio) option" where
  "action_init pid wait opt u =
     (let (ret, a, p, w) = agent_connect None pid wait (u_pipe u) (u_world u); u = u\<lparr>u_pipe := p, u_world := w\<rparr>
      in case a of
           None \<Rightarrow> Some (ret, opt, False, u)
         | Some a \<Rightarrow>
             do { let u = u\<lparr>u_agent := a\<rparr>;
                  (ret, u) \<leftarrow> (case o_username opt of
                                None \<Rightarrow> Some (0, u)
                              | Some name \<Rightarrow> ask_str (\<lambda>c. agent_set_user c name) u);
                  if ret \<noteq> 0 then Some (ret, opt, True, u)
                  else let (ret, u) = ask agent_state_load u
                       in if ret = STATE_NON_EXISTENT \<or> ret = STATE_NO_USER_ENTRY
                          then Some (0, opt\<lparr>user_has_state := False\<rparr>, True, u)
                          else if ret = AGENT_OK then Some (0, opt\<lparr>user_has_state := True\<rparr>, True, u)
                          else Some (ret, opt, True, u) })"

definition action_fini :: "uio \<Rightarrow> (int \<times> uio) option" where
  "action_fini u =
     do { (ret, w) \<leftarrow> agent_disconnect None (c_agent (u_agent u)) (u_world u); Some (ret, u\<lparr>u_world := w\<rparr>) }"

subsection \<open>Authentication\<close>

text \<open>1 for success, 0 for any failure.  A passcode that could not be copied is sent as an empty one.\<close>

definition action_authenticate :: "options_t \<Rightarrow> uio \<Rightarrow> (int \<times> uio) option" where
  "action_authenticate opt u =
     (if \<not> user_has_state opt then Some (0, u)
      else do { (ret, u) \<leftarrow> ask_str (\<lambda>c. agent_authenticate c (case action_arg opt of None \<Rightarrow> [] | Some s \<Rightarrow> s)) u;
                Some (if ret = 0 then 1 else 0, u) })"

subsection \<open>Keys\<close>

definition action_key_remove :: "options_t \<Rightarrow> uio \<Rightarrow> (int \<times> uio) option" where
  "action_key_remove opt u =
     (if \<not> user_has_state opt then Some (1, u)
      else do { (answer, u) \<leftarrow> ah_yes_or_no u;
                if answer \<noteq> 0 then Some (1, u)
                else let (ret, u) = ask agent_state_drop u
                     in if ret \<noteq> 0 then Some (ret, u) else Some (ask agent_key_remove u) })"

text \<open>The question that ends the generation of a key; it is asked again after the input has ended.\<close>

partial_function (option) key_ready_loop :: "uio \<Rightarrow> (int \<times> uio) option" where
  "key_ready_loop u =
     do { (ret, u) \<leftarrow> ah_yes_or_no u;
          if ret \<noteq> 0 \<and> ret \<noteq> 2 then key_ready_loop u else Some (ret, u) }"

declare key_ready_loop.simps [code]

definition key_store :: "uio \<Rightarrow> (int \<times> uio) option" where
  "key_store u =
     (let (ret, u) = ask (\<lambda>c. agent_update_latest_card c (num_i 1)) u
      in if ret \<noteq> AGENT_ERR_REQ_ARG \<and> ret \<noteq> 0 then Some (ret, u)
         else do { (ret, u) \<leftarrow> key_ready_loop u;
                   if ret \<noteq> 0 then Some (ret, u) else Some (ask agent_state_store u) })"

text \<open>
  When the agent refuses to generate a key, the message about it is printed with its two arguments
  exchanged, a number for \<open>%s\<close>; a card that could not be made is a null pointer for \<open>puts\<close>.
\<close>

definition key_make :: "string \<Rightarrow> uio \<Rightarrow> (int \<times> uio) option" where
  "key_make host u =
     do { r \<leftarrow> ah_show_flags u;
          unless_error r (\<lambda>u.
            let (ret, u) = ask agent_key_generate u
            in do { assert_that (ret = 0);
                    (buf, a, p, w) \<leftarrow> card_ascii host (u_agent u) (num_i 1) (u_pipe u) (u_world u);
                    buf \<leftarrow> buf;
                    key_store (say (c_str buf @ [NL]) (u\<lparr>u_agent := a, u_pipe := p, u_world := w\<rparr>)) }) }"

definition action_key_generate :: "string \<Rightarrow> options_t \<Rightarrow> uio \<Rightarrow> (int \<times> uio) option" where
  "action_key_generate host opt u =
     unless_error
       (if user_has_state opt
        then case fetch agent_flag_get u of
               (ret, _, u) \<Rightarrow> if ret \<noteq> 0 then (ret, u) else ask agent_state_drop u
        else (0, u)) (\<lambda>u.
     unless_error (ask agent_state_new u) (\<lambda>u.
     do { r \<leftarrow> ah_set_options opt u;
          unless_error r (\<lambda>u.
            if user_has_state opt
            then do { (answer, u) \<leftarrow> ah_yes_or_no u; if answer \<noteq> 0 then Some (1, u) else key_make host u }
            else key_make host u) }))"

subsection \<open>Static password\<close>

text \<open>The messages about the result; a bit that has none is a failing assertion.\<close>

definition spass_result :: "u32 \<Rightarrow> int \<times> uio \<Rightarrow> (int \<times> uio) option" where
  "spass_result wanted r =
     (case r of (errors, u) \<Rightarrow>
        if agent_is_agent_error errors \<noteq> 0 then Some (errors, u)
        else do { text \<leftarrow> agent_print_spass_errors (word_of_int errors);
                  Some (if word_of_int errors = wanted then 0 else PPP_ERROR, say text u) })"

definition action_spass :: "options_t \<Rightarrow> uio \<Rightarrow> (int \<times> uio) option" where
  "action_spass opt u =
     (if \<not> user_has_state opt then Some (1, u)
      else let (pass, u) = (case o_spass opt of None \<Rightarrow> ah_get_pass u | Some s \<Rightarrow> (Some s, u))
           in case pass of
                None \<Rightarrow> Some (1, u)
              | Some pass \<Rightarrow>
                  if length pass = 0
                  then Option.bind (ask_str (\<lambda>c. agent_set_spass c None True) u) (spass_result PPP_ERROR_SPASS_UNSET)
                  else Option.bind (ask_str (\<lambda>c. agent_set_spass c (Some pass) False) u) (spass_result PPP_ERROR_SPASS_SET))"

subsection \<open>Warnings and information\<close>

definition action_warnings :: "options_t \<Rightarrow> uio \<Rightarrow> (int \<times> uio) option" where
  "action_warnings opt u =
     (if \<not> user_has_state opt then Some (1, u)
      else let (ret, (warnings, failed), u) = fetch agent_get_warnings u
           in if ret \<noteq> 0 then Some (ret, u)
              else do { u \<leftarrow> (if warnings = 0 then Some u
                            else do { text \<leftarrow> agent_print_ppp_warnings (word_of_int warnings) (word_of_int failed);
                                      Some (say text u) });
                        if (word_of_int warnings :: u32) AND PPP_WARN_RECENT_FAILURES \<noteq> 0
                        then Some (ask agent_clear_recent_failures u)
                        else Some (0, u) })"

partial_function (option) show_alphabets :: "u32 \<Rightarrow> uio \<Rightarrow> (int \<times> uio) option" where
  "show_alphabets i u =
     do { (ret, s, u) \<leftarrow> fetch_str (\<lambda>c. agent_get_alphabet c i) u;
          if ret = PPP_ERROR_RANGE then Some (0, u)
          else if ret = PPP_ERROR_POLICY \<or> ret = 0
          then do { s \<leftarrow> s;
                    show_alphabets (i + 1)
                      (say (''ID='' @ print_d (sint i) @ (if ret = 0 then '' [+] '' else '' [-] '') @ s @ [NL]) u) }
          else Some (ret, u) }"

declare show_alphabets.simps [code]

definition action_info :: "options_t \<Rightarrow> uio \<Rightarrow> (int \<times> uio) option" where
  "action_info opt u =
     (if action opt \<noteq> OPTION_ALPHABETS \<and> \<not> user_has_state opt then Some (1, u)
      else if action opt = OPTION_ALPHABETS then show_alphabets 0 u
      else let u = (case o_username opt of None \<Rightarrow> u | Some s \<Rightarrow> say (''* User    = '' @ s @ [NL]) u)
           in if action opt = OPTION_INFO
              then do { r \<leftarrow> ah_show_state (say (''* Your current state:'' @ [NL]) u);
                        unless_error r (\<lambda>u. ah_show_flags (say ([NL] @ ''* Your current flags:'' @ [NL]) u)) }
              else if action opt = OPTION_INFO_KEY then ah_show_keys u
              else None)"

subsection \<open>Printing\<close>

definition draw ::
    "(client \<Rightarrow> pipe \<Rightarrow> world \<Rightarrow> (string option \<times> client \<times> pipe \<times> world) option) \<Rightarrow> uio \<Rightarrow> (string option \<times> uio) option" where
  "draw f u =
     do { (s, a, p, w) \<leftarrow> f (u_agent u) (u_pipe u) (u_world u); Some (s, u\<lparr>u_agent := a, u_pipe := p, u_world := w\<rparr>) }"

definition print_card :: "string \<Rightarrow> char \<Rightarrow> num_t \<Rightarrow> uio \<Rightarrow> (int \<times> uio) option" where
  "print_card host act item u =
     (if act = OPTION_TEXT
      then do { (buf, u) \<leftarrow> draw (\<lambda>a. card_ascii host a item) u;
                case buf of
                  None \<Rightarrow> Some (1, u)
                | Some buf \<Rightarrow>
                    let (ret, u) = ask (\<lambda>c. agent_update_latest_card c item) (say (c_str buf @ [NL]) u)
                    in Some (if ret \<noteq> AGENT_ERR_REQ_ARG \<and> ret \<noteq> 0 then ret else 0, u) }
      else if act = OPTION_LATEX
      then do { (buf, u) \<leftarrow> draw (\<lambda>a. card_latex host a item) u;
                case buf of
                  None \<Rightarrow> Some (1, u)
                | Some buf \<Rightarrow>
                    let (ret, u) = ask (\<lambda>c. agent_update_latest_card c (num_add item (num_i 6))) (say (c_str buf @ [NL]) u)
                    in Some (if ret \<noteq> AGENT_ERR_REQ_ARG then ret else 0, u) }
      else Some (0, u))"

definition print_code :: "char \<Rightarrow> num_t \<Rightarrow> uio \<Rightarrow> (int \<times> uio) option" where
  "print_code act item u =
     (if act = OPTION_TEXT
      then do { (ret, s, u) \<leftarrow> fetch_str (\<lambda>c. agent_get_passcode c item) u;
                case s of
                  None \<Rightarrow> Some (ret, u)
                | Some s \<Rightarrow> if ret \<noteq> 0 then Some (ret, u) else Some (0, say (s @ [NL]) u) }
      else if act = OPTION_PROMPT
      then do { (ret, s, u) \<leftarrow> fetch_str (\<lambda>c. agent_get_prompt c item) u;
                case s of
                  None \<Rightarrow> Some (ret, u)
                | Some s \<Rightarrow> if ret \<noteq> AGENT_OK then Some (ret, u) else Some (0, say (s @ [NL]) u) }
      else Some (0, u))"

definition action_print :: "string \<Rightarrow> options_t \<Rightarrow> uio \<Rightarrow> (int \<times> uio) option" where
  "action_print host opt u =
     (if \<not> user_has_state opt then Some (1, u)
      else do { spec \<leftarrow> action_arg opt;
                let (selected, item, u) = ah_parse_code_spec spec (num_i 0) u;
                if selected \<noteq> PRINT_CODE \<and> selected \<noteq> PRINT_CARD then Some (selected, u)
                else if selected = PRINT_CARD then print_card host (action opt) item u
                else print_code (action opt) item u })"

subsection \<open>Configuration and skipping\<close>

definition action_config :: "options_t \<Rightarrow> uio \<Rightarrow> (int \<times> uio) option" where
  "action_config opt u =
     do { r \<leftarrow> (case o_label opt of Some s \<Rightarrow> set_str PPP_FIELD_LABEL s u | None \<Rightarrow> Some (0, u));
          unless_error r (\<lambda>u.
     do { r \<leftarrow> (case o_contact opt of Some s \<Rightarrow> set_str PPP_FIELD_CONTACT s u | None \<Rightarrow> Some (0, u));
          unless_error r (\<lambda>u.
     unless_error (if set_alphabet opt \<noteq> -1 then set_int PPP_FIELD_ALPHABET (set_alphabet opt) u else (0, u)) (\<lambda>u.
     unless_error (if set_codelength opt \<noteq> -1 then set_int PPP_FIELD_CODE_LENGTH (set_codelength opt) u else (0, u)) (\<lambda>u.
     unless_error (if flag_set_mask opt \<noteq> 0 then ask (\<lambda>c. agent_flag_add c (flag_set_mask opt)) u else (0, u)) (\<lambda>u.
     unless_error (if flag_clear_mask opt \<noteq> 0 then ask (\<lambda>c. agent_flag_clear c (flag_clear_mask opt)) u else (0, u)) (\<lambda>u.
     Some (0, u)))))) }) }"

definition action_skip :: "options_t \<Rightarrow> uio \<Rightarrow> (int \<times> uio) option" where
  "action_skip opt u =
     (if \<not> user_has_state opt then Some (1, u)
      else do { spec \<leftarrow> action_arg opt;
                let (selected, item, u) = ah_parse_code_spec spec (num_i 0) u;
                if selected \<noteq> PRINT_CODE \<and> selected \<noteq> PRINT_CARD then Some (selected, u)
                else let (ret, item, u) =
                           (if selected = PRINT_CARD then ah_get_passcode_number item (num_i 0) (CHR ''A'') 1 u
                            else (0, item, u))
                     in if ret \<noteq> 0 then Some (ret, u) else Some (ask (\<lambda>c. agent_skip c item) u) })"

end
