(* ===== verification/Otpasswd.thy ===== *)
theory Otpasswd
  imports Actions
begin

text \<open>
  The command line of the utility, \<open>src/src/utility/otpasswd.c\<close>: parsing the options, choosing the
  action, and \<open>main\<close>.  \<open>getopt_long\<close> is represented by what it returns: the option characters
  with their arguments, and whether words are left over at the end.
\<close>

subsection \<open>Settings of \<open>--config\<close>\<close>

text \<open>A copy that fails leaves a null pointer, which is not checked.\<close>

definition opt_strdup :: "string \<Rightarrow> world \<Rightarrow> string option \<times> world" where
  "opt_strdup s w = (let (nomem, w) = fault w in (if nomem then None else Some s, w))"

definition parse_flag_number :: "options_t \<Rightarrow> string \<Rightarrow> int \<times> options_t" where
  "parse_flag_number opt arg =
     (if take 11 arg = ''codelength='' \<and> fst (scan_d (drop 11 arg)) = 1
      then let tmp = snd (scan_d (drop 11 arg)); tmp = (if tmp = -1 then -2 else tmp)
           in if tmp < 2 \<or> tmp > 16 then (1, opt) else (0, opt\<lparr>set_codelength := tmp\<rparr>)
      else if take 9 arg = ''alphabet='' \<and> fst (scan_d (drop 9 arg)) = 1
      then let tmp = snd (scan_d (drop 9 arg)); tmp = (if tmp = -1 then -2 else tmp)
           in if tmp < 0 \<or> tmp \<ge> ppp_alphabet_count then (1, opt) else (0, opt\<lparr>set_alphabet := tmp\<rparr>)
      else (1, opt))"

definition add_flag :: "u32 \<Rightarrow> options_t \<Rightarrow> options_t" where
  "add_flag fl opt = opt\<lparr>flag_set_mask := flag_set_mask opt OR fl\<rparr>"

definition clear_flag :: "u32 \<Rightarrow> options_t \<Rightarrow> options_t" where
  "clear_flag fl opt = opt\<lparr>flag_clear_mask := flag_clear_mask opt OR fl\<rparr>"

definition parse_flag :: "options_t \<Rightarrow> string \<Rightarrow> world \<Rightarrow> int \<times> options_t \<times> world" where
  "parse_flag opt arg w =
     (let (ret, opt, w) =
        (if arg = ''show=on'' then (0, add_flag FLAG_SHOW opt, w)
         else if arg = ''show=off'' then (0, clear_flag FLAG_SHOW opt, w)
         else if arg = ''salt=on'' then (0, add_flag FLAG_SALTED opt, w)
         else if arg = ''salt=off'' then (0, clear_flag FLAG_SALTED opt, w)
         else if arg = ''disable=off'' then (0, clear_flag FLAG_DISABLED opt, w)
         else if arg = ''disable=on'' then (0, add_flag FLAG_DISABLED opt, w)
         else if arg = ''alphabet=list''
         then if action opt \<noteq> OPTION_CONFIG then (1, opt, w) else (0, opt\<lparr>action := OPTION_ALPHABETS\<rparr>, w)
         else if take 8 arg = ''contact=''
         then if o_contact opt \<noteq> None then (1, opt, w)
              else let (s, w) = opt_strdup (drop 8 arg) w in (0, opt\<lparr>o_contact := s\<rparr>, w)
         else if take 6 arg = ''label=''
         then if o_label opt \<noteq> None then (1, opt, w)
              else let (s, w) = opt_strdup (drop 6 arg) w in (0, opt\<lparr>o_label := s\<rparr>, w)
         else let (ret, opt) = parse_flag_number opt arg in (ret, opt, w))
      in if ret \<noteq> 0 then (ret, opt, w)
         else (if flag_set_mask opt AND flag_clear_mask opt \<noteq> 0 then 1 else 0, opt, w))"

subsection \<open>The options\<close>

definition cmd_option :: "char \<Rightarrow> string option \<Rightarrow> options_t \<Rightarrow> world \<Rightarrow> (int \<times> options_t \<times> world) option" where
  "cmd_option c optarg opt w =
     (if (case optarg of None \<Rightarrow> False | Some s \<Rightarrow> length s > 100) then Some (1, opt, w)
      else if c = OPTION_VERSION then Some (1, opt, w)
      else if c \<in> {OPTION_WARN, OPTION_KEY, OPTION_REMOVE, OPTION_CHECK, OPTION_HELP, OPTION_INFO, OPTION_INFO_KEY, OPTION_SPASS}
      then if action opt \<noteq> CHR 0x00 \<and> \<not> (action opt = OPTION_CONFIG \<and> c = OPTION_KEY) then Some (1, opt, w)
           else (case optarg of
                   Some s \<Rightarrow> let (s, w) = opt_strdup s w in Some (0, opt\<lparr>o_spass := s, action := c\<rparr>, w)
                 | None \<Rightarrow> do { assert_that (o_spass opt = None); Some (0, opt\<lparr>o_spass := None, action := c\<rparr>, w) })
      else if c \<in> {OPTION_SKIP, OPTION_TEXT, OPTION_LATEX, OPTION_PROMPT, OPTION_AUTH}
      then if action opt \<noteq> CHR 0x00 then Some (1, opt, w)
           else let (s, w) = (case optarg of None \<Rightarrow> (None, w) | Some s \<Rightarrow> opt_strdup s w)
                in Some (0, opt\<lparr>action := c, action_arg := s\<rparr>, w)
      else if c = OPTION_CONFIG
      then if action opt \<noteq> CHR 0x00 \<and> action opt \<noteq> OPTION_CONFIG \<and> action opt \<noteq> OPTION_KEY then Some (1, opt, w)
           else do { let opt = (if action opt = CHR 0x00 then opt\<lparr>action := OPTION_CONFIG\<rparr> else opt);
                     arg \<leftarrow> optarg;
                     Some (parse_flag opt arg w) }
      else if c = CHR ''?'' then Some (1, opt, w)
      else if c = OPTION_USER
      then do { name \<leftarrow> optarg;
                if w_uid w \<noteq> 0 then Some (1, opt, w)
                else if o_username opt \<noteq> None then Some (1, opt, w)
                else let (s, w) = opt_strdup name w
                     in Some (if s = None then (1, opt\<lparr>o_username := s\<rparr>, w) else (0, opt\<lparr>o_username := s\<rparr>, w)) }
      else if c = OPTION_VERBOSE then Some (0, opt\<lparr>verbose := verbose opt + 1\<rparr>, w)
      else None)"

fun cmd_options :: "(char \<times> string option) list \<Rightarrow> options_t \<Rightarrow> world \<Rightarrow> (int \<times> options_t \<times> world) option" where
  "cmd_options [] opt w = Some (0, opt, w)"
| "cmd_options ((c, optarg) # cs) opt w =
     do { (ret, opt, w) \<leftarrow> cmd_option c optarg opt w;
          if ret \<noteq> 0 then Some (ret, opt, w) else cmd_options cs opt w }"

definition free_options :: "options_t \<Rightarrow> options_t" where
  "free_options opt =
     opt\<lparr>action_arg := None, o_label := None, o_contact := None, o_spass := None, o_username := None\<rparr>"

text \<open>\<open>garbage\<close>: words that are not options are left.\<close>

definition process_cmd_line ::
    "(char \<times> string option) list \<Rightarrow> bool \<Rightarrow> options_t \<Rightarrow> world \<Rightarrow> (int \<times> options_t \<times> world) option" where
  "process_cmd_line cs garbage opt w =
     do { (ret, opt, w) \<leftarrow> cmd_options cs opt w;
          Some (if ret \<noteq> 0 \<or> garbage then (1, free_options opt, w)
                else if (flag_set_mask opt OR flag_clear_mask opt) AND FLAG_SALTED \<noteq> 0 \<and> action opt \<noteq> OPTION_KEY
                then (1, free_options opt, w)
                else (0, opt, w)) }"

subsection \<open>The action\<close>

definition do_action :: "string \<Rightarrow> options_t \<Rightarrow> uio \<Rightarrow> (int \<times> uio) option" where
  "do_action host opt u =
     (let act = action opt
      in if act = CHR 0x00 then Some (1, u)
         else if act = OPTION_HELP then Some (0, u)
         else if act = OPTION_KEY then action_key_generate host opt u
         else if act = OPTION_REMOVE then action_key_remove opt u
         else if act = OPTION_SPASS then action_spass opt u
         else if act \<in> {OPTION_INFO, OPTION_INFO_KEY, OPTION_ALPHABETS} then action_info opt u
         else if act = OPTION_CONFIG then action_config opt u
         else if act = OPTION_AUTH
         then do { (ret, u) \<leftarrow> action_authenticate opt u; Some (if ret = 0 then 1 else 0, u) }
         else if act = OPTION_SKIP then action_skip opt u
         else if act = OPTION_WARN then action_warnings opt u
         else if act \<in> {OPTION_TEXT, OPTION_LATEX, OPTION_PROMPT} then action_print host opt u
         else if act = OPTION_CHECK then Some (1, u)
         else None)"

definition perform_action :: "string \<Rightarrow> int \<Rightarrow> int \<Rightarrow> options_t \<Rightarrow> uio \<Rightarrow> (int \<times> options_t \<times> uio) option" where
  "perform_action host pid wait opt u =
     do { (ret, opt, connected, u) \<leftarrow>
            (if action opt \<noteq> CHR 0x00 \<and> action opt \<noteq> OPTION_HELP then action_init pid wait opt u
             else Some (0, opt, False, u));
          (ret, u) \<leftarrow> (if ret \<noteq> 0 then Some (ret, u) else do_action host opt u);
          u \<leftarrow> (if connected then map_option snd (action_fini u) else Some u);
          Some (ret, free_options opt, u) }"

definition no_options :: options_t where
  "no_options =
     \<lparr>action = CHR 0x00, action_arg = None, o_label = None, o_contact = None, o_spass = None, o_username = None,
      verbose = 0, flag_set_mask = 0, flag_clear_mask = 0, set_codelength = -1, set_alphabet = -1, user_has_state = False\<rparr>"

definition run_cli ::
    "string \<Rightarrow> int \<Rightarrow> int \<Rightarrow> (char \<times> string option) list \<Rightarrow> bool \<Rightarrow> uio \<Rightarrow> (int \<times> uio) option" where
  "run_cli host pid wait cs garbage u =
     do { (ret, opt, w) \<leftarrow> process_cmd_line cs garbage no_options (u_world u);
          let u = u\<lparr>u_world := w\<rparr>;
          if ret \<noteq> 0 then Some (ret, u)
          else do { (ret, _, u) \<leftarrow> perform_action host pid wait opt u; Some (ret, u) } }"

text \<open>\<open>gid\<close> is the real group of the process.\<close>

definition otpasswd_main ::
    "string \<Rightarrow> u32 \<Rightarrow> int \<Rightarrow> int \<Rightarrow> (char \<times> string option) list \<Rightarrow> bool \<Rightarrow> uio \<Rightarrow> (int \<times> uio) option" where
  "otpasswd_main host gid pid wait cs garbage u =
     (if w_uid (u_world u) \<noteq> w_euid (u_world u) \<or> gid \<noteq> w_egid (u_world u) then Some (1, u)
      else run_cli host pid wait cs garbage u)"

end
