(* ===== verification/Cards_Text.thy ===== *)
theory Cards_Text
  imports Cards Ppp_Calc Agent_Safe
begin

text \<open>
  What a printed card says: the text of a card as lines, and the proof that the buffer code of
  \<open>card_ascii\<close> and \<open>card_latex\<close> produces exactly these lines, inside its buffers, from the
  answers of the agent, and asks for the passcodes that belong on the card.
\<close>

subsection \<open>Texts\<close>

text \<open>Strings with a blank between them, closed by a line feed.\<close>

fun spaced :: "string list \<Rightarrow> string" where
  "spaced [] = [NL]"
| "spaced [c] = c @ [NL]"
| "spaced (c # cs) = c @ '' '' @ spaced cs"

fun chunks :: "nat \<Rightarrow> nat \<Rightarrow> 'a list \<Rightarrow> 'a list list" where
  "chunks 0 n xs = []"
| "chunks (Suc k) n xs = take n xs # chunks k n (drop n xs)"

definition row_label :: "nat \<Rightarrow> string" where
  "row_label i = (if i < 10 then '' '' else []) @ nat_str upper_digit 10 i @ '': ''"

definition card_top :: "nat \<Rightarrow> string \<Rightarrow> string \<Rightarrow> string" where
  "card_top width lab num =
     (let lab = cut_label width lab; num = cut_number width lab num
      in lab @ replicate (width - 2 - length num - length lab) (CHR '' '') @ ''['' @ num @ '']'' @ [NL])"

definition card_names :: "nat \<Rightarrow> nat \<Rightarrow> string" where
  "card_names R L = ''    '' @ spaced (map (\<lambda>i. card_columns ! i # replicate (L - 1) (CHR '' '')) [0..<R])"

definition card_body :: "nat \<Rightarrow> string list list \<Rightarrow> string" where
  "card_body i rows = concat (map (\<lambda>(i, cs). row_label i @ spaced cs) (enumerate i rows))"

definition card_text :: "nat \<Rightarrow> string \<Rightarrow> nat \<Rightarrow> string list \<Rightarrow> string" where
  "card_text L lab n codes =
     (let R = per_row L
      in card_top (card_width R L) lab (nat_str upper_digit 10 n) @ card_names R L @
         card_body 1 (chunks CARD_ROWS R codes))"

lemma length_spaced: "\<forall>c \<in> set cs. length c = L \<Longrightarrow> cs \<noteq> [] \<Longrightarrow> length (spaced cs) = (L + 1) * length cs"
  by (induction cs rule: spaced.induct) simp_all

subsection \<open>Writing into a buffer from left to right\<close>

lemma put_app:
  assumes "pos = length d + g" and "g + length s \<le> length t"
  shows "put (d @ t) pos s = Some (d @ take g t @ s @ drop (g + length s) t)"
  using assms by (simp add: put_def memcpy_at_def)

lemma put_here: "length s \<le> length t \<Longrightarrow> put (d @ t) (length d) s = Some (d @ s @ drop (length s) t)"
  using put_app [of "length d" d 0 s t] by simp

text \<open>The remaining buffer is blank, but for the first character.\<close>

definition blank_from :: "string \<Rightarrow> bool" where
  "blank_from t \<longleftrightarrow> drop 1 t = replicate (length t - 1) (CHR '' '')"

lemma blank_from_drop:
  assumes "blank_from t" "1 \<le> n"
  shows "drop n t = replicate (length t - n) (CHR '' '')"
proof -
  have "drop n t = drop (n - 1) (drop 1 t)" using assms(2) by simp
  also have "\<dots> = replicate (length t - 1 - (n - 1)) (CHR '' '')"
    using assms(1) by (simp only: blank_from_def drop_replicate)
  finally show ?thesis using assms(2) by simp
qed

lemma blank_from_replicate [simp]: "blank_from (replicate k (CHR '' ''))"
  by (simp add: blank_from_def)

lemma card_top_length:
  assumes "12 \<le> width" "num \<noteq> []"
  shows "length (cut_label width lab) \<le> width - 8" "length (cut_number width (cut_label width lab) num) + 3 + length (cut_label width lab) \<le> width"
    "length (card_top width lab num) = width + 1"
proof -
  show l: "length (cut_label width lab) \<le> width - 8" using assms(1) by (auto simp: cut_label_def Let_def)
  then show n: "length (cut_number width (cut_label width lab) num) + 3 + length (cut_label width lab) \<le> width"
    using assms(1) by (auto simp: cut_number_def Let_def)
  then show "length (card_top width lab num) = width + 1" by (simp add: card_top_def Let_def)
qed

lemma card_first_line_text:
  assumes "12 \<le> width" "num \<noteq> []" "width + 1 \<le> k"
  shows "card_first_line width lab num (replicate k (CHR '' '')) =
    Some (card_top width lab num @ replicate (k - (width + 1)) (CHR '' ''))"
proof -
  define l where "l = cut_label width lab"
  define m where "m = cut_number width l num"
  have b: "length m + 3 + length l \<le> width" using card_top_length(2) [OF assms(1,2), of lab] by (simp add: l_def m_def)
  define g where "g = width - 2 - length m - length l"
  have w: "width = length l + g + 2 + length m" using b by (simp add: g_def)
  let ?s = "\<lambda>n. replicate n (CHR '' '')"
  have 1: "put (?s k) 0 l = Some (l @ ?s (k - length l))" using b assms(3) put_here [of l "?s k" "[]"] by simp
  have 2: "put (l @ ?s (k - length l)) (width - length m - 2) ''['' = Some ((l @ ?s g @ ''['') @ ?s (k - length l - g - 1))"
    using put_app [of "width - length m - 2" l g "''[''" "?s (k - length l)"] w assms(3) by (simp add: min_def)
  have 3: "put ((l @ ?s g @ ''['') @ ?s (k - length l - g - 1)) (width - length m - 2 + 1) m =
     Some ((l @ ?s g @ ''['' @ m) @ ?s (k - length l - g - 1 - length m))"
    using put_app [of "width - length m - 2 + 1" "l @ ?s g @ ''[''" 0 m] w assms(3) by simp
  have 4: "put ((l @ ?s g @ ''['' @ m) @ ?s (k - length l - g - 1 - length m)) (width - length m - 2 + 1 + length m) '']'' =
     Some ((l @ ?s g @ ''['' @ m @ '']'') @ ?s (k - length l - g - 2 - length m))"
    using put_app [of "width - length m - 2 + 1 + length m" "l @ ?s g @ ''['' @ m" 0 "'']''" "?s (k - length l - g - 1 - length m)"] w assms(3) by simp
  have 5: "put ((l @ ?s g @ ''['' @ m @ '']'') @ ?s (k - length l - g - 2 - length m)) (width - length m - 2 + 2 + length m) [NL] =
     Some ((l @ ?s g @ ''['' @ m @ '']'' @ [NL]) @ ?s (k - length l - g - 3 - length m))"
    using put_app [of "width - length m - 2 + 2 + length m" "l @ ?s g @ ''['' @ m @ '']''" 0 "[NL]" "?s (k - length l - g - 2 - length m)"] w assms(3) by simp
  have e: "k - length l - g - 3 - length m = k - (width + 1)" using w by simp
  show ?thesis
    by (simp only: card_first_line_def Let_def l_def [symmetric] m_def [symmetric] 1 2 3 4 5 e bind.bind_lunit)
      (simp add: card_top_def Let_def l_def [symmetric] m_def [symmetric] g_def)
qed

subsection \<open>What the agent answers\<close>

definition reply_ok :: "agent_header \<Rightarrow> bool" where
  "reply_ok r \<longleftrightarrow> header_ok r \<and> h_version r = AGENT_PROTOCOL_VERSION \<and> h_status r = 0"

definition says :: "agent_header \<Rightarrow> string \<Rightarrow> bool" where
  "says r s \<longleftrightarrow> reply_ok r \<and> NUL \<in> set (h_str r) \<and> c_str (h_str r) = s"

text \<open>The frame of a request with a number or an integer for argument.\<close>

definition get_request :: "int \<Rightarrow> u32 \<Rightarrow> num_t \<Rightarrow> agent_header" where
  "get_request t i n =
     \<lparr>h_version = AGENT_PROTOCOL_VERSION, h_type = word_of_int t, h_status = 0, h_int = i, h_int2 = 0, h_num = n,
      h_str = replicate AGENT_ARG_MAX NUL\<rparr>"

text \<open>A client that holds no state, after it has sent \<open>hs\<close>.\<close>

definition asked :: "client \<Rightarrow> agent_header list \<Rightarrow> client \<Rightarrow> bool" where
  "asked a hs b \<longleftrightarrow> a_s (c_agent a) = None \<and> a_s (c_agent b) = None \<and> a_sent (c_agent b) = a_sent (c_agent a) @ hs"

lemma asked_trans: "asked a hs b \<Longrightarrow> asked b hs' c \<Longrightarrow> asked a (hs @ hs') c"
  by (simp add: asked_def)

lemma asked_refl: "a_s (c_agent a) = None \<Longrightarrow> asked a [] a"
  by (simp add: asked_def)

lemma asked_free: "asked a hs b \<Longrightarrow> a_s (c_agent b) = None"
  by (simp add: asked_def)

lemma query_int_reply:
  assumes "a_s (c_agent a) = None" "w_faults w = []" "reply_ok r" "pipe_ok p" "pipe_bytes p = header_bytes r @ rest"
  shows "\<exists>b q. agent_query (with_int i 0 a) t p w = (0, b, q, w) \<and> a_rhdr (c_agent b) = r \<and>
    asked a [get_request t i num_zero] b \<and> pipe_ok q \<and> pipe_bytes q = rest"
  using agent_query_reply [of "with_int i 0 a" w r p rest t] assms
  by (auto simp: reply_ok_def asked_def get_request_def with_int_def on_agent_def agent_hdr_set_int_def agent_hdr_init_def)

lemma query_num_reply:
  assumes "a_s (c_agent a) = None" "w_faults w = []" "reply_ok r" "pipe_ok p" "pipe_bytes p = header_bytes r @ rest"
  shows "\<exists>b q. agent_query (with_num n a) t p w = (0, b, q, w) \<and> a_rhdr (c_agent b) = r \<and>
    asked a [get_request t 0 n] b \<and> pipe_ok q \<and> pipe_bytes q = rest"
  using agent_query_reply [of "with_num n a" w r p rest t] assms
  by (auto simp: reply_ok_def asked_def get_request_def with_num_def on_agent_def agent_hdr_set_num_def agent_hdr_init_def)

lemma get_int_reply:
  assumes "a_s (c_agent a) = None" "w_faults w = []" "reply_ok r" "pipe_ok p" "pipe_bytes p = header_bytes r @ rest"
  shows "\<exists>b q. agent_get_int a f p w = (0, Some (sint (h_int r)), b, q, w) \<and>
    asked a [get_request AGENT_REQ_GET_INT f num_zero] b \<and> pipe_ok q \<and> pipe_bytes q = rest"
  using query_int_reply [OF assms, of f AGENT_REQ_GET_INT]
  by (auto simp: agent_get_int_def agent_hdr_get_arg_int_def)

lemma get_num_reply:
  assumes "a_s (c_agent a) = None" "w_faults w = []" "reply_ok r" "pipe_ok p" "pipe_bytes p = header_bytes r @ rest"
  shows "\<exists>b q. agent_get_num a f p w = (0, Some (h_num r), b, q, w) \<and>
    asked a [get_request AGENT_REQ_GET_NUM f num_zero] b \<and> pipe_ok q \<and> pipe_bytes q = rest"
  using query_int_reply [OF assms, of f AGENT_REQ_GET_NUM]
  by (auto simp: agent_get_num_def agent_hdr_get_arg_num_def)

lemma get_str_reply:
  assumes "a_s (c_agent a) = None" "w_faults w = []" "says r s" "pipe_ok p" "pipe_bytes p = header_bytes r @ rest"
  shows "\<exists>b q. agent_get_str a f p w = Some (0, Some s, b, q, w) \<and>
    asked a [get_request AGENT_REQ_GET_STR f num_zero] b \<and> pipe_ok q \<and> pipe_bytes q = rest"
  using query_int_reply [OF assms(1,2) _ assms(4,5), of f AGENT_REQ_GET_STR] assms(2,3)
  by (auto simp: agent_get_str_def strdup_reply_def agent_hdr_get_arg_str_def says_def)

lemma get_passcode_reply:
  assumes "a_s (c_agent a) = None" "w_faults w = []" "says r s" "pipe_ok p" "pipe_bytes p = header_bytes r @ rest"
  shows "\<exists>b q. agent_get_passcode a n p w = Some (0, Some (take 16 s), b, q, w) \<and>
    asked a [get_request AGENT_REQ_GET_PASSCODE 0 n] b \<and> pipe_ok q \<and> pipe_bytes q = rest"
  using query_num_reply [OF assms(1,2) _ assms(4,5), of n AGENT_REQ_GET_PASSCODE] assms(3)
  by (auto simp: agent_get_passcode_def agent_hdr_get_arg_str_def says_def)

subsection \<open>The names of the columns\<close>

lemma spaced_Cons: "cs \<noteq> [] \<Longrightarrow> spaced (c # cs) = c @ '' '' @ spaced cs"
  by (cases cs) simp_all

lemma length_card_columns [simp]: "length card_columns = 16"
  by (simp add: card_columns_def)

lemma card_head_columns_text:
  assumes "i < R" "R \<le> 16" "2 \<le> L"
    and "(L + 1) * (R - i) \<le> k"
  shows "\<exists>e. card_head_columns R L i (d @ replicate k (CHR '' '')) (length d) =
      Some (d @ e @ replicate (k - ((L + 1) * (R - i) - 1)) (CHR '' ''), length d + (L + 1) * (R - i)) \<and>
    e @ [NL] = spaced (map (\<lambda>i. card_columns ! i # replicate (L - 1) (CHR '' '')) [i..<R])"
  using assms
proof (induction "R - i" arbitrary: i d k)
  case (Suc m)
  let ?c = "card_columns ! i # replicate (L - 1) (CHR '' '')"
  define X where "X = (L + 1) * (R - Suc i)"
  have c: "(card_columns @ [NUL]) ! i = card_columns ! i" "i \<le> length card_columns"
    using Suc.prems by (simp_all add: nth_append)
  have "R - i = Suc (R - Suc i)" using Suc.prems(1) by simp
  then have R: "(L + 1) * (R - i) = X + (L + 1)" by (simp add: X_def)
  have k: "X + (L + 1) \<le> k" using Suc.prems(4) R by simp
  have p: "put (d @ replicate k (CHR '' '')) (length d) [card_columns ! i] = Some (d @ [card_columns ! i] @ replicate (k - 1) (CHR '' ''))"
    using put_here [of "[card_columns ! i]" "replicate k (CHR '' '')" d] k by simp
  have s: "[card_columns ! i] @ replicate (k - 1) (CHR '' '') = ?c @ replicate (k - L) (CHR '' '')"
    using k Suc.prems(3) replicate_add [of "L - 1" "k - L" "CHR '' ''"] by simp
  have "k - L = Suc (k - L - 1)" using k by simp
  then have s2: "replicate (k - L) (CHR '' '') = '' '' @ replicate (k - L - 1) (CHR '' '')"
    by (metis replicate_Suc append_Cons append_Nil)
  have len: "length d + L + 1 = length (d @ ?c @ '' '')" using Suc.prems(3) by simp
  have step: "card_head_columns R L i (d @ replicate k (CHR '' '')) (length d) =
      (if i + 1 < R then card_head_columns R L (i + 1) (d @ ?c @ replicate (k - L) (CHR '' '')) (length d + L + 1)
       else Some (d @ ?c @ replicate (k - L) (CHR '' ''), length d + L + 1))"
    using c by (subst card_head_columns.simps) (simp only: Let_def p s, simp)
  show ?case
  proof (cases "Suc i < R")
    case True
    have m: "m = R - Suc i" using Suc.hyps(2) by simp
    have kk: "(L + 1) * (R - Suc i) \<le> k - L - 1" using k by (simp only: X_def [symmetric])
    from Suc.hyps(1) [OF m True Suc.prems(2,3) kk, of "d @ ?c @ '' ''", folded X_def]
    obtain e where e: "card_head_columns R L (Suc i) ((d @ ?c @ '' '') @ replicate (k - L - 1) (CHR '' '')) (length (d @ ?c @ '' '')) =
       Some ((d @ ?c @ '' '') @ e @ replicate (k - L - 1 - (X - 1)) (CHR '' ''), length (d @ ?c @ '' '') + X)"
      "e @ [NL] = spaced (map (\<lambda>i. card_columns ! i # replicate (L - 1) (CHR '' '')) [Suc i..<R])" by blast
    have X: "1 \<le> X" using True by (simp add: X_def)
    then have "k - L - 1 - (X - 1) = k - (X + (L + 1) - 1)" using k by simp
    then have "card_head_columns R L i (d @ replicate k (CHR '' '')) (length d) =
        Some (d @ (?c @ '' '' @ e) @ replicate (k - (X + (L + 1) - 1)) (CHR '' ''), length d + (X + (L + 1)))"
      using step True e(1) len by (simp only: s2 append_assoc Suc_eq_plus1 if_True) simp
    moreover have "(?c @ '' '' @ e) @ [NL] = spaced (map (\<lambda>i. card_columns ! i # replicate (L - 1) (CHR '' '')) [i..<R])"
      using e(2) True by (simp add: upt_conv_Cons [of i R] spaced_Cons del: upt_Suc)
    ultimately show ?thesis unfolding R by blast
  next
    case False
    then have "R = Suc i" using Suc.prems(1) by simp
    then show ?thesis using step Suc.prems(3) k by (intro exI [of _ ?c]) simp
  qed
qed simp

subsection \<open>The rows of codes\<close>

definition code_requests :: "nat \<Rightarrow> nat \<Rightarrow> agent_header list" where
  "code_requests n k = map (\<lambda>i. get_request AGENT_REQ_GET_PASSCODE 0 (num_of (n + i))) [0..<k]"

lemma code_requests_Suc: "code_requests n (Suc k) = get_request AGENT_REQ_GET_PASSCODE 0 (num_of n) # code_requests (Suc n) k"
proof -
  have "[0..<Suc k] = 0 # map Suc [0..<k]" by (simp add: upt_conv_Cons map_Suc_upt del: upt_Suc)
  then show ?thesis by (simp add: code_requests_def del: upt_Suc)
qed

lemma code_requests_add: "code_requests n (i + k) = code_requests n i @ code_requests (n + i) k"
  by (induction i arbitrary: n) (simp_all add: code_requests_Suc, simp add: code_requests_def)

lemma num_of_next: "num_add (num_of n) (num_i 1) = num_of (n + 1)"
proof -
  have one: "nval (num_i 1) = 1" by (simp add: nval_def num_ii_def)
  have "nval (num_add (num_of n) (num_i 1)) = nval (num_of (n + 1))"
    using num_add_ov_val(1) [of "num_of n" "num_i 1" False] 
    by (cases "num_add_ov (num_of n) (num_i 1) False") (simp add: num_add_def nval_num_of mod_simps one)
  then show ?thesis by (simp only: nval_inject)
qed

lemma length_spaced_Cons: "cs \<noteq> [] \<Longrightarrow> length (spaced (c # cs)) = Suc (length c + length (spaced cs))"
  by (simp add: spaced_Cons)

lemma card_row_text:
  assumes "2 \<le> L" "L \<le> 16" "w_faults w = []"
  shows "list_all2 says rs cs \<Longrightarrow> cs \<noteq> [] \<Longrightarrow> y + length cs = R \<Longrightarrow> \<forall>c \<in> set cs. length c = L \<Longrightarrow>
    blank_from t \<Longrightarrow> length (spaced cs) \<le> length t \<Longrightarrow> a_s (c_agent a) = None \<Longrightarrow> pipe_ok p \<Longrightarrow>
    pipe_bytes p = concat (map header_bytes rs) @ rest \<Longrightarrow>
    \<exists>b q. card_row R L y (d @ t) (length d) (num_of n) a p w =
       Some (Some (d @ spaced cs @ drop (length (spaced cs)) t, length d + length (spaced cs), num_of (n + length cs)), b, q, w) \<and>
      asked a (code_requests n (length cs)) b \<and> pipe_ok q \<and> pipe_bytes q = rest"
proof (induction rs cs arbitrary: y d t n a p rule: list_all2_induct)
  case (Cons r rs c cs)
  have y: "y < R" and l: "length c = L" using Cons.prems by simp_all
  have pb: "pipe_bytes p = header_bytes r @ (concat (map header_bytes rs) @ rest)" using Cons.prems by simp
  have c16: "take 16 c = c" using l assms(2) by simp
  obtain b q where g: "agent_get_passcode a (num_of n) p w = Some (0, Some c, b, q, w)"
    "asked a [get_request AGENT_REQ_GET_PASSCODE 0 (num_of n)] b" "pipe_ok q" "pipe_bytes q = concat (map header_bytes rs) @ rest"
    using get_passcode_reply [OF Cons.prems(6) assms(3) Cons.hyps(1) Cons.prems(7) pb] unfolding c16 by blast
  have c: "take L (c @ replicate (17 - length c) NUL) = c" "take L (c @ replicate (17 - L) NUL) = c" using l by simp_all
  have t: "L + 1 \<le> length t" using Cons.prems(5) l by (cases cs) simp_all
  have p: "put (d @ t) (length d) c = Some (d @ c @ drop L t)" using put_here [of c t d] l t by simp
  have bl: "drop L t = replicate (length t - L) (CHR '' '')" using blank_from_drop [OF Cons.prems(4), of L] assms(1) by simp
  show ?case
  proof (cases "cs = []")
    case True
    then have R: "y + 1 = R" using Cons.prems by simp
    have p2: "put (d @ c @ drop L t) (length d + L) [NL] = Some (d @ c @ [NL] @ drop (L + 1) t)"
      using put_here [of "[NL]" "drop L t" "d @ c"] t l by simp
    have "card_row R L y (d @ t) (length d) (num_of n) a p w =
        Some (Some (d @ c @ [NL] @ drop (L + 1) t, length d + L + 1, num_of (n + 1)), b, q, w)"
      using y R by (subst card_row.simps) (simp add: g(1) c p p2 num_of_next card_row.simps [of R L R] del: take_append)
    then show ?thesis
      using g True l Cons.hyps(2) by (auto simp: code_requests_Suc) (auto simp: code_requests_def)
  next
    case False
    then have R: "y + 1 \<noteq> R" using Cons.prems(2) by auto
    have k: "Suc (L + length (spaced cs)) \<le> length t" using Cons.prems(5) length_spaced_Cons [OF False, of c] l by simp
    have "length t - L = Suc (length t - (L + 1))" using t by simp
    then have b2: "drop L t = '' '' @ drop (L + 1) t"
      using bl blank_from_drop [OF Cons.prems(4), of "L + 1"] by (simp only: replicate_Suc) simp
    have nx: "blank_from (drop (L + 1) t)" "length (spaced cs) \<le> length (drop (L + 1) t)"
      using blank_from_drop [OF Cons.prems(4), of "L + 1"] k by simp_all
    obtain b' q' where h: "card_row R L (y + 1) ((d @ c @ '' '') @ drop (L + 1) t) (length (d @ c @ '' '')) (num_of (n + 1)) b q w =
       Some (Some ((d @ c @ '' '') @ spaced cs @ drop (length (spaced cs)) (drop (L + 1) t), length (d @ c @ '' '') + length (spaced cs),
         num_of (n + 1 + length cs)), b', q', w)"
      "asked b (code_requests (n + 1) (length cs)) b'" "pipe_ok q'" "pipe_bytes q' = rest"
      using Cons.IH [OF False _ _ nx asked_free [OF g(2)] g(3,4), of "y + 1" "d @ c @ '' ''" "n + 1"] Cons.prems(2,3) by auto
    have "card_row R L y (d @ t) (length d) (num_of n) a p w =
        card_row R L (y + 1) ((d @ c @ '' '') @ drop (L + 1) t) (length (d @ c @ '' '')) (num_of (n + 1)) b q w"
      using y R b2 l by (subst card_row.simps) (simp add: g(1) c p num_of_next del: take_append)
    then show ?thesis
      using h asked_trans [OF g(2) h(2)] False l by (auto simp: code_requests_Suc spaced_Cons add.assoc) (simp add: add.commute)
  qed
qed simp

lemma length_chunks [simp]: "length (chunks k n xs) = k"
  by (induction k arbitrary: xs) simp_all

lemma row_head_label: "1 \<le> i \<Longrightarrow> i \<le> 10 \<Longrightarrow> row_head i = row_label i @ [NUL] \<and> length (row_label i) = 4"
proof -
  assume "1 \<le> i" "i \<le> 10"
  then have "i \<in> {1, 2, 3, 4, 5, 6, 7, 8, 9, 10}" unfolding insert_iff empty_iff by presburger
  then show ?thesis by (auto simp: row_head_def row_label_def Let_def nat_str.simps)
qed

text \<open>
  A row needs the four characters of its number and the codes.
\<close>

lemma card_rows_text:
  assumes L: "2 \<le> L" "L \<le> 16" "w_faults w = []" and R: "0 < R"
  shows "list_all2 says rs cs \<Longrightarrow> i + m = 11 \<Longrightarrow> 1 \<le> i \<Longrightarrow> length cs = m * R \<Longrightarrow> \<forall>c \<in> set cs. length c = L \<Longrightarrow>
    (4 + (L + 1) * R) * m \<le> k \<Longrightarrow> a_s (c_agent a) = None \<Longrightarrow> pipe_ok p \<Longrightarrow>
    pipe_bytes p = concat (map header_bytes rs) @ rest \<Longrightarrow>
    \<exists>b q. card_rows R L i (d @ replicate k (CHR '' '')) (length d) (num_of n) a p w =
       Some (Some (d @ card_body i (chunks m R cs) @ replicate (k - (4 + (L + 1) * R) * m) (CHR '' '')), b, q, w) \<and>
      asked a (code_requests n (length cs)) b \<and> pipe_ok q \<and> pipe_bytes q = rest \<and>
      length (card_body i (chunks m R cs)) = (4 + (L + 1) * R) * m"
proof (induction m arbitrary: i d k n a p rs cs)
  case 0
  then show ?case
    by (subst card_rows.simps) (auto simp: card_body_def code_requests_def asked_def)
next
  case (Suc m)
  define X where "X = (4 + (L + 1) * R)"
  define c where "c = take R cs"
  define cs' where "cs' = drop R cs"
  have len: "length cs = R + m * R" using Suc.prems(4) by simp
  have c: "length c = R" "c \<noteq> []" "\<forall>x \<in> set c. length x = L" and cs: "cs = c @ cs'" "length cs' = m * R" "\<forall>x \<in> set cs'. length x = L"
    using len R Suc.prems(5) by (auto simp: c_def cs'_def dest: in_set_takeD in_set_dropD)
  obtain ra rb where r: "rs = ra @ rb" "list_all2 says ra c" "list_all2 says rb cs'"
    using Suc.prems(1) unfolding cs(1) by (auto simp: list_all2_append2)
  have sp: "length (spaced c) = (L + 1) * R" using length_spaced [OF c(3,2)] c(1) by simp
  have k: "X + X * m \<le> k" using Suc.prems(6) by (simp add: X_def)
  then have k1: "X \<le> k" by simp
  have i: "row_head i = row_label i @ [NUL]" "length (row_label i) = 4" "i < 1 + CARD_ROWS" using Suc.prems(2,3) row_head_label [of i] by auto
  let ?t = "NUL # replicate (k - 5) (CHR '' '')"
  have p: "put (d @ replicate k (CHR '' '')) (length d) (row_head i) = Some ((d @ row_label i) @ ?t)"
    using put_here [of "row_head i" "replicate k (CHR '' '')" d] i k1 L R by (simp add: X_def numeral_eq_Suc)
  have t: "blank_from ?t" "length (spaced c) \<le> length ?t" using k1 sp L by (auto simp: X_def blank_from_def)
  obtain b q where g: "card_row R L 0 ((d @ row_label i) @ ?t) (length (d @ row_label i)) (num_of n) a p w =
     Some (Some ((d @ row_label i) @ spaced c @ drop (length (spaced c)) ?t, length (d @ row_label i) + length (spaced c), num_of (n + length c)), b, q, w)"
    "asked a (code_requests n (length c)) b" "pipe_ok q" "pipe_bytes q = concat (map header_bytes rb) @ rest"
    using card_row_text [OF L r(2) c(2) _ c(3) t Suc.prems(7,8), of 0 R "concat (map header_bytes rb) @ rest" "d @ row_label i" n]
      Suc.prems(9) c(1) r(1) by auto
  let ?d = "d @ row_label i @ spaced c"
  have dr: "drop (length (spaced c)) ?t = replicate (k - X) (CHR '' '')"
    using blank_from_drop [OF t(1), of "length (spaced c)"] sp R by (simp add: X_def)
  have g1: "card_row R L 0 ((d @ row_label i) @ ?t) (length d + 4) (num_of n) a p w =
     Some (Some (?d @ replicate (k - X) (CHR '' ''), length ?d, num_of (n + R)), b, q, w)"
    using g(1) dr c(1) i(2) by (simp del: drop_Cons)
  have kk: "X * m \<le> k - X" using k by simp
  obtain b' q' where h: "card_rows R L (i + 1) (?d @ replicate (k - X) (CHR '' '')) (length ?d) (num_of (n + R)) b q w =
       Some (Some (?d @ card_body (i + 1) (chunks m R cs') @ replicate (k - X - X * m) (CHR '' '')), b', q', w)"
      "asked b (code_requests (n + R) (length cs')) b'" "pipe_ok q'" "pipe_bytes q' = rest"
      "length (card_body (i + 1) (chunks m R cs')) = X * m"
    using Suc.IH [OF r(3) _ _ cs(2,3) kk [unfolded X_def] asked_free [OF g(2)] g(3,4), of "i + 1" ?d "n + R"] Suc.prems(2)
    unfolding X_def by auto
  have body: "card_body i (chunks (Suc m) R cs) = row_label i @ spaced c @ card_body (i + 1) (chunks m R cs')"
    by (simp add: card_body_def c_def cs'_def)
  have "card_rows R L i (d @ replicate k (CHR '' '')) (length d) (num_of n) a p w =
      card_rows R L (i + 1) (?d @ replicate (k - X) (CHR '' '')) (length ?d) (num_of (n + R)) b q w"
    using i(3) by (subst card_rows.simps) (simp only: if_True p bind.bind_lunit g1 prod.case option.case)
  also have "\<dots> = Some (Some (d @ card_body i (chunks (Suc m) R cs) @ replicate (k - X * Suc m) (CHR '' '')), b', q', w)"
    using h(1) body by simp
  finally have 1: "card_rows R L i (d @ replicate k (CHR '' '')) (length d) (num_of n) a p w = \<dots>" .
  have 2: "asked a (code_requests n (length cs)) b'"
    using asked_trans [OF g(2) h(2)] cs c(1) by (simp add: code_requests_add)
  have 3: "length (card_body i (chunks (Suc m) R cs)) = X * Suc m"
    using body h(5) i(2) sp by (simp add: X_def)
  show ?case using 1 2 3 h(3,4) unfolding X_def by blast
qed

subsection \<open>The card\<close>

definition shown_label :: "string \<Rightarrow> string \<Rightarrow> string" where
  "shown_label host lab = (if lab = [] then takeWhile (\<lambda>c. c \<noteq> NUL) (take STATE_LABEL_SIZE host) else lab)"

text \<open>The answers to the requests for one card: the length of a code, the label, the codes.\<close>

definition card_answers :: "agent_header list \<Rightarrow> nat \<Rightarrow> string \<Rightarrow> string list \<Rightarrow> bool" where
  "card_answers rs L lab codes \<longleftrightarrow> 2 \<le> length rs \<and> reply_ok (rs ! 0) \<and> sint (h_int (rs ! 0)) = int L \<and> says (rs ! 1) lab \<and>
     list_all2 says (drop 2 rs) codes \<and> 2 \<le> L \<and> L \<le> 16 \<and> length codes = CARD_ROWS * per_row L \<and> (\<forall>c \<in> set codes. length c = L)"

definition card_requests :: "num_t \<Rightarrow> nat \<Rightarrow> agent_header list" where
  "card_requests n L =
     [get_request AGENT_REQ_GET_INT (word_of_int PPP_FIELD_CODE_LENGTH) num_zero,
      get_request AGENT_REQ_GET_STR (word_of_int PPP_FIELD_LABEL) num_zero] @
     code_requests ((nval n - 1) * (per_row L * CARD_ROWS)) (per_row L * CARD_ROWS)"

lemma per_row_int: "2 \<le> L \<Longrightarrow> L \<le> 16 \<Longrightarrow> ppp_get_codes_per_row (int L) = Some (int (per_row L))"
  using code_length_cases [of L] by (auto simp: ppp_get_codes_per_row_def per_row_def)

lemma card_width_bounds:
  assumes "2 \<le> L" "L \<le> 16"
  shows "12 \<le> card_width (per_row L) L" "card_width (per_row L) L \<le> 43"
  using code_length_cases [OF assms] by (auto simp: card_width_def per_row_def)

lemma first_code_number:
  assumes "0 < nval n" "K \<le> 110"
  shows "num_mul_i (num_sub n (num_i 1)) (of_nat K) = num_of ((nval n - 1) * K)"
proof -
  have one: "nval (num_i 1) = 1" by (simp add: nval_def num_ii_def)
  have K: "unat (of_nat K :: u64) = K" using assms(2) by (simp add: unat_of_nat_lt)
  have "nval (num_sub n (num_i 1)) = nval n - 1"
    using num_sub_ov_val [of n "num_i 1" False] assms(1) one
    by (cases "num_sub_ov n (num_i 1) False") (simp add: num_sub_def)
  then have "nval (num_mul_i (num_sub n (num_i 1)) (of_nat K)) = nval (num_of ((nval n - 1) * K))"
    using num_mul_i_ov_val(1) [of "num_sub n (num_i 1)" "of_nat K" False] K
    by (cases "num_mul_i_ov (num_sub n (num_i 1)) (of_nat K) False") (simp add: num_mul_i_def nval_num_of)
  then show ?thesis by (simp only: nval_inject)
qed

text \<open>The buffer of a card, written from the top to the bottom.\<close>

lemma card_head_text:
  assumes "2 \<le> L" "L \<le> 16" and w: "w = card_width (per_row L) L" and num: "num \<noteq> []"
  shows "\<exists>b. card_first_line w lab num (replicate (card_size (per_row L) L) (CHR '' '')) = Some b \<and>
    Option.bind (card_head_columns (per_row L) L 0 b (w + 1 + 4)) (\<lambda>(b, pos). map_option (\<lambda>b. (b, pos)) (put b (pos - 1) [NL])) =
      Some ((card_top w lab num @ card_names (per_row L) L) @ replicate (10 * (w + 1) + 1) (CHR '' ''),
        length (card_top w lab num @ card_names (per_row L) L)) \<and>
    length (card_top w lab num @ card_names (per_row L) L) = 2 * (w + 1)"
proof -
  define R where "R = per_row L"
  have R: "0 < R" "R \<le> 16" using per_row_bounds [OF assms(1,2)] by (simp_all add: R_def)
  have W: "w = (L + 1) * R + 3" "12 \<le> w" using w card_width_bounds [OF assms(1,2)] by (simp_all add: R_def card_width_def)
  have W3: "(L + 1) * R = w - 3" using W(1) by simp
  define size where "size = card_size (per_row L) L"
  have size: "size = 12 * (w + 1) + 1" by (simp add: size_def card_size_def w)
  let ?s = "\<lambda>n. replicate n (CHR '' '')"
  have 1: "card_first_line w lab num (?s size) = Some (card_top w lab num @ ?s (size - (w + 1)))"
    using card_first_line_text [OF W(2) num, of size lab] size by simp
  define d where "d = card_top w lab num @ ''    ''"
  have d: "length d = w + 1 + 4" using card_top_length(3) [OF W(2) num, of lab] by (simp add: d_def)
  have "size - (w + 1) = 4 + (size - (w + 1) - 4)" using size by simp
  then have "?s (size - (w + 1)) = ?s 4 @ ?s (size - (w + 1) - 4)" by (metis replicate_add)
  then have 2: "card_top w lab num @ ?s (size - (w + 1)) = d @ ?s (size - (w + 1) - 4)" by (simp add: d_def numeral_eq_Suc)
  have k: "(L + 1) * (R - 0) \<le> size - (w + 1) - 4" using size W by simp
  obtain e where e: "card_head_columns R L 0 (d @ ?s (size - (w + 1) - 4)) (length d) =
      Some (d @ e @ ?s (size - (w + 1) - 4 - ((L + 1) * R - 1)), length d + (L + 1) * R)"
    "e @ [NL] = spaced (map (\<lambda>i. card_columns ! i # ?s (L - 1)) [0..<R])"
    using card_head_columns_text [OF R assms(1) k, of d] by auto
  have "length (e @ [NL]) = (L + 1) * R" using e(2) length_spaced [of "map (\<lambda>i. card_columns ! i # ?s (L - 1)) [0..<R]" L] R assms(1) by simp
  then have le: "length e = (L + 1) * R - 1" by simp
  have pos: "1 \<le> (L + 1) * R" using R by simp
  have ek: "size - (w + 1) - 4 - ((L + 1) * R - 1) = Suc (10 * (w + 1) + 1)"
    using le_Suc_ex [OF W(2)] unfolding size W3 by auto
  have 3: "put (d @ e @ ?s (size - (w + 1) - 4 - ((L + 1) * R - 1))) (length d + (L + 1) * R - 1) [NL] =
     Some ((d @ e @ [NL]) @ ?s (10 * (w + 1) + 1))"
    using put_here [of "[NL]" "?s (Suc (10 * (w + 1) + 1))" "d @ e"] le pos unfolding ek by simp
  have 4: "d @ e @ [NL] = card_top w lab num @ card_names R L" using e(2) by (simp add: d_def card_names_def)
  have 5: "length (d @ e @ [NL]) = length d + (L + 1) * R" using le pos by simp
  have 6: "length (d @ e @ [NL]) = 2 * (w + 1)" using 5 d W by simp
  have 7: "Option.bind (card_head_columns R L 0 (d @ ?s (size - (w + 1) - 4)) (w + 1 + 4)) (\<lambda>(b, pos). map_option (\<lambda>b. (b, pos)) (put b (pos - 1) [NL])) =
      Some ((d @ e @ [NL]) @ ?s (10 * (w + 1) + 1), length (d @ e @ [NL]))"
    using e(1) 3 5 unfolding d by simp
  show ?thesis
    using 7 6 1 unfolding 4
    by (intro exI [of _ "card_top w lab num @ ?s (size - (w + 1))"] conjI)
      (simp_all only: 2 R_def [symmetric] size_def [unfolded R_def [symmetric], symmetric])
qed

lemma card_ascii_text:
  assumes ans: "card_answers rs L lab codes" and n: "0 < nval n" and free: "a_s (c_agent a) = None" "w_faults w = []"
    and p: "pipe_ok p" "pipe_bytes p = concat (map header_bytes rs) @ rest"
  shows "\<exists>b q. card_ascii host a n p w = Some (Some (card_text L (shown_label host lab) (nval n) codes @ [NUL]), b, q, w) \<and>
    asked a (card_requests n L) b \<and> pipe_ok q \<and> pipe_bytes q = rest \<and>
    length (card_text L (shown_label host lab) (nval n) codes) + 1 = card_size (per_row L) L"
proof -
  obtain r1 r2 rs' where rs: "rs = r1 # r2 # rs'"
  proof -
    have "2 \<le> length rs" using ans by (simp add: card_answers_def)
    then show ?thesis using that by (cases rs; cases "tl rs") auto
  qed
  have r: "reply_ok r1" "sint (h_int r1) = int L" "says r2 lab" "list_all2 says rs' codes" and L: "2 \<le> L" "L \<le> 16"
    and cs: "length codes = 10 * per_row L" "\<forall>c \<in> set codes. length c = L"
    using ans by (simp_all add: card_answers_def rs)
  define R where "R = per_row L"
  have R: "0 < R" "R * 10 \<le> 110" using per_row_bounds [OF L] by (simp_all add: R_def)
  define l where "l = shown_label host lab"
  define num where "num = nat_str upper_digit 10 (nval n)"
  define wd where "wd = card_width (per_row L) L"
  have W: "wd = (L + 1) * R + 3" by (simp add: wd_def R_def card_width_def)
  have wd_R: "card_width R L = wd" by (simp add: wd_def R_def)
  obtain a1 p1 where q1: "agent_get_int a (word_of_int PPP_FIELD_CODE_LENGTH) p w = (0, Some (int L), a1, p1, w)"
    "asked a [get_request AGENT_REQ_GET_INT (word_of_int PPP_FIELD_CODE_LENGTH) num_zero] a1" "pipe_ok p1"
    "pipe_bytes p1 = header_bytes r2 @ concat (map header_bytes rs') @ rest"
    using get_int_reply [OF free r(1) p(1), of "header_bytes r2 @ concat (map header_bytes rs') @ rest" "word_of_int PPP_FIELD_CODE_LENGTH"] p(2) r(2) by (auto simp: rs)
  obtain a2 p2 where q2: "agent_get_str a1 (word_of_int PPP_FIELD_LABEL) p1 w = Some (0, Some lab, a2, p2, w)"
    "asked a1 [get_request AGENT_REQ_GET_STR (word_of_int PPP_FIELD_LABEL) num_zero] a2" "pipe_ok p2"
    "pipe_bytes p2 = concat (map header_bytes rs') @ rest"
    using get_str_reply [OF asked_free [OF q1(2)] free(2) r(3) q1(3,4)] by blast
  have lab: "card_label host lab w = Some (l, w)" using free(2) by (simp add: card_label_def l_def shown_label_def assert_that_def)
  let ?h = "card_top wd l num @ card_names R L" and ?s = "\<lambda>n. replicate n (CHR '' '')"
  have "num \<noteq> []" by (simp add: num_def)
  from card_head_text [OF L wd_def this, of l, folded R_def] obtain b b2 pos2 where
    b: "card_first_line wd l num (?s (card_size R L)) = Some b"
    and c: "card_head_columns R L 0 b (wd + 1 + 4) = Some (b2, pos2)" "put b2 (pos2 - 1) [NL] = Some (?h @ ?s (10 * (wd + 1) + 1))" "pos2 = length ?h"
    and h: "length ?h = 2 * (wd + 1)"
    by (auto simp: bind_eq_Some_conv)
  define t where "t = ?h @ card_body 1 (chunks 10 R codes)"
  have k: "(4 + (L + 1) * R) * 10 \<le> 10 * (wd + 1) + 1" "10 * (wd + 1) + 1 - (4 + (L + 1) * R) * 10 = 1" using W by simp_all
  obtain a3 p3 where q3: "card_rows R L 1 (?h @ ?s (10 * (wd + 1) + 1)) (length ?h) (num_of ((nval n - 1) * (R * 10))) a2 p2 w =
       Some (Some (t @ '' ''), a3, p3, w)"
      "asked a2 (code_requests ((nval n - 1) * (R * 10)) (R * 10)) a3" "pipe_ok p3" "pipe_bytes p3 = rest"
      "length (card_body 1 (chunks 10 R codes)) = (4 + (L + 1) * R) * 10"
    using card_rows_text [OF L free(2) R(1) r(4) _ _ cs(1) [folded R_def] cs(2) k(1) asked_free [OF q2(2)] q2(3,4), of 1 ?h "(nval n - 1) * (R * 10)"]
    unfolding k(2) t_def cs(1) [folded R_def] mult.commute [of R 10] by auto
  have len: "length t + 1 = card_size R L" using h q3(5) W by (simp add: t_def card_size_def wd_def R_def)
  have fin: "put (t @ '' '') (card_size R L - 1) [NUL] = Some (t @ [NUL])"
    using put_here [of "[NUL]" "'' ''" t] len [symmetric] by simp
  have t: "t = card_text L l (nval n) codes" by (simp add: t_def card_text_def R_def wd_def num_def Let_def)
  have num: "num_export n NUM_FORMAT_DEC = Some num" by (simp add: num_export_dec num_def)
  have "card_ascii host a n p w = Some (Some (t @ [NUL]), a3, p3, w)"
    by (simp only: card_ascii_def q1(1) Let_def prod.case option.case per_row_int [OF L] bind.bind_lunit fault_ok [OF free(2)] if_False
        nat_int q2(1) lab num R_def [symmetric] wd_R simp_thms b c(1,2) first_code_number [OF n R(2)] q3(1) [folded c(3)] fin)
  moreover have "asked a (card_requests n L) a3"
    using asked_trans [OF asked_trans [OF q1(2) q2(2)] q3(2)] by (simp add: card_requests_def R_def)
  ultimately show ?thesis using len q3(3,4) unfolding t l_def R_def by blast
qed

text \<open>
  C33: from the answers of the agent (the length of a code, the label, the codes) the buffer code
  prints exactly the card as the text of its lines, inside a buffer of the computed size, closed by
  a NUL; it asks for the length, the label and the passcodes of the card's own numbers in order.
\<close>

theorem card_ascii_layout:
  assumes "card_answers rs L lab codes" and "0 < nval n" and "a_s (c_agent a) = None" and "w_faults w = []"
    and "pipe_ok p" and "pipe_bytes p = concat (map header_bytes rs) @ rest"
  shows "\<exists>b q. card_ascii host a n p w = Some (Some (card_text L (shown_label host lab) (nval n) codes @ [NUL]), b, q, w) \<and>
    a_sent (c_agent b) = a_sent (c_agent a) @ card_requests n L \<and> pipe_bytes q = rest"
  using card_ascii_text [OF assms, of host] by (auto simp: asked_def)

text \<open>Answers for an example: a card of codes with sixteen characters.\<close>

definition sample_reply :: "u32 \<Rightarrow> num_t \<Rightarrow> string \<Rightarrow> agent_header" where
  "sample_reply i n s =
     \<lparr>h_version = AGENT_PROTOCOL_VERSION, h_type = 0, h_status = 0, h_int = i, h_int2 = 0, h_num = n,
      h_str = s @ replicate (255 - length s) NUL\<rparr>"

definition sample_codes :: "string list" where
  "sample_codes = replicate 20 ''kT4!pQ7zXw=3mN#y''"

definition sample_answers :: "agent_header list" where
  "sample_answers = sample_reply 16 num_zero [] # sample_reply 0 num_zero ''notebook'' # map (sample_reply 0 num_zero) sample_codes"

definition sample_client :: client where
  "sample_client = \<lparr>c_agent = agent_blank, c_pid = 9, c_error = 0\<rparr>"

lemma sample_client_free [simp]: "a_s (c_agent sample_client) = None"
  by (simp add: sample_client_def agent_blank_def Let_def)

lemma sample_reply_ok [simp]: "length s \<le> 254 \<Longrightarrow> reply_ok (sample_reply i n s)"
  by (simp add: sample_reply_def reply_ok_def header_ok_def)

lemma takeWhile_c_str: "NUL \<notin> set t \<Longrightarrow> takeWhile (\<lambda>c. c \<noteq> NUL) (t @ NUL # r) = t"
  by (subst takeWhile_append2) auto

lemma sample_reply_says:
  assumes "length s \<le> 254" "NUL \<notin> set s"
  shows "says (sample_reply i n s) s"
proof -
  have "255 - length s = Suc (254 - length s)" using assms(1) by simp
  then show ?thesis
    using sample_reply_ok [OF assms(1)] takeWhile_c_str [OF assms(2)]
    by (auto simp: says_def c_str_def sample_reply_def)
qed

lemma sample_card: "card_answers sample_answers 16 ''notebook'' sample_codes"
proof -
  have "list_all2 says (map (sample_reply 0 num_zero) sample_codes) sample_codes"
    by (auto simp: list_all2_conv_all_nth sample_codes_def intro!: sample_reply_says)
  moreover have "says (sample_reply 0 num_zero ''notebook'') ''notebook''" by (rule sample_reply_says) simp_all
  moreover have "length sample_codes = 10 * per_row 16" "\<forall>c \<in> set sample_codes. length c = 16"
    by (simp_all add: sample_codes_def per_row_def)
  moreover have "reply_ok (sample_reply 16 num_zero [])" "sint (h_int (sample_reply 16 num_zero [])) = 16"
    by simp (simp add: sample_reply_def)
  ultimately show ?thesis by (simp add: card_answers_def sample_answers_def)
qed

lemma one_piece: "4 \<le> length b \<Longrightarrow> pipe_ok \<lparr>buffered = [], pieces = [b]\<rparr> \<and> pipe_bytes \<lparr>buffered = [], pieces = [b]\<rparr> = b"
  by (auto simp: pipe_ok_def pipe_bytes_def)

lemma header_bytes_long: "4 \<le> length (header_bytes h @ b)"
  by (simp add: header_bytes_def)

theorem card_ascii_layout_witness:
  "\<exists>b q. card_ascii [] sample_client (num_i 7) \<lparr>buffered = [], pieces = [concat (map header_bytes sample_answers)]\<rparr> sample_world =
      Some (Some (card_text 16 ''notebook'' 7 sample_codes @ [NUL]), b, q, sample_world) \<and>
    a_sent (c_agent b) = a_sent (c_agent sample_client) @ card_requests (num_i 7) 16"
proof -
  let ?b = "concat (map header_bytes sample_answers)"
  have "4 \<le> length ?b" using header_bytes_long by (simp only: sample_answers_def list.map concat.simps)
  then have p: "pipe_ok \<lparr>buffered = [], pieces = [?b]\<rparr>" "pipe_bytes \<lparr>buffered = [], pieces = [?b]\<rparr> = ?b @ []"
    using one_piece [of ?b] by simp_all
  have "nval (num_i 7) = 7" by (simp add: nval_def num_ii_def)
  moreover have "w_faults sample_world = []" by (simp add: sample_world_def)
  ultimately show ?thesis
    using card_ascii_layout [OF sample_card _ sample_client_free _ p, of "num_i 7" sample_world "[]"] by (auto simp: shown_label_def)
qed

subsection \<open>Six cards\<close>

text \<open>The cards of a document with a line feed between them.\<close>

fun joined :: "string list \<Rightarrow> string" where
  "joined [] = []"
| "joined [t] = t"
| "joined (t # ts) = t @ [NL] @ joined ts"

lemma put_end_at:
  assumes "snd b = length d" "fst b = d @ replicate k c" "length s \<le> k"
  shows "put_end s b = Some ((d @ s) @ replicate (k - length s) c, length (d @ s))"
  using put_here [of s "replicate k c" d] assms by (simp add: put_end_def)

lemma spaced_no_nul: "\<forall>c \<in> set cs. NUL \<notin> set c \<Longrightarrow> NUL \<notin> set (spaced cs)"
  by (induction cs rule: spaced.induct) auto

lemma set_chunks: "xs \<in> set (chunks k n ys) \<Longrightarrow> set xs \<subseteq> set ys"
proof (induction k arbitrary: ys)
  case (Suc k)
  then show ?case using Suc.IH [of "drop n ys"] set_take_subset [of n ys] set_drop_subset [of n ys] by auto
qed simp

lemma dec_no_nul: "NUL \<notin> set (nat_str upper_digit 10 n)"
proof -
  have "list_all (\<lambda>c. c \<noteq> NUL) (nat_str upper_digit 10 n)"
    by (rule nat_str_digits) (use digit_not_special(8) [of 10] in simp_all)
  then show ?thesis by (auto simp: list_all_iff)
qed

lemma card_text_no_nul:
  assumes "NUL \<notin> set lab" "\<forall>c \<in> set codes. NUL \<notin> set c" "2 \<le> L" "L \<le> 16"
  shows "NUL \<notin> set (card_text L lab n codes)"
proof -
  have 1: "NUL \<notin> set (card_top w lab num)" if "NUL \<notin> set num" for w num
    using assms(1) that by (auto simp: card_top_def cut_label_def cut_number_def Let_def dest: in_set_takeD in_set_dropD)
  have c: "NUL \<notin> set card_columns" by (simp add: card_columns_def)
  then have "card_columns ! i \<noteq> NUL" if "i < per_row L" for i
    using that per_row_bounds [OF assms(3,4)] nth_mem [of i card_columns] by fastforce
  then have 2: "NUL \<notin> set (card_names (per_row L) L)"
    unfolding card_names_def set_append Un_iff de_Morgan_disj by (intro conjI spaced_no_nul) (auto, metis)
  have r: "NUL \<notin> set (row_label i)" for i using dec_no_nul [of i] by (simp add: row_label_def)
  have "NUL \<notin> set (spaced cs)" if "cs \<in> set (chunks 10 (per_row L) codes)" for cs
    using set_chunks [OF that] assms(2) by (intro spaced_no_nul) auto
  then have 3: "NUL \<notin> set (card_body 1 (chunks 10 (per_row L) codes))"
    using r by (auto simp: card_body_def enumerate_eq_zip dest: set_zip_rightD)
  show ?thesis using 1 [OF dec_no_nul] 2 3 by (simp add: card_text_def Let_def)
qed

lemma says_no_nul: "says r s \<Longrightarrow> NUL \<notin> set s"
  by (auto simp: says_def c_str_def dest: set_takeWhileD)

lemma card_answers_no_nul:
  assumes "card_answers rs L lab codes"
  shows "NUL \<notin> set (card_text L (shown_label host lab) n codes)"
proof (rule card_text_no_nul)
  show "NUL \<notin> set (shown_label host lab)"
    using assms says_no_nul by (auto simp: card_answers_def shown_label_def dest: set_takeWhileD)
  have "list_all2 says (drop 2 rs) codes" using assms by (simp add: card_answers_def)
  then show "\<forall>c \<in> set codes. NUL \<notin> set c"
    by (induction rule: list_all2_induct) (auto dest: says_no_nul)
qed (use assms in \<open>auto simp: card_answers_def\<close>)

text \<open>What a card of a document is made from: the answers, and the length, label and codes they give.\<close>

type_synonym card_source = "agent_header list \<times> nat \<times> string \<times> string list"

definition source_ok :: "card_source \<Rightarrow> bool" where
  "source_ok x = (case x of (rs, L, lab, codes) \<Rightarrow> card_answers rs L lab codes)"

definition source_bytes :: "card_source \<Rightarrow> bytes" where
  "source_bytes x = concat (map header_bytes (fst x))"

definition source_text :: "string \<Rightarrow> nat \<Rightarrow> card_source \<Rightarrow> string" where
  "source_text host n x = (case x of (rs, L, lab, codes) \<Rightarrow> card_text L (shown_label host lab) n codes)"

fun source_texts :: "string \<Rightarrow> nat \<Rightarrow> card_source list \<Rightarrow> string list" where
  "source_texts host n [] = []"
| "source_texts host n (x # xs) = source_text host n x # source_texts host (Suc n) xs"

lemma length_source_texts [simp]: "length (source_texts host n xs) = length xs"
  by (induction xs arbitrary: n) simp_all

lemma source_texts_append:
  "source_texts host n (xs @ ys) = source_texts host n xs @ source_texts host (n + length xs) ys"
  by (induction xs arbitrary: n) simp_all

lemma card_source_text:
  assumes "source_ok x" "0 < nval n" "a_s (c_agent a) = None" "w_faults w = []" "pipe_ok p" "pipe_bytes p = source_bytes x @ rest"
  shows "\<exists>b q. card_ascii host a n p w = Some (Some (source_text host (nval n) x @ [NUL]), b, q, w) \<and>
    a_s (c_agent b) = None \<and> pipe_ok q \<and> pipe_bytes q = rest"
    and "NUL \<notin> set (source_text host m x)" and "length (source_text host (nval n) x) \<le> 528"
proof -
  obtain rs L lab codes where x: "x = (rs, L, lab, codes)" by (cases x)
  have ans: "card_answers rs L lab codes" using assms(1) by (simp add: x source_ok_def)
  have L: "2 \<le> L" "L \<le> 16" using ans by (simp_all add: card_answers_def)
  note t = card_ascii_text [OF ans assms(2-5), of rest host]
  have pb: "pipe_bytes p = concat (map header_bytes rs) @ rest" using assms(6) by (simp add: x source_bytes_def)
  show "\<exists>b q. card_ascii host a n p w = Some (Some (source_text host (nval n) x @ [NUL]), b, q, w) \<and>
    a_s (c_agent b) = None \<and> pipe_ok q \<and> pipe_bytes q = rest"
    using t [OF pb] by (auto simp: x source_text_def asked_def)
  show "NUL \<notin> set (source_text host m x)" using card_answers_no_nul [OF ans] by (simp add: x source_text_def)
  show "length (source_text host (nval n) x) \<le> 528"
    using t [OF pb] card_width_bounds(2) [OF L] by (auto simp: x source_text_def card_size_def)
qed

lemma joined_Cons: "ts \<noteq> [] \<Longrightarrow> joined (t # ts) = t @ [NL] @ joined ts"
  by (cases ts) simp_all

lemma num_add_small:
  assumes "nval n + i < 2 ^ 128" "i \<le> 5"
  shows "nval (num_add n (num_i (of_nat i))) = nval n + i"
proof -
  have "nval (num_i (of_nat i)) = i" using assms(2) by (simp add: nval_def num_ii_def unat_of_nat_lt)
  then show ?thesis
    using num_add_ov_val(1) [of n "num_i (of_nat i)" False] assms(1)
    by (cases "num_add_ov n (num_i (of_nat i)) False") (simp add: num_add_def)
qed

lemma latex_cards_text:
  assumes free: "w_faults w = []" and n: "0 < nval n" "nval n + final < 2 ^ 128" "final \<le> 5"
  shows "xs \<noteq> [] \<Longrightarrow> i + length xs = Suc final \<Longrightarrow> \<forall>x \<in> set xs. source_ok x \<Longrightarrow> 529 * length xs \<le> k \<Longrightarrow>
    a_s (c_agent a) = None \<Longrightarrow> pipe_ok p \<Longrightarrow> pipe_bytes p = concat (map source_bytes xs) @ rest \<Longrightarrow>
    \<exists>b q. latex_cards host i final n (d @ replicate k NUL) (length d) a p w =
       Some (Some (d @ joined (source_texts host (nval n + i) xs) @ replicate (k - length (joined (source_texts host (nval n + i) xs))) NUL,
         length (d @ joined (source_texts host (nval n + i) xs))), b, q, w) \<and>
      a_s (c_agent b) = None \<and> pipe_ok q \<and> pipe_bytes q = rest \<and>
      length (joined (source_texts host (nval n + i) xs)) \<le> 529 * length xs \<and> NUL \<notin> set (joined (source_texts host (nval n + i) xs))"
proof (induction xs arbitrary: i d k a p)
  case (Cons x xs)
  have i: "i \<le> final" using Cons.prems(2) by simp
  let ?n = "num_add n (num_i (of_nat i))"
  have nv: "nval ?n = nval n + i" using num_add_small [of n i] n i by simp
  define t where "t = source_text host (nval n + i) x"
  have x: "source_ok x" "0 < nval ?n" using Cons.prems(3) nv n(1) by simp_all
  have pb: "pipe_bytes p = source_bytes x @ (concat (map source_bytes xs) @ rest)" using Cons.prems(7) by simp
  note c = card_source_text [OF x Cons.prems(5) free Cons.prems(6) pb, of host, folded nv, unfolded nv, folded t_def]
  obtain b q where g: "card_ascii host a ?n p w = Some (Some (t @ [NUL]), b, q, w)" "a_s (c_agent b) = None" "pipe_ok q"
    "pipe_bytes q = concat (map source_bytes xs) @ rest" using c(1) by blast
  have t: "NUL \<notin> set t" "length t \<le> 528" using c(2) [of "nval n + i"] c(3) by (simp_all add: t_def)
  have k: "529 + 529 * length xs \<le> k" using Cons.prems(4) by simp
  have tw: "takeWhile (\<lambda>c. c \<noteq> NUL) (t @ [NUL]) = t" using takeWhile_c_str [OF t(1), of "[]"] .
  have p: "put (d @ replicate k NUL) (length d) t = Some ((d @ t) @ replicate (k - length t) NUL)"
    using put_here [of t "replicate k NUL" d] t k by simp
  show ?case
  proof (cases "xs = []")
    case True
    then have f: "i = final" using Cons.prems(2) by simp
    have "latex_cards host i final n (d @ replicate k NUL) (length d) a p w =
        Some (Some (d @ t @ replicate (k - length t) NUL, length (d @ t)), b, q, w)"
      using f by (subst latex_cards.simps) (simp add: g(1) [unfolded f] tw p latex_cards.simps [of host "Suc final"])
    then show ?thesis using True g t t_def by simp
  next
    case False
    then have f: "i \<noteq> final" using Cons.prems(2) by (cases xs) auto
    have p2: "put ((d @ t) @ replicate (k - length t) NUL) (length (d @ t)) [NL] = Some ((d @ t @ [NL]) @ replicate (k - length t - 1) NUL)"
      using put_here [of "[NL]" "replicate (k - length t) NUL" "d @ t"] t k by simp
    have kk: "529 * length xs \<le> k - length t - 1" using k t by simp
    obtain b' q' where h: "latex_cards host (i + 1) final n ((d @ t @ [NL]) @ replicate (k - length t - 1) NUL) (length (d @ t @ [NL])) b q w =
        Some (Some ((d @ t @ [NL]) @ joined (source_texts host (nval n + (i + 1)) xs) @
            replicate (k - length t - 1 - length (joined (source_texts host (nval n + (i + 1)) xs))) NUL,
          length ((d @ t @ [NL]) @ joined (source_texts host (nval n + (i + 1)) xs))), b', q', w)"
      "a_s (c_agent b') = None" "pipe_ok q'" "pipe_bytes q' = rest"
      "length (joined (source_texts host (nval n + (i + 1)) xs)) \<le> 529 * length xs" "NUL \<notin> set (joined (source_texts host (nval n + (i + 1)) xs))"
      using Cons.IH [OF False _ _ kk g(2-4), of "i + 1" "d @ t @ [NL]"] Cons.prems(2,3) by auto
    have j: "joined (source_texts host (nval n + i) (x # xs)) = t @ [NL] @ joined (source_texts host (nval n + (i + 1)) xs)"
    proof -
      have "source_texts host (nval n + (i + 1)) xs \<noteq> []" using False by (metis length_0_conv length_source_texts)
      then show ?thesis by (simp add: joined_Cons t_def)
    qed
    have "latex_cards host i final n (d @ replicate k NUL) (length d) a p w =
        latex_cards host (i + 1) final n ((d @ t @ [NL]) @ replicate (k - length t - 1) NUL) (length (d @ t @ [NL])) b q w"
      using i f p2 by (subst latex_cards.simps) (simp add: g(1) tw p Let_def)
    then show ?thesis using h t unfolding j by (simp add: diff_diff_eq add.assoc)
  qed
qed simp

lemma latex_lengths:
  "length latex_intro = 105" "length latex_block_start = 17" "length latex_block_stop = 23" "length latex_outro = 15" "latex_size = 3806"
  by (simp_all add: latex_intro_def latex_block_start_def latex_block_stop_def latex_outro_def latex_size_def)

lemma latex_no_nul:
  "NUL \<notin> set latex_intro" "NUL \<notin> set latex_block_start" "NUL \<notin> set latex_block_stop" "NUL \<notin> set latex_outro"
  by (simp_all add: latex_intro_def latex_block_start_def latex_block_stop_def latex_outro_def)

definition latex_text :: "string \<Rightarrow> nat \<Rightarrow> card_source list \<Rightarrow> string" where
  "latex_text host n xs =
     latex_intro @ latex_block_start @ joined (source_texts host n (take 3 xs)) @ [NL, NL] @ latex_block_stop @
     latex_block_start @ joined (source_texts host (n + 3) (drop 3 xs)) @ latex_block_stop @ latex_outro"

text \<open>
  C35: for a card number that leaves room for six cards the LaTeX document is the six cards between
  their preambles; it and its NUL fit the buffer, whatever lengths the codes have and however
  long the labels are: no write of the code reaches past the end.
\<close>

theorem card_latex_fits:
  assumes "reply_ok m" and "0 < nval n" and "nval n + 5 \<le> nval (h_num m)" and "length xs = 6" and "\<forall>x \<in> set xs. source_ok x"
    and "a_s (c_agent a) = None" and "w_faults w = []"
    and "pipe_ok p" and "pipe_bytes p = header_bytes m @ concat (map source_bytes xs) @ rest"
  shows "\<exists>d b q. card_latex host a n p w = Some (Some d, b, q, w) \<and> length d = latex_size \<and>
    c_str d = latex_text host (nval n) xs \<and> length (latex_text host (nval n) xs) < latex_size \<and> pipe_bytes q = rest"
proof -
  define ys zs where "ys = take 3 xs" and "zs = drop 3 xs"
  have yz: "xs = ys @ zs" "length ys = 3" "length zs = 3" using assms(4) by (simp_all add: ys_def zs_def)
  have ok: "\<forall>x \<in> set ys. source_ok x" "\<forall>x \<in> set zs. source_ok x" using assms(5) by (auto simp: yz(1))
  have ne: "ys \<noteq> []" "zs \<noteq> []" using yz(2,3) by auto
  obtain a1 p1 where q1: "agent_get_num a (word_of_int PPP_FIELD_MAX_CARD) p w = (0, Some (h_num m), a1, p1, w)" "a_s (c_agent a1) = None"
    "pipe_ok p1" "pipe_bytes p1 = concat (map source_bytes ys) @ concat (map source_bytes zs) @ rest"
    using get_num_reply [OF assms(6,7,1,8), of "concat (map source_bytes ys) @ concat (map source_bytes zs) @ rest" "word_of_int PPP_FIELD_MAX_CARD"]
      assms(9) yz(1) asked_free by auto
  have big: "nval n + 5 < 2 ^ 128" using assms(3) nval_less [of "h_num m"] by simp
  have "nval (num_i 5) = 5" by (simp add: nval_def num_ii_def)
  then have "nval (num_sub (h_num m) (num_i 5)) = nval (h_num m) - 5"
    using num_sub_ov_val [of "h_num m" "num_i 5" False] assms(3)
    by (cases "num_sub_ov (h_num m) (num_i 5) False") (simp add: num_sub_def)
  then have cmp: "\<not> num_cmp n (num_sub (h_num m) (num_i 5)) > 0" using assms(3) by (auto simp: num_cmp_val)
  note e = latex_lengths
  define j1 j2 where "j1 = joined (source_texts host (nval n) ys)" and "j2 = joined (source_texts host (nval n + 3) zs)"
  let ?z = "\<lambda>k. replicate k NUL"
  define d1 where "d1 = latex_intro @ latex_block_start"
  have 1: "put_end latex_intro (?z latex_size, 0) = Some (latex_intro @ ?z (latex_size - 105), length latex_intro)"
    using put_end_at [of "(?z latex_size, 0)" "[]" latex_size NUL latex_intro] e by simp
  have 2: "put_end latex_block_start (latex_intro @ ?z (latex_size - 105), length latex_intro) = Some (d1 @ ?z 3684, length d1)"
    using put_end_at [of "(latex_intro @ ?z (latex_size - 105), length latex_intro)" latex_intro "latex_size - 105" NUL latex_block_start] e
    by (simp add: d1_def)
  have n2: "nval n + 2 < 2 ^ 128" using big by simp
  obtain a2 p2 where 3: "latex_cards host 0 2 n (d1 @ ?z 3684) (length d1) a1 p1 w = Some (Some (d1 @ j1 @ ?z (3684 - length j1), length (d1 @ j1)), a2, p2, w)"
    and f3: "a_s (c_agent a2) = None" "pipe_ok p2" "pipe_bytes p2 = concat (map source_bytes zs) @ rest" and l1: "length j1 \<le> 1587" "NUL \<notin> set j1"
    using latex_cards_text [OF assms(7,2) n2 _ ne(1) _ ok(1) _ q1(2-4), of 0 3684 host d1] yz(2) by (auto simp: j1_def)
  define d2 where "d2 = d1 @ j1 @ [NL, NL]"
  have 4: "put_end [NL, NL] (d1 @ j1 @ ?z (3684 - length j1), length (d1 @ j1)) = Some (d2 @ ?z (3682 - length j1), length d2)"
    using put_end_at [of "(d1 @ j1 @ ?z (3684 - length j1), length (d1 @ j1))" "d1 @ j1" "3684 - length j1" NUL "[NL, NL]"] l1 by (simp add: d2_def)
  define d3 where "d3 = d2 @ latex_block_stop"
  have 5: "put_end latex_block_stop (d2 @ ?z (3682 - length j1), length d2) = Some (d3 @ ?z (3659 - length j1), length d3)"
    using put_end_at [of "(d2 @ ?z (3682 - length j1), length d2)" d2 "3682 - length j1" NUL latex_block_stop] l1 e by (simp add: d3_def)
  define d4 where "d4 = d3 @ latex_block_start"
  have 6: "put_end latex_block_start (d3 @ ?z (3659 - length j1), length d3) = Some (d4 @ ?z (3642 - length j1), length d4)"
    using put_end_at [of "(d3 @ ?z (3659 - length j1), length d3)" d3 "3659 - length j1" NUL latex_block_start] l1 e by (simp add: d4_def)
  have k: "529 * length zs \<le> 3642 - length j1" using l1 yz(3) by simp
  obtain a3 p3 where 7: "latex_cards host 3 5 n (d4 @ ?z (3642 - length j1)) (length d4) a2 p2 w =
       Some (Some (d4 @ j2 @ ?z (3642 - length j1 - length j2), length (d4 @ j2)), a3, p3, w)"
    and f7: "pipe_bytes p3 = rest" and l2: "length j2 \<le> 1587" "NUL \<notin> set j2"
    using latex_cards_text [OF assms(7,2) big _ ne(2) _ ok(2) k f3, of 3 host d4] yz(3) by (auto simp: j2_def)
  define d5 where "d5 = d4 @ j2 @ latex_block_stop"
  have 8: "put_end latex_block_stop (d4 @ j2 @ ?z (3642 - length j1 - length j2), length (d4 @ j2)) = Some (d5 @ ?z (3619 - length j1 - length j2), length d5)"
    using put_end_at [of "(d4 @ j2 @ ?z (3642 - length j1 - length j2), length (d4 @ j2))" "d4 @ j2" "3642 - length j1 - length j2" NUL latex_block_stop] l1 l2 e
    by (simp add: d5_def)
  define d6 where "d6 = d5 @ latex_outro"
  have 9: "put_end latex_outro (d5 @ ?z (3619 - length j1 - length j2), length d5) = Some (d6 @ ?z (3604 - length j1 - length j2), length d6)"
    using put_end_at [of "(d5 @ ?z (3619 - length j1 - length j2), length d5)" d5 "3619 - length j1 - length j2" NUL latex_outro] l1 l2 e
    by (simp add: d6_def)
  have d6: "d6 = latex_text host (nval n) xs"
    by (simp add: d6_def d5_def d4_def d3_def d2_def d1_def latex_text_def j1_def j2_def ys_def zs_def)
  have len: "length d6 + 3604 - length j1 - length j2 = latex_size \<and> length d6 < latex_size"
    using l1 l2 e by (simp add: d6_def d5_def d4_def d3_def d2_def d1_def)
  have "NUL \<notin> set d6" using latex_no_nul l1 l2 by (simp add: d6_def d5_def d4_def d3_def d2_def d1_def)
  moreover have "3604 - length j1 - length j2 = Suc (3603 - length j1 - length j2)" using l1 l2 by simp
  ultimately have c: "c_str (d6 @ ?z (3604 - length j1 - length j2)) = d6" using takeWhile_c_str by (simp add: c_str_def)
  have "card_latex host a n p w = Some (Some (d6 @ ?z (3604 - length j1 - length j2)), a3, p3, w)"
    by (simp only: card_latex_def q1(1) Let_def prod.case option.case cmp if_False fault_ok [OF assms(7)] 1 2 3 4 5 6 7 8 9 bind.bind_lunit fst_conv)
  moreover have "length (d6 @ ?z (3604 - length j1 - length j2)) = latex_size" using len l1 l2 by simp
  ultimately show ?thesis using c len f7 unfolding d6 by blast
qed

theorem card_latex_fits_witness:
  "\<exists>d b q. card_latex [] sample_client (num_i 7)
      \<lparr>buffered = [], pieces = [header_bytes (sample_reply 0 (num_i 1000) []) @
          concat (map source_bytes (replicate 6 (sample_answers, 16, ''notebook'', sample_codes)))]\<rparr> sample_world =
      Some (Some d, b, q, sample_world) \<and> length d = latex_size"
proof -
  let ?m = "sample_reply 0 (num_i 1000) []" and ?xs = "replicate 6 (sample_answers, 16::nat, ''notebook'', sample_codes)"
  have "4 \<le> length (header_bytes ?m @ concat (map source_bytes ?xs))" by (rule header_bytes_long)
  from one_piece [OF this]
  have p: "pipe_ok \<lparr>buffered = [], pieces = [header_bytes ?m @ concat (map source_bytes ?xs)]\<rparr>"
    "pipe_bytes \<lparr>buffered = [], pieces = [header_bytes ?m @ concat (map source_bytes ?xs)]\<rparr> = header_bytes ?m @ concat (map source_bytes ?xs) @ []"
    by simp_all
  have n: "nval (num_i 7) = 7" "nval (h_num ?m) = 1000" by (simp_all add: nval_def num_ii_def sample_reply_def)
  have x: "\<forall>x \<in> set ?xs. source_ok x" using sample_card by (simp add: source_ok_def)
  have w: "w_faults sample_world = []" by (simp add: sample_world_def)
  show ?thesis
    using card_latex_fits [OF _ _ _ _ x sample_client_free w p, of "num_i 7" "[]"] n by auto
qed

subsection \<open>The place of a code on its card\<close>

lemma spaced_at:
  "\<forall>c \<in> set cs. length c = L \<Longrightarrow> i < length cs \<Longrightarrow> take L (drop ((L + 1) * i) (spaced cs)) = cs ! i"
proof (induction cs arbitrary: i rule: spaced.induct)
  case (3 c d cs)
  then show ?case
  proof (cases i)
    case (Suc j)
    have "drop ((L + 1) * i) (spaced (c # d # cs)) = drop ((L + 1) * j) (spaced (d # cs))"
      using "3.prems"(1) by (simp add: Suc)
    then show ?thesis using "3.IH" [of j] "3.prems" by (simp add: Suc)
  qed simp
qed simp_all

lemma spaced_prefix: "\<forall>c \<in> set cs. length c = L \<Longrightarrow> i < length cs \<Longrightarrow> (L + 1) * i + L \<le> length (spaced cs)"
proof -
  assume a: "\<forall>c \<in> set cs. length c = L" "i < length cs"
  then have "cs \<noteq> []" by auto
  then have "length (spaced cs) = (L + 1) * length cs" using length_spaced a(1) by blast
  moreover have "(L + 1) * Suc i \<le> (L + 1) * length cs" using a(2) by (intro mult_le_mono2) simp
  ultimately show ?thesis by simp
qed

lemma take_drop_append: "i + n \<le> length xs \<Longrightarrow> take n (drop i (xs @ ys)) = take n (drop i xs)"
  by simp

lemma drop_chunks: "drop r (chunks k n xs) = chunks (k - r) n (drop (r * n) xs)"
proof (induction k arbitrary: r xs)
  case (Suc k)
  then show ?case by (cases r) (simp_all add: Suc.IH add.commute)
qed simp

lemma card_body_Cons: "card_body i (x # xs) = row_label i @ spaced x @ card_body (i + 1) xs"
  by (simp add: card_body_def)

lemma drop_card_body:
  assumes "\<forall>x \<in> set rows. length (spaced x) + 4 = w" "1 \<le> i" "i + length rows \<le> 11" "r \<le> length rows"
  shows "drop (r * w) (card_body i rows) = card_body (i + r) (drop r rows)"
  using assms
proof (induction r arbitrary: i rows)
  case (Suc r)
  then obtain x xs where rows: "rows = x # xs" by (cases rows) auto
  have l: "length (row_label i) = 4" using row_head_label [of i] Suc.prems by (simp add: rows)
  have "drop (Suc r * w) (card_body i rows) = drop (r * w) (drop (length (row_label i @ spaced x)) ((row_label i @ spaced x) @ card_body (i + 1) xs))"
    using l Suc.prems(1) by (simp add: rows card_body_Cons add.commute)
  also have "\<dots> = drop (r * w) (card_body (i + 1) xs)" by (simp only: append_eq_conv_conj [THEN iffD1, OF refl, THEN conjunct2, symmetric])
  also have "\<dots> = card_body (i + 1 + r) (drop r xs)" using Suc.IH [of xs "i + 1"] Suc.prems by (simp add: rows)
  finally show ?case by (simp add: rows)
qed simp

lemma code_at:
  assumes L: "2 \<le> L" "L \<le> 16" and cs: "length codes = 10 * per_row L" "\<forall>c \<in> set codes. length c = L"
    and r: "r < 10" and c: "c < per_row L" and w: "w = card_width (per_row L) L + 1"
  shows "take L (drop ((r + 2) * w + 4 + (L + 1) * c) (card_text L lab n codes)) = codes ! (r * per_row L + c)"
    and "card_text L lab n codes ! (w + 4 + (L + 1) * c) = card_columns ! c"
proof -
  define R where "R = per_row L"
  define num where "num = nat_str upper_digit 10 n"
  have R: "0 < R" "R \<le> 11" using per_row_bounds [OF L] by (simp_all add: R_def)
  have W: "w = 4 + (L + 1) * R" by (simp add: w R_def card_width_def)
  let ?nm = "map (\<lambda>i. card_columns ! i # replicate (L - 1) (CHR '' '')) [0..<R]"
  have nm: "\<forall>c \<in> set ?nm. length c = L" "?nm \<noteq> []" using L R by auto
  have t1: "length (card_top (card_width R L) lab num) = w"
    using card_top_length(3) [OF card_width_bounds(1) [OF L], of num lab] by (simp add: w R_def num_def)
  have t2: "length (card_names R L) = w" using length_spaced [OF nm] by (simp add: card_names_def W)
  have ct: "card_text L lab n codes = (card_top (card_width R L) lab num @ card_names R L) @ card_body 1 (chunks 10 R codes)"
    by (simp add: card_text_def Let_def R_def num_def)
  have rl: "\<forall>x \<in> set (chunks k R ys). length (spaced x) + 4 = w" if "length ys = k * R" "\<forall>c \<in> set ys. length c = L" for k ys
    using that
  proof (induction k arbitrary: ys)
    case (Suc k)
    have "length (take R ys) = R" "take R ys \<noteq> []" using Suc.prems R by auto
    then have "length (spaced (take R ys)) + 4 = w"
      using length_spaced [of "take R ys" L] Suc.prems(2) W by (auto dest: in_set_takeD)
    moreover have "\<forall>x \<in> set (chunks k R (drop R ys)). length (spaced x) + 4 = w"
      using Suc.prems by (intro Suc.IH) (auto dest: in_set_dropD)
    ultimately show ?case by simp
  qed simp
  define x where "x = take R (drop (r * R) codes)"
  have "r * R + R \<le> 10 * R" using mult_le_mono1 [of "r + 1" 10 R] r by simp
  then have "R \<le> 10 * R - r * R" by linarith
  then have lx: "length x = R" using cs(1) by (simp add: x_def R_def [symmetric] min_absorb2)
  have xs: "\<forall>c \<in> set x. length c = L" using cs(2) by (auto simp: x_def dest: in_set_takeD in_set_dropD)
  have "10 - r = Suc (9 - r)" using r by simp
  then have d: "drop (r * w) (card_body 1 (chunks 10 R codes)) = row_label (1 + r) @ spaced x @ card_body (r + 2) (chunks (9 - r) R (drop R (drop (r * R) codes)))"
    using drop_card_body [OF rl [of codes 10], of 1 r] cs r by (simp add: drop_chunks card_body_Cons x_def R_def)
  have l: "length (row_label (1 + r)) = 4" using row_head_label [of "1 + r"] r by simp
  have "drop ((r + 2) * w + 4 + (L + 1) * c) (card_text L lab n codes) =
      drop (4 + (L + 1) * c) (drop (r * w) (drop (w + w) (card_text L lab n codes)))" by (simp add: algebra_simps)
  also have "drop (w + w) (card_text L lab n codes) = card_body 1 (chunks 10 R codes)" unfolding ct by (simp add: t1 t2)
  also have "drop (4 + (L + 1) * c) (drop (r * w) \<dots>) = drop ((L + 1) * c) (spaced x @ card_body (r + 2) (chunks (9 - r) R (drop R (drop (r * R) codes))))"
    unfolding d using l by simp
  finally have "take L (drop ((r + 2) * w + 4 + (L + 1) * c) (card_text L lab n codes)) = take L (drop ((L + 1) * c) (spaced x))"
    using spaced_prefix [OF xs, of c] c lx by (simp only: R_def) (subst take_drop_append, simp_all)
  also have "\<dots> = x ! c" using spaced_at [OF xs] c lx by (simp add: R_def)
  also have "\<dots> = codes ! (r * R + c)" using c lx by (simp add: x_def R_def)
  finally show "take L (drop ((r + 2) * w + 4 + (L + 1) * c) (card_text L lab n codes)) = codes ! (r * per_row L + c)" by (simp add: R_def)
  have "take L (drop ((L + 1) * c) (spaced ?nm)) = ?nm ! c" using spaced_at [OF nm(1)] c by (simp add: R_def)
  then have "take L (drop ((L + 1) * c) (spaced ?nm)) ! 0 = card_columns ! c" using c by (simp add: R_def)
  moreover have "(L + 1) * c + L \<le> length (spaced ?nm)" using spaced_prefix [OF nm(1)] c by (simp add: R_def)
  ultimately have "spaced ?nm ! ((L + 1) * c) = card_columns ! c" and le: "(L + 1) * c < length (spaced ?nm)" using L by simp_all
  then have "card_names R L ! (4 + (L + 1) * c) = card_columns ! c" by (simp add: card_names_def nth_append)
  moreover have "4 + (L + 1) * c < length (card_names R L)" using le by (simp add: card_names_def)
  ultimately show "card_text L lab n codes ! (w + 4 + (L + 1) * c) = card_columns ! c"
    unfolding ct using t1 by (simp add: nth_append add.assoc)
qed

lemma card_column_code: "c < 12 \<Longrightarrow> of_char (card_columns ! c) = 65 + c"
proof -
  assume "c < 12"
  then have "c \<in> {0, 1, 2, 3, 4, 5, 6, 7, 8, 9, 10, 11}" unfolding insert_iff empty_iff by presburger
  then show ?thesis by (auto simp: card_columns_def)
qed

lemma request_at_place:
  assumes "R = per_row L" "2 \<le> R" "R \<le> 11" "nval cd = nval m div (10 * R) + 1"
  shows "card_requests cd L ! (2 + (nval m mod (10 * R) div R * R + nval m mod R)) = get_request AGENT_REQ_GET_PASSCODE 0 m"
proof -
  let ?i = "nval m mod (10 * R) div R * R + nval m mod R"
  have "?i < R * 10" using place_in_card [OF assms(2,3), of "nval m"] by simp
  moreover have "nval m div (10 * R) * (R * 10) + ?i = nval m" using place_digits [of "nval m" R] by (simp add: mult.commute [of R 10])
  ultimately show ?thesis by (simp add: card_requests_def code_requests_def assms(1) [symmetric] assms(4))
qed

text \<open>
  C34: the place that the prompt of a login names is the place on the card: on the card of the
  current number, in the row and under the column letter that the place computation gives, stands
  the answer to the request for the passcode of the current counter without its salt.
\<close>

theorem card_shows_prompted_code:
  assumes "2 \<le> code_length s" and "code_length s \<le> 16" and "110 \<le> counter_range s"
    and "length codes = 10 * per_row (unat (code_length s))" and "\<forall>c \<in> set codes. length c = unat (code_length s)"
  shows "\<exists>t line place i. ppp_calculate s = Some t \<and>
    line = card_width (per_row (unat (code_length s))) (unat (code_length s)) + 1 \<and>
    place = 4 + (unat (code_length s) + 1) * (unat (current_column t) - 65) \<and>
    i = (unat (current_row t) - 1) * unat (codes_in_row t) + (unat (current_column t) - 65) \<and>
    card_requests (current_card t) (unat (code_length s)) ! (2 + i) = get_request AGENT_REQ_GET_PASSCODE 0 (ppp_unsalted s) \<and>
    of_char (card_text (unat (code_length s)) lab (nval (current_card t)) codes ! (line + place)) = unat (current_column t) \<and>
    take (unat (code_length s)) (drop ((unat (current_row t) + 1) * line + place)
      (card_text (unat (code_length s)) lab (nval (current_card t)) codes)) = codes ! i"
proof -
  define L R n where "L = unat (code_length s)" and "R = per_row L" and "n = nval (ppp_unsalted s)"
  have L: "2 \<le> L" "L \<le> 16" using assms(1,2) by (simp_all add: L_def word_le_nat_alt)
  obtain t where t: "ppp_calculate s = Some t" and f: "unat (codes_in_row t) = R" "unat (codes_on_card t) = 10 * R"
    "nval (current_card t) = n div (10 * R) + 1" "unat (current_row t) = n mod (10 * R) div R + 1"
    "unat (current_column t) = 65 + n mod R" and b: "2 \<le> R" "R \<le> 11" "n mod (10 * R) div R < 10" "n mod R < R"
    using ppp_calculate_fields [OF assms(1-3), of R n] unfolding R_def n_def L_def by blast
  define r c ln tx where "r = n mod (10 * R) div R" and "c = n mod R" and "ln = card_width R L + 1"
    and "tx = card_text L lab (nval (current_card t)) codes"
  have rq: "card_requests (current_card t) L ! (2 + (r * R + c)) = get_request AGENT_REQ_GET_PASSCODE 0 (ppp_unsalted s)"
    using request_at_place [OF R_def b(1,2) f(3) [unfolded n_def]] by (simp add: r_def c_def n_def)
  note at = code_at [OF L assms(4,5) [folded L_def] b(3) b(4) [unfolded R_def] ln_def [unfolded R_def], of lab "nval (current_card t)",
    folded R_def, folded tx_def r_def c_def]
  have col: "unat (current_column t) - 65 = c" and row: "unat (current_row t) - 1 = r" "unat (current_row t) + 1 = r + 2"
    using f by (simp_all add: r_def c_def)
  have 1: "take L (drop ((unat (current_row t) + 1) * ln + (4 + (L + 1) * c)) tx) = codes ! (r * R + c)"
    unfolding row(2) using at(1) by (simp only: add.assoc)
  have "of_char (card_columns ! c) = 65 + c" unfolding c_def by (rule card_column_code) (use b in linarith)
  then have 2: "of_char (tx ! (ln + (4 + (L + 1) * c))) = unat (current_column t)"
    using at(2) f(5) by (simp only: add.assoc c_def)
  show ?thesis
    unfolding L_def [symmetric] R_def [symmetric]
    using t rq 1 2 f(1) unfolding tx_def
    by (intro exI [of _ t] exI [of _ ln] exI [of _ "4 + (L + 1) * c"] exI [of _ "r * R + c"]) (simp only: col row ln_def simp_thms)
qed

theorem card_shows_prompted_code_witness:
  "\<exists>t. ppp_calculate sample_place = Some t \<and>
    take 4 (drop ((unat (current_row t) + 1) * 39 + (4 + (4 + 1) * (unat (current_column t) - 65))) (card_text 4 ''notebook'' (nval (current_card t)) (replicate 70 ''kT4!''))) =
      replicate 70 ''kT4!'' ! ((unat (current_row t) - 1) * unat (codes_in_row t) + (unat (current_column t) - 65))"
proof -
  have a: "110 \<le> counter_range sample_place" "unat (code_length sample_place) = 4" "2 \<le> code_length sample_place" "code_length sample_place \<le> 16"
    by (simp_all add: counter_range_def ppp_unsalted_def salted_def sample_place_def state_zero_def nval_num_ii)
  have p: "per_row 4 = 7" "card_width 7 4 + 1 = 39" by (simp_all add: per_row_def card_width_def)
  show ?thesis
    using card_shows_prompted_code [OF a(3,4,1), of "replicate 70 ''kT4!''" "''notebook''"] unfolding a(2) p by auto
qed

end
