(* ===== verification/Otpasswd_Safe.thy ===== *)
theory Otpasswd_Safe
  imports Otpasswd Cards_Text
begin

text \<open>
  What the command line utility guarantees: the options an accepted command line leaves, the place
  specifications it understands, and what it never does without the consent of the user.
\<close>

subsection \<open>Accepted command lines\<close>

definition short_option :: "string option \<Rightarrow> bool" where
  "short_option s \<longleftrightarrow> (case s of None \<Rightarrow> True | Some s \<Rightarrow> length s \<le> 100)"

definition known_flags :: "u32 \<Rightarrow> bool" where
  "known_flags f \<longleftrightarrow> f AND NOT (FLAG_SHOW OR FLAG_DISABLED OR FLAG_SALTED) = 0"

lemma known_flags_or: "known_flags f \<Longrightarrow> known_flags g \<Longrightarrow> known_flags (f OR g)"
  by (simp only: known_flags_def bit.conj_disj_distrib2 or.right_neutral)

lemma known_flags_set: "known_flags FLAG_SHOW" "known_flags FLAG_SALTED" "known_flags FLAG_DISABLED" "known_flags 0"
  by (simp_all add: known_flags_def)

lemma opt_strdup_short: "opt_strdup s w = (r, w') \<Longrightarrow> length s \<le> 100 \<Longrightarrow> short_option r"
  by (auto simp: opt_strdup_def short_option_def split: prod.splits)

lemma fault_uid: "fault w = (b, w') \<Longrightarrow> w_uid w' = w_uid w"
  using fault_frame by (simp add: same_env_def)

lemma opt_strdup_uid: "opt_strdup s w = (r, w') \<Longrightarrow> w_uid w' = w_uid w"
  using fault_uid by (auto simp: opt_strdup_def split: prod.splits)

text \<open>What the settings of \<open>--config\<close> keep; the two masks are compared at the end of each.\<close>

definition options_settings :: "options_t \<Rightarrow> bool" where
  "options_settings opt \<longleftrightarrow>
     (set_codelength opt = -1 \<or> 2 \<le> set_codelength opt \<and> set_codelength opt \<le> 16) \<and>
     (set_alphabet opt = -1 \<or> 0 \<le> set_alphabet opt \<and> set_alphabet opt < ppp_alphabet_count) \<and>
     known_flags (flag_set_mask opt) \<and> known_flags (flag_clear_mask opt) \<and>
     short_option (o_label opt) \<and> short_option (o_contact opt)"

definition known_action :: "char \<Rightarrow> bool" where
  "known_action c \<longleftrightarrow> c \<in> set (CHR 0x00 # ''krstlPawiIcpxhA'')"

definition options_args :: "options_t \<Rightarrow> bool" where
  "options_args opt \<longleftrightarrow> short_option (action_arg opt) \<and> short_option (o_spass opt) \<and> short_option (o_username opt) \<and>
     known_action (action opt)"

definition options_part :: "options_t \<Rightarrow> bool" where
  "options_part opt \<longleftrightarrow> options_settings opt \<and> options_args opt \<and> flag_set_mask opt AND flag_clear_mask opt = 0"

lemma parse_flag_number_cases:
  "\<exists>P Q x y. parse_flag_number opt arg =
     (if P then if x < 2 \<or> 16 < x then (1, opt) else (0, opt\<lparr>set_codelength := x\<rparr>)
      else if Q then if y < 0 \<or> ppp_alphabet_count \<le> y then (1, opt) else (0, opt\<lparr>set_alphabet := y\<rparr>)
      else (1, opt))"
  unfolding parse_flag_number_def Let_def by blast

lemma parse_flag_number_keeps:
  assumes "parse_flag_number opt arg = (0, opt')"
  shows "options_settings opt \<Longrightarrow> options_settings opt'" "options_args opt' = options_args opt" "o_username opt' = o_username opt"
proof -
  obtain P Q x y where e: "(0 :: int, opt') =
     (if P then if x < 2 \<or> 16 < x then (1, opt) else (0, opt\<lparr>set_codelength := x\<rparr>)
      else if Q then if y < 0 \<or> ppp_alphabet_count \<le> y then (1, opt) else (0, opt\<lparr>set_alphabet := y\<rparr>)
      else (1, opt))"
    using parse_flag_number_cases [of opt arg] unfolding assms by (elim exE) (rule that, assumption)
  have "P \<and> opt' = opt\<lparr>set_codelength := x\<rparr> \<and> 2 \<le> x \<and> x \<le> 16 \<or>
      \<not> P \<and> opt' = opt\<lparr>set_alphabet := y\<rparr> \<and> 0 \<le> y \<and> y < ppp_alphabet_count"
    using e by (cases P; cases Q) (simp_all split: if_split_asm)
  then consider (L) "opt' = opt\<lparr>set_codelength := x\<rparr>" "2 \<le> x" "x \<le> 16" | (A) "opt' = opt\<lparr>set_alphabet := y\<rparr>" "0 \<le> y" "y < ppp_alphabet_count"
    by blast
  note c = this
  show "options_settings opt \<Longrightarrow> options_settings opt'" by (rule c) (simp_all add: options_settings_def)
  show "options_args opt' = options_args opt" "o_username opt' = o_username opt" by (rule c; simp add: options_args_def)+
qed

lemma flag_settings:
  "options_settings opt \<Longrightarrow> known_flags f \<Longrightarrow> options_settings (add_flag f opt) \<and> options_settings (clear_flag f opt)"
  by (simp add: options_settings_def add_flag_def clear_flag_def known_flags_or)

lemma flag_args [simp]:
  "options_args (add_flag f opt) = options_args opt" "options_args (clear_flag f opt) = options_args opt"
  "o_username (add_flag f opt) = o_username opt" "o_username (clear_flag f opt) = o_username opt"
  by (simp_all add: options_args_def add_flag_def clear_flag_def)

lemma parse_flag_part:
  assumes "parse_flag opt arg w = (0, opt', w')" and "options_settings opt" "options_args opt" and "length arg \<le> 100"
  shows "options_part opt' \<and> o_username opt' = o_username opt \<and> w_uid w' = w_uid w"
proof -
  have s: "short_option r" "w_uid v' = w_uid v" if "opt_strdup (drop n arg) v = (r, v')" for n v r v'
    using opt_strdup_short [OF that] opt_strdup_uid [OF that] assms(4) by simp_all
  have n: "options_settings o'" "options_args o'" "o_username o' = o_username opt" if "parse_flag_number opt arg = (0, o')" for o'
    using parse_flag_number_keeps [OF that] assms(2,3) by simp_all
  have f: "options_settings (add_flag f opt)" "options_settings (clear_flag f opt)" if "known_flags f" for f
    using flag_settings [OF assms(2) that] by simp_all
  have a: "options_settings (opt\<lparr>action := OPTION_ALPHABETS\<rparr>)" "options_args (opt\<lparr>action := OPTION_ALPHABETS\<rparr>)"
    using assms(2,3) by (simp_all add: options_settings_def options_args_def known_action_def)
  have l: "options_settings (opt\<lparr>o_contact := r\<rparr>)" "options_settings (opt\<lparr>o_label := r\<rparr>)" "options_args (opt\<lparr>o_contact := r\<rparr>)"
    "options_args (opt\<lparr>o_label := r\<rparr>)" if "short_option r" for r
    using assms(2,3) that by (simp_all add: options_settings_def options_args_def)
  show ?thesis
    using assms(1,3) unfolding parse_flag_def
    by (auto simp: options_part_def f a l known_flags_set dest: s n split: if_splits prod.splits)
qed

text \<open>
  One option: what it keeps where it is accepted.  A user is only selected by root.
\<close>

definition options_user :: "world \<Rightarrow> options_t \<Rightarrow> bool" where
  "options_user w opt \<longleftrightarrow> (o_username opt = None \<or> w_uid w = 0)"

lemma options_part_simps [simp]:
  "options_part (opt\<lparr>o_spass := s, action := c\<rparr>) \<longleftrightarrow>
     options_settings opt \<and> short_option (action_arg opt) \<and> short_option s \<and> short_option (o_username opt) \<and>
     known_action c \<and> flag_set_mask opt AND flag_clear_mask opt = 0"
  "options_part (opt\<lparr>action := c, action_arg := s\<rparr>) \<longleftrightarrow>
     options_settings opt \<and> short_option s \<and> short_option (o_spass opt) \<and> short_option (o_username opt) \<and>
     known_action c \<and> flag_set_mask opt AND flag_clear_mask opt = 0"
  "options_part (opt\<lparr>o_username := s\<rparr>) \<longleftrightarrow>
     options_settings opt \<and> short_option (action_arg opt) \<and> short_option (o_spass opt) \<and> short_option s \<and>
     known_action (action opt) \<and> flag_set_mask opt AND flag_clear_mask opt = 0"
  "options_part (opt\<lparr>verbose := v\<rparr>) = options_part opt"
  by (auto simp: options_part_def options_settings_def options_args_def)

lemma cmd_option_part:
  assumes "cmd_option c arg opt w = Some (0, opt', w')" and "options_part opt" and "options_user w opt"
  shows "options_part opt' \<and> options_user w' opt' \<and> w_uid w' = w_uid w"
proof -
  have p: "options_settings opt" "options_args opt" "flag_set_mask opt AND flag_clear_mask opt = 0"
    using assms(2) by (simp_all add: options_part_def)
  have a: "short_option (action_arg opt)" "short_option (o_spass opt)" "short_option (o_username opt)"
    "known_action (action opt)" using p(2) by (simp_all only: options_args_def)
  have len: "length s \<le> 100" if "arg = Some s" for s
    by (rule ccontr) (use assms(1) that in \<open>simp add: cmd_option_def\<close>)
  have d: "short_option r" "w_uid v = w_uid w" if "opt_strdup s w = (r, v)" "arg = Some s" for s r v
    using opt_strdup_short [OF that(1) len [OF that(2)]] opt_strdup_uid [OF that(1)] by simp_all
  have f: "options_part opt' \<and> options_user w' opt' \<and> w_uid w' = w_uid w"
    if "parse_flag o' s w = (0, opt', w')" "arg = Some s" "o' = opt \<or> o' = opt\<lparr>action := OPTION_CONFIG\<rparr>" for o' s
  proof -
    have "options_settings o'" "options_args o'" "o_username o' = o_username opt"
      using that(3) p(1,2) by (elim disjE; simp add: options_settings_def options_args_def known_action_def)+
    then show ?thesis
      using parse_flag_part [OF that(1) _ _ len [OF that(2)]] assms(3) by (simp add: options_user_def)
  qed
  define S1 where "S1 = {OPTION_WARN, OPTION_KEY, OPTION_REMOVE, OPTION_CHECK, OPTION_HELP, OPTION_INFO, OPTION_INFO_KEY, OPTION_SPASS}"
  define S2 where "S2 = {OPTION_SKIP, OPTION_TEXT, OPTION_LATEX, OPTION_PROMPT, OPTION_AUTH}"
  have S: "\<forall>c \<in> S1 \<union> S2. known_action c" "OPTION_CONFIG \<notin> S1 \<union> S2" "OPTION_USER \<notin> S1 \<union> S2"
    "OPTION_VERBOSE \<notin> S1 \<union> S2" "OPTION_VERSION \<notin> S1 \<union> S2" "CHR ''?'' \<notin> S1 \<union> S2" "S1 \<inter> S2 = {}"
    by (auto simp: S1_def S2_def known_action_def)
  have e: "cmd_option c arg opt w = Some (0, opt', w')" by (rule assms(1))
  note e = e [unfolded cmd_option_def, folded S1_def S2_def]
  have long: "\<not> (case arg of None \<Rightarrow> False | Some s \<Rightarrow> length s > 100)" using len by (cases arg) auto
  note e = e [unfolded if_not_P [OF long]]
  consider "c \<in> S1" | "c \<in> S2" | "c = OPTION_CONFIG" | "c = OPTION_USER" | "c = OPTION_VERBOSE" | "c = OPTION_VERSION \<or> c = CHR ''?''"
    using e by (auto split: if_splits)
  then show ?thesis
  proof cases
    case 1
    then have n: "c \<noteq> OPTION_VERSION" using S by auto
    have c: "known_action c" using 1 S(1) by blast
    show ?thesis
    proof (cases arg)
      case None
      then show ?thesis
        using e 1 n a p c assms(3) by (auto simp: bind_eq_Some_conv options_user_def short_option_def split: if_splits)
    next
      case (Some s)
      obtain r v where r: "opt_strdup s w = (r, v)" by fastforce
      show ?thesis using e 1 n a p c assms(3) d [OF r Some] by (auto simp: Some r options_user_def split: if_splits)
    qed
  next
    case 2
    then have n: "c \<noteq> OPTION_VERSION" "c \<notin> S1" using S by auto
    have c: "known_action c" using 2 S(1) by blast
    show ?thesis
    proof (cases arg)
      case None
      then show ?thesis
        using e 2 n a p c assms(3) by (auto simp: options_user_def short_option_def split: if_splits)
    next
      case (Some s)
      obtain r v where r: "opt_strdup s w = (r, v)" by fastforce
      show ?thesis using e 2 n a p c assms(3) d [OF r Some] by (auto simp: Some r options_user_def split: if_splits)
    qed
  next
    case 3
    then have n: "c \<notin> S1" "c \<notin> S2" using S by auto
    show ?thesis using e n f 3 by (auto simp: bind_eq_Some_conv split: if_splits)
  next
    case 4
    then have n: "c \<notin> S1" "c \<notin> S2" using S by auto
    obtain s r v where s: "arg = Some s" and r: "opt_strdup s w = (r, v)" using e n 4 by (cases arg) fastforce+
    show ?thesis using e n 4 a p d [OF r s] by (auto simp: s r options_user_def split: if_splits)
  next
    case 5
    then have n: "c \<notin> S1" "c \<notin> S2" using S by auto
    show ?thesis using e n 5 assms(2,3) by (auto simp: options_user_def)
  next
    case 6
    then have n: "c \<notin> S1" "c \<notin> S2" using S by auto
    show ?thesis using e n 6 by auto
  qed
qed

lemma cmd_options_part:
  "cmd_options cs opt w = Some (0, opt', w') \<Longrightarrow> options_part opt \<Longrightarrow> options_user w opt \<Longrightarrow>
   options_part opt' \<and> options_user w' opt' \<and> w_uid w' = w_uid w"
proof (induction cs arbitrary: opt w)
  case (Cons x cs)
  obtain c arg where x: "x = (c, arg)" by (cases x)
  obtain r o1 w1 where r: "cmd_option c arg opt w = Some (r, o1, w1)"
    using Cons.prems(1) by (auto simp: x bind_eq_Some_conv)
  have z: "r = 0" "cmd_options cs o1 w1 = Some (0, opt', w')" using Cons.prems(1) by (auto simp: x r split: if_splits)
  have "options_part o1 \<and> options_user w1 o1 \<and> w_uid w1 = w_uid w"
    using cmd_option_part [OF r [unfolded z(1)] Cons.prems(2,3)] .
  then show ?case using Cons.IH [OF z(2)] by simp
qed simp

lemma no_options_part: "options_part no_options" "options_user w no_options"
  by (simp_all add: options_part_def options_settings_def options_args_def options_user_def no_options_def short_option_def
      known_flags_set known_action_def)

lemma set_str_short:
  assumes "length s \<le> 100"
  shows "set_str field s u \<noteq> None"
  using assms by (auto simp: set_str_def ask_str_def agent_set_str_def agent_hdr_set_str_def split: prod.splits)

text \<open>
  C37: whatever the words of the command line are, options that it accepts are well formed: the
  length of a code and the alphabet are unset or in range, no flag is both set and cleared and only
  the three flags occur, the salt is only chosen with a new key, only root selects another user,
  and the texts are short enough that the client library sends them without aborting.
\<close>

theorem command_line_wellformed:
  assumes "process_cmd_line cs garbage no_options w = Some (0, opt, w')"
  shows "\<not> garbage \<and>
    (set_codelength opt = -1 \<or> 2 \<le> set_codelength opt \<and> set_codelength opt \<le> 16) \<and>
    (set_alphabet opt = -1 \<or> 0 \<le> set_alphabet opt \<and> set_alphabet opt < ppp_alphabet_count) \<and>
    flag_set_mask opt AND flag_clear_mask opt = 0 \<and>
    (flag_set_mask opt OR flag_clear_mask opt) AND NOT (FLAG_SHOW OR FLAG_DISABLED OR FLAG_SALTED) = 0 \<and>
    ((flag_set_mask opt OR flag_clear_mask opt) AND FLAG_SALTED \<noteq> 0 \<longrightarrow> action opt = OPTION_KEY) \<and>
    (o_username opt \<noteq> None \<longrightarrow> w_uid w = 0) \<and>
    (\<forall>s field u. o_label opt = Some s \<or> o_contact opt = Some s \<longrightarrow> set_str field s u \<noteq> None)"
proof -
  obtain r o1 w1 where c: "cmd_options cs no_options w = Some (r, o1, w1)"
    using assms by (auto simp: process_cmd_line_def bind_eq_Some_conv)
  have r: "r = 0" "\<not> garbage" "opt = o1" "(flag_set_mask o1 OR flag_clear_mask o1) AND FLAG_SALTED \<noteq> 0 \<longrightarrow> action o1 = OPTION_KEY"
    using assms by (auto simp: process_cmd_line_def c split: if_splits)
  have i: "options_part opt" "options_user w1 opt" "w_uid w1 = w_uid w"
    using cmd_options_part [OF c [unfolded r(1)] no_options_part] by (simp_all add: r(3))
  have k: "known_flags (flag_set_mask opt OR flag_clear_mask opt)"
    using i(1) known_flags_or by (simp add: options_part_def options_settings_def)
  have s: "set_str field s u \<noteq> None" if "o_label opt = Some s \<or> o_contact opt = Some s" for s field u
    using i(1) that by (intro set_str_short) (auto simp: options_part_def options_settings_def short_option_def)
  show ?thesis
    using i k r(2,4) s unfolding options_part_def options_settings_def options_user_def known_flags_def r(3) by auto
qed

theorem command_line_wellformed_witness:
  "\<exists>opt. process_cmd_line [(OPTION_CONFIG, Some ''codelength=5''), (OPTION_KEY, None)] False no_options sample_world = Some (0, opt, sample_world) \<and>
    set_codelength opt = 5 \<and> action opt = OPTION_KEY \<and> flag_set_mask opt AND flag_clear_mask opt = 0"
proof -
  let ?o = "no_options\<lparr>action := OPTION_KEY, set_codelength := 5\<rparr>"
  have "process_cmd_line [(OPTION_CONFIG, Some ''codelength=5''), (OPTION_KEY, None)] False no_options sample_world = Some (0, ?o, sample_world)"
  proof -
    have "scan_num 10 1 ''5'' = Some (False, 5)"
      using scan_num_digits [of "''5''" 10 1] by (simp add: digit_in_def digit_val_def hex_val_def code_def)
    then have d: "scan_d ''5'' = (1, 5)" by (simp add: scan_d_def isspace_def code_def to_int32_def)
    have n: "parse_flag_number o' ''codelength=5'' = (0, o'\<lparr>set_codelength := 5\<rparr>)" for o'
      by (simp add: parse_flag_number_def d)
    let ?c = "no_options\<lparr>action := OPTION_CONFIG\<rparr>"
    have m: "flag_set_mask no_options AND flag_clear_mask no_options = 0" by (simp add: no_options_def)
    have f: "parse_flag ?c ''codelength=5'' sample_world = (0, ?c\<lparr>set_codelength := 5\<rparr>, sample_world)"
      unfolding parse_flag_def by (simp add: n m)
    have a: "action no_options = CHR 0x00" "o_spass no_options = None" by (simp_all add: no_options_def)
    have c: "cmd_option OPTION_CONFIG (Some ''codelength=5'') no_options sample_world = Some (0, ?c\<lparr>set_codelength := 5\<rparr>, sample_world)"
      unfolding cmd_option_def by (simp add: f a)
    have k: "cmd_option OPTION_KEY None (?c\<lparr>set_codelength := 5\<rparr>) sample_world = Some (0, ?o, sample_world)"
      unfolding cmd_option_def by (simp add: a)
    show ?thesis unfolding process_cmd_line_def by (simp add: c k)
  qed
  from command_line_wellformed [OF this] this show ?thesis by auto
qed

subsection \<open>The place of a passcode on the command line\<close>

definition place_spec :: "char \<Rightarrow> nat \<Rightarrow> nat \<Rightarrow> string" where
  "place_spec column row passcard =
     column # nat_str upper_digit 10 row @ ''['' @ nat_str upper_digit 10 passcard @ '']''"

lemma dec_digits: "list_all isdigit (nat_str upper_digit 10 n)"
  by (rule nat_str_digits) (simp_all add: digit_in_10 [symmetric])

lemma dec_hd: "isdigit (hd (nat_str upper_digit 10 n))"
  using dec_digits [of n] hd_in_set [OF nat_str_nonempty, of upper_digit 10 n] by (simp add: list_all_iff)

lemma isdigit_not:
  assumes "isdigit c"
  shows "\<not> isspace c" "c \<noteq> CHR ''-''" "c \<noteq> CHR ''+''" "c \<noteq> CHR ''[''" "c \<noteq> CHR '']''" "\<not> isalpha c"
  using assms by (auto simp: isdigit_def isspace_def isalpha_def isupper_def islower_def code_def)

lemma takeWhile_digits: "takeWhile isdigit (nat_str upper_digit 10 n @ CHR ''['' # r) = nat_str upper_digit 10 n"
  "dropWhile isdigit (nat_str upper_digit 10 n @ CHR ''['' # r) = CHR ''['' # r"
  using dec_digits [of n] by (auto simp: list_all_iff takeWhile_append2 dropWhile_append3 isdigit_def code_def)

lemma scan_num_prefix:
  assumes "ds \<noteq> []" "list_all isdigit ds" and r: "r = [] \<or> \<not> isdigit (hd r)"
  shows "scan_num 10 (length (ds @ r)) (ds @ r) = Some (False, str_val 10 0 ds)"
proof -
  obtain c t where ds: "ds = c # t" using assms(1) by (cases ds) auto
  have c: "isdigit c" using assms(2) ds by simp
  have "takeWhile (digit_in 10) (ds @ r) = ds"
    using assms(2) r by (cases r) (auto simp: list_all_iff digit_in_10 takeWhile_append2 takeWhile_eq_all_conv)
  then show ?thesis using isdigit_not [OF c] by (simp add: scan_num_def ds Let_def)
qed

lemma scan_d_place:
  assumes "row < 2 ^ 31"
  shows "scan_d_rest (nat_str upper_digit 10 row @ CHR ''['' # r) = Some (int row, CHR ''['' # r)"
proof -
  let ?d = "nat_str upper_digit 10 row"
  obtain c t where d: "?d = c # t" by (cases ?d) simp_all
  have c: "isdigit c" using dec_hd [of row] d by simp
  have s: "dropWhile isspace (?d @ CHR ''['' # r) = ?d @ CHR ''['' # r" using isdigit_not [OF c] d by simp
  have "scan_num 10 (length (?d @ CHR ''['' # r)) (?d @ CHR ''['' # r) = Some (False, row)"
    using scan_num_prefix [of ?d "CHR ''['' # r"] dec_digits [of row] by (simp add: nat_str_val isdigit_def code_def)
  moreover have "to_int32 (int (min row (2 ^ 63 - 1))) = int row"
    using assms by (simp add: to_int32_def min_def signed_of_nat signed_take_bit_int_eq_self)
  ultimately have "snd (scan_d (?d @ CHR ''['' # r)) = int row"
    unfolding scan_d_def Let_def s by (simp add: d)
  then show ?thesis
    using takeWhile_digits [of row r] isdigit_not [OF c] unfolding scan_d_rest_def Let_def s by (simp add: d)
qed

lemma scan_number_dec:
  assumes "n < 2 ^ 128"
  shows "scan_number '']'' (''['' @ nat_str upper_digit 10 n @ '']'') = Some (nat_str upper_digit 10 n)"
proof -
  let ?d = "nat_str upper_digit 10 n"
  have l: "length ?d \<le> 39" using dec_str_length [of "num_of n"] assms by (simp add: nval_num_of)
  have "takeWhile (\<lambda>c. c \<notin> set '']'') (take 40 (?d @ '']'')) = ?d"
    using l dec_digits [of n] isdigit_not(5) by (subst take_all) (auto simp: list_all_iff takeWhile_append2)
  then show ?thesis by (simp add: scan_number_def)
qed

lemma scan_crr_place:
  assumes "row < 2 ^ 31" "n < 2 ^ 128"
  shows "scan_crr (place_spec column row n) = Some (column, int row, nat_str upper_digit 10 n)"
  using scan_d_place [OF assms(1), of "nat_str upper_digit 10 n @ '']''"] scan_number_dec [OF assms(2)]
  by (simp add: scan_crr_def place_spec_def)

subsection \<open>Questions to the agent\<close>

definition u_ready :: "uio \<Rightarrow> agent_header list \<Rightarrow> bytes \<Rightarrow> bool" where
  "u_ready u rs rest \<longleftrightarrow> a_s (c_agent (u_agent u)) = None \<and> w_faults (u_world u) = [] \<and> pipe_ok (u_pipe u) \<and>
     pipe_bytes (u_pipe u) = concat (map header_bytes rs) @ rest"

text \<open>After the frames \<open>hs\<close> have been sent and answered; the terminal is as it was.\<close>

definition after :: "uio \<Rightarrow> agent_header list \<Rightarrow> uio \<Rightarrow> bool" where
  "after u hs u' \<longleftrightarrow> asked (u_agent u) hs (u_agent u') \<and> u_world u' = u_world u \<and>
     u_in u' = u_in u \<and> u_out u' = u_out u \<and> u_echo u' = u_echo u"

lemma after_trans: "after u hs v \<Longrightarrow> after v hs' w \<Longrightarrow> after u (hs @ hs') w"
  by (auto simp: after_def asked_def)

lemma after_refl: "u_ready u rs rest \<Longrightarrow> after u [] u"
  by (simp add: after_def u_ready_def asked_refl)

lemma get_num_u:
  assumes "u_ready u (r # rs) rest" "reply_ok r"
  shows "\<exists>u'. get_num f u = (0, Some (h_num r), u') \<and> after u [get_request AGENT_REQ_GET_NUM (word_of_int f) num_zero] u' \<and> u_ready u' rs rest"
proof -
  obtain b q where "agent_get_num (u_agent u) (word_of_int f) (u_pipe u) (u_world u) = (0, Some (h_num r), b, q, u_world u)"
    "asked (u_agent u) [get_request AGENT_REQ_GET_NUM (word_of_int f) num_zero] b" "pipe_ok q"
    "pipe_bytes q = concat (map header_bytes rs) @ rest"
    using get_num_reply [of "u_agent u" "u_world u" r "u_pipe u" "concat (map header_bytes rs) @ rest" "word_of_int f"] assms
    by (auto simp: u_ready_def)
  then show ?thesis using assms(1) by (simp add: get_num_def fetch_def u_ready_def after_def asked_def)
qed

lemma get_int_u:
  assumes "u_ready u (r # rs) rest" "reply_ok r"
  shows "\<exists>u'. get_int f u = (0, Some (sint (h_int r)), u') \<and> after u [get_request AGENT_REQ_GET_INT (word_of_int f) num_zero] u' \<and> u_ready u' rs rest"
proof -
  obtain b q where "agent_get_int (u_agent u) (word_of_int f) (u_pipe u) (u_world u) = (0, Some (sint (h_int r)), b, q, u_world u)"
    "asked (u_agent u) [get_request AGENT_REQ_GET_INT (word_of_int f) num_zero] b" "pipe_ok q"
    "pipe_bytes q = concat (map header_bytes rs) @ rest"
    using get_int_reply [of "u_agent u" "u_world u" r "u_pipe u" "concat (map header_bytes rs) @ rest" "word_of_int f"] assms
    by (auto simp: u_ready_def)
  then show ?thesis using assms(1) by (simp add: get_int_def fetch_def u_ready_def after_def asked_def)
qed

lemma get_nums_u:
  "u_ready u (rs @ rs') rest \<Longrightarrow> list_all reply_ok rs \<Longrightarrow> length fs = length rs \<Longrightarrow>
   \<exists>u'. get_nums fs u = (Inr (map h_num rs), u') \<and>
     after u (map (\<lambda>f. get_request AGENT_REQ_GET_NUM (word_of_int f) num_zero) fs) u' \<and> u_ready u' rs' rest"
proof (induction fs arbitrary: u rs)
  case Nil
  then show ?case using after_refl by auto
next
  case (Cons f fs)
  then obtain r rs1 where r: "rs = r # rs1" by (cases rs) auto
  obtain v where v: "get_num f u = (0, Some (h_num r), v)" "after u [get_request AGENT_REQ_GET_NUM (word_of_int f) num_zero] v"
    "u_ready v (rs1 @ rs') rest"
    using get_num_u [of u r "rs1 @ rs'" rest f] Cons.prems(1,2) by (auto simp: r)
  obtain u' where u': "get_nums fs v = (Inr (map h_num rs1), u')"
    "after v (map (\<lambda>f. get_request AGENT_REQ_GET_NUM (word_of_int f) num_zero) fs) u'" "u_ready u' rs' rest"
    using Cons.IH [OF v(3)] Cons.prems(2,3) by (auto simp: r)
  show ?case using v(1) u'(1,3) after_trans [OF v(2) u'(2)] by (simp add: r)
qed

lemma get_ints_u:
  "u_ready u (rs @ rs') rest \<Longrightarrow> list_all reply_ok rs \<Longrightarrow> length fs = length rs \<Longrightarrow>
   \<exists>u'. get_ints fs u = (Inr (map (\<lambda>r. sint (h_int r)) rs), u') \<and>
     after u (map (\<lambda>f. get_request AGENT_REQ_GET_INT (word_of_int f) num_zero) fs) u' \<and> u_ready u' rs' rest"
proof (induction fs arbitrary: u rs)
  case Nil
  then show ?case using after_refl by auto
next
  case (Cons f fs)
  then obtain r rs1 where r: "rs = r # rs1" by (cases rs) auto
  obtain v where v: "get_int f u = (0, Some (sint (h_int r)), v)" "after u [get_request AGENT_REQ_GET_INT (word_of_int f) num_zero] v"
    "u_ready v (rs1 @ rs') rest"
    using get_int_u [of u r "rs1 @ rs'" rest f] Cons.prems(1,2) by (auto simp: r)
  obtain u' where u': "get_ints fs v = (Inr (map (\<lambda>r. sint (h_int r)) rs1), u')"
    "after v (map (\<lambda>f. get_request AGENT_REQ_GET_INT (word_of_int f) num_zero) fs) u'" "u_ready u' rs' rest"
    using Cons.IH [OF v(3)] Cons.prems(2,3) by (auto simp: r)
  show ?case using v(1) u'(1,3) after_trans [OF v(2) u'(2)] by (simp add: r)
qed

subsection \<open>A place\<close>

definition place_requests :: "agent_header list" where
  "place_requests =
     map (\<lambda>f. get_request AGENT_REQ_GET_NUM (word_of_int f) num_zero)
       [PPP_FIELD_CURRENT_CARD, PPP_FIELD_UNSALTED_COUNTER, PPP_FIELD_LATEST_CARD, PPP_FIELD_MAX_CARD, PPP_FIELD_MAX_CODE] @
     map (\<lambda>f. get_request AGENT_REQ_GET_INT (word_of_int f) num_zero) [PPP_FIELD_CODES_ON_CARD, PPP_FIELD_CODES_IN_ROW]"

lemma place_spec_shape:
  assumes "65 \<le> code column" "code column \<le> 74"
  shows "\<not> strcasecmp_eq (place_spec column row n) ''current''" "\<not> strcasecmp_eq (place_spec column row n) ''[current]''"
    "\<not> strcasecmp_eq (place_spec column row n) ''next''" "\<not> strcasecmp_eq (place_spec column row n) ''[next]''"
    "length (filter (\<lambda>c. isascii c \<and> isalpha c) (place_spec column row n)) = 1"
    "hd (place_spec column row n) = column" "place_spec column row n \<noteq> []" "CHR ''['' \<in> set (place_spec column row n)"
    "toupper column = column" "isascii column \<and> isalpha column" "column \<noteq> CHR ''[''"
proof -
  have u: "isupper column" using assms by (simp add: isupper_def)
  have "code (tolower column) = code column + 32" using assms by (simp add: tolower_def isupper_def)
  moreover have "code (CHR ''['') = 91" by (simp add: code_def)
  ultimately have t: "tolower column \<noteq> CHR ''[''" using assms by auto
  let ?s = "place_spec column row n"
  show b: "CHR ''['' \<in> set ?s" "?s \<noteq> []" "hd ?s = column" by (simp_all add: place_spec_def)
  have "tolower (CHR ''['') = CHR ''[''" by (simp add: tolower_def isupper_def code_def)
  then have m: "CHR ''['' \<in> set (map tolower ?s)" using b(1) by force
  show "\<not> strcasecmp_eq ?s ''current''" "\<not> strcasecmp_eq ?s ''next''"
    using m by (auto simp: strcasecmp_eq_def tolower_def isupper_def code_def)
  have h: "hd (map tolower ?s) \<noteq> CHR ''[''" using t by (simp add: place_spec_def)
  show "\<not> strcasecmp_eq ?s ''[current]''" "\<not> strcasecmp_eq ?s ''[next]''"
    using h by (auto simp: strcasecmp_eq_def tolower_def isupper_def code_def)
  have f: "filter (\<lambda>c. isascii c \<and> isalpha c) (nat_str upper_digit 10 m) = []" for m
    using dec_digits [of m] isdigit_not(6) by (auto simp: filter_empty_conv list_all_iff)
  have nb: "\<not> isalpha (CHR ''['')" "\<not> isalpha (CHR '']'')" by (simp_all add: isalpha_def isupper_def islower_def code_def)
  show a: "isascii column \<and> isalpha column" using u assms by (simp add: isascii_def isalpha_def)
  then show "length (filter (\<lambda>c. isascii c \<and> isalpha c) ?s) = 1"
    by (simp add: place_spec_def f nb)
  show "toupper column = column" using assms by (simp add: toupper_def islower_def)
  show "column \<noteq> CHR ''[''" using assms by (auto simp: code_def)
qed


lemma parse_place:
  assumes col: "65 \<le> code column" "code column \<le> 74" and row: "row < 2 ^ 31" and n: "1 \<le> nval n"
    and u: "u_ready u (rs @ rs') rest" and rs: "list_all reply_ok rs" "length rs = 5"
  shows "\<exists>v. u_ready v rs' rest \<and>
    after u (map (\<lambda>f. get_request AGENT_REQ_GET_NUM (word_of_int f) num_zero)
       [PPP_FIELD_CURRENT_CARD, PPP_FIELD_UNSALTED_COUNTER, PPP_FIELD_LATEST_CARD, PPP_FIELD_MAX_CARD, PPP_FIELD_MAX_CODE]) v \<and>
    ah_parse_code_spec (place_spec column row (nval n)) item u =
      (case ah_get_passcode_number n item column (int row) v of
         (ret, item, u) \<Rightarrow> if ret \<noteq> 0 then (ret, item, u) else (PRINT_CODE, item, u))"
proof -
  let ?fs = "[PPP_FIELD_CURRENT_CARD, PPP_FIELD_UNSALTED_COUNTER, PPP_FIELD_LATEST_CARD, PPP_FIELD_MAX_CARD, PPP_FIELD_MAX_CODE]"
  let ?s = "place_spec column row (nval n)"
  have "length ?fs = length rs" using rs(2) by simp
  from get_nums_u [OF u rs(1) this] obtain v where v: "get_nums ?fs u = (Inr (map h_num rs), v)"
    "after u (map (\<lambda>f. get_request AGENT_REQ_GET_NUM (word_of_int f) num_zero) ?fs) v" "u_ready v rs' rest" by blast
  note sh = place_spec_shape(1-8) [OF col, of row "nval n"] place_spec_shape(9-) [OF col]
  have m: "\<exists>c \<in> set ?s. c = CHR ''['' \<or> c = CHR '']''" using sh(8) by blast
  have c: "scan_crr ?s = Some (column, int row, nat_str upper_digit 10 (nval n))"
    using scan_crr_place [OF row, of "nval n" column] nval_less [of n] by simp
  have i: "num_import (nat_str upper_digit 10 (nval n)) NUM_FORMAT_DEC = (0, n)"
    using num_dec_roundtrip [of n] by (simp add: num_export_dec)
  have one: "nval (num_i 1) = 1" by (simp add: nval_def num_ii_def)
  have k: "\<not> num_cmp (num_i 1) n > 0" using n by (simp add: num_cmp_val one)
  have cc: "\<not> (code column < 65 \<or> code column > 74)" using col by simp
  have "ah_parse_code_spec ?s item u =
      (case ah_get_passcode_number n item column (int row) v of
         (ret, item, u) \<Rightarrow> if ret \<noteq> 0 then (ret, item, u) else (PRINT_CODE, item, u))"
    unfolding ah_parse_code_spec_def v(1) Let_def
    by (simp only: prod.case sum.case sh m c i k cc if_False if_True simp_thms option.case)
  then show ?thesis using v(2,3) by blast
qed


lemma small_char: "code c < 128 \<Longrightarrow> sint (of_nat (code c) :: u8) = int (code c)"
  by (simp add: signed_of_nat signed_take_bit_int_eq_self)

lemma small_row: "row < 128 \<Longrightarrow> sint (word_of_int (int row) :: u8) = int row"
  by (simp add: signed_of_nat signed_take_bit_int_eq_self)

lemma parse_place_answered:
  assumes col: "65 \<le> code column" "code column \<le> 74" and row: "row < 128" and n: "1 \<le> nval n"
    and u: "u_ready u (rs @ [r1, r2] @ rs') rest" and rs: "list_all reply_ok rs" "length rs = 5" "reply_ok r1" "reply_ok r2"
  shows "\<exists>v. u_ready v rs' rest \<and> after u place_requests v \<and>
    ah_parse_code_spec (place_spec column row (nval n)) item u =
      (PRINT_CODE,
       if int (code column) \<ge> 65 + sint (h_int r2) \<or> row < 1 \<or> 10 < row then item
       else num_add (num_add (num_mul_i (num_sub n (num_i 1)) (word_of_int (sint (h_int r1))))
              (num_i (word_of_int ((int row - 1) * sint (h_int r2))))) (num_i (word_of_int (int (code column) - 65))), v)"
proof -
  have row31: "row < 2 ^ 31" using row by simp
  obtain w where w: "u_ready w ([r1, r2] @ rs') rest"
    "after u (map (\<lambda>f. get_request AGENT_REQ_GET_NUM (word_of_int f) num_zero)
       [PPP_FIELD_CURRENT_CARD, PPP_FIELD_UNSALTED_COUNTER, PPP_FIELD_LATEST_CARD, PPP_FIELD_MAX_CARD, PPP_FIELD_MAX_CODE]) w"
    and p: "ah_parse_code_spec (place_spec column row (nval n)) item u =
      (case ah_get_passcode_number n item column (int row) w of
         (ret, item, u) \<Rightarrow> if ret \<noteq> 0 then (ret, item, u) else (PRINT_CODE, item, u))"
    using parse_place [OF col row31 n u rs(1,2)] by blast
  have l: "list_all reply_ok [r1, r2]" "length [PPP_FIELD_CODES_ON_CARD, PPP_FIELD_CODES_IN_ROW] = length [r1, r2]" using rs(3,4) by simp_all
  obtain v where v: "get_ints [PPP_FIELD_CODES_ON_CARD, PPP_FIELD_CODES_IN_ROW] w = (Inr [sint (h_int r1), sint (h_int r2)], v)"
    "after w (map (\<lambda>f. get_request AGENT_REQ_GET_INT (word_of_int f) num_zero) [PPP_FIELD_CODES_ON_CARD, PPP_FIELD_CODES_IN_ROW]) v"
    "u_ready v rs' rest"
    using get_ints_u [OF w(1) l] by auto
  have c: "sint (of_nat (code column) :: u8) = int (code column)" "sint (word_of_int (int row) :: u8) = int row"
    using small_char [of column] small_row [OF row] col by simp_all
  have "ah_get_passcode_number n item column (int row) w =
      (if int (code column) \<ge> 65 + sint (h_int r2) \<or> row < 1 \<or> 10 < row then (1, item, v)
       else (0, num_add (num_add (num_mul_i (num_sub n (num_i 1)) (word_of_int (sint (h_int r1))))
              (num_i (word_of_int ((int row - 1) * sint (h_int r2))))) (num_i (word_of_int (int (code column) - 65))), v))"
    unfolding ah_get_passcode_number_def v(1) using c col by (auto simp: Let_def)
  then have "ah_parse_code_spec (place_spec column row (nval n)) item u =
      (PRINT_CODE,
       if int (code column) \<ge> 65 + sint (h_int r2) \<or> row < 1 \<or> 10 < row then item
       else num_add (num_add (num_mul_i (num_sub n (num_i 1)) (word_of_int (sint (h_int r1))))
              (num_i (word_of_int ((int row - 1) * sint (h_int r2))))) (num_i (word_of_int (int (code column) - 65))), v)"
    unfolding p by simp
  then show ?thesis using v(3) after_trans [OF w(2) v(2)] unfolding place_requests_def by blast
qed

text \<open>
  C39: a place that is not on the card (a column to the right of the last one, or a row after the
  tenth) is reported to the user as out of range, but the error code 1 reads as \<open>PRINT_CODE\<close> to the
  caller, which goes on with the number 0 it started from: the skip is sent, and it takes the user
  back to the first passcode of the key.
\<close>

theorem skip_bad_place_restarts:
  assumes "user_has_state opt" and "action_arg opt = Some (place_spec column row (nval n))"
    and "65 \<le> code column" and "code column \<le> 74" and "row < 128" and "1 \<le> nval n"
    and "u_ready u (rs @ [r1, r2, r3]) rest" and "list_all reply_ok (rs @ [r1, r2, r3])" and "length rs = 5"
    and "65 + sint (h_int r2) \<le> int (code column) \<or> 10 < row"
  shows "\<exists>v. action_skip opt u = Some (0, v) \<and>
    a_sent (c_agent (u_agent v)) = a_sent (c_agent (u_agent u)) @ place_requests @ [get_request AGENT_REQ_SKIP 0 num_zero]"
proof -
  have ok: "list_all reply_ok rs" "reply_ok r1" "reply_ok r2" "reply_ok r3" using assms(8) by simp_all
  have u: "u_ready u (rs @ [r1, r2] @ [r3]) rest" using assms(7) by simp
  obtain v where v: "u_ready v [r3] rest" "after u place_requests v"
    "ah_parse_code_spec (place_spec column row (nval n)) (num_i 0) u = (PRINT_CODE, num_i 0, v)"
    using parse_place_answered [OF assms(3-6) u ok(1) assms(9) ok(2,3), of "num_i 0"] assms(10) by auto
  obtain b q where q: "agent_query (with_num (num_i 0) (u_agent v)) AGENT_REQ_SKIP (u_pipe v) (u_world v) = (0, b, q, u_world v)"
    "asked (u_agent v) [get_request AGENT_REQ_SKIP 0 (num_i 0)] b"
    using query_num_reply [of "u_agent v" "u_world v" r3 "u_pipe v" rest "num_i 0" AGENT_REQ_SKIP] v(1) ok(4)
    by (auto simp: u_ready_def)
  have "action_skip opt u = Some (0, v\<lparr>u_agent := b, u_pipe := q, u_world := u_world v\<rparr>)"
    using assms(1,2) v(3) by (simp add: action_skip_def ask_def agent_skip_def q(1))
  then show ?thesis using v(2) q(2) by (auto simp: after_def asked_def)
qed

definition sample_uio :: "agent_header list \<Rightarrow> string \<Rightarrow> uio" where
  "sample_uio rs input =
     \<lparr>u_agent = sample_client, u_pipe = \<lparr>buffered = [], pieces = [concat (map header_bytes rs)]\<rparr>, u_world = sample_world,
      u_in = input, u_out = [], u_echo = True\<rparr>"

lemma sample_uio_ready: "rs \<noteq> [] \<Longrightarrow> u_ready (sample_uio rs i) rs []"
proof -
  assume "rs \<noteq> []"
  then obtain r rs' where rs: "rs = r # rs'" by (cases rs) auto
  have "4 \<le> length (concat (map header_bytes rs))" unfolding rs by (simp only: list.map concat.simps) (rule header_bytes_long)
  from one_piece [OF this] show ?thesis by (simp add: u_ready_def sample_uio_def sample_world_def)
qed

theorem skip_bad_place_restarts_witness:
  "\<exists>v. action_skip (no_options\<lparr>user_has_state := True, action_arg := Some (place_spec (CHR ''H'') 2 (nval (num_i 3)))\<rparr>)
       (sample_uio (replicate 5 (sample_reply 0 (num_i 3) []) @ [sample_reply 70 num_zero [], sample_reply 7 num_zero [], sample_reply 0 num_zero []]) []) =
      Some (0, v) \<and> last (a_sent (c_agent (u_agent v))) = get_request AGENT_REQ_SKIP 0 num_zero"
proof -
  let ?rs = "replicate 5 (sample_reply 0 (num_i 3) [])"
  let ?t = "[sample_reply 70 num_zero [], sample_reply 7 num_zero [], sample_reply 0 num_zero []]"
  have r: "u_ready (sample_uio (?rs @ ?t) []) (?rs @ ?t) []" by (rule sample_uio_ready) simp
  have ok: "list_all reply_ok (?rs @ ?t)" by (simp add: list_all_iff)
  have n: "1 \<le> nval (num_i 3)" by (simp add: nval_def num_ii_def)
  have c: "65 \<le> code (CHR ''H'')" "code (CHR ''H'') \<le> 74" "65 + sint (h_int (sample_reply 7 num_zero [])) \<le> int (code (CHR ''H''))"
    by (simp_all add: code_def sample_reply_def)
  show ?thesis
    using skip_bad_place_restarts [OF _ _ c(1,2) _ n r ok, of "no_options\<lparr>user_has_state := True, action_arg := Some (place_spec (CHR ''H'') 2 (nval (num_i 3)))\<rparr>" 2] c(3)
    by auto
qed

lemma sint_unat:
  fixes x :: u32
  assumes "unat x < 2 ^ 31"
  shows "sint x = int (unat x)"
proof -
  have "int (unat x) < 2 ^ 31" using assms of_nat_less_iff [where 'a = int, of "unat x" "2 ^ 31"] by (simp del: of_nat_unat)
  then have "signed_take_bit 31 (int (unat x)) = int (unat x)"
    by (intro signed_take_bit_int_eq_self) (simp_all del: of_nat_unat)
  then have "sint (of_nat (unat x) :: u32) = int (unat x)" by (simp only: signed_of_nat) simp
  then show ?thesis by simp
qed

text \<open>The sum that the utility computes for a place is the number the place was computed from.\<close>

lemma number_of_place:
  assumes "n < 2 ^ 128" "2 \<le> R" "R \<le> 11" "nval cd = n div (10 * R) + 1"
  shows "nval (num_add (num_add (num_mul_i (num_sub cd (num_i 1)) (of_nat (10 * R))) (num_i (of_nat (n mod (10 * R) div R * R))))
    (num_i (of_nat (n mod R)))) = n"
proof -
  have q: "num_mul_i (num_sub cd (num_i 1)) (of_nat (10 * R)) = num_of (n div (10 * R) * (10 * R))"
    using first_code_number [of cd "10 * R"] assms(2-4) by simp
  have vi: "nval (num_i (of_nat k)) = k" if "k < 110" for k using that by (simp add: nval_num_ii unat_of_nat_lt)
  have "n mod (10 * R) div R * R < 110" "n mod R < 110" using place_in_card [OF assms(2,3), of n] assms(3) by linarith+
  moreover have "nval (num_add (num_add (num_of A) (num_i (of_nat B))) (num_i (of_nat C))) = n"
    if "n = A + B + C" "B < 110" "C < 110" for A B C
    using that assms(1) by (simp add: nval_add nval_num_of vi mod_simps)
  ultimately show ?thesis unfolding q using place_digits [of n R] by blast
qed

text \<open>
  C38: the place that the prompt of a login names, written as a specification (column, row, card in
  brackets), is understood as the number of exactly that passcode, as long as the column is not
  one after J.
\<close>

theorem prompted_place_understood:
  assumes "2 \<le> code_length s" and "code_length s \<le> 16" and "110 \<le> counter_range s" and "ppp_calculate s = Some t"
    and "unat (current_column t) \<le> 74"
    and "u_ready u (rs @ [r1, r2] @ rs') rest" and "list_all reply_ok (rs @ [r1, r2])" and "length rs = 5"
    and "h_int r1 = codes_on_card t" and "h_int r2 = codes_in_row t"
  shows "\<exists>v. ah_parse_code_spec
       (place_spec (char_of (unat (current_column t))) (unat (current_row t)) (nval (current_card t))) item u = (PRINT_CODE, ppp_unsalted s, v) \<and>
     a_sent (c_agent (u_agent v)) = a_sent (c_agent (u_agent u)) @ place_requests"
proof -
  define R n where "R = per_row (unat (code_length s))" and "n = nval (ppp_unsalted s)"
  have f: "unat (codes_in_row t) = R" "unat (codes_on_card t) = 10 * R"
    "nval (current_card t) = n div (10 * R) + 1" "unat (current_row t) = n mod (10 * R) div R + 1"
    "unat (current_column t) = 65 + n mod R" and b: "2 \<le> R" "R \<le> 11" "n mod (10 * R) div R < 10" "n mod R < R"
    by (rule ppp_calculate_fields [OF assms(1-3) R_def n_def], use assms(4) in simp)+
  let ?c = "char_of (unat (current_column t)) :: char"
  have col: "code ?c = 65 + n mod R" using assms(5) f(5) by simp
  have i: "sint (h_int r1) = int (10 * R)" "sint (h_int r2) = int R"
    using f(1,2) b sint_unat [of "codes_on_card t"] sint_unat [of "codes_in_row t"] unfolding assms(9,10) by simp_all
  have ok: "list_all reply_ok rs" "reply_ok r1" "reply_ok r2" using assms(7) by simp_all
  have pre: "65 \<le> code ?c" "code ?c \<le> 74" "unat (current_row t) < 128" "1 \<le> nval (current_card t)"
    using col assms(5) f b by simp_all
  obtain v where v: "after u place_requests v"
    "ah_parse_code_spec (place_spec ?c (unat (current_row t)) (nval (current_card t))) item u =
      (PRINT_CODE,
       if int (code ?c) \<ge> 65 + sint (h_int r2) \<or> unat (current_row t) < 1 \<or> 10 < unat (current_row t) then item
       else num_add (num_add (num_mul_i (num_sub (current_card t) (num_i 1)) (word_of_int (sint (h_int r1))))
              (num_i (word_of_int ((int (unat (current_row t)) - 1) * sint (h_int r2))))) (num_i (word_of_int (int (code ?c) - 65))), v)"
    using parse_place_answered [OF pre assms(6) ok(1) assms(8) ok(2,3), of item] by blast
  have small: "\<not> (int (code ?c) \<ge> 65 + sint (h_int r2) \<or> unat (current_row t) < 1 \<or> 10 < unat (current_row t))"
    using col i b(3,4) f(4) by simp
  have w: "word_of_int (sint (h_int r1)) = (of_nat (10 * R) :: u64)"
    "word_of_int ((int (unat (current_row t)) - 1) * sint (h_int r2)) = (of_nat (n mod (10 * R) div R * R) :: u64)"
    "word_of_int (int (code ?c) - 65) = (of_nat (n mod R) :: u64)"
    using i f(4) col by (simp_all add: f(4))
  have "n < 2 ^ 128" using nval_less [of "ppp_unsalted s"] by (simp add: n_def)
  from number_of_place [OF this b(1,2) f(3)]
  have "ah_parse_code_spec (place_spec ?c (unat (current_row t)) (nval (current_card t))) item u = (PRINT_CODE, ppp_unsalted s, v)"
    unfolding v(2) if_not_P [OF small] w by (simp only: n_def nval_inject)
  then show ?thesis using v(1) by (auto simp: after_def asked_def)
qed

theorem prompted_place_understood_witness:
  "\<exists>t v. ppp_calculate sample_place = Some t \<and>
    ah_parse_code_spec (place_spec (char_of (unat (current_column t))) (unat (current_row t)) (nval (current_card t))) num_zero
      (sample_uio (replicate 5 (sample_reply 0 (num_i 3) []) @
         [sample_reply (codes_on_card t) num_zero [], sample_reply (codes_in_row t) num_zero []] @ []) []) =
      (PRINT_CODE, num_i 123, v)"
proof -
  have a: "110 \<le> counter_range sample_place" "nval (ppp_unsalted sample_place) = 123" "ppp_unsalted sample_place = num_i 123"
    "2 \<le> code_length sample_place" "code_length sample_place \<le> 16" "unat (code_length sample_place) = 4"
    by (simp_all add: counter_range_def ppp_unsalted_def salted_def sample_place_def state_zero_def nval_num_ii)
  obtain t where t: "ppp_calculate sample_place = Some t" "calculated sample_place t" using ppp_calculate_ok [OF a(4,5,1)] by blast
  have "unat (current_column t) = 69"
    using t(2) column_code [of 4] a(2,6) by (simp add: calculated_def Let_def per_row_def)
  then have col: "unat (current_column t) \<le> 74" by simp
  let ?rs = "replicate 5 (sample_reply 0 (num_i 3) [])" and ?t = "[sample_reply (codes_on_card t) num_zero [], sample_reply (codes_in_row t) num_zero []]"
  have u: "u_ready (sample_uio (?rs @ ?t @ []) []) (?rs @ ?t @ []) []" by (rule sample_uio_ready) simp
  have ok: "list_all reply_ok (?rs @ ?t)" by (simp add: list_all_iff)
  have h: "h_int (sample_reply i num_zero []) = i" for i by (simp add: sample_reply_def)
  obtain v where "ah_parse_code_spec (place_spec (char_of (unat (current_column t))) (unat (current_row t)) (nval (current_card t))) num_zero
      (sample_uio (?rs @ ?t @ []) []) = (PRINT_CODE, ppp_unsalted sample_place, v)"
    using prompted_place_understood [OF a(4,5,1) t(1) col u ok _ h h, of num_zero] by auto
  then show ?thesis using t(1) unfolding a(3) by blast
qed

subsection \<open>Nothing is stored or removed without a yes\<close>

text \<open>The lines the terminal still has to give to a question.\<close>

function answers_of :: "string \<Rightarrow> string list" where
  "answers_of s =
     (if s = [] then []
      else butlast (c_str (take (fgets_len 20 s) s)) # answers_of (drop (fgets_len 20 s) s))"
  by pat_completeness auto
termination
proof (relation "measure length")
  fix s :: string
  assume "s \<noteq> []"
  then show "(drop (fgets_len 20 s) s, s) \<in> measure length" using fgets_len_pos [of 20 s] by simp
qed simp

declare answers_of.simps [simp del]

definition says_yes :: "string \<Rightarrow> bool" where
  "says_yes s \<longleftrightarrow> (\<exists>l \<in> set (answers_of s). strcasecmp_eq l ''yes'')"

lemma yes_or_no_rest:
  assumes "ah_yes_or_no u = Some (r, v)" and "\<not> says_yes (u_in u)"
  shows "r \<noteq> 0" "\<not> says_yes (u_in v)" "u_agent v = u_agent u"
proof -
  have "r \<noteq> 0 \<and> \<not> says_yes (u_in v) \<and> u_agent v = u_agent u"
  proof (cases "u_in u = []")
    case True
    then show ?thesis using assms by (simp add: ah_yes_or_no_def u_gets_def)
  next
    case False
    then show ?thesis
      using assms by (auto simp: ah_yes_or_no_def u_gets_def says_yes_def answers_of.simps [of "u_in u"] Let_def bind_eq_Some_conv split: if_splits)
  qed
  then show "r \<noteq> 0" "\<not> says_yes (u_in v)" "u_agent v = u_agent u" by simp_all
qed

lemma key_ready_loop_no:
  assumes "key_ready_loop u = Some rv"
  shows "\<not> says_yes (u_in u) \<longrightarrow> fst rv \<noteq> 0 \<and> u_agent (snd rv) = u_agent u"
proof (rule key_ready_loop.raw_induct [of "\<lambda>u rv. \<not> says_yes (u_in u) \<longrightarrow> fst rv \<noteq> 0 \<and> u_agent (snd rv) = u_agent u", OF _ assms])
  fix f :: "uio \<Rightarrow> (int \<times> uio) option" and u rv
  assume ih: "\<And>u rv. f u = Some rv \<Longrightarrow> \<not> says_yes (u_in u) \<longrightarrow> fst rv \<noteq> 0 \<and> u_agent (snd rv) = u_agent u"
    and b: "Option.bind (ah_yes_or_no u) (\<lambda>(ret, u). if ret \<noteq> 0 \<and> ret \<noteq> 2 then f u else Some (ret, u)) = Some rv"
  obtain r1 v1 where y: "ah_yes_or_no u = Some (r1, v1)" using b by (auto simp: bind_eq_Some_conv)
  show "\<not> says_yes (u_in u) \<longrightarrow> fst rv \<noteq> 0 \<and> u_agent (snd rv) = u_agent u"
  proof
    assume no: "\<not> says_yes (u_in u)"
    note n = yes_or_no_rest [OF y no]
    show "fst rv \<noteq> 0 \<and> u_agent (snd rv) = u_agent u"
    proof (cases "r1 = 2")
      case True
      then show ?thesis using b y n by auto
    next
      case False
      then have "f v1 = Some rv" using b y n(1) by simp
      then show ?thesis using ih [of v1 rv] n by auto
    qed
  qed
qed

subsection \<open>Frames that neither store nor remove\<close>

definition mild :: "agent_header \<Rightarrow> bool" where
  "mild h \<longleftrightarrow> h_type h \<noteq> word_of_int AGENT_REQ_STATE_STORE \<and> h_type h \<noteq> word_of_int AGENT_REQ_KEY_REMOVE"

definition sent_mild :: "client \<Rightarrow> client \<Rightarrow> bool" where
  "sent_mild a b \<longleftrightarrow> (\<exists>hs. a_sent (c_agent b) = a_sent (c_agent a) @ hs \<and> list_all mild hs)"

lemma sent_mild_refl [simp]: "sent_mild a a"
  by (auto simp: sent_mild_def)

lemma sent_mild_trans: "sent_mild a b \<Longrightarrow> sent_mild b c \<Longrightarrow> sent_mild a c"
  by (auto simp: sent_mild_def)

lemma hdr_recv_sent: "agent_hdr_recv a p = (r, b, q) \<Longrightarrow> a_sent b = a_sent a"
  by (auto simp: agent_hdr_recv_def Let_def split: if_splits prod.splits option.splits)

lemma hdr_send_sent:
  "agent_hdr_send a w = (r, b, v) \<Longrightarrow> a_sent b = a_sent a \<or> a_sent b = a_sent a @ [a_shdr a]"
  by (auto simp: agent_hdr_send_def split: if_splits prod.splits)

lemma query_sent:
  assumes "agent_query c req p w = (r, d, q, v)" and "a_sent (c_agent c) = a_sent (c_agent a)"
    and "(word_of_int req :: u32) \<noteq> 7" "(word_of_int req :: u32) \<noteq> 10"
  shows "sent_mild a d"
proof -
  obtain r1 b w1 where s: "agent_hdr_send (agent_hdr_set_type (c_agent c) req) w = (r1, b, w1)" by (cases "agent_hdr_send (agent_hdr_set_type (c_agent c) req) w") auto
  have t: "a_sent (agent_hdr_set_type (c_agent c) req) = a_sent (c_agent a)" "h_type (a_shdr (agent_hdr_set_type (c_agent c) req)) = word_of_int req"
    using assms(2) by (simp_all add: agent_hdr_set_type_def)
  have m: "mild (a_shdr (agent_hdr_set_type (c_agent c) req))" using assms(3,4) by (simp add: mild_def t)
  have "a_sent (c_agent d) = a_sent b"
    using assms(1) hdr_recv_sent by (auto simp: agent_query_def s Let_def split: if_splits prod.splits)
  then show ?thesis using hdr_send_sent [OF s] m t(1) by (auto simp: sent_mild_def)
qed


lemma with_sent [simp]:
  "a_sent (c_agent (with_int i j c)) = a_sent (c_agent c)" "a_sent (c_agent (with_num n c)) = a_sent (c_agent c)"
  "a_sent (c_agent (on_agent (\<lambda>a. agent_hdr_init a 0) c)) = a_sent (c_agent c)" "a_sent (agent_hdr_init b k) = a_sent b"
  by (simp_all add: with_int_def with_num_def on_agent_def agent_hdr_init_def agent_hdr_set_int_def agent_hdr_set_num_def)

lemma set_str_sent: "agent_hdr_set_str a s = Some b \<Longrightarrow> a_sent b = a_sent a"
  by (auto simp: agent_hdr_set_str_def bind_eq_Some_conv split: option.splits)

lemma sent_plain:
  "agent_state_new c p w = (r, d, q, v) \<Longrightarrow> sent_mild c d"
  "agent_state_load c p w = (r, d, q, v) \<Longrightarrow> sent_mild c d"
  "agent_state_drop c p w = (r, d, q, v) \<Longrightarrow> sent_mild c d"
  "agent_key_generate c p w = (r, d, q, v) \<Longrightarrow> sent_mild c d"
  "agent_clear_recent_failures c p w = (r, d, q, v) \<Longrightarrow> sent_mild c d"
  "agent_flag_add c fl p w = (r, d, q, v) \<Longrightarrow> sent_mild c d"
  "agent_flag_clear c fl p w = (r, d, q, v) \<Longrightarrow> sent_mild c d"
  "agent_set_int c i j p w = (r, d, q, v) \<Longrightarrow> sent_mild c d"
  "agent_skip c n p w = (r, d, q, v) \<Longrightarrow> sent_mild c d"
  "agent_update_latest_card c n p w = (r, d, q, v) \<Longrightarrow> sent_mild c d"
  by (auto simp: agent_state_new_def agent_state_load_def agent_state_drop_def agent_key_generate_def agent_clear_recent_failures_def
      agent_flag_add_def agent_flag_clear_def agent_set_int_def agent_skip_def agent_update_latest_card_def intro: query_sent)

lemma sent_value:
  "agent_flag_get c p w = (r, x, d, q, v) \<Longrightarrow> sent_mild c d"
  "agent_get_num c i p w = (r, m, d, q, v) \<Longrightarrow> sent_mild c d"
  "agent_get_int c i p w = (r, x, d, q, v) \<Longrightarrow> sent_mild c d"
  "agent_get_key c p w = (r, z, d, q, v) \<Longrightarrow> sent_mild c d"
  "agent_get_warnings c p w = (r, xy, d, q, v) \<Longrightarrow> sent_mild c d"
  by (auto simp: agent_flag_get_def agent_get_num_def agent_get_int_def agent_get_key_def agent_get_warnings_def
      split: prod.splits intro: query_sent)

lemma sent_string:
  "agent_get_str c i p w = Some (r, s, d, q, v) \<Longrightarrow> sent_mild c d"
  "agent_get_alphabet c i p w = Some (r, s, d, q, v) \<Longrightarrow> sent_mild c d"
  "agent_get_passcode c n p w = Some (r, s, d, q, v) \<Longrightarrow> sent_mild c d"
  "agent_get_prompt c n p w = Some (r, s, d, q, v) \<Longrightarrow> sent_mild c d"
  by (auto simp: agent_get_str_def agent_get_alphabet_def agent_get_passcode_def agent_get_prompt_def bind_eq_Some_conv
      split: prod.splits if_splits intro: query_sent)

lemma sent_arg:
  "agent_set_str c i s p w = Some (r, d, q, v) \<Longrightarrow> sent_mild c d"
  "agent_set_spass c s b p w = Some (r, d, q, v) \<Longrightarrow> sent_mild c d"
  "agent_authenticate c t p w = Some (r, d, q, v) \<Longrightarrow> sent_mild c d"
  by (auto simp: agent_set_str_def agent_set_spass_def agent_authenticate_def bind_eq_Some_conv Let_def
      split: prod.splits if_splits intro!: query_sent dest: set_str_sent)

subsection \<open>The actions\<close>

definition kept :: "uio \<Rightarrow> uio \<Rightarrow> bool" where
  "kept u v \<longleftrightarrow> sent_mild (u_agent u) (u_agent v) \<and> u_in v = u_in u"

lemma kept_refl [simp]: "kept u u"
  by (simp add: kept_def)

lemma kept_trans: "kept u v \<Longrightarrow> kept v w \<Longrightarrow> kept u w"
  using sent_mild_trans by (auto simp: kept_def)

lemma kept_say [simp]: "kept u (say s v) = kept u v" "kept (say s u) v = kept u v"
  by (simp_all add: kept_def say_def)

lemma kept_ask:
  assumes "\<And>r d q v. f (u_agent u) (u_pipe u) (u_world u) = (r, d, q, v) \<Longrightarrow> sent_mild (u_agent u) d"
  shows "ask f u = (r, v) \<Longrightarrow> kept u v"
  using assms by (auto simp: ask_def kept_def split: prod.splits)

lemma kept_ask_str:
  assumes "\<And>r d q v. f (u_agent u) (u_pipe u) (u_world u) = Some (r, d, q, v) \<Longrightarrow> sent_mild (u_agent u) d"
  shows "ask_str f u = Some (r, v) \<Longrightarrow> kept u v"
  using assms by (auto simp: ask_str_def kept_def bind_eq_Some_conv)

lemma kept_fetch:
  assumes "\<And>r x d q v. f (u_agent u) (u_pipe u) (u_world u) = (r, x, d, q, v) \<Longrightarrow> sent_mild (u_agent u) d"
  shows "fetch f u = (r, x, v) \<Longrightarrow> kept u v"
  using assms by (auto simp: fetch_def kept_def split: prod.splits)

lemma kept_fetch_str:
  assumes "\<And>r x d q v. f (u_agent u) (u_pipe u) (u_world u) = Some (r, x, d, q, v) \<Longrightarrow> sent_mild (u_agent u) d"
  shows "fetch_str f u = Some (r, x, v) \<Longrightarrow> kept u v"
  using assms by (auto simp: fetch_str_def kept_def bind_eq_Some_conv)

lemma kept_questions:
  "ask agent_state_new u = (r, v) \<Longrightarrow> kept u v"
  "ask agent_state_drop u = (r, v) \<Longrightarrow> kept u v"
  "ask agent_key_generate u = (r, v) \<Longrightarrow> kept u v"
  "ask agent_clear_recent_failures u = (r, v) \<Longrightarrow> kept u v"
  "ask (\<lambda>c. agent_flag_add c fl) u = (r, v) \<Longrightarrow> kept u v"
  "ask (\<lambda>c. agent_flag_clear c fl) u = (r, v) \<Longrightarrow> kept u v"
  "ask (\<lambda>c. agent_skip c n) u = (r, v) \<Longrightarrow> kept u v"
  "ask (\<lambda>c. agent_update_latest_card c n) u = (r, v) \<Longrightarrow> kept u v"
  "set_int i j u = (r, v) \<Longrightarrow> kept u v"
  "set_str i s u = Some (r, v) \<Longrightarrow> kept u v"
  "ask_str (\<lambda>c. agent_set_spass c ps b) u = Some (r, v) \<Longrightarrow> kept u v"
  "ask_str (\<lambda>c. agent_authenticate c s) u = Some (r, v) \<Longrightarrow> kept u v"
  unfolding set_int_def set_str_def
  by (erule kept_ask [rotated] kept_ask_str [rotated]; erule sent_plain sent_arg)+

lemma kept_values:
  "fetch agent_flag_get u = (r, x, v) \<Longrightarrow> kept u v"
  "fetch agent_get_key u = (r, y, v) \<Longrightarrow> kept u v"
  "fetch agent_get_warnings u = (r, xy, v) \<Longrightarrow> kept u v"
  "get_num i u = (r, n, v) \<Longrightarrow> kept u v"
  "get_int i u = (r, x, v) \<Longrightarrow> kept u v"
  "get_str i u = Some (r, s, v) \<Longrightarrow> kept u v"
  "fetch_str (\<lambda>c. agent_get_alphabet c j) u = Some (r, s, v) \<Longrightarrow> kept u v"
  "fetch_str (\<lambda>c. agent_get_passcode c m) u = Some (r, s, v) \<Longrightarrow> kept u v"
  "fetch_str (\<lambda>c. agent_get_prompt c m) u = Some (r, s, v) \<Longrightarrow> kept u v"
  unfolding get_num_def get_int_def get_str_def
  by (erule kept_fetch [rotated] kept_fetch_str [rotated]; erule sent_value sent_string)+

lemma kept_get_nums: "get_nums fs u = (r, v) \<Longrightarrow> kept u v"
proof (induction fs arbitrary: u r v)
  case (Cons f fs)
  obtain ret x w where g: "get_num f u = (ret, x, w)" by (cases "get_num f u") auto
  obtain r1 w1 where h: "get_nums fs w = (r1, w1)" by (cases "get_nums fs w") auto
  have "v = w \<or> v = w1" using Cons.prems by (auto simp: g h split: option.splits sum.splits)
  then show ?case using kept_values(4) [OF g] Cons.IH [OF h] kept_trans by blast
qed simp

lemma kept_get_ints: "get_ints fs u = (r, v) \<Longrightarrow> kept u v"
proof (induction fs arbitrary: u r v)
  case (Cons f fs)
  obtain ret x w where g: "get_int f u = (ret, x, w)" by (cases "get_int f u") auto
  obtain r1 w1 where h: "get_ints fs w = (r1, w1)" by (cases "get_ints fs w") auto
  have "v = w \<or> v = w1" using Cons.prems by (auto simp: g h split: option.splits sum.splits)
  then show ?case using kept_values(5) [OF g] Cons.IH [OF h] kept_trans by blast
qed simp

lemma kept_unless:
  assumes "unless_error r f = Some (x, v)" and "kept u (snd r)" and "\<And>w. f w = Some (x, v) \<Longrightarrow> kept w v"
  shows "kept u v"
  using assms kept_trans by (auto simp: unless_error_def split: prod.splits if_splits)

lemma kept_unless_bind:
  assumes "Option.bind x (\<lambda>r. unless_error r f) = Some (y, v)" and "\<And>r w. x = Some (r, w) \<Longrightarrow> kept u w"
    and "\<And>w. f w = Some (y, v) \<Longrightarrow> kept w v"
  shows "kept u v"
  using assms kept_unless by (auto simp: bind_eq_Some_conv)

lemmas kept_after = kept_questions(1-9) [OF prod.collapse [symmetric]]

lemma kept_if: "(b \<Longrightarrow> kept u (snd r)) \<Longrightarrow> kept u (snd (if b then r else (0, u)))"
  by simp

lemma kept_opt:
  "(case s of None \<Rightarrow> Some (0, u) | Some t \<Rightarrow> set_str i t u) = Some (r, w) \<Longrightarrow> kept u w"
  by (auto split: option.splits dest: kept_questions)

lemma kept_set_options: "ah_set_options opt u = Some (r, v) \<Longrightarrow> kept u v"
  unfolding ah_set_options_def
  by ((erule kept_unless kept_unless_bind, (rule kept_if kept_after | erule kept_opt)+)+) simp

lemma kept_config: "action_config opt u = Some (r, v) \<Longrightarrow> kept u v"
  unfolding action_config_def
  by ((erule kept_unless kept_unless_bind, (rule kept_if kept_after | erule kept_opt)+)+) simp

lemma kept_num_print:
  "num_print_dec n u = Some v \<Longrightarrow> kept u v" "num_print_hex n b u = Some v \<Longrightarrow> kept u v" "print_field s n u = Some v \<Longrightarrow> kept u v"
  by (auto simp: num_print_dec_def num_print_hex_def print_field_def bind_eq_Some_conv)

lemma kept_bind_print:
  assumes "Option.bind (print_field s n u) f = Some (r, v)" and "\<And>w. f w = Some (r, v) \<Longrightarrow> kept w v"
  shows "kept u v"
proof -
  obtain w where "print_field s n u = Some w" "f w = Some (r, v)" using assms(1) by (auto simp: bind_eq_Some_conv)
  then show ?thesis using assms(2) kept_num_print(3) kept_trans by blast
qed

lemma kept_bind_str:
  assumes "Option.bind (get_str f u) (\<lambda>(ret, s, u). g ret s u) = Some (r, v)" and "\<And>a b w. g a b w = Some (r, v) \<Longrightarrow> kept w v"
  shows "kept u v"
proof -
  obtain a b w where "get_str f u = Some (a, b, w)" "g a b w = Some (r, v)" using assms(1) by (auto simp: bind_eq_Some_conv)
  then show ?thesis using assms(2) kept_values(6) kept_trans by blast
qed

lemma kept_show_state:
  assumes "ah_show_state u = Some (r, v)"
  shows "kept u v"
proof -
  obtain x w where n: "get_nums [PPP_FIELD_CURRENT_CARD, PPP_FIELD_UNSALTED_COUNTER, PPP_FIELD_LATEST_CARD, PPP_FIELD_MAX_CARD, PPP_FIELD_MAX_CODE] u = (x, w)"
    by fastforce
  obtain y w1 where i: "get_ints [PPP_FIELD_FAILURES, PPP_FIELD_RECENT_FAILURES, PPP_FIELD_SPASS_SET] w = (y, w1)" by fastforce
  have k: "kept u w" "kept w w1" using kept_get_nums [OF n] kept_get_ints [OF i] by simp_all
  then have k1: "kept u w1" by (rule kept_trans)
  show ?thesis
  proof (cases x)
    case (Inl e)
    then show ?thesis using assms k(1) unfolding ah_show_state_def n by simp
  next
    case (Inr ns)
    note x = Inr
    show ?thesis
    proof (cases y)
      case (Inl e)
      then show ?thesis using assms k1 unfolding ah_show_state_def n x by (simp only: prod.case sum.case i) simp
    next
      case (Inr js)
      have "kept w1 v"
        using assms unfolding ah_show_state_def n x prod.case sum.case i Inr Let_def
        by - ((erule kept_bind_print)+, clarsimp simp only: option.inject prod.inject kept_say kept_refl)
      then show ?thesis by (rule kept_trans [OF k1])
    qed
  qed
qed

lemma kept_show_flags:
  assumes "ah_show_flags u = Some (r, v)"
  shows "kept u v"
proof -
  obtain e x w where f: "fetch agent_flag_get u = (e, x, w)" by (cases "fetch agent_flag_get u") auto
  obtain y w1 where i: "get_ints [PPP_FIELD_CODE_LENGTH, PPP_FIELD_ALPHABET] w = (y, w1)" by fastforce
  have k: "kept u w" "kept w w1" using kept_values(1) [OF f] kept_get_ints [OF i] by simp_all
  then have k1: "kept u w1" by (rule kept_trans)
  show ?thesis
  proof (cases x)
    case None
    then show ?thesis using assms k(1) unfolding ah_show_flags_def f by simp
  next
    case (Some fl)
    note x = Some
    show ?thesis
    proof (cases y)
      case (Inl e)
      then show ?thesis using assms k1 unfolding ah_show_flags_def f x by (simp only: prod.case option.case i) simp
    next
      case (Inr js)
      have "kept w1 v"
        using assms unfolding ah_show_flags_def f x prod.case option.case i Inr sum.case Let_def
        by - ((erule kept_bind_str, split if_split_asm, clarsimp simp only: option.inject prod.inject kept_refl)+,
              clarsimp simp only: option.inject prod.inject kept_say kept_refl)
      then show ?thesis by (rule kept_trans [OF k1])
    qed
  qed
qed

lemma kept_show_keys:
  assumes "ah_show_keys u = Some (r, v)"
  shows "kept u v"
proof -
  obtain e x w where f: "fetch agent_get_key u = (e, x, w)" by (cases "fetch agent_get_key u") auto
  obtain e1 y w1 where i: "get_num PPP_FIELD_COUNTER w = (e1, y, w1)" by (cases "get_num PPP_FIELD_COUNTER w") auto
  have k: "kept u w" "kept u w1" using kept_values(2) [OF f] kept_values(4) [OF i] kept_trans by blast+
  show ?thesis
    using assms k by (cases x; cases y)
      (auto simp: ah_show_keys_def f i bind_eq_Some_conv crypto_print_hex_def dest!: kept_num_print intro: kept_trans)
qed

lemma kept_passcode_number:
  assumes "ah_get_passcode_number n m c r u = (x, y, v)"
  shows "kept u v"
proof -
  obtain z w where i: "get_ints [PPP_FIELD_CODES_ON_CARD, PPP_FIELD_CODES_IN_ROW] u = (z, w)" by fastforce
  then show ?thesis
    using assms kept_get_ints [OF i] by (cases z) (auto simp: ah_get_passcode_number_def Let_def split: if_splits)
qed

lemma kept_parse_code_spec:
  assumes "ah_parse_code_spec s n u = (x, y, v)"
  shows "kept u v"
proof -
  obtain z w where i: "get_nums [PPP_FIELD_CURRENT_CARD, PPP_FIELD_UNSALTED_COUNTER, PPP_FIELD_LATEST_CARD, PPP_FIELD_MAX_CARD, PPP_FIELD_MAX_CODE] u = (z, w)"
    by fastforce
  note k = kept_get_nums [OF i]
  show ?thesis
  proof (cases z)
    case (Inl e)
    then show ?thesis using assms k unfolding ah_parse_code_spec_def i by simp
  next
    case (Inr ns)
    have "v = w \<or> (\<exists>a b c d e f. ah_get_passcode_number a b c d w = (e, f, v))"
      using assms unfolding ah_parse_code_spec_def i Inr Let_def
      by (auto split: if_split_asm option.split_asm prod.split_asm)
    then show ?thesis using k kept_passcode_number kept_trans by blast
  qed
qed

subsection \<open>Cards\<close>

lemma card_row_sent:
  "card_row in_row len y buf pos code_num a p w = Some (r, b, q, v) \<Longrightarrow> sent_mild a b"
proof (induction "in_row - y" arbitrary: y buf pos code_num a p w rule: less_induct)
  case less
  note e = card_row.simps [of in_row len y]
  show ?case
  proof (cases "y < in_row")
    case True
    obtain ret s a1 p1 w1 where g: "agent_get_passcode a code_num p w = Some (ret, s, a1, p1, w1)"
      using less.prems True by (auto simp: e bind_eq_Some_conv)
    note m = sent_string(3) [OF g]
    show ?thesis
    proof (cases "s = None \<or> ret \<noteq> 0")
      case x: True
      then show ?thesis using less.prems True m by (auto simp: e g split: option.splits)
    next
      case False
      then obtain t where t: "s = Some t" "ret = 0" by auto
      then obtain b1 k where "card_row in_row len (y + 1) b1 k (num_add code_num (num_i 1)) a1 p1 w1 = Some (r, b, q, v)"
        using less.prems True g by (auto simp: e bind_eq_Some_conv split: if_splits)
      then have "sent_mild a1 b" by (rule less.hyps [rotated]) (use True in simp)
      then show ?thesis by (rule sent_mild_trans [OF m])
    qed
  next
    case False
    then show ?thesis using less.prems by (simp add: e)
  qed
qed

lemma card_rows_sent:
  "card_rows in_row len i buf pos code_num a p w = Some (r, b, q, v) \<Longrightarrow> sent_mild a b"
proof (induction "11 - i" arbitrary: i buf pos code_num a p w rule: less_induct)
  case less
  note e = card_rows.simps [of in_row len i]
  show ?case
  proof (cases "i < 1 + CARD_ROWS")
    case True
    obtain b0 r1 a1 p1 w1 where h: "put buf pos (row_head i) = Some b0"
      and g: "card_row in_row len 0 b0 (pos + 4) code_num a p w = Some (r1, a1, p1, w1)"
      using less.prems True by (auto simp: e bind_eq_Some_conv)
    note m = card_row_sent [OF g]
    show ?thesis
    proof (cases r1)
      case None
      then show ?thesis using less.prems True m by (simp add: e h g)
    next
      case (Some x)
      then obtain b1 k n where "card_rows in_row len (i + 1) b1 k n a1 p1 w1 = Some (r, b, q, v)"
        using less.prems True by (cases x) (auto simp: e h g)
      then have "sent_mild a1 b" by (rule less.hyps [rotated]) (use True in simp)
      then show ?thesis by (rule sent_mild_trans [OF m])
    qed
  next
    case False
    then show ?thesis using less.prems by (simp add: e)
  qed
qed

lemma card_ascii_sent:
  assumes "card_ascii host a n p w = Some (r, b, q, v)"
  shows "sent_mild a b"
proof -
  obtain ret f a1 p1 w1 where i: "agent_get_int a (word_of_int PPP_FIELD_CODE_LENGTH) p w = (ret, f, a1, p1, w1)"
    by (cases "agent_get_int a (word_of_int PPP_FIELD_CODE_LENGTH) p w") auto
  note m = sent_value(3) [OF i]
  show ?thesis
  proof (cases f)
    case None
    then show ?thesis using assms m unfolding card_ascii_def i Let_def prod.case by simp
  next
    case (Some l)
    note as = assms [unfolded card_ascii_def i Some Let_def prod.case option.case]
    obtain R where R: "ppp_get_codes_per_row l = Some R" using as by (auto simp: bind_eq_Some_conv)
    obtain bad w2 where fa: "fault w1 = (bad, w2)" by (cases "fault w1")
    show ?thesis
    proof (cases bad)
      case True
      then show ?thesis using as m by (simp add: R fa)
    next
      case False
      then have "sent_mild a1 b"
        using as by (auto simp: R fa bind_eq_Some_conv split: if_splits option.splits dest!: card_rows_sent sent_string(1))
          (blast intro: sent_mild_trans)+
      then show ?thesis by (rule sent_mild_trans [OF m])
    qed
  qed
qed

lemma latex_cards_sent:
  "latex_cards host i final n buf pos a p w = Some (r, b, q, v) \<Longrightarrow> sent_mild a b"
proof (induction "Suc final - i" arbitrary: i buf pos a p w rule: less_induct)
  case less
  note e = latex_cards.simps [of host i final]
  show ?case
  proof (cases "i \<le> final")
    case True
    obtain part a1 p1 w1 where g: "card_ascii host a (num_add n (num_i (of_nat i))) p w = Some (part, a1, p1, w1)"
      using less.prems True by (auto simp: e bind_eq_Some_conv)
    note m = card_ascii_sent [OF g]
    show ?thesis
    proof (cases part)
      case None
      then show ?thesis using less.prems True m g by (simp add: e)
    next
      case (Some x)
      then obtain b1 k where "latex_cards host (i + 1) final n b1 k a1 p1 w1 = Some (r, b, q, v)"
        using less.prems True g by (auto simp: e bind_eq_Some_conv Let_def split: if_splits)
      then have "sent_mild a1 b" by (rule less.hyps [rotated]) (use True in simp)
      then show ?thesis by (rule sent_mild_trans [OF m])
    qed
  next
    case False
    then show ?thesis using less.prems by (simp add: e)
  qed
qed

lemma card_latex_sent:
  assumes "card_latex host a n p w = Some (r, b, q, v)"
  shows "sent_mild a b"
proof -
  obtain ret m a1 p1 w1 where g: "agent_get_num a (word_of_int PPP_FIELD_MAX_CARD) p w = (ret, m, a1, p1, w1)"
    by (cases "agent_get_num a (word_of_int PPP_FIELD_MAX_CARD) p w") auto
  note k = sent_value(2) [OF g]
  show ?thesis
    using assms k unfolding card_latex_def g
    by (auto simp: bind_eq_Some_conv Let_def split: option.splits prod.splits if_splits dest!: latex_cards_sent)
      (blast intro: sent_mild_trans)+
qed

subsection \<open>Whole actions\<close>

definition meek :: "uio \<Rightarrow> uio \<Rightarrow> bool" where
  "meek u v \<longleftrightarrow> sent_mild (u_agent u) (u_agent v)"

lemma meek_refl [simp]: "meek u u"
  by (simp add: meek_def)

lemma meek_trans: "meek u v \<Longrightarrow> meek v w \<Longrightarrow> meek u w"
  using sent_mild_trans by (auto simp: meek_def)

lemma kept_meek: "kept u v \<Longrightarrow> meek u v"
  by (simp add: kept_def meek_def)

lemma kept_draw:
  assumes "\<And>s b q v. f (u_agent u) (u_pipe u) (u_world u) = Some (s, b, q, v) \<Longrightarrow> sent_mild (u_agent u) b"
  shows "draw f u = Some (s, v) \<Longrightarrow> kept u v"
  using assms by (auto simp: draw_def kept_def bind_eq_Some_conv)

lemma kept_shown_card:
  assumes "Option.bind (draw f u) (\<lambda>(buf, u).
       case buf of
         None \<Rightarrow> Some (1, u)
       | Some buf \<Rightarrow> let (ret, u) = ask (\<lambda>c. agent_update_latest_card c m) (say (h buf) u) in Some (k ret, u)) = Some (r, v)"
    and "\<And>s w. draw f u = Some (s, w) \<Longrightarrow> kept u w"
  shows "kept u v"
proof -
  obtain s w where d: "draw f u = Some (s, w)" using assms(1) by (auto simp: bind_eq_Some_conv)
  show ?thesis
  proof (cases s)
    case None
    then show ?thesis using assms d by simp
  next
    case (Some buf)
    obtain e x where a: "ask (\<lambda>c. agent_update_latest_card c m) (say (h buf) w) = (e, x)"
      by (cases "ask (\<lambda>c. agent_update_latest_card c m) (say (h buf) w)")
    then have "v = x" using assms(1) by (simp add: d Some)
    moreover have "kept w x" using kept_questions(8) [OF a] by simp
    ultimately show ?thesis using assms(2) [OF d] kept_trans by blast
  qed
qed

lemma kept_print_card: "print_card host act n u = Some (r, v) \<Longrightarrow> kept u v"
  unfolding print_card_def
  by (split if_split_asm, erule kept_shown_card, erule kept_draw [rotated], erule card_ascii_sent,
      split if_split_asm, erule kept_shown_card, erule kept_draw [rotated], erule card_latex_sent, simp)

lemma kept_shown_code:
  assumes "Option.bind (fetch_str f u) (\<lambda>(ret, s, u).
       case s of None \<Rightarrow> Some (ret, u) | Some s \<Rightarrow> if k ret then Some (ret, u) else Some (0, say (h s) u)) = Some (r, v)"
    and "\<And>e s w. fetch_str f u = Some (e, s, w) \<Longrightarrow> kept u w"
  shows "kept u v"
proof -
  obtain e s w where d: "fetch_str f u = Some (e, s, w)" using assms(1) by (auto simp: bind_eq_Some_conv)
  then show ?thesis using assms by (cases s) (auto split: if_splits)
qed

lemma kept_print_code: "print_code act n u = Some (r, v) \<Longrightarrow> kept u v"
  unfolding print_code_def
  by (split if_split_asm, erule kept_shown_code, erule kept_values,
      split if_split_asm, erule kept_shown_code, erule kept_values, simp)

lemma kept_action_print:
  assumes "action_print host opt u = Some (r, v)"
  shows "kept u v"
proof (cases "user_has_state opt")
  case True
  then obtain spec where s: "action_arg opt = Some spec" using assms by (auto simp: action_print_def bind_eq_Some_conv)
  obtain sel n w where p: "ah_parse_code_spec spec (num_i 0) u = (sel, n, w)" by (cases "ah_parse_code_spec spec (num_i 0) u")
  note k = kept_parse_code_spec [OF p]
  have "v = w \<or> (\<exists>r. print_card host (action opt) n w = Some (r, v)) \<or> (\<exists>r. print_code (action opt) n w = Some (r, v))"
    using assms True by (auto simp: action_print_def s p split: if_splits)
  then show ?thesis using k kept_print_card kept_print_code kept_trans by blast
qed (use assms in \<open>simp add: action_print_def\<close>)

lemma kept_action_skip:
  assumes "action_skip opt u = Some (r, v)"
  shows "kept u v"
proof (cases "user_has_state opt")
  case True
  then obtain spec where s: "action_arg opt = Some spec" using assms by (auto simp: action_skip_def bind_eq_Some_conv)
  obtain sel n w where p: "ah_parse_code_spec spec (num_i 0) u = (sel, n, w)" by (cases "ah_parse_code_spec spec (num_i 0) u")
  obtain e m x where g: "ah_get_passcode_number n (num_i 0) (CHR ''A'') 1 w = (e, m, x)"
    by (cases "ah_get_passcode_number n (num_i 0) (CHR ''A'') 1 w")
  note k = kept_parse_code_spec [OF p] kept_trans [OF kept_parse_code_spec [OF p] kept_passcode_number [OF g]]
  have "v = w \<or> v = x \<or> (\<exists>r m. ask (\<lambda>c. agent_skip c m) w = (r, v)) \<or> (\<exists>r m. ask (\<lambda>c. agent_skip c m) x = (r, v))"
    using assms True by (auto simp: action_skip_def s p g split: if_splits)
  then show ?thesis using k kept_questions(7) kept_trans by blast
qed (use assms in \<open>simp add: action_skip_def\<close>)

lemma kept_authenticate: "action_authenticate opt u = Some (r, v) \<Longrightarrow> kept u v"
  by (auto simp: action_authenticate_def bind_eq_Some_conv split: if_splits option.splits dest: kept_questions)

lemma kept_action_warnings:
  assumes "action_warnings opt u = Some (r, v)"
  shows "kept u v"
proof -
  obtain e a b w where f: "fetch agent_get_warnings u = (e, (a, b), w)" by (cases "fetch agent_get_warnings u") auto
  note k = kept_values(3) [OF f]
  have "v = u \<or> v = w \<or> (\<exists>s. v = say s w) \<or> (\<exists>e. ask agent_clear_recent_failures w = (e, v)) \<or>
      (\<exists>s e. ask agent_clear_recent_failures (say s w) = (e, v))"
    using assms unfolding action_warnings_def f Let_def by (auto simp: bind_eq_Some_conv split: if_splits)
  then show ?thesis using k kept_questions(4) kept_trans kept_say kept_refl by metis
qed

lemma kept_show_alphabets:
  assumes "show_alphabets i u = Some rv"
  shows "kept u (snd rv)"
proof (rule show_alphabets.raw_induct [of "\<lambda>i u rv. kept u (snd rv)", OF _ assms])
  fix f :: "u32 \<Rightarrow> uio \<Rightarrow> (int \<times> uio) option" and i u rv
  assume ih: "\<And>i u rv. f i u = Some rv \<Longrightarrow> kept u (snd rv)"
    and b: "Option.bind (fetch_str (\<lambda>c. agent_get_alphabet c i) u) (\<lambda>(ret, s, u).
        if ret = PPP_ERROR_RANGE then Some (0, u)
        else if ret = PPP_ERROR_POLICY \<or> ret = 0
             then Option.bind s (\<lambda>s. f (i + 1)
                    (say (''ID='' @ print_d (sint i) @ (if ret = 0 then '' [+] '' else '' [-] '') @ s @ [NL]) u))
             else Some (ret, u)) = Some rv"
  obtain e s w where g: "fetch_str (\<lambda>c. agent_get_alphabet c i) u = Some (e, s, w)" using b by (auto simp: bind_eq_Some_conv)
  have "snd rv = w \<or> (\<exists>j t. f j (say t w) = Some rv)" using b by (auto simp: g bind_eq_Some_conv split: if_splits)
  then show "kept u (snd rv)" using kept_values(7) [OF g] ih kept_say(2) kept_trans by metis
qed

lemma kept_action_info:
  assumes "action_info opt u = Some (r, v)"
  shows "kept u v"
proof -
  define t where "t = (case o_username opt of None \<Rightarrow> u | Some s \<Rightarrow> say (''* User    = '' @ s @ [NL]) u)"
  have t: "kept t v \<Longrightarrow> kept u v" by (simp add: t_def split: option.splits)
  have f: "kept w v" if "ah_show_flags (say s w) = Some (r, v)" for s w using kept_show_flags [OF that] by simp
  have st: "kept w v" if "Option.bind (ah_show_state (say s w)) (\<lambda>r. unless_error r (\<lambda>u. ah_show_flags (say s' u))) = Some (r, v)" for s s' w
    using kept_unless_bind [OF that] kept_show_state f by (metis kept_say(2))
  show ?thesis
    using assms [unfolded action_info_def Let_def, folded t_def] t st kept_show_keys [of t r v] kept_show_alphabets [of 0 u "(r, v)"]
    by (auto split: if_splits)
qed

lemma meek_ah_get_pass:
  assumes "ah_get_pass u = (r, v)"
  shows "u_agent v = u_agent u"
  using assms by (auto simp: ah_get_pass_def u_fault_def u_gets_def Let_def split: prod.splits if_splits option.splits)

lemma meek_spass:
  assumes "action_spass opt u = Some (r, v)"
  shows "meek u v"
proof -
  obtain ps w where g: "(case o_spass opt of None \<Rightarrow> ah_get_pass u | Some s \<Rightarrow> (Some s, u)) = (ps, w)"
    by (cases "case o_spass opt of None \<Rightarrow> ah_get_pass u | Some s \<Rightarrow> (Some s, u)")
  have w: "u_agent w = u_agent u" using g meek_ah_get_pass by (auto split: option.splits)
  have q: "kept w v" if b: "Option.bind (ask_str (\<lambda>c. agent_set_spass c z bb) w) (spass_result k) = Some (r, v)" for z bb k
  proof -
    obtain e x where a: "ask_str (\<lambda>c. agent_set_spass c z bb) w = Some (e, x)" "spass_result k (e, x) = Some (r, v)"
      using b by (cases "ask_str (\<lambda>c. agent_set_spass c z bb) w") auto
    have "v = x \<or> (\<exists>s. v = say s x)" using a(2) by (auto simp: spass_result_def bind_eq_Some_conv split: if_splits)
    then show ?thesis using kept_questions(11) [OF a(1)] by auto
  qed
  have "v = u \<or> v = w \<or> kept w v"
    using assms q unfolding action_spass_def Let_def g by (auto split: if_splits option.splits)
  then show ?thesis using w by (auto simp: meek_def kept_def)
qed

lemma meek_key_remove:
  assumes "action_key_remove opt u = Some (r, v)" and "\<not> says_yes (u_in u)"
  shows "meek u v"
proof (cases "user_has_state opt")
  case True
  then obtain a w where y: "ah_yes_or_no u = Some (a, w)" using assms(1) by (auto simp: action_key_remove_def bind_eq_Some_conv)
  note n = yes_or_no_rest [OF y assms(2)]
  then have "v = w" using assms(1) True by (simp add: action_key_remove_def y)
  then show ?thesis using n(3) by (simp add: meek_def)
qed (use assms in \<open>simp add: action_key_remove_def\<close>)

lemma meek_key_store:
  assumes "key_store u = Some (r, v)" and "\<not> says_yes (u_in u)"
  shows "meek u v"
proof -
  obtain e w where a: "ask (\<lambda>c. agent_update_latest_card c (num_i 1)) u = (e, w)" by (cases "ask (\<lambda>c. agent_update_latest_card c (num_i 1)) u")
  note k = kept_questions(8) [OF a]
  show ?thesis
  proof (cases "e \<noteq> AGENT_ERR_REQ_ARG \<and> e \<noteq> 0")
    case True
    then show ?thesis using assms(1) k by (simp add: key_store_def a kept_meek)
  next
    case False
    then obtain rv where l: "key_ready_loop w = Some rv" using assms(1) by (auto simp: key_store_def a bind_eq_Some_conv)
    have "\<not> says_yes (u_in w)" using k assms(2) by (simp add: kept_def)
    then have "fst rv \<noteq> 0" "u_agent (snd rv) = u_agent w" using key_ready_loop_no [OF l] by simp_all
    moreover have "v = snd rv" using assms(1) False \<open>fst rv \<noteq> 0\<close> by (cases rv) (simp add: key_store_def a l)
    ultimately show ?thesis using k by (simp add: meek_def kept_def)
  qed
qed

lemma meek_key_make:
  assumes "key_make host u = Some (r, v)" and "\<not> says_yes (u_in u)"
  shows "meek u v"
proof -
  obtain r1 w where f: "ah_show_flags u = Some (r1, w)" using assms(1) by (auto simp: key_make_def bind_eq_Some_conv)
  note k = kept_show_flags [OF f]
  show ?thesis
  proof (cases "r1 = 0")
    case False
    then show ?thesis using assms(1) k by (simp add: key_make_def f unless_error_def kept_meek)
  next
    case True
    obtain r2 x where q: "ask agent_key_generate w = (r2, x)" by (cases "ask agent_key_generate w")
    note k2 = kept_trans [OF k kept_questions(3) [OF q]]
    obtain buf a p y where c: "card_ascii host (u_agent x) (num_i 1) (u_pipe x) (u_world x) = Some (Some buf, a, p, y)"
      and s: "key_store (say (c_str buf @ [NL]) (x\<lparr>u_agent := a, u_pipe := p, u_world := y\<rparr>)) = Some (r, v)"
      using assms(1) by (auto simp: key_make_def f unless_error_def True q bind_eq_Some_conv)
    have "kept x (say (c_str buf @ [NL]) (x\<lparr>u_agent := a, u_pipe := p, u_world := y\<rparr>))"
      using card_ascii_sent [OF c] by (simp add: kept_def say_def)
    note k3 = kept_trans [OF k2 this]
    then have "\<not> says_yes (u_in (say (c_str buf @ [NL]) (x\<lparr>u_agent := a, u_pipe := p, u_world := y\<rparr>)))"
      using assms(2) by (simp add: kept_def)
    from meek_key_store [OF s this] show ?thesis using kept_meek [OF k3] meek_trans by blast
  qed
qed

lemma meek_key_generate:
  assumes "action_key_generate host opt u = Some (r, v)" and "\<not> says_yes (u_in u)"
  shows "meek u v"
proof -
  define first where "first =
    (if user_has_state opt
     then case fetch agent_flag_get u of (ret, _, u) \<Rightarrow> if ret \<noteq> 0 then (ret, u) else ask agent_state_drop u
     else (0, u))"
  obtain e x w where f: "fetch agent_flag_get u = (e, x, w)" by (cases "fetch agent_flag_get u") auto
  have first: "kept u (snd first)"
    using kept_values(1) [OF f] kept_trans [OF kept_values(1) [OF f] kept_after(2)] by (simp add: first_def f)
  define rest where "rest = (\<lambda>u.
    if user_has_state opt
    then do { (answer, u) \<leftarrow> ah_yes_or_no u; if answer \<noteq> 0 then Some (1, u) else key_make host u }
    else key_make host u)"
  have rest: "meek w v" if b: "rest w = Some (r, v)" "kept u w" for w
  proof -
    have no: "\<not> says_yes (u_in w)" using that(2) assms(2) by (simp add: kept_def)
    show ?thesis
    proof (cases "user_has_state opt")
      case True
      then obtain a y where y: "ah_yes_or_no w = Some (a, y)" using b(1) by (cases "ah_yes_or_no w") (auto simp: rest_def)
      note n = yes_or_no_rest [OF y no]
      then have "v = y" using that(1) True by (simp add: rest_def y)
      then show ?thesis using n(3) by (simp add: meek_def)
    next
      case False
      then show ?thesis using that(1) meek_key_make no by (simp add: rest_def)
    qed
  qed
  obtain e1 w1 where one: "first = (e1, w1)" by (cases first)
  obtain e2 w2 where two: "ask agent_state_new w1 = (e2, w2)" by (cases "ask agent_state_new w1")
  have k1: "kept u w1" using first one by simp
  note k2 = kept_trans [OF k1 kept_questions(1) [OF two]]
  have all: "unless_error (e1, w1) (\<lambda>u. unless_error (ask agent_state_new u) (\<lambda>u.
      Option.bind (ah_set_options opt u) (\<lambda>r. unless_error r rest))) = Some (r, v)"
    using assms(1) unfolding action_key_generate_def first_def [symmetric] rest_def [symmetric] one .
  show ?thesis
  proof (cases "e1 \<noteq> 0 \<or> e2 \<noteq> 0")
    case True
    then show ?thesis using all k1 k2 by (auto simp: unless_error_def two kept_meek split: if_splits)
  next
    case False
    then obtain e3 w3 where three: "ah_set_options opt w2 = Some (e3, w3)" "unless_error (e3, w3) rest = Some (r, v)"
      using all by (auto simp: unless_error_def two bind_eq_Some_conv)
    note k3 = kept_trans [OF k2 kept_set_options [OF three(1)]]
    show ?thesis
      using three(2) rest [OF _ k3] meek_trans [OF kept_meek [OF k3]] kept_meek [OF k3] by (auto simp: unless_error_def split: if_splits)
  qed
qed

text \<open>
  C36: Whatever the action and the options, when no line the user still has to type is a yes, the
  requests the utility sends to the agent do not contain one to store the state or to remove the key:
  a key is neither replaced nor lost without the consent of the user, the end of the input included.
\<close>

theorem no_consent_no_loss:
  assumes "do_action host opt u = Some (r, v)" and "\<not> says_yes (u_in u)"
  shows "\<exists>hs. a_sent (c_agent (u_agent v)) = a_sent (c_agent (u_agent u)) @ hs \<and>
    (\<forall>h \<in> set hs. h_type h \<noteq> word_of_int AGENT_REQ_STATE_STORE \<and> h_type h \<noteq> word_of_int AGENT_REQ_KEY_REMOVE)"
proof -
  have "meek u v"
    using assms meek_key_generate meek_key_remove meek_spass kept_meek [OF kept_action_info] kept_meek [OF kept_config]
      kept_meek [OF kept_authenticate] kept_meek [OF kept_action_skip] kept_meek [OF kept_action_warnings] kept_meek [OF kept_action_print]
    unfolding do_action_def Let_def by (auto split: if_splits simp: bind_eq_Some_conv)
  then show ?thesis by (auto simp: meek_def sent_mild_def mild_def list_all_iff)
qed

theorem no_consent_no_loss_witness:
  "\<exists>v. do_action [] (no_options\<lparr>action := OPTION_REMOVE, user_has_state := True\<rparr>) (sample_uio [] (''nope'' @ [NL])) = Some (1, v) \<and>
     (\<exists>hs. a_sent (c_agent (u_agent v)) = a_sent (c_agent sample_client) @ hs \<and>
       (\<forall>h \<in> set hs. h_type h \<noteq> word_of_int AGENT_REQ_STATE_STORE \<and> h_type h \<noteq> word_of_int AGENT_REQ_KEY_REMOVE))"
proof -
  have l: "fgets_len 20 (''nope'' @ [NL]) = 5" by (simp add: fgets_len_def)
  have a: "answers_of (''nope'' @ [NL]) = [''nope'']"
    by (simp only: answers_of.simps [of "''nope'' @ [NL]"] l) (simp add: answers_of.simps [of "[]"] c_str_def)
  have no: "\<not> says_yes (u_in (sample_uio [] (''nope'' @ [NL])))"
    by (simp only: sample_uio_def uio.simps says_yes_def a) (simp add: strcasecmp_eq_def tolower_def isupper_def)
  obtain v where v: "do_action [] (no_options\<lparr>action := OPTION_REMOVE, user_has_state := True\<rparr>) (sample_uio [] (''nope'' @ [NL])) = Some (1, v)"
    by (simp add: do_action_def action_key_remove_def no_options_def ah_yes_or_no_def u_gets_def sample_uio_def l [simplified] c_str_def
        strcasecmp_eq_def tolower_def isupper_def)
  show ?thesis using no_consent_no_loss [OF v no] v by (auto simp: sample_uio_def)
qed

end
