(* ===== verification/Logging.thy ===== *)
theory Logging
  imports Agent_Client
begin

text \<open>
  The log of the program, \<open>src/src/common/print.c\<close>: where messages go and which of them are kept.
  A message is the text its format gives; the source position is the one the macros \<open>print\<close> and
  \<open>print_perror\<close> pass.  Standard output, the system log and the log files are what has been written
  to them.  The calls of the other components are left out of their models, since nothing they do
  depends on the log, except that a failing assertion of it ends the program.
\<close>

abbreviation (input) PRINT_NOTICE :: int where "PRINT_NOTICE \<equiv> 1"
abbreviation (input) PRINT_WARN :: int where "PRINT_WARN \<equiv> 2"
abbreviation (input) PRINT_ERROR :: int where "PRINT_ERROR \<equiv> 3"
abbreviation (input) PRINT_CRITICAL :: int where "PRINT_CRITICAL \<equiv> 4"
abbreviation (input) PRINT_MESSAGE :: int where "PRINT_MESSAGE \<equiv> 5"
abbreviation (input) PRINT_NONE :: int where "PRINT_NONE \<equiv> 50"
abbreviation (input) TO_STDOUT :: int where "TO_STDOUT \<equiv> 64"
abbreviation (input) TO_SYSLOG :: int where "TO_SYSLOG \<equiv> 128"
abbreviation (input) PRINT_LEVEL_MASK :: int where "PRINT_LEVEL_MASK \<equiv> 0x3F"

text \<open>The priorities of \<open>syslog.h\<close>.\<close>

abbreviation (input) LOG_CRIT :: int where "LOG_CRIT \<equiv> 2"
abbreviation (input) LOG_ERR :: int where "LOG_ERR \<equiv> 3"
abbreviation (input) LOG_WARNING :: int where "LOG_WARNING \<equiv> 4"
abbreviation (input) LOG_NOTICE :: int where "LOG_NOTICE \<equiv> 5"
abbreviation (input) LOG_INFO :: int where "LOG_INFO \<equiv> 6"

record log_state =
  initialized :: bool
  log_flags :: int
  log_file :: "string option"

record log_io =
  lg :: log_state
  lg_out :: string
  lg_syslog :: "(int \<times> string) list"
  lg_files :: "string \<Rightarrow> string"

definition print_fini :: "log_io \<Rightarrow> log_io" where
  "print_fini l = l\<lparr>lg := (lg l)\<lparr>initialized := False\<rparr>\<rparr>"

text \<open>\<open>refused\<close>: the log file cannot be opened for appending.\<close>

definition print_init :: "int \<Rightarrow> string option \<Rightarrow> bool \<Rightarrow> log_io \<Rightarrow> int \<times> log_io" where
  "print_init fl file refused l =
     (let l = (if initialized (lg l) then print_fini l else l); s = (lg l)\<lparr>log_flags := fl\<rparr>
      in case file of
           None \<Rightarrow> (0, l\<lparr>lg := s\<lparr>log_file := None, initialized := True\<rparr>\<rparr>)
         | Some f \<Rightarrow>
             if refused then (1, l\<lparr>lg := s\<lparr>log_file := None, log_flags := 0\<rparr>\<rparr>)
             else (0, l\<lparr>lg := s\<lparr>log_file := Some f, initialized := True\<rparr>\<rparr>))"

definition print_config :: "int \<Rightarrow> log_io \<Rightarrow> log_io option" where
  "print_config fl l = do { assert_that (initialized (lg l)); Some (l\<lparr>lg := (lg l)\<lparr>log_flags := fl\<rparr>\<rparr>) }"

definition log_intro :: "int \<Rightarrow> string \<times> int" where
  "log_intro level =
     (if level = PRINT_NOTICE then (''NOTICE:  '', LOG_NOTICE)
      else if level = PRINT_WARN then (''WARNING: '', LOG_WARNING)
      else if level = PRINT_ERROR then (''ERROR:   '', LOG_ERR)
      else if level = PRINT_CRITICAL then (''CRITICAL: '', LOG_CRIT)
      else if level = PRINT_MESSAGE then ('''', LOG_ERR)
      else (''Unknown: '', LOG_INFO))"

text \<open>
  The file name after the last slash.  For a name without one the null pointer plus one is not
  null, so the test that follows does not catch it.
\<close>

definition base_name :: "string \<Rightarrow> string option" where
  "base_name f = do { assert_that (CHR ''/'' \<in> set f); Some (rev (takeWhile (\<lambda>c. c \<noteq> CHR ''/'') (rev f))) }"

definition log_position :: "string option \<Rightarrow> int \<Rightarrow> int \<Rightarrow> string option" where
  "log_position file line level =
     (case file of
        None \<Rightarrow> Some []
      | Some f \<Rightarrow> do { b \<leftarrow> base_name f; Some (if level \<noteq> PRINT_MESSAGE then b @ '':'' @ print_d line @ '' '' else []) })"

definition log_print :: "string option \<Rightarrow> int \<Rightarrow> int \<Rightarrow> string \<Rightarrow> log_io \<Rightarrow> (int \<times> log_io) option" where
  "log_print file line level msg l =
     do { let s = lg l;
          assert_that (initialized s);
          if level < log_flags s AND PRINT_LEVEL_MASK then Some (1, l)
          else do { assert_that (0 < length msg \<and> length msg < 512);
                    let (intro, priority) = log_intro level;
                    l \<leftarrow> (if log_flags s AND TO_STDOUT \<noteq> 0
                         then do { pos \<leftarrow> log_position file line level; Some (l\<lparr>lg_out := lg_out l @ pos @ intro @ msg\<rparr>) }
                         else Some l);
                    let l = (if log_flags s AND TO_SYSLOG \<noteq> 0 then l\<lparr>lg_syslog := lg_syslog l @ [(priority, intro @ msg)]\<rparr> else l);
                    l \<leftarrow> (case log_file s of
                           None \<Rightarrow> Some l
                         | Some f \<Rightarrow>
                             do { pos \<leftarrow> log_position file line level;
                                  Some (l\<lparr>lg_files := (lg_files l)(f := lg_files l f @ pos @ intro @ msg)\<rparr>) });
                    Some (0, l) } }"

text \<open>\<open>err\<close> is the description of the last error of the system.\<close>

definition print_perror :: "string option \<Rightarrow> int \<Rightarrow> int \<Rightarrow> string \<Rightarrow> string \<Rightarrow> log_io \<Rightarrow> (int \<times> log_io) option" where
  "print_perror file line level msg err l =
     do { assert_that (0 < length msg \<and> length msg < 512);
          log_print file line level (msg @ '' ('' @ err @ '')'' @ [CHR 0x0A]) l }"

subsection \<open>What is kept\<close>

lemma log_print_below: "initialized (lg l) \<Longrightarrow> level < log_flags (lg l) AND PRINT_LEVEL_MASK \<Longrightarrow> log_print f n level m l = Some (1, l)"
  by (simp add: log_print_def assert_that_def)

lemma log_print_keeps_state: "log_print f n level m l = Some (r, l') \<Longrightarrow> lg l' = lg l"
  by (auto simp: log_print_def assert_that_def bind_eq_Some_conv Let_def split: if_splits option.splits prod.splits)

text \<open>With no destination in the flags a message of a permitted level is accepted and goes nowhere.\<close>

lemma log_print_nowhere:
  assumes "initialized (lg l)" and "log_file (lg l) = None" and "log_flags (lg l) AND TO_STDOUT = 0"
    and "log_flags (lg l) AND TO_SYSLOG = 0" and "log_print f n level m l = Some (r, l')"
  shows "l' = l"
  using assms by (auto simp: log_print_def assert_that_def bind_eq_Some_conv Let_def split: if_splits prod.splits)

text \<open>
  The agent asks for the system log when it starts and then sets the level with \<open>print_config\<close>, which
  takes the place of all flags: from there on its messages are lost, whatever their level.
\<close>

lemma agent_log_lost:
  assumes "print_init (PRINT_NOTICE OR TO_SYSLOG) None refused l = (r, l1)" and "print_config PRINT_NOTICE l1 = Some l2"
    and "log_print f n level m l2 = Some (r', l3)"
  shows "l3 = l2"
proof -
  have "initialized (lg l2)" "log_file (lg l2) = None" "log_flags (lg l2) = PRINT_NOTICE"
    using assms(1,2) by (auto simp: print_init_def print_config_def assert_that_def bind_eq_Some_conv Let_def split: if_splits)
  then show ?thesis using log_print_nowhere [OF _ _ _ _ assms(3)] by simp
qed

end
