(* ===== verification/Testcases.thy ===== *)
theory Testcases
  imports Agent_Main
begin

text \<open>
  The tests the agent carries, \<open>src/src/agent/testcases.c\<close>, and \<open>do_testcase\<close> of
  \<open>src/src/agent/agent.c\<close>, which runs them over a changed configuration.  A test gives the number of
  its failures; what it prints is left out.  \<open>None\<close> is a failing assertion or an overflow of an
  \<open>int\<close>.  \<open>mem\<close> numbers the uninitialised structures on the stack.
\<close>

definition fails :: "bool \<Rightarrow> int" where
  "fails ok = (if ok then 0 else 1)"

subsection \<open>Numbers\<close>

definition num_shift_test :: int where
  "num_shift_test = fails (num_cmp_i ((num_rshift ^^ 127) ((num_lshift ^^ 127) (num_i 1))) 1 = 0)"

text \<open>The condition of the first test joins its two comparisons with \<open>&&\<close>.\<close>

definition num_conv_test :: "int option" where
  "num_conv_test =
     do { let (i, a) = num_import ''00000000000000010000000000000023'' NUM_FORMAT_HEX;
          assert_that (i = 0);
          let f1 = fails (\<not> (hi a \<noteq> 1 \<and> lo a \<noteq> 0x23));
          let (i, a) = num_import ''E29884AD0F1EB460E29884AD0F1EB460'' NUM_FORMAT_HEX;
          assert_that (i = 0);
          let f2 = fails (\<not> (hi a \<noteq> 0xE29884AD0F1EB460 \<or> lo a \<noteq> 0xE29884AD0F1EB460));
          buff \<leftarrow> num_export (num_ii 0x08 0xE0) NUM_FORMAT_HEX;
          let f3 = fails (buff = ''000000000000000800000000000000E0'');
          let (i, a) = num_import ''112233445566778899AABBCCDDEEFF00'' NUM_FORMAT_HEX;
          assert_that (i = 0);
          buff \<leftarrow> num_export a NUM_FORMAT_BIN;
          let f4 = fails (buff = [CHR 0x00, CHR 0xFF, CHR 0xEE, CHR 0xDD, CHR 0xCC, CHR 0xBB, CHR 0xAA, CHR 0x99,
                                  CHR 0x88, CHR 0x77, CHR 0x66, CHR 0x55, CHR 0x44, CHR 0x33, CHR 0x22, CHR 0x11]);
          buff \<leftarrow> num_export a NUM_FORMAT_HEX;
          let f5 = fails (buff = ''112233445566778899AABBCCDDEEFF00'');
          buff \<leftarrow> num_export a NUM_FORMAT_PPP_HEX;
          let f6 = fails (buff = ''00FFEEDDCCBBAA998877665544332211'');
          buff \<leftarrow> num_export a NUM_FORMAT_DEC;
          let f7 = fails (buff = ''22774453838368691933757882222884355840'');
          let (i, b) = num_import ''22774453838368691933757882222884355840'' NUM_FORMAT_DEC;
          assert_that (i = 0);
          let f8 = fails (num_cmp a b = 0);
          let f9 = fails (fst (num_import '''' NUM_FORMAT_HEX) \<noteq> 0);
          let f10 = fails (fst (num_import ''0 '' NUM_FORMAT_HEX) \<noteq> 0);
          let f11 = fails (fst (num_import ''FG'' NUM_FORMAT_HEX) \<noteq> 0);
          Some (f1 + f2 + f3 + f4 + f5 + f6 + f7 + f8 + f9 + f10 + f11) }"

text \<open>The first comparison looks at the buffer the number was read from, not at one it was written to.\<close>

definition num_gmp_test :: "int option" where
  "num_gmp_test =
     do { let buff = (replicate 16 CHR 0x00)[10 := CHR 0xAB];
          let (_, a) = num_import buff NUM_FORMAT_BIN;
          let f1 = fails (buff = replicate 10 CHR 0x00 @ [CHR 0xAB] @ replicate 5 CHR 0x00);
          let buff = (replicate 16 CHR 0x80)[0 := CHR 0xAA, 15 := CHR 0xFF];
          let (_, a) = num_import buff NUM_FORMAT_BIN;
          buff \<leftarrow> num_export a NUM_FORMAT_DEC;
          let f2 = fails (buff = ''339620359252449505361967613327236432042'');
          buff \<leftarrow> num_export a NUM_FORMAT_BIN;
          let f3 = fails (buff = CHR 0xAA # replicate 14 CHR 0x80 @ [CHR 0xFF]);
          Some (f1 + f2 + f3) }"

definition max64 :: u64 where "max64 = 18446744073709551615"

definition max128 :: num_t where "max128 = num_ii max64 max64"

definition num_add_test :: int where
  "num_add_test =
     (let a = num_i max64; b = num_i 1; c = num_add a b;
          f1 = fails (\<not> (hi a \<noteq> 0 \<or> hi c \<noteq> 1 \<or> lo c \<noteq> 0 \<or> hi b \<noteq> 0 \<or> lo b \<noteq> 1));
          d = num_sub c b;
          f2 = fails (\<not> (lo a \<noteq> lo d \<or> hi a \<noteq> hi d \<or> num_cmp a d \<noteq> 0));
          a = max128; b = max128; c = num_sub a b;
          f3 = fails (num_cmp_i c 0 = 0);
          f4 = fails (\<not> (num_cmp a b \<noteq> 0 \<or> num_cmp a c \<noteq> 1 \<or> num_cmp c a \<noteq> -1));
          b = num_i max64; d = num_i 65784365938;
          c = num_add b (num_add d (num_sub (num_sub a d) b));
          f5 = fails (num_cmp c a = 0)
      in f1 + f2 + f3 + f4 + f5)"

definition fib_step :: "num_t \<times> num_t \<Rightarrow> num_t \<times> num_t" where
  "fib_step p = (snd p, num_add (fst p) (snd p))"

definition num_fib_test :: "int option" where
  "num_fib_test =
     do { let b = snd ((fib_step ^^ 184) (num_i 1, num_i 1));
          let (i, a) = num_import ''FA63C8D9FA216A8FC8A7213B333270F8'' NUM_FORMAT_HEX;
          assert_that (i = 0);
          Some (fails (num_cmp b a = 0)) }"

text \<open>Division and multiplication back: \<open>A / B = C, r\<close> and \<open>B * C + r = A\<close>.\<close>

definition mul_back :: "num_t \<Rightarrow> u64 \<Rightarrow> num_t" where
  "mul_back a bi = (let (c, r) = num_div_i a bi in num_add (num_mul_i c bi) (num_i r))"

definition num_div_test :: "int option" where
  "num_div_test =
     do { let a = num_i 18446744073709551615;
          let (c, r) = num_div_i a 7;
          let f1 = fails (\<not> (num_cmp c (num_i 2635249153387078802) \<noteq> 0 \<or> r \<noteq> 1));
          let f2 = fails (num_cmp (num_add (num_mul_i c 7) (num_i r)) a = 0);
          let (i, a) = num_import ''18446744073709551616'' NUM_FORMAT_DEC;
          assert_that (i = 0);
          let (c, r) = num_div_i a 9;
          let f3 = fails (\<not> (num_cmp c (num_i 2049638230412172401) \<noteq> 0 \<or> r \<noteq> 7));
          let f4 = fails (num_cmp (num_add (num_mul_i c 9) (num_i r)) a = 0);
          let (i, a) = num_import ''00000000000000010000000000000000'' NUM_FORMAT_HEX;
          assert_that (i = 0);
          let f5 = fails (num_cmp (mul_back a 0x8000008000000064) a = 0);
          let (i, a) = num_import ''FFFFFFFFFFFFFFFFFFFFFFFFFFFFFFFF'' NUM_FORMAT_HEX;
          assert_that (i = 0);
          let f6 = fails (num_cmp (mul_back a 0xFFFFFFFFFFFFFFFF) a = 0);
          Some (f1 + f2 + f3 + f4 + f5 + f6) }"

text \<open>
  The loop computes its divisor in an \<open>int\<close>: from the round of 133 on the product does not fit.
\<close>

function num_div_rounds :: "int \<Rightarrow> int \<Rightarrow> num_t \<Rightarrow> int option" where
  "num_div_rounds passes i a =
     (if i < passes
      then do { assert_that (0xFAEFBB * i + i \<le> 0x7FFFFFFF);
                let bi = word_of_int (0xFAEFBB * i + i);
                if num_cmp (mul_back a bi) a \<noteq> 0 then Some 1
                else if i mod 20 \<noteq> 0
                then do { assert_that (0x117A3 * i \<le> 0x7FFFFFFF);
                          num_div_rounds passes (i + 3)
                            (num_add a (num_ii (word_of_int (0x117A3 * i) + 0x12bd9264a662) (word_of_int i * 0xFABCDEF02134))) }
                else num_div_rounds passes (i + 3) a }
      else Some 0)"
  by pat_completeness auto
termination by (relation "measure (\<lambda>(passes, i, a). nat (passes - i))") auto

declare num_div_rounds.simps [simp del]

definition num_testcase :: "bool \<Rightarrow> int option" where
  "num_testcase fast =
     do { let passes = (if fast then 20 else 100000);
          let f1 = num_shift_test;
          f2 \<leftarrow> num_conv_test;
          f3 \<leftarrow> num_gmp_test;
          let f4 = num_add_test;
          f5 \<leftarrow> num_fib_test;
          f6 \<leftarrow> num_div_test;
          let (i, a) = num_import ''EFABBBCCCDDEDEDED543543542385FFA'' NUM_FORMAT_HEX;
          assert_that (i = 0);
          f7 \<leftarrow> num_div_rounds passes 1 a;
          Some (f1 + f2 + f3 + f4 + f5 + f6 + f7) }"

subsection \<open>Cipher and hash\<close>

definition c_bytes :: "string \<Rightarrow> bytes" where
  "c_bytes s = map (\<lambda>c. of_nat (code c)) s"

fun aes_rounds :: "nat \<Rightarrow> bytes \<Rightarrow> bytes \<Rightarrow> world \<Rightarrow> int \<times> world" where
  "aes_rounds 0 key plain w = (0, w)"
| "aes_rounds (Suc n) key plain w =
     (let (r, w) = crypto_file_rng ''/dev/urandom'' 16 w;
          plain = (case r of None \<Rightarrow> plain | Some bs \<Rightarrow> bs);
          decrypted = crypto_aes_decrypt key (crypto_aes_encrypt key plain);
          (failed, w) = aes_rounds n key plain w
      in (fails (plain = decrypted) + failed, w))"

definition test_key :: bytes where
  "test_key = c_bytes ''This is the key'' @ replicate 17 0"

definition crypto_testcase :: "world \<Rightarrow> int \<times> world" where
  "crypto_testcase w =
     (let plain = c_bytes ''To be encrypted.'';
          encrypted_origin = [0x4e, 0xb9, 0x42, 0x33, 0xa2, 0xcf, 0x6c, 0x3c, 0x5f, 0x96, 0xf1, 0x11, 0x57, 0x8a, 0xa7, 0x78];
          encrypted = crypto_aes_encrypt test_key plain;
          decrypted = crypto_aes_decrypt test_key encrypted;
          f1 = fails (plain = decrypted);
          f2 = fails (encrypted = encrypted_origin);
          (f3, w) = aes_rounds 10 test_key plain w;
          hash_origin = [0x4f, 0xee, 0xfa, 0x18, 0x7b, 0x71, 0xc8, 0xf1, 0x36, 0xb6, 0xdb, 0xc8, 0x6e, 0xa6, 0x4f, 0x72,
                         0x1f, 0xfa, 0xa6, 0x0c, 0x52, 0x34, 0x96, 0x45, 0xeb, 0x87, 0x82, 0x56, 0x8e, 0x72, 0x17, 0xe1];
          f4 = fails (crypto_sha256 (c_bytes ''To be encrypted.'') = hash_origin)
      in (f1 + f2 + f3 + f4, w))"

subsection \<open>Static passwords, state, configuration\<close>

definition spass_testcase :: "cfg_t \<Rightarrow> security \<Rightarrow> state \<Rightarrow> bytes \<Rightarrow> world \<Rightarrow> (int \<times> world) option" where
  "spass_testcase cfg sec mem sha_buf w =
     do { user \<leftarrow> security_get_calling_user sec w;
          (_, s) \<leftarrow> state_init (Some cfg) user mem;
          let (r1, s, w) = ppp_set_spass cfg s (Some ''TestSpAsSs#4$4'') 0 sha_buf w;
          let (r2, w) = ppp_spass_validate s ''TestSpAsSs#4$4'' w;
          let (r3, w) = ppp_spass_validate s ''TestSpAsSs#4$5'' w;
          let (r4, s, w) = ppp_set_spass cfg s None 0 sha_buf w;
          let (r5, w) = ppp_spass_validate s ''whatever'' w;
          (_, w) \<leftarrow> state_fini cfg s w;
          Some (fails (r1 = PPP_ERROR_SPASS_SET) + fails (r2 = 0) + fails (r3 \<noteq> 0) +
                fails (r4 = PPP_ERROR_SPASS_UNSET) + fails (r5 \<noteq> 0), w) }"

definition state_testcase :: "cfg_t \<Rightarrow> security \<Rightarrow> state \<Rightarrow> state \<Rightarrow> world \<Rightarrow> (int \<times> world) option" where
  "state_testcase cfg sec mem1 mem2 w =
     do { user \<leftarrow> security_get_calling_user sec w;
          (r1, s1) \<leftarrow> state_init (Some cfg) user mem1;
          (r2, s2) \<leftarrow> state_init (Some cfg) user mem2;
          let s1 = ppp_flag_del s1 FLAG_SALTED;
          let (r3, s1, w) = state_key_generate s1 w;
          let s1 = s1\<lparr>counter := num_i 321323211\<rparr>;
          (r4, s1, w) \<leftarrow> state_store cfg s1 False w;
          (r5, s1, w) \<leftarrow> state_unlock cfg s1 w;
          (r6, s2, w) \<leftarrow> state_load cfg s2 w;
          let failed = fails (r1 = 0) + fails (r2 = 0) + fails (r3 = 0) + fails (r4 = 0) + fails (r5 = 0) + fails (r6 = 0) +
                fails (take 32 (sequence_key s1) = take 32 (sequence_key s2)) +
                fails (num_cmp (counter s1) (counter s2) = 0) + fails (num_cmp (latest_card s1) (latest_card s2) = 0) +
                fails (\<not> (flags s1 \<noteq> flags s2 \<or> code_length s1 \<noteq> code_length s2));
          (_, w) \<leftarrow> state_fini cfg s1 w;
          (_, w) \<leftarrow> state_fini cfg s2 w;
          Some (failed, w) }"

definition config_testcase :: "cfg_t option \<Rightarrow> int" where
  "config_testcase cfg = (case cfg of None \<Rightarrow> 1 | Some _ \<Rightarrow> 0)"

subsection \<open>Statistics of passcodes\<close>

text \<open>
  The bits of the characters: \<open>ones\<close> and \<open>zeroes\<close> count them by their position in a passcode.  The
  code compares quotients of doubles with bounds of at most four decimals.  The counts are small
  integers, so the rounding of a quotient never crosses a bound, and the comparisons are those of
  the exact fractions, written here without division.
\<close>

definition stat_bit :: "u64 \<Rightarrow> nat \<Rightarrow> nat list \<times> nat list \<times> nat \<Rightarrow> nat list \<times> nat list \<times> nat" where
  "stat_bit r y = (\<lambda>(ones, zeroes, pos).
     if r AND push_bit y 1 \<noteq> 0 then (ones[pos := Suc (ones ! pos)], zeroes, Suc pos)
     else (ones, zeroes[pos := Suc (zeroes ! pos)], Suc pos))"

fun stat_code :: "nat \<Rightarrow> int \<Rightarrow> num_t \<Rightarrow> nat list \<times> nat list \<times> nat \<Rightarrow> nat list \<times> nat list \<times> nat" where
  "stat_code 0 alphabet_len cipher p = p"
| "stat_code (Suc n) alphabet_len cipher p =
     (let (quotient, r) = num_div_i cipher (word_of_int alphabet_len)
      in stat_code n alphabet_len quotient (fold (stat_bit r) [0..<6] p))"

definition stat_cipher :: "state \<Rightarrow> num_t \<Rightarrow> num_t" where
  "stat_cipher s cnt = num_of_bin (crypto_aes_encrypt (sequence_key s) (num_to_bin cnt))"

fun stat_loop :: "nat \<Rightarrow> state \<Rightarrow> nat \<Rightarrow> int \<Rightarrow> num_t \<Rightarrow> nat list \<times> nat list \<Rightarrow> nat list \<times> nat list" where
  "stat_loop 0 s clen alphabet_len cnt p = p"
| "stat_loop (Suc tests) s clen alphabet_len cnt (ones, zeroes) =
     (let cnt = num_add cnt (num_i 1);
          (ones, zeroes, _) = stat_code clen alphabet_len (stat_cipher s cnt) (ones, zeroes, 0)
      in stat_loop tests s clen alphabet_len cnt (ones, zeroes))"

definition ppp_testcase_statistical :: "state \<Rightarrow> int \<Rightarrow> nat \<Rightarrow> nat \<Rightarrow> int option" where
  "ppp_testcase_statistical s alphabet_len clen tests =
     do { assert_that (alphabet_len \<le> 128);
          let bits = clen * 6;
          let (ones, zeroes) = stat_loop tests s clen alphabet_len (num_i 0) (replicate 130 0, replicate 130 0);
          let bad = (\<lambda>n. 200 * n > 104 * tests \<or> 200 * n < 93 * tests);
          let failed = fails (\<not> list_ex (\<lambda>bit. bad (ones ! bit) \<or> bad (zeroes ! bit)) [0..<bits]);
          let off = (\<lambda>n. 200 * n > 101 * (bits * tests) \<or> 200 * n < 99 * (bits * tests));
          let failed = failed + fails (\<not> (off (sum_list (take bits ones)) \<or> off (sum_list (take bits zeroes))));
          Some failed }"

text \<open>The characters themselves; \<open>perfect\<close> is a quotient of integers.\<close>

fun stat2_code :: "nat \<Rightarrow> int \<Rightarrow> num_t \<Rightarrow> nat list \<Rightarrow> nat list" where
  "stat2_code 0 alphabet_len cipher char_count = char_count"
| "stat2_code (Suc n) alphabet_len cipher char_count =
     (let (quotient, r) = num_div_i cipher (word_of_int alphabet_len)
      in stat2_code n alphabet_len quotient (char_count[unat r := Suc (char_count ! unat r)]))"

fun stat2_loop :: "nat \<Rightarrow> state \<Rightarrow> nat \<Rightarrow> int \<Rightarrow> num_t \<Rightarrow> nat list \<Rightarrow> nat list" where
  "stat2_loop 0 s clen alphabet_len cnt char_count = char_count"
| "stat2_loop (Suc tests) s clen alphabet_len cnt char_count =
     (let cnt = num_add cnt (num_i 119)
      in stat2_loop tests s clen alphabet_len cnt
           (stat2_code clen alphabet_len (stat_cipher s cnt) char_count))"

definition ppp_testcase_stat_2 :: "state \<Rightarrow> int \<Rightarrow> nat \<Rightarrow> nat \<Rightarrow> int" where
  "ppp_testcase_stat_2 s alphabet_len clen tests =
     (let char_count = stat2_loop tests s clen alphabet_len (num_i 0) (replicate 130 0);
          len = nat alphabet_len;
          perfect = tests * clen div len;
          bad = (\<lambda>n. 100 * n > 102 * perfect \<or> 100 * n < 85 * perfect);
          failed = fails (\<not> list_ex (\<lambda>pos. bad (char_count ! pos)) [0..<len]);
          total = sum_list (take len char_count)
      in failed + fails (\<not> (10000 * total > 10001 * (len * perfect) \<or> 10000 * total < 9999 * (len * perfect))))"

subsection \<open>Passcodes\<close>

type_synonym vector = "u64 \<times> u32 \<times> char \<times> u8 \<times> string"

definition ppp_test :: "cfg_t \<Rightarrow> vector \<Rightarrow> state \<times> string \<times> int \<Rightarrow> (state \<times> string \<times> int) option" where
  "ppp_test cfg = (\<lambda>(cnt, len, col, row, expected) (s, passcode, failed).
     do { s \<leftarrow> ppp_calculate (s\<lparr>counter := num_i cnt, code_length := len\<rparr>);
          _ \<leftarrow> num_export (counter s) NUM_FORMAT_DEC;
          _ \<leftarrow> num_export (current_card s) NUM_FORMAT_DEC;
          (_, passcode) \<leftarrow> ppp_get_passcode cfg s (counter s) passcode;
          Some (s, passcode, failed + fails (current_row s = row \<and> current_column s = of_nat (code col) \<and> passcode = expected)) })"

fun ppp_tests :: "cfg_t \<Rightarrow> vector list \<Rightarrow> state \<times> string \<times> int \<Rightarrow> (state \<times> string \<times> int) option" where
  "ppp_tests cfg [] p = Some p"
| "ppp_tests cfg (t # ts) p = do { p \<leftarrow> ppp_test cfg t p; ppp_tests cfg ts p }"

definition ex_bin :: bytes where
  "ex_bin = replicate 28 0 @ [0x50, 0x2d, 0x00, 0x3f]"

definition ex2_bin :: bytes where
  "ex2_bin = [0x80, 0x45, 0x32, 0x22, 0x10, 0xFF, 0xEE, 0x00] @ replicate 20 0 @ [0x65, 0x75, 0x86, 0x98]"

definition vectors_zero :: "vector list" where
  "vectors_zero =
     [(0, 4, CHR ''A'', 1, ''NH7j''), (34, 4, CHR ''G'', 5, ''EXh5''), (864197393 + 50, 4, CHR ''E'', 8, ''u2Yp''),
      (0, 5, CHR ''A'', 1, ''NH7js''), (124, 5, CHR ''E'', 5, ''+S:HK''), (574734, 16, CHR ''A'', 8, ''wcLSDqSyXJqxxYyr'')]"

definition vectors_zero_2 :: "vector list" where
  "vectors_zero_2 =
     [(0, 4, CHR ''A'', 1, ''7OPJ''), (34, 4, CHR ''G'', 5, ''Y7CB''), (864197393 + 50, 4, CHR ''E'', 8, ''=sb;'')]"

definition vectors_ex2 :: "vector list" where
  "vectors_ex2 =
     [(0, 4, CHR ''A'', 1, '':LJ%''), (34, 4, CHR ''G'', 5, ''#W++''), (864197393 + 50, 4, CHR ''E'', 8, ''BBaF''),
      (0, 5, CHR ''A'', 1, '':LJ%@''), (124, 5, CHR ''E'', 5, ''rUiHE''), (574734, 16, CHR ''A'', 8, ''vaxZ5sXJryc?KCn8'')]"

definition vectors_ex2_2 :: "vector list" where
  "vectors_ex2_2 =
     [(0, 7, CHR ''A'', 1, ''Y*HJ;,(''), (70 + 34, 7, CHR ''A'', 7, ''Ao_'' @ [CHR 0x22] @ ''e82''),
      (70 + 36, 7, CHR ''C'', 7, ''(&JV?E_'')]"

definition ppp_compat_tests :: "cfg_t \<Rightarrow> state \<times> string \<times> int \<Rightarrow> (state \<times> string \<times> int) option" where
  "ppp_compat_tests cfg = (\<lambda>(s, passcode, failed).
     do { (s, passcode, failed) \<leftarrow> ppp_tests cfg vectors_zero (s\<lparr>sequence_key := replicate 32 0\<rparr>, passcode, failed);
          (s, passcode, failed) \<leftarrow> ppp_tests cfg vectors_zero_2 (s\<lparr>alphabet := 2\<rparr>, passcode, failed);
          let s = s\<lparr>alphabet := 1\<rparr>;
          (s, passcode, failed) \<leftarrow> ppp_tests cfg vectors_ex2 (s\<lparr>sequence_key := ex2_bin\<rparr>, passcode, failed);
          ppp_tests cfg vectors_ex2_2 (s\<lparr>alphabet := 2\<rparr>, passcode, failed) })"

definition ppp_testcase_authenticate :: "cfg_t \<Rightarrow> security \<Rightarrow> string \<Rightarrow> state \<Rightarrow> world \<Rightarrow> (int \<times> world) option" where
  "ppp_testcase_authenticate cfg sec passcode mem w =
     do { user \<leftarrow> security_get_calling_user sec w;
          (r, s) \<leftarrow> state_init (Some cfg) user mem;
          if r \<noteq> 0 then Some (0, w)
          else do { (retval, s, w) \<leftarrow> ppp_increment cfg s w;
                    (retval, s, w) \<leftarrow>
                      (if retval \<noteq> 0 then Some (retval, s, w)
                       else do { s \<leftarrow> ppp_calculate s;
                                 (retval, pr, s, w) \<leftarrow> ppp_get_str s PPP_FIELD_PROMPT w;
                                 if retval \<noteq> 0 then Some (retval, s, w)
                                 else case pr of
                                        None \<Rightarrow> Some (1, s, w)
                                      | Some _ \<Rightarrow>
                                          do { r \<leftarrow> ppp_authenticate cfg s (Some passcode);
                                               Some (if r = 0 then 1 else 0, s, w) } });
                    (_, w) \<leftarrow> state_fini cfg s w;
                    Some (retval, w) } }"

text \<open>A failed test that only has to give zero is the second one; an error of the first passes as success.\<close>

definition ppp_testcase :: "cfg_t \<Rightarrow> security \<Rightarrow> bool \<Rightarrow> (nat \<Rightarrow> state) \<Rightarrow> world \<Rightarrow> (int \<times> world) option" where
  "ppp_testcase cfg sec fast mem w =
     do { let stat_tests = (if fast then 500 else 120000);
          user \<leftarrow> security_get_calling_user sec w;
          (_, s) \<leftarrow> state_init (Some cfg) user (mem 0);
          (r, s, w) \<leftarrow> state_load cfg s w;
          let s = (if r = 0 then s else s\<lparr>sequence_key := ex_bin\<rparr>);
          let s = s\<lparr>sequence_key := ex_bin\<rparr>;
          f1 \<leftarrow> ppp_testcase_statistical s 64 16 stat_tests;
          let f2 = ppp_testcase_stat_2 s 88 16 stat_tests;
          (s, _, failed) \<leftarrow> ppp_compat_tests cfg (s, [], f1 + f2);
          (s, w) \<leftarrow> state_fini cfg s w;
          (r, s) \<leftarrow> state_init (Some cfg) user s;
          if r \<noteq> 0 then Some (failed + 1, w)
          else do { (_, s, w) \<leftarrow> state_lock cfg s w;
                    (_, s, w) \<leftarrow> state_store cfg s False w;
                    (_, s, w) \<leftarrow> state_unlock cfg s w;
                    (_, w) \<leftarrow> state_fini cfg s w;
                    (r1, w) \<leftarrow> ppp_testcase_authenticate cfg sec ''NH7j'' (mem 1) w;
                    (r2, w) \<leftarrow> ppp_testcase_authenticate cfg sec ''aSsD'' (mem 2) w;
                    Some (failed + fails (r1 \<noteq> 0) + fails (r2 = 0), w) } }"

subsection \<open>The whole suite\<close>

definition do_testcase :: "cfg_t option \<Rightarrow> security \<Rightarrow> bool \<Rightarrow> (nat \<Rightarrow> state) \<Rightarrow> bytes \<Rightarrow> world \<Rightarrow> (int \<times> world) option" where
  "do_testcase cfg sec fast mem sha_buf w =
     do { (retval, w) \<leftarrow> ppp_init cfg PRINT_STDOUT w;
          if retval \<noteq> 0 then Some (1, w)
          else do { cfg \<leftarrow> cfg;
                    let cfg = cfg\<lparr>user_db_path := ''.otpasswd_testcase'', global_db_path := ''/tmp/otshadow_testcase'',
                                  db := CONFIG_DB_USER\<rparr>;
                    f1 \<leftarrow> num_testcase fast;
                    let f2 = config_testcase (Some cfg);
                    (f3, w) \<leftarrow> spass_testcase cfg sec (mem 3) sha_buf w;
                    (f4, w) \<leftarrow> state_testcase cfg sec (mem 4) (mem 5) w;
                    let (f5, w) = crypto_testcase w;
                    (f6, w) \<leftarrow> ppp_testcase cfg sec fast mem w;
                    Some (if f1 + f2 + f3 + f4 + f5 + f6 \<noteq> 0 then 1 else 0, w) } }"

end
