(* ===== verification/Testcases_Num.thy ===== *)
theory Testcases_Num
  imports Testcases
begin

text \<open>
  The tests of the 128 bit numbers evaluated: with the fast option all of them pass, without it the
  loop of divisions overflows an \<open>int\<close> in its forty-fifth round.
\<close>

subsection \<open>Numbers\<close>

lemma fails_True [simp]: "b \<Longrightarrow> fails b = 0"
  by (simp add: fails_def)

lemma nval_lshifts: "nval a * 2 ^ k < 2 ^ 128 \<Longrightarrow> nval ((num_lshift ^^ k) a) = nval a * 2 ^ k"
proof (induction k)
  case (Suc k)
  then have "nval a * 2 ^ k < 2 ^ 128" by simp
  with Suc show ?case by (simp add: nval_lshift)
qed simp

lemma nval_rshifts: "nval ((num_rshift ^^ k) a) = nval a div 2 ^ k"
  by (induction k) (simp_all add: nval_rshift div_mult2_eq [symmetric] mult.commute)

lemma num_shift_test_ok: "num_shift_test = 0"
  by (simp add: num_shift_test_def num_cmp_i_val nval_rshifts nval_lshifts nval_num_ii)

lemma num_cmp_refl [simp]: "num_cmp a a = 0"
  by (simp add: num_cmp_def)

lemma mul_back_ok:
  assumes "bi \<noteq> 0"
  shows "mul_back a bi = a"
proof -
  obtain c r where cr: "num_div_i a bi = (c, r)" by fastforce
  have b: "0 < unat bi" using assms by (simp add: unat_gt_0)
  note v = num_div_i_val [OF b cr]
  have "nval c * unat bi + unat r = nval a" using v by (simp add: div_mult_mod_eq)
  moreover have "nval a < 2 ^ 128" by (rule nval_less)
  ultimately have "nval (num_add (num_mul_i c bi) (num_i r)) = nval a"
    by (simp add: nval_add nval_mul_i nval_num_ii mod_add_left_eq)
  then show ?thesis by (simp add: mul_back_def cr nval_inject)
qed

subsection \<open>Conversions\<close>

lemma hex_import:
  assumes "s \<noteq> []" "length s \<le> 32" "list_all (digit_in 16) s" "str_val 16 0 s = unat a * 2 ^ 64 + unat b"
  shows "num_import s NUM_FORMAT_HEX = (0, num_ii a b)"
  using assms by (simp add: num_import_hex_iff nval_num_ii)

lemma hex_values:
  "hex_val CHR ''0'' = Some 0" "hex_val CHR ''1'' = Some 1" "hex_val CHR ''2'' = Some 2" "hex_val CHR ''3'' = Some 3"
  "hex_val CHR ''4'' = Some 4" "hex_val CHR ''5'' = Some 5" "hex_val CHR ''6'' = Some 6" "hex_val CHR ''7'' = Some 7"
  "hex_val CHR ''8'' = Some 8" "hex_val CHR ''9'' = Some 9" "hex_val CHR ''A'' = Some 10" "hex_val CHR ''B'' = Some 11"
  "hex_val CHR ''C'' = Some 12" "hex_val CHR ''D'' = Some 13" "hex_val CHR ''E'' = Some 14" "hex_val CHR ''F'' = Some 15"
  by (simp_all add: hex_val_def code_def)

lemmas text_eval = digit_in_def digit_val_def hex_values

lemma le_bytes_8: "le_bytes 8 w = [ucast w, ucast (drop_bit 8 w), ucast (drop_bit 16 w), ucast (drop_bit 24 w),
    ucast (drop_bit 32 w), ucast (drop_bit 40 w), ucast (drop_bit 48 w), ucast (drop_bit 56 w)]"
proof -
  have "(8 :: nat) = Suc (Suc (Suc (Suc (Suc (Suc (Suc (Suc 0)))))))" by simp
  then have "le_bytes 8 w = le_bytes (Suc (Suc (Suc (Suc (Suc (Suc (Suc (Suc 0)))))))) w" by (rule arg_cong)
  also have "\<dots> = [ucast w, ucast (drop_bit 8 w), ucast (drop_bit 16 w), ucast (drop_bit 24 w),
    ucast (drop_bit 32 w), ucast (drop_bit 40 w), ucast (drop_bit 48 w), ucast (drop_bit 56 w)]"
    by simp
  finally show ?thesis .
qed

lemmas bin_eval = num_to_bin_def num_ii_def le_bytes_8

lemma upper_digits:
  "upper_digit 0 = CHR ''0''" "upper_digit (Suc 0) = CHR ''1''" "upper_digit 1 = CHR ''1''" "upper_digit 2 = CHR ''2''" "upper_digit 3 = CHR ''3''"
  "upper_digit 4 = CHR ''4''" "upper_digit 5 = CHR ''5''" "upper_digit 6 = CHR ''6''" "upper_digit 7 = CHR ''7''"
  "upper_digit 8 = CHR ''8''" "upper_digit 9 = CHR ''9''" "upper_digit 10 = CHR ''A''" "upper_digit 11 = CHR ''B''"
  "upper_digit 12 = CHR ''C''" "upper_digit 13 = CHR ''D''" "upper_digit 14 = CHR ''E''" "upper_digit 15 = CHR ''F''"
  by (simp_all add: upper_digit_def char_of_eq_iff)

lemma conv_imports:
  "num_import ''00000000000000010000000000000023'' NUM_FORMAT_HEX = (0, num_ii 1 0x23)"
  "num_import ''E29884AD0F1EB460E29884AD0F1EB460'' NUM_FORMAT_HEX = (0, num_ii 0xE29884AD0F1EB460 0xE29884AD0F1EB460)"
  "num_import ''112233445566778899AABBCCDDEEFF00'' NUM_FORMAT_HEX = (0, num_ii 0x1122334455667788 0x99AABBCCDDEEFF00)"
  "num_import ''FA63C8D9FA216A8FC8A7213B333270F8'' NUM_FORMAT_HEX = (0, num_ii 0xFA63C8D9FA216A8F 0xC8A7213B333270F8)"
  "num_import ''00000000000000010000000000000000'' NUM_FORMAT_HEX = (0, num_ii 1 0)"
  "num_import ''FFFFFFFFFFFFFFFFFFFFFFFFFFFFFFFF'' NUM_FORMAT_HEX = (0, num_ii 0xFFFFFFFFFFFFFFFF 0xFFFFFFFFFFFFFFFF)"
  "num_import ''EFABBBCCCDDEDEDED543543542385FFA'' NUM_FORMAT_HEX = (0, num_ii 0xEFABBBCCCDDEDEDE 0xD543543542385FFA)"
  by (rule hex_import; simp add: text_eval)+

lemma dec_import:
  assumes "s \<noteq> []" "length s \<le> 39" "list_all isdigit s" "str_val 10 0 s = unat a * 2 ^ 64 + unat b"
  shows "num_import s NUM_FORMAT_DEC = (0, num_ii a b)"
  using assms nval_less [of "num_ii a b"] by (simp add: num_import_dec_iff nval_num_ii)

lemma conv_dec_imports:
  "num_import ''22774453838368691933757882222884355840'' NUM_FORMAT_DEC = (0, num_ii 0x1122334455667788 0x99AABBCCDDEEFF00)"
  "num_import ''18446744073709551616'' NUM_FORMAT_DEC = (0, num_ii 1 0)"
  by (rule dec_import; simp add: text_eval isdigit_def code_def)+

lemma hex_import_refused:
  assumes "s = [] \<or> \<not> list_all (digit_in 16) s"
  shows "fst (num_import s NUM_FORMAT_HEX) \<noteq> 0"
proof
  assume "fst (num_import s NUM_FORMAT_HEX) = 0"
  then obtain n where "num_import s NUM_FORMAT_HEX = (0, n)" by (metis prod.collapse)
  then show False using assms by (simp add: num_import_hex_iff)
qed

lemma conv_refused:
  "fst (num_import '''' NUM_FORMAT_HEX) \<noteq> 0" "fst (num_import ''0 '' NUM_FORMAT_HEX) \<noteq> 0"
  "fst (num_import ''FG'' NUM_FORMAT_HEX) \<noteq> 0"
  by (rule hex_import_refused; simp add: digit_in_def hex_val_def code_def)+

lemma conv_bytes:
  "num_to_bin (num_ii 0x08 0xE0) = [0xE0, 0, 0, 0, 0, 0, 0, 0, 8, 0, 0, 0, 0, 0, 0, 0]"
  "num_to_bin (num_ii 0x1122334455667788 0x99AABBCCDDEEFF00) =
     [0x00, 0xFF, 0xEE, 0xDD, 0xCC, 0xBB, 0xAA, 0x99, 0x88, 0x77, 0x66, 0x55, 0x44, 0x33, 0x22, 0x11]"
  by (simp_all add: bin_eval)

lemma conv_exports:
  "num_export (num_ii 0x08 0xE0) NUM_FORMAT_HEX = Some ''000000000000000800000000000000E0''"
  "num_export (num_ii 0x1122334455667788 0x99AABBCCDDEEFF00) NUM_FORMAT_HEX = Some ''112233445566778899AABBCCDDEEFF00''"
  "num_export (num_ii 0x1122334455667788 0x99AABBCCDDEEFF00) NUM_FORMAT_PPP_HEX = Some ''00FFEEDDCCBBAA998877665544332211''"
  by (simp_all add: num_export_hex num_export_ppp_hex conv_bytes hex_bytes_def print_02X_def upper_digits)

lemma conv_export_bin:
  "num_export (num_ii 0x1122334455667788 0x99AABBCCDDEEFF00) NUM_FORMAT_BIN =
     Some [CHR 0x00, CHR 0xFF, CHR 0xEE, CHR 0xDD, CHR 0xCC, CHR 0xBB, CHR 0xAA, CHR 0x99,
           CHR 0x88, CHR 0x77, CHR 0x66, CHR 0x55, CHR 0x44, CHR 0x33, CHR 0x22, CHR 0x11]"
  by (simp add: num_export_def conv_bytes char_of_eq_iff)

lemma conv_export_dec:
  "num_export (num_ii 0x1122334455667788 0x99AABBCCDDEEFF00) NUM_FORMAT_DEC = Some ''22774453838368691933757882222884355840''"
  by (simp add: num_export_dec nval_num_ii nat_str.simps [of upper_digit 10] upper_digits)

lemma num_ii_fields [simp]: "hi (num_ii a b) = a" "lo (num_ii a b) = b"
  by (simp_all add: num_ii_def)

lemma num_conv_test_ok: "num_conv_test = Some 0"
  by (simp add: num_conv_test_def conv_imports conv_dec_imports conv_refused conv_exports conv_export_bin conv_export_dec)

lemma gmp_buffer:
  "(replicate 16 (c :: char))[0 := a, 15 := b] = [a, c, c, c, c, c, c, c, c, c, c, c, c, c, c, b]"
  "a # replicate 14 c @ [b] = [a, c, c, c, c, c, c, c, c, c, c, c, c, c, c, b]"
  "(replicate 16 (c :: char))[10 := a] = replicate 10 c @ [a] @ replicate 5 c"
  by (simp_all add: numeral_eq_Suc)

lemma gmp_num:
  "num_of_bin [0xAA, 0x80, 0x80, 0x80, 0x80, 0x80, 0x80, 0x80, 0x80, 0x80, 0x80, 0x80, 0x80, 0x80, 0x80, 0xFF] =
     num_ii 0xFF80808080808080 0x80808080808080AA"
  by (simp add: num_of_bin_def num_ii_def)

lemma gmp_bytes:
  "num_to_bin (num_ii 0xFF80808080808080 0x80808080808080AA) =
     [0xAA, 0x80, 0x80, 0x80, 0x80, 0x80, 0x80, 0x80, 0x80, 0x80, 0x80, 0x80, 0x80, 0x80, 0x80, 0xFF]"
  by (simp add: bin_eval)

lemma gmp_dec:
  "num_export (num_ii 0xFF80808080808080 0x80808080808080AA) NUM_FORMAT_DEC = Some ''339620359252449505361967613327236432042''"
  by (simp add: num_export_dec nval_num_ii nat_str.simps [of upper_digit 10] upper_digits)

lemma gmp_codes: "code CHR 0xAA = 0xAA" "code CHR 0x80 = 0x80" "code CHR 0xFF = 0xFF"
  by (simp_all add: code_def)

lemma num_gmp_test_ok: "num_gmp_test = Some 0"
  by (simp add: num_gmp_test_def gmp_buffer num_import_def gmp_codes gmp_num gmp_dec)
    (simp add: num_export_def gmp_bytes char_of_eq_iff)

subsection \<open>Arithmetic\<close>

lemma num_add_test_ok: "num_add_test = 0"
proof -
  have v: "unat max64 = 2 ^ 64 - 1" "nval max128 = 2 ^ 128 - 1" by (simp_all add: max64_def max128_def nval_num_ii)
  have c1: "num_add (num_i max64) (num_i 1) = num_ii 1 0" by (rule num_eqI) (simp add: nval_add nval_num_ii v)
  have c2: "num_sub max128 max128 = num_zero" by (rule num_eqI) (simp add: nval_sub nval_num_ii v)
  have c3: "num_sub (num_ii 1 0) (num_i 1) = num_i max64" by (rule num_eqI) (simp add: nval_sub nval_num_ii v)
  have "num_add (num_i max64) (num_add (num_i 65784365938) (num_sub (num_sub max128 (num_i 65784365938)) (num_i max64))) = max128"
    by (rule num_eqI) (simp add: nval_add nval_sub nval_num_ii v)
  then show ?thesis by (simp add: num_add_test_def Let_def c1 c2 c3) (simp add: num_cmp_val num_cmp_i_val nval_num_ii v)
qed

text \<open>The Fibonacci numbers as natural numbers; all that the test computes are below \<open>2 ^ 128\<close>.\<close>

fun fib_pair :: "nat \<Rightarrow> nat \<times> nat \<Rightarrow> nat \<times> nat" where
  "fib_pair 0 p = p"
| "fib_pair (Suc n) (a, b) = fib_pair n (b, a + b)"

lemma fib_pair_numeral: "fib_pair (numeral k) (a, b) = fib_pair (pred_numeral k) (b, a + b)" "fib_pair 1 (a, b) = (b, a + b)"
  by (simp_all add: numeral_eq_Suc)

lemma fib_pair_mono: "b \<le> snd (fib_pair n (a, b))"
proof (induction n arbitrary: a b)
  case (Suc n)
  show ?case using Suc.IH [of "a + b" b] by simp
qed simp

lemma nval_fib_steps:
  "snd (fib_pair n (nval a, nval b)) < 2 ^ 128 \<Longrightarrow> nval (snd ((fib_step ^^ n) (a, b))) = snd (fib_pair n (nval a, nval b))"
proof (induction n arbitrary: a b)
  case (Suc n)
  have "nval a + nval b < 2 ^ 128"
    using Suc.prems fib_pair_mono [of "nval a + nval b" n "nval b"] by simp
  then have "nval (num_add a b) = nval a + nval b" by (simp add: nval_add)
  then show ?case using Suc by (simp add: funpow_swap1 fib_step_def del: funpow.simps) (simp add: funpow_Suc_right fib_step_def del: funpow.simps)
qed simp

lemma num_fib_test_ok: "num_fib_test = Some 0"
proof -
  have f: "fib_pair 184 (1, 1) = (205697230343233228174223751303346572685, 332825110087067562321196029789634457848)"
    by (simp add: fib_pair_numeral del: One_nat_def)
  have n: "nval (num_i 1) = 1" by (simp add: nval_num_ii)
  have l: "332825110087067562321196029789634457848 < (2 :: nat) ^ 128" by simp
  have "nval (snd ((fib_step ^^ 184) (num_i 1, num_i 1))) = 332825110087067562321196029789634457848"
    by (rule trans [OF nval_fib_steps]) (simp_all only: n f snd_conv l)
  moreover have "nval (num_ii 0xFA63C8D9FA216A8F 0xC8A7213B333270F8) = 332825110087067562321196029789634457848"
    by (simp add: nval_num_ii)
  ultimately have "snd ((fib_step ^^ 184) (num_i 1, num_i 1)) = num_ii 0xFA63C8D9FA216A8F 0xC8A7213B333270F8"
    by (simp only: nval_inject [symmetric])
  then show ?thesis by (simp only: num_fib_test_def conv_imports Let_def case_prod_conv num_cmp_refl) simp
qed

lemma num_div_eq:
  assumes "num_div_i a b = (c, r)" "0 < unat b" "nval a = nval q * unat b + unat s" "unat s < unat b"
  shows "c = q \<and> r = s"
proof -
  note v = num_div_i_val [OF assms(2,1)]
  have "nval c = nval q" using v(1) assms(2-4) by simp
  moreover have "unat r = unat s" using v(2) assms(2-4) by simp
  ultimately show ?thesis by (simp add: nval_inject word_unat_eq_iff)
qed

lemma num_div_i_eq:
  assumes "0 < unat b" "nval a = nval q * unat b + unat s" "unat s < unat b"
  shows "num_div_i a b = (q, s)"
  using num_div_eq [OF _ assms] by (metis prod.collapse)

lemma num_div_test_ok: "num_div_test = Some 0"
proof -
  have d: "num_div_i (num_i 18446744073709551615) 7 = (num_i 2635249153387078802, 1)"
    "num_div_i (num_ii 1 0) 9 = (num_i 2049638230412172401, 7)"
    by (rule num_div_i_eq; simp add: nval_num_ii)+
  show ?thesis by (simp add: num_div_test_def conv_imports conv_dec_imports mul_back_ok d) (simp add: num_cmp_val nval_add nval_mul_i nval_num_ii)
qed

lemma round_divisor:
  assumes "0 < i" and "0xFAEFBB * i + i \<le> 0x7FFFFFFF"
  shows "word_of_int (0xFAEFBB * i + i) \<noteq> (0 :: u64)"
proof -
  have "take_bit 64 (0xFAEFBB * i + i) = 0xFAEFBB * i + i"
    using assms by (intro take_bit_int_eq_self) simp_all
  then show ?thesis using assms(1) by (simp only: word_of_int_eq_0_iff take_bit_eq_0_iff [symmetric]) simp
qed

lemma num_div_rounds_step:
  assumes "0 < i" and "i < passes" and "0xFAEFBB * i + i \<le> 0x7FFFFFFF"
  shows "\<exists>a'. num_div_rounds passes i a = num_div_rounds passes (i + 3) a'"
proof -
  have "0x117A3 * i \<le> 0x7FFFFFFF" using assms by simp
  then show ?thesis
    using assms(2,3) mul_back_ok [OF round_divisor [OF assms(1,3)], of a]
    by (subst num_div_rounds.simps) (simp only: if_True assert_that_True bind.simps Let_def num_cmp_refl, auto)
qed

lemma num_div_rounds_fast: "0 < i \<Longrightarrow> passes \<le> 100 \<Longrightarrow> num_div_rounds passes i a = Some 0"
proof (induction "nat (passes - i)" arbitrary: i a rule: less_induct)
  case less
  show ?case
  proof (cases "i < passes")
    case True
    then obtain a' where "num_div_rounds passes i a = num_div_rounds passes (i + 3) a'"
      using num_div_rounds_step [of i passes a] less.prems by auto
    then show ?thesis using less True by simp
  qed (simp add: num_div_rounds.simps)
qed

lemma num_div_rounds_slow: "0 < i \<Longrightarrow> i \<le> 133 \<Longrightarrow> 133 < passes \<Longrightarrow> num_div_rounds passes i a = None"
proof (induction "nat (133 - i)" arbitrary: i a rule: less_induct)
  case less
  show ?case
  proof (cases "0xFAEFBB * i + i \<le> 0x7FFFFFFF")
    case True
    then have i: "i \<le> 130" by simp
    then have "i < passes" using less.prems by simp
    from num_div_rounds_step [OF less.prems(1) this True]
    obtain a' where "num_div_rounds passes i a = num_div_rounds passes (i + 3) a'" by blast
    then show ?thesis using less i by simp
  next
    case False
    then show ?thesis using less.prems by (simp add: num_div_rounds.simps)
  qed
qed

lemma num_testcase_fast: "num_testcase True = Some 0"
  by (simp add: num_testcase_def num_shift_test_ok num_conv_test_ok num_gmp_test_ok num_add_test_ok num_fib_test_ok
      num_div_test_ok conv_imports num_div_rounds_fast)

lemma num_testcase_slow: "num_testcase False = None"
  by (simp add: num_testcase_def num_shift_test_ok num_conv_test_ok num_gmp_test_ok num_add_test_ok num_fib_test_ok
      num_div_test_ok conv_imports num_div_rounds_slow)

end
