(* ===== verification/Slow_Aes.thy ===== *)
theory Slow_Aes
  imports Libc
begin

text \<open>
  The second AES of the sources, \<open>src/src/crypto/slow_aes256.c\<close>, as it is compiled without
  \<open>BACK_TO_TABLES\<close>: bytes only, every value of the tables calculated when it is needed, the round
  keys expanded while a block is processed.  The build does not use it; here it is the reference
  for the one that is used.
\<close>

subsection \<open>The field of 256 elements\<close>

text \<open>One multiplication by the generator 3, the body of the loops of \<open>gf_alog\<close> and \<open>gf_log\<close>.\<close>

definition gf_step :: "u8 \<Rightarrow> u8" where
  "gf_step atb =
     (let z = atb; atb = push_bit 1 atb; atb = (if z AND 0x80 \<noteq> 0 then atb XOR 0x1b else atb) in atb XOR z)"

fun gf_alog_loop :: "nat \<Rightarrow> u8 \<Rightarrow> u8" where
  "gf_alog_loop 0 atb = atb"
| "gf_alog_loop (Suc x) atb = gf_alog_loop x (gf_step atb)"

definition gf_alog :: "u8 \<Rightarrow> u8" where
  "gf_alog x = gf_alog_loop (unat x) 1"

text \<open>The loop ends when the counter wraps around.\<close>

function gf_log_loop :: "u8 \<Rightarrow> u8 \<Rightarrow> u8 \<Rightarrow> u8" where
  "gf_log_loop x atb i =
     (if atb = x then i
      else let atb = gf_step atb; i = i + 1 in if i > 0 then gf_log_loop x atb i else i)"
  by pat_completeness auto
termination
proof (relation "measure (\<lambda>(x, atb, i). 256 - unat i)")
  fix x atb i atb' i' :: u8
  assume "i' = i + 1" "0 < i'"
  then have "unat i' = Suc (unat i)" using unatSuc [of i] by (simp add: add.commute)
  then show "((x, atb', i'), (x, atb, i)) \<in> measure (\<lambda>(x, atb, i). 256 - unat i)"
    using unat_mask_less [of i'] by simp
qed simp

declare gf_log_loop.simps [simp del]

definition gf_log :: "u8 \<Rightarrow> u8" where
  "gf_log x = gf_log_loop x 1 0"

definition gf_mulinv :: "u8 \<Rightarrow> u8" where
  "gf_mulinv x = (if x \<noteq> 0 then gf_alog (255 - gf_log x) else 0)"

definition rot8 :: "nat \<Rightarrow> u8 \<Rightarrow> u8" where
  "rot8 k y = push_bit k y OR drop_bit (8 - k) y"

definition rj_sbox :: "u8 \<Rightarrow> u8" where
  "rj_sbox x =
     (let y = gf_mulinv x; sb = y;
          y = rot8 1 y; sb = sb XOR y; y = rot8 1 y; sb = sb XOR y;
          y = rot8 1 y; sb = sb XOR y; y = rot8 1 y; sb = sb XOR y
      in sb XOR 0x63)"

definition rj_sbox_inv :: "u8 \<Rightarrow> u8" where
  "rj_sbox_inv x =
     (let y = x XOR 0x63; y = rot8 1 y; sb = y;
          y = rot8 2 y; sb = sb XOR y; y = rot8 3 y; sb = sb XOR y
      in gf_mulinv sb)"

definition rj_xtime :: "u8 \<Rightarrow> u8" where
  "rj_xtime x = (if x AND 0x80 \<noteq> 0 then push_bit 1 x XOR 0x1b else push_bit 1 x)"

subsection \<open>The steps of a round\<close>

definition aes_subBytes :: "bytes \<Rightarrow> bytes" where
  "aes_subBytes buf = map rj_sbox buf"

definition aes_subBytes_inv :: "bytes \<Rightarrow> bytes" where
  "aes_subBytes_inv buf = map rj_sbox_inv buf"

definition aes_addRoundKey :: "bytes \<Rightarrow> bytes \<Rightarrow> bytes" where
  "aes_addRoundKey buf key = fold (\<lambda>i buf. buf[i := buf ! i XOR key ! i]) (rev [0..<16]) buf"

text \<open>The buffer, and the copy of the key.\<close>

definition aes_addRoundKey_cpy :: "bytes \<Rightarrow> bytes \<Rightarrow> bytes \<Rightarrow> bytes \<times> bytes" where
  "aes_addRoundKey_cpy buf key cpk =
     fold (\<lambda>i (buf, cpk). (buf[i := buf ! i XOR key ! i], cpk[i := key ! i, 16 + i := key ! (16 + i)]))
       (rev [0..<16]) (buf, cpk)"

definition aes_shiftRows :: "bytes \<Rightarrow> bytes" where
  "aes_shiftRows buf =
     (let i = buf ! 1; buf = buf[1 := buf ! 5]; buf = buf[5 := buf ! 9]; buf = buf[9 := buf ! 13]; buf = buf[13 := i];
          i = buf ! 10; buf = buf[10 := buf ! 2]; buf = buf[2 := i];
          j = buf ! 3; buf = buf[3 := buf ! 15]; buf = buf[15 := buf ! 11]; buf = buf[11 := buf ! 7]; buf = buf[7 := j];
          j = buf ! 14; buf = buf[14 := buf ! 6]
      in buf[6 := j])"

definition aes_shiftRows_inv :: "bytes \<Rightarrow> bytes" where
  "aes_shiftRows_inv buf =
     (let i = buf ! 1; buf = buf[1 := buf ! 13]; buf = buf[13 := buf ! 9]; buf = buf[9 := buf ! 5]; buf = buf[5 := i];
          i = buf ! 2; buf = buf[2 := buf ! 10]; buf = buf[10 := i];
          j = buf ! 3; buf = buf[3 := buf ! 7]; buf = buf[7 := buf ! 11]; buf = buf[11 := buf ! 15]; buf = buf[15 := j];
          j = buf ! 6; buf = buf[6 := buf ! 14]
      in buf[14 := j])"

definition mix_column :: "nat \<Rightarrow> bytes \<Rightarrow> bytes" where
  "mix_column i buf =
     (let a = buf ! i; b = buf ! (i + 1); c = buf ! (i + 2); d = buf ! (i + 3); e = a XOR b XOR c XOR d;
          buf = buf[i := buf ! i XOR (e XOR rj_xtime (a XOR b))];
          buf = buf[i + 1 := buf ! (i + 1) XOR (e XOR rj_xtime (b XOR c))];
          buf = buf[i + 2 := buf ! (i + 2) XOR (e XOR rj_xtime (c XOR d))]
      in buf[i + 3 := buf ! (i + 3) XOR (e XOR rj_xtime (d XOR a))])"

definition aes_mixColumns :: "bytes \<Rightarrow> bytes" where
  "aes_mixColumns buf = fold mix_column [0, 4, 8, 12] buf"

definition mix_column_inv :: "nat \<Rightarrow> bytes \<Rightarrow> bytes" where
  "mix_column_inv i buf =
     (let a = buf ! i; b = buf ! (i + 1); c = buf ! (i + 2); d = buf ! (i + 3); e = a XOR b XOR c XOR d;
          z = rj_xtime e;
          x = e XOR rj_xtime (rj_xtime (z XOR a XOR c));
          y = e XOR rj_xtime (rj_xtime (z XOR b XOR d));
          buf = buf[i := buf ! i XOR (x XOR rj_xtime (a XOR b))];
          buf = buf[i + 1 := buf ! (i + 1) XOR (y XOR rj_xtime (b XOR c))];
          buf = buf[i + 2 := buf ! (i + 2) XOR (x XOR rj_xtime (c XOR d))]
      in buf[i + 3 := buf ! (i + 3) XOR (y XOR rj_xtime (d XOR a))])"

definition aes_mixColumns_inv :: "bytes \<Rightarrow> bytes" where
  "aes_mixColumns_inv buf = fold mix_column_inv [0, 4, 8, 12] buf"

subsection \<open>The key\<close>

text \<open>The macros \<open>F\<close> and \<open>FD\<close>, assigned to a byte.\<close>

definition rcon_F :: "u8 \<Rightarrow> u8" where
  "rcon_F x = push_bit 1 x XOR ((drop_bit 7 x AND 1) * 0x1b)"

definition rcon_FD :: "u8 \<Rightarrow> u8" where
  "rcon_FD x = drop_bit 1 x XOR (if x AND 1 \<noteq> 0 then 0x8d else 0)"

definition xor_at :: "nat \<Rightarrow> u8 \<Rightarrow> bytes \<Rightarrow> bytes" where
  "xor_at i b k = k[i := k ! i XOR b]"

text \<open>Four bytes changed by the four in front of them.\<close>

definition xor_word :: "nat \<Rightarrow> bytes \<Rightarrow> bytes" where
  "xor_word i k =
     (let k = xor_at i (k ! (i - 4)) k; k = xor_at (i + 1) (k ! (i - 3)) k; k = xor_at (i + 2) (k ! (i - 2)) k
      in xor_at (i + 3) (k ! (i - 1)) k)"

definition xor_head :: "u8 \<Rightarrow> bytes \<Rightarrow> bytes" where
  "xor_head rc k =
     (let k = xor_at 0 (rj_sbox (k ! 29) XOR rc) k; k = xor_at 1 (rj_sbox (k ! 30)) k;
          k = xor_at 2 (rj_sbox (k ! 31)) k
      in xor_at 3 (rj_sbox (k ! 28)) k)"

definition xor_middle :: "bytes \<Rightarrow> bytes" where
  "xor_middle k =
     (let k = xor_at 16 (rj_sbox (k ! 12)) k; k = xor_at 17 (rj_sbox (k ! 13)) k;
          k = xor_at 18 (rj_sbox (k ! 14)) k
      in xor_at 19 (rj_sbox (k ! 15)) k)"

definition aes_expandEncKey :: "bytes \<times> u8 \<Rightarrow> bytes \<times> u8" where
  "aes_expandEncKey kr =
     (let (k, rc) = kr; k = xor_head rc k; rc = rcon_F rc;
          k = fold xor_word [4, 8, 12] k; k = xor_middle k; k = fold xor_word [20, 24, 28] k
      in (k, rc))"

definition aes_expandDecKey :: "bytes \<times> u8 \<Rightarrow> bytes \<times> u8" where
  "aes_expandDecKey kr =
     (let (k, rc) = kr; k = fold xor_word [28, 24, 20] k; k = xor_middle k; k = fold xor_word [12, 8, 4] k;
          rc = rcon_FD rc; k = xor_head rc k
      in (k, rc))"

record aes256_context =
  ctx_key :: bytes
  ctx_enckey :: bytes
  ctx_deckey :: bytes

definition aes256_init :: "aes256_context \<Rightarrow> bytes \<Rightarrow> aes256_context" where
  "aes256_init ctx k =
     (let ctx = ctx\<lparr>ctx_enckey := take 32 k, ctx_deckey := take 32 k\<rparr>
      in ctx\<lparr>ctx_deckey := fst ((aes_expandEncKey ^^ 7) (ctx_deckey ctx, 1))\<rparr>)"

definition aes256_done :: "aes256_context \<Rightarrow> aes256_context" where
  "aes256_done ctx = ctx\<lparr>ctx_key := replicate 32 0, ctx_enckey := replicate 32 0, ctx_deckey := replicate 32 0\<rparr>"

subsection \<open>Blocks\<close>

text \<open>The state of the loops: the buffer, the current part of the key and the round constant.\<close>

definition enc_round :: "nat \<Rightarrow> bytes \<times> bytes \<times> u8 \<Rightarrow> bytes \<times> bytes \<times> u8" where
  "enc_round i s =
     (let (buf, key, rcon) = s; buf = aes_mixColumns (aes_shiftRows (aes_subBytes buf))
      in if odd i then (aes_addRoundKey buf (drop 16 key), key, rcon)
         else let (key, rcon) = aes_expandEncKey (key, rcon) in (aes_addRoundKey buf key, key, rcon))"

definition aes256_encrypt_ecb :: "aes256_context \<Rightarrow> bytes \<Rightarrow> aes256_context \<times> bytes" where
  "aes256_encrypt_ecb ctx buf =
     (let (buf, key) = aes_addRoundKey_cpy buf (ctx_enckey ctx) (ctx_key ctx);
          (buf, key, rcon) = fold enc_round [1..<14] (buf, key, 1);
          buf = aes_shiftRows (aes_subBytes buf);
          (key, rcon) = aes_expandEncKey (key, rcon)
      in (ctx\<lparr>ctx_key := key\<rparr>, aes_addRoundKey buf key))"

definition dec_round :: "nat \<Rightarrow> bytes \<times> bytes \<times> u8 \<Rightarrow> bytes \<times> bytes \<times> u8" where
  "dec_round i s =
     (let (buf, key, rcon) = s;
          (buf, key, rcon) =
            (if odd i
             then let (key, rcon) = aes_expandDecKey (key, rcon) in (aes_addRoundKey buf (drop 16 key), key, rcon)
             else (aes_addRoundKey buf key, key, rcon))
      in (aes_subBytes_inv (aes_shiftRows_inv (aes_mixColumns_inv buf)), key, rcon))"

definition aes256_decrypt_ecb :: "aes256_context \<Rightarrow> bytes \<Rightarrow> aes256_context \<times> bytes" where
  "aes256_decrypt_ecb ctx buf =
     (let (buf, key) = aes_addRoundKey_cpy buf (ctx_deckey ctx) (ctx_key ctx);
          buf = aes_subBytes_inv (aes_shiftRows_inv buf);
          (buf, key, rcon) = fold dec_round (rev [1..<14]) (buf, key, 0x80)
      in (ctx\<lparr>ctx_key := key\<rparr>, aes_addRoundKey buf key))"

end
