(* ===== verification/Aes_Field.thy ===== *)
theory Aes_Field
  imports Crypto Slow_Aes
begin

text \<open>
  The tables of the AES of the build and the calculations of \<open>Slow_Aes\<close>: words as four bytes, the
  byte field generated by 3, the logarithms and powers, the two S-boxes, and the eight tables of a
  round.
\<close>

subsection \<open>Words of four bytes\<close>

definition w4 :: "u8 \<Rightarrow> u8 \<Rightarrow> u8 \<Rightarrow> u8 \<Rightarrow> u64" where
  "w4 a b c d = ucast a OR push_bit 8 (ucast b) OR push_bit 16 (ucast c) OR push_bit 24 (ucast d)"

lemma bit_w4:
  "bit (w4 a b c d) n \<longleftrightarrow>
     (if n < 8 then bit a n else if n < 16 then bit b (n - 8) else if n < 24 then bit c (n - 16) else n < 32 \<and> bit d (n - 24))"
  by (auto simp: w4_def bit_simps dest: bit_imp_le_length)

lemma w4_xor: "w4 a b c d XOR w4 a' b' c' d' = w4 (a XOR a') (b XOR b') (c XOR c') (d XOR d')"
  by (rule bit_word_eqI) (auto simp: bit_w4 bit_xor_iff)

lemma w4_eq_xor: "ucast a XOR push_bit 8 (ucast b) XOR push_bit 16 (ucast c) XOR push_bit 24 (ucast d) = w4 a b c d"
  by (rule bit_word_eqI) (auto simp: bit_w4 bit_simps dest: bit_imp_le_length)

lemma byte_at_w4 [simp]:
  "byte_at (w4 a b c d) 0 = unat a" "byte_at (w4 a b c d) 8 = unat b"
  "byte_at (w4 a b c d) 16 = unat c" "byte_at (w4 a b c d) 24 = unat d"
proof -
  have m: "(0xFF :: u64) = mask 8" by (simp add: mask_eq_exp_minus_1)
  have e: "drop_bit 0 (w4 a b c d) AND 0xFF = ucast a" "drop_bit 8 (w4 a b c d) AND 0xFF = ucast b"
    "drop_bit 16 (w4 a b c d) AND 0xFF = ucast c" "drop_bit 24 (w4 a b c d) AND 0xFF = ucast d"
    unfolding m by (rule bit_word_eqI; auto simp: bit_w4 bit_and_iff bit_drop_bit_eq bit_mask_iff bit_ucast_iff dest: bit_imp_le_length)+
  have u: "unat (ucast x :: u64) = unat (x :: u8)" for x by (simp add: unsigned_ucast_eq take_bit_nat_eq_self unat_mask_less [THEN less_le_trans])
  show "byte_at (w4 a b c d) 0 = unat a" "byte_at (w4 a b c d) 8 = unat b"
  "byte_at (w4 a b c d) 16 = unat c" "byte_at (w4 a b c d) 24 = unat d"
    unfolding byte_at_def e by (rule u)+
qed

lemma put_w4 [simp]: "put_ulong_le (w4 a b c d) = [a, b, c, d]"
  by (auto simp: put_ulong_le_def intro!: bit_word_eqI simp: bit_w4 bit_simps)

lemma get_w4: "get_ulong_le b i = w4 (b ! i) (b ! (i + 1)) (b ! (i + 2)) (b ! (i + 3))"
  by (simp add: get_ulong_le_def w4_def)

lemma ROTL8_w4: "ROTL8 (w4 a b c d) = w4 d a b c"
proof -
  have m: "(0xFFFFFFFF :: u64) = mask 32" by (simp add: mask_eq_exp_minus_1)
  show ?thesis unfolding ROTL8_def m
    by (rule bit_word_eqI) (auto simp: bit_w4 bit_simps)
qed

lemma aes_tab_w4 [simp]:
  "aes_tab t (w4 a b c d) 0 = ucast (t ! unat a)" "aes_tab t (w4 a b c d) 8 = ucast (t ! unat b)"
  "aes_tab t (w4 a b c d) 16 = ucast (t ! unat c)" "aes_tab t (w4 a b c d) 24 = ucast (t ! unat d)"
  by (simp_all add: aes_tab_def)

subsection \<open>The field\<close>

lemma bit7: "x AND 0x80 \<noteq> 0 \<longleftrightarrow> bit (x :: 'a::len word) 7"
  using and_exp_eq_0_iff_not_bit [of x 7] by simp

lemma rj_xtime_if: "rj_xtime x = push_bit 1 x XOR (if bit x 7 then 0x1b else 0)"
  by (simp add: rj_xtime_def bit7)

lemma rj_xtime_xor: "rj_xtime (x XOR y) = rj_xtime x XOR rj_xtime y"
  unfolding rj_xtime_if push_bit_xor bit_xor_iff by (cases "bit x 7"; cases "bit y 7") (simp_all add: ac_simps)

lemma gf_step_eq: "gf_step x = rj_xtime x XOR x"
  by (simp add: gf_step_def rj_xtime_def Let_def)

lemma xor_zero_eq: "x XOR y = 0 \<longleftrightarrow> x = (y :: 'a::len word)"
proof
  assume "x XOR y = 0"
  then have "(x XOR y) XOR y = y" by simp
  then show "x = y" by (simp add: xor.assoc)
qed simp

lemma gf_step_xor: "gf_step (x XOR y) = gf_step x XOR gf_step y"
  by (simp add: gf_step_eq rj_xtime_xor xor.assoc xor.left_commute)

lemma gf_step_0_iff: "gf_step z = 0 \<longleftrightarrow> z = 0"
proof
  assume "gf_step z = 0"
  then have "bit (gf_step z) n = False" for n by simp
  note b = this [unfolded gf_step_eq rj_xtime_if bit_xor_iff bit_push_bit_iff]
  have c: "bit (27 :: u8) 0" "bit (27 :: u8) 1" "\<not> bit (27 :: u8) 2" "bit (27 :: u8) 3" "bit (27 :: u8) 4"
    "\<not> bit (27 :: u8) 5" "\<not> bit (27 :: u8) 6" "\<not> bit (27 :: u8) 7"
    by simp_all
  have e: "bit z 0 = bit z 7" "bit z 1 = (bit z 0 \<noteq> bit z 7)" "bit z 2 = bit z 1" "bit z 3 = (bit z 2 \<noteq> bit z 7)"
    "bit z 4 = (bit z 3 \<noteq> bit z 7)" "bit z 5 = bit z 4" "bit z 6 = bit z 5" "bit z 7 = bit z 6"
    using b [of 0] b [of 1] b [of 2] b [of 3] b [of 4] b [of 5] b [of 6] b [of 7] c by (auto split: if_splits)
  have f: "\<not> bit z 1" "\<not> bit z 2" "\<not> bit z 4" using e(1-5) by blast+
  then have "\<not> bit z 5" "\<not> bit z 6" "\<not> bit z 7" using e(6,7,8) by blast+
  then have "\<not> bit z n" if "n < 8" for n using less_8 [OF that] f e(1,4) by auto
  then show "z = 0" by (intro bit_word_eqI) simp
qed (simp add: gf_step_def)

lemma gf_step_inject: "gf_step x = gf_step y \<longleftrightarrow> x = y"
  using gf_step_0_iff [of "x XOR y"] by (simp add: gf_step_xor xor_zero_eq)

definition gf_pow :: "nat \<Rightarrow> u8" where
  "gf_pow i = (gf_step ^^ i) 1"

lemma gf_pow_Suc: "gf_pow (Suc i) = gf_step (gf_pow i)"
  by (simp add: gf_pow_def)

lemma gf_pow_0 [simp]: "gf_pow 0 = 1"
  by (simp add: gf_pow_def)

fun step_chain :: "u8 list \<Rightarrow> bool" where
  "step_chain (x # y # xs) \<longleftrightarrow> gf_step x = y \<and> step_chain (y # xs)"
| "step_chain xs \<longleftrightarrow> True"

lemma step_chain_nth:
  "step_chain xs \<Longrightarrow> i < length xs \<Longrightarrow> xs ! i = (gf_step ^^ i) (hd xs)"
proof (induction xs arbitrary: i rule: step_chain.induct)
  case (1 x y xs)
  then show ?case by (cases i) (auto simp: funpow_swap1)
qed auto

definition gf_powers :: "u8 list" where
  "gf_powers =
    [1, 3, 5, 15, 17, 51, 85, 255, 26, 46, 114, 150, 161, 248, 19, 53, 95, 225, 56, 72, 216, 115, 149, 
     164, 247, 2, 6, 10, 30, 34, 102, 170, 229, 52, 92, 228, 55, 89, 235, 38, 106, 190, 217, 112, 144, 
     171, 230, 49, 83, 245, 4, 12, 20, 60, 68, 204, 79, 209, 104, 184, 211, 110, 178, 205, 76, 212, 103, 
     169, 224, 59, 77, 215, 98, 166, 241, 8, 24, 40, 120, 136, 131, 158, 185, 208, 107, 189, 220, 127, 
     129, 152, 179, 206, 73, 219, 118, 154, 181, 196, 87, 249, 16, 48, 80, 240, 11, 29, 39, 105, 187, 214, 
     97, 163, 254, 25, 43, 125, 135, 146, 173, 236, 47, 113, 147, 174, 233, 32, 96, 160, 251, 22, 58, 78, 
     210, 109, 183, 194, 93, 231, 50, 86, 250, 21, 63, 65, 195, 94, 226, 61, 71, 201, 64, 192, 91, 237, 
     44, 116, 156, 191, 218, 117, 159, 186, 213, 100, 172, 239, 42, 126, 130, 157, 188, 223, 122, 142, 
     137, 128, 155, 182, 193, 88, 232, 35, 101, 175, 234, 37, 111, 177, 200, 67, 197, 84, 252, 31, 33, 99, 
     165, 244, 7, 9, 27, 45, 119, 153, 176, 203, 70, 202, 69, 207, 74, 222, 121, 139, 134, 145, 168, 227, 
     62, 66, 198, 81, 243, 14, 18, 54, 90, 238, 41, 123, 141, 140, 143, 138, 133, 148, 167, 242, 13, 23, 
     57, 75, 221, 124, 132, 151, 162, 253, 28, 36, 108, 180, 199, 82, 246, 1]"

lemma gf_powers_chain: "step_chain gf_powers"
  unfolding gf_powers_def by (simp add: gf_step_eq rj_xtime_def)

lemma gf_powers_facts: "length gf_powers = 256" "hd gf_powers = 1" "last gf_powers = 1" "list_all (\<lambda>x. x \<noteq> 1) (butlast (tl gf_powers))"
  unfolding gf_powers_def by simp_all

lemma gf_pow_255: "gf_pow 255 = 1"
proof -
  have "gf_powers \<noteq> []" using gf_powers_facts(1) by auto
  then show ?thesis
    using step_chain_nth [OF gf_powers_chain, of 255] gf_powers_facts(1-3) by (simp add: gf_pow_def last_conv_nth)
qed

lemma gf_pow_not_1:
  assumes "0 < i" "i < 255"
  shows "gf_pow i \<noteq> 1"
proof -
  have "butlast (tl gf_powers) ! (i - 1) = gf_powers ! i"
    using assms gf_powers_facts(1) by (simp add: nth_butlast nth_tl)
  moreover have "butlast (tl gf_powers) ! (i - 1) \<noteq> 1"
    using assms gf_powers_facts(1,4) by (simp add: list_all_length)
  ultimately show ?thesis
    using step_chain_nth [OF gf_powers_chain, of i] gf_powers_facts(1,2) assms by (simp add: gf_pow_def)
qed

lemma gf_pow_not_0: "gf_pow i \<noteq> 0"
  by (induction i) (simp_all add: gf_pow_Suc gf_step_0_iff)

lemma gf_pow_inject:
  assumes "i < 255" "j < 255" "gf_pow i = gf_pow j"
  shows "i = j"
proof -
  have shift: "gf_pow i = gf_pow (i + k) \<Longrightarrow> i + k < 255 \<Longrightarrow> k = 0" for i k
  proof (induction i)
    case 0
    then show ?case using gf_pow_not_1 [of k] by (cases "k = 0") auto
  next
    case (Suc i)
    then show ?case by (simp add: gf_pow_Suc gf_step_inject)
  qed
  show ?thesis
  proof (cases "i \<le> j")
    case True
    then obtain k where "j = i + k" by (rule less_eqE)
    then show ?thesis using shift [of i k] assms(2,3) by simp
  next
    case False
    then have "j \<le> i" by simp
    then obtain k where "i = j + k" by (rule less_eqE)
    then show ?thesis using shift [of j k] assms(1,3) by simp
  qed
qed

lemma gf_pow_onto:
  assumes "x \<noteq> 0"
  obtains i where "i < 255" "x = gf_pow i"
proof -
  have i: "inj_on gf_pow {0..<255}" using gf_pow_inject by (auto intro: inj_onI)
  have c: "card (gf_pow ` {0..<255}) = 255" using card_image [OF i] by simp
  have "card (UNIV - {0 :: u8}) = 255" by (simp add: card_Diff_singleton card_word)
  then have "gf_pow ` {0..<255} = UNIV - {0}"
    using c gf_pow_not_0 by (intro card_subset_eq) auto
  then have "x \<in> gf_pow ` {0..<255}" using assms by simp
  then show ?thesis using that by auto
qed

lemma gf_alog_eq: "gf_alog x = gf_pow (unat x)"
proof -
  have "gf_alog_loop n y = (gf_step ^^ n) y" for n y
    by (induction n arbitrary: y) (simp_all add: funpow_swap1)
  then show ?thesis by (simp add: gf_alog_def gf_pow_def)
qed

lemma gf_log_loop_pow:
  assumes "i < 255"
  shows "j \<le> i \<Longrightarrow> gf_log_loop (gf_pow i) (gf_pow j) (of_nat j) = of_nat i"
proof (induction "i - j" arbitrary: j)
  case 0
  then show ?case by (simp add: gf_log_loop.simps)
next
  case (Suc d)
  then have j: "j < i" by simp
  have ne: "gf_pow j \<noteq> gf_pow i" using gf_pow_inject [of j i] j assms by auto
  have "unat (of_nat (Suc j) :: u8) = Suc j" using j assms by (intro unat_of_nat_lt) simp
  then have "(of_nat j + 1 :: u8) > 0" by (metis of_nat_Suc add.commute unat_gt_0 zero_less_Suc word_gt_0)
  then show ?case
    using ne Suc.hyps(1) [of "Suc j"] Suc.hyps(2) j by (simp add: gf_log_loop.simps [of _ "gf_pow j"] gf_pow_Suc [symmetric] add.commute)
qed

lemma gf_log_pow: "i < 255 \<Longrightarrow> gf_log (gf_pow i) = of_nat i"
  using gf_log_loop_pow [of i 0] by (simp add: gf_log_def)

lemma gf_mulinv_pow:
  assumes "i < 255"
  shows "gf_mulinv (gf_pow i) = gf_pow (255 - i)"
proof -
  have "unat (255 - of_nat i :: u8) = 255 - i"
    using assms by (simp add: unat_sub word_le_nat_alt unat_of_nat_lt del: unat_of_nat)
  then show ?thesis using gf_pow_not_0 by (simp add: gf_mulinv_def gf_log_pow [OF assms] gf_alog_eq)
qed

lemma gf_mulinv_mulinv: "gf_mulinv (gf_mulinv x) = x"
proof (cases "x = 0")
  case False
  then obtain i where i: "i < 255" "x = gf_pow i" by (rule gf_pow_onto)
  show ?thesis
  proof (cases "i = 0")
    case True
    then show ?thesis using gf_mulinv_pow [of 0] gf_pow_255 by (simp add: i)
  next
    case False
    then show ?thesis using i gf_mulinv_pow [of i] gf_mulinv_pow [of "255 - i"] by simp
  qed
qed (simp add: gf_mulinv_def)


subsection \<open>The generated tables\<close>

lemma less_256: "unat (x :: u8) < 256"
  using unat_mask_less [of x] by simp

lemma XTIME_ucast: "XTIME (ucast x) AND 0xFF = ucast (rj_xtime x)"
proof -
  have m: "(0xFF :: u32) = mask 8" by (simp add: mask_eq_exp_minus_1)
  have b: "ucast x AND (0x80 :: u32) \<noteq> 0 \<longleftrightarrow> bit x 7" by (simp add: bit7 bit_ucast_iff)
  have k: "bit (27 :: u32) n \<longleftrightarrow> bit (27 :: u8) n" if "n < 8" for n using less_8 [OF that] by auto
  show ?thesis
    unfolding XTIME_def b rj_xtime_if m
    by (rule bit_word_eqI) (auto simp: bit_xor_iff bit_and_iff bit_push_bit_iff bit_ucast_iff bit_mask_iff k dest: bit_imp_le_length
          simp del: One_nat_def push_bit_Suc)
qed

lemma pow_step: "(ucast x XOR XTIME (ucast x)) AND 0xFF = ucast (gf_step x)"
proof -
  have "ucast x AND (0xFF :: u32) = ucast x"
  proof -
    have m: "(0xFF :: u32) = mask 8" by (simp add: mask_eq_exp_minus_1)
    show ?thesis unfolding m by (rule bit_word_eqI) (auto simp: bit_and_iff bit_ucast_iff bit_mask_iff dest: bit_imp_le_length)
  qed
  then show ?thesis
    by (simp add: gf_step_eq bit.conj_xor_distrib2 XTIME_ucast unsigned_xor_eq xor.commute)
qed

lemma unat_ucast_8 [simp]: "unat (ucast (x :: u8) :: u32) = unat x" "unat (ucast x :: u64) = unat x"
  by (simp_all add: unsigned_ucast_eq take_bit_nat_eq_self less_256 [THEN less_trans])

definition pow_log_step :: "nat \<Rightarrow> nat list \<times> nat list \<times> u32 \<Rightarrow> nat list \<times> nat list \<times> u32" where
  "pow_log_step = (\<lambda>i (p, l, x). (p[i := unat x], l[unat x := i], (x XOR XTIME x) AND 0xFF))"

lemma pow_log_fold:
  "n \<le> 256 \<Longrightarrow> \<exists>p l. fold pow_log_step [0..<n] (replicate 256 0, replicate 256 0, 1) = (p, l, ucast (gf_pow n)) \<and>
     length p = 256 \<and> length l = 256 \<and> (\<forall>i < n. p ! i = unat (gf_pow i)) \<and>
     (\<forall>i < n. 0 < i \<longrightarrow> l ! unat (gf_pow i) = i)"
proof (induction n)
  case 0
  then show ?case by simp
next
  case (Suc n)
  then obtain p l where f: "fold pow_log_step [0..<n] (replicate 256 0, replicate 256 0, 1) = (p, l, ucast (gf_pow n))"
    "length p = 256" "length l = 256" "\<forall>i < n. p ! i = unat (gf_pow i)" "\<forall>i < n. 0 < i \<longrightarrow> l ! unat (gf_pow i) = i"
    by auto
  have ne: "unat (gf_pow i) \<noteq> unat (gf_pow n)" if "0 < i" "i < n" for i
  proof
    assume "unat (gf_pow i) = unat (gf_pow n)"
    then have e: "gf_pow i = gf_pow n" by (simp add: unsigned_word_eqI)
    show False
    proof (cases "n = 255")
      case True
      then show False using e gf_pow_255 gf_pow_not_1 that by simp
    next
      case False
      then show False using e gf_pow_inject [of i n] that Suc.prems by simp
    qed
  qed
  have "fold pow_log_step [0..<Suc n] (replicate 256 0, replicate 256 0, 1) =
      (p[n := unat (gf_pow n)], l[unat (gf_pow n) := n], ucast (gf_pow (Suc n)))"
    by (simp add: f(1)) (simp add: pow_log_step_def pow_step gf_pow_Suc)
  then show ?case
    using f(2-5) ne Suc.prems less_256 [of "gf_pow n"] by (auto simp: nth_list_update less_Suc_eq) (metis ne neq0_conv)
qed

lemma aes_pow_log_eq:
  shows aes_pow_nth: "i < 256 \<Longrightarrow> fst aes_pow_log ! i = unat (gf_pow i)"
    and aes_log_nth: "0 < i \<Longrightarrow> i < 256 \<Longrightarrow> snd aes_pow_log ! unat (gf_pow i) = i"
  using pow_log_fold [of 256] by (auto simp: aes_pow_log_def pow_log_step_def split: prod.splits)

definition affine :: "u8 \<Rightarrow> u8" where
  "affine x = x XOR rot8 1 x XOR rot8 2 x XOR rot8 3 x XOR rot8 4 x XOR 0x63"

lemma bit_rot8: "k \<le> 8 \<Longrightarrow> n < 8 \<Longrightarrow> bit (rot8 k x) n = bit x ((n + 8 - k) mod 8)"
proof (cases "n < k")
  case False
  assume "n < 8" "k \<le> 8"
  moreover have "(n + 8 - k) mod 8 = n - k" using False \<open>n < 8\<close> mod_add_self2 [of "n - k" 8] by simp
  ultimately show ?thesis using False bit_imp_le_length [of x "8 + n - k"] by (auto simp: rot8_def bit_simps)
qed (auto simp: rot8_def bit_simps add.commute [of n 8])

lemma rot8_rot8:
  assumes "a \<le> 8" "b \<le> 8"
  shows "rot8 a (rot8 b x) = rot8 ((a + b) mod 8) x"
proof (rule bit_word_eqI)
  fix n assume "n < LENGTH(8)"
  then have n: "n < 8" by simp
  have "(n + 8 - a) mod 8 + 8 - b = (n + 8 - a) mod 8 + (8 - b)" using assms(2) by simp
  then have "((n + 8 - a) mod 8 + 8 - b) mod 8 = (n + 8 - a + (8 - b)) mod 8" by (simp add: mod_add_left_eq)
  also have "\<dots> = (n + 8 - (a + b) mod 8) mod 8"
  proof (cases "a + b < 8")
    case True
    then have "n + 8 - a + (8 - b) = (n + 8 - (a + b)) + 8" using assms by simp
    then show ?thesis using True by (simp del: add_diff_assoc2)
  next
    case False
    then show ?thesis
    proof (cases "a + b = 16")
      case True
      then have "a = 8" "b = 8" using assms by simp_all
      then show ?thesis by simp
    next
      case not16: False
      then have "(a + b) mod 8 = a + b - 8" using False assms by (simp add: mod_if)
      then show ?thesis using False assms by simp
    qed
  qed
  finally have e: "((n + 8 - a) mod 8 + 8 - b) mod 8 = (n + 8 - (a + b) mod 8) mod 8" .
  have m: "(n + 8 - a) mod 8 < 8" "(a + b) mod 8 \<le> 8" by (simp, rule less_imp_le) simp
  show "bit (rot8 a (rot8 b x)) n = bit (rot8 ((a + b) mod 8) x) n"
    unfolding bit_rot8 [OF assms(1) n] bit_rot8 [OF assms(2) m(1)] bit_rot8 [OF m(2) n] e ..
qed

lemma rot8_0 [simp]: "rot8 0 x = x"
  by (rule bit_word_eqI) (auto simp: rot8_def bit_simps dest: bit_imp_le_length)

lemma rot8_xor: "k \<le> 8 \<Longrightarrow> rot8 k (x XOR y) = rot8 k x XOR rot8 k y"
  by (rule bit_word_eqI) (simp add: bit_rot8 bit_xor_iff)

lemma rj_sbox_eq: "rj_sbox x = affine (gf_mulinv x)"
  by (simp add: rj_sbox_def affine_def Let_def rot8_rot8 xor.assoc del: One_nat_def)

lemma rj_sbox_inv_sbox: "rj_sbox_inv (rj_sbox x) = x"
proof -
  define m where "m = gf_mulinv x"
  have c: "affine m XOR 0x63 = m XOR rot8 1 m XOR rot8 2 m XOR rot8 3 m XOR rot8 4 m"
    by (simp add: affine_def xor.assoc)
  have "rj_sbox_inv (affine m) = gf_mulinv m"
    unfolding rj_sbox_inv_def Let_def c
    by (rule arg_cong [of _ _ gf_mulinv]) (simp add: rot8_xor rot8_rot8 ac_simps del: One_nat_def)
  then show ?thesis by (simp add: rj_sbox_eq m_def gf_mulinv_mulinv)
qed


lemma mulinv_table:
  assumes "0 < i" "i < 256"
  shows "fst aes_pow_log ! (255 - snd aes_pow_log ! i) = unat (gf_mulinv (of_nat i))"
proof -
  have u: "unat (of_nat i :: u8) = i" using assms(2) by (intro unat_of_nat_lt) simp
  then have "(of_nat i :: u8) \<noteq> 0" using assms(1) by (metis less_irrefl unat_0)
  then obtain k where k: "k < 255" "of_nat i = gf_pow k" by (rule gf_pow_onto)
  show ?thesis
  proof (cases "k = 0")
    case True
    then have "i = unat (gf_pow 255)" using u k by (simp add: gf_pow_255)
    then have "snd aes_pow_log ! i = 255" by (simp add: aes_log_nth)
    then show ?thesis using gf_mulinv_pow [of 0] k True by (simp add: aes_pow_nth gf_pow_255)
  next
    case False
    then have "snd aes_pow_log ! i = k" using u k aes_log_nth [of k] by simp
    then show ?thesis using gf_mulinv_pow [of k] k False by (simp add: aes_pow_nth)
  qed
qed

lemma mask_ucast: "ucast (x :: u8) AND (0xFF :: u32) = ucast x"
proof -
  have m: "(0xFF :: u32) = mask 8" by (simp add: mask_eq_exp_minus_1)
  show ?thesis unfolding m by (rule bit_word_eqI) (auto simp: bit_and_iff bit_ucast_iff bit_mask_iff dest: bit_imp_le_length)
qed

lemma aes_rot1_ucast: "aes_rot1 (ucast y) = ucast (rot8 1 y)"
proof -
  have m: "(0xFF :: u32) = mask 8" by (simp add: mask_eq_exp_minus_1)
  show ?thesis
    unfolding aes_rot1_def m rot8_def
    by (rule bit_word_eqI) (auto simp: bit_and_iff bit_or_iff bit_push_bit_iff bit_drop_bit_eq bit_ucast_iff bit_mask_iff
        dest: bit_imp_le_length simp del: One_nat_def push_bit_Suc)
qed

lemma sbox_val_ucast: "aes_sbox_val (ucast x) = ucast (affine x)"
proof -
  have c: "(0x63 :: u32) = ucast (0x63 :: u8)" by simp
  show ?thesis
    unfolding aes_sbox_val_def Let_def aes_rot1_ucast c unsigned_xor_eq [symmetric]
    by (simp add: affine_def rot8_rot8 xor.assoc del: One_nat_def)
qed

lemma rj_sbox_inject: "rj_sbox x = rj_sbox y \<longleftrightarrow> x = y"
  by (metis rj_sbox_inv_sbox)

lemma rj_sbox_sbox_inv: "rj_sbox (rj_sbox_inv y) = y"
proof -
  have "surj rj_sbox" by (rule finite_UNIV_inj_surj) (auto intro: injI simp: rj_sbox_inject)
  then obtain x where "y = rj_sbox x" by blast
  then show ?thesis by (simp add: rj_sbox_inv_sbox)
qed

definition box_step :: "nat \<Rightarrow> u8 list \<times> u8 list \<Rightarrow> u8 list \<times> u8 list" where
  "box_step i = (\<lambda>(f, r).
     let x = aes_sbox_val (of_nat (fst aes_pow_log ! (255 - snd aes_pow_log ! i)))
     in (f[i := ucast x], r[unat x := of_nat i]))"

lemma box_step_eq:
  assumes "0 < i" "i < 256"
  shows "box_step i (f, r) = (f[i := rj_sbox (of_nat i)], r[unat (rj_sbox (of_nat i)) := of_nat i])"
proof -
  have "of_nat (unat x) = (ucast x :: u32)" for x :: u8 by simp
  moreover have "ucast (ucast x :: u32) = x" for x :: u8
    by (rule bit_word_eqI) (auto simp: bit_ucast_iff)
  ultimately show ?thesis
    by (simp only: box_step_def prod.case mulinv_table [OF assms] sbox_val_ucast Let_def)
      (simp add: rj_sbox_eq)
qed

lemma rj_sbox_0: "rj_sbox 0 = 0x63"
  by (simp add: rj_sbox_eq gf_mulinv_def affine_def rot8_def)

lemma boxes_fold:
  "n \<le> 255 \<Longrightarrow> \<exists>f r. fold box_step [1..<Suc n] ((replicate 256 0)[0 := 0x63], (replicate 256 0)[0x63 := 0]) = (f, r) \<and>
     length f = 256 \<and> length r = 256 \<and> (\<forall>i \<le> n. f ! i = rj_sbox (of_nat i)) \<and>
     (\<forall>i \<le> n. r ! unat (rj_sbox (of_nat i)) = of_nat i)"
proof (induction n)
  case 0
  have "f ! 0 = rj_sbox (of_nat 0)" if "f = (replicate 256 (0 :: u8))[0 := 0x63]" for f
    using that by (simp add: rj_sbox_0)
  moreover have "(replicate 256 (0 :: u8))[0x63 := 0] ! unat (rj_sbox (of_nat 0)) = of_nat 0"
    by (simp add: rj_sbox_0)
  ultimately show ?case by simp
next
  case (Suc n)
  then obtain f r where f: "fold box_step [1..<Suc n] ((replicate 256 0)[0 := 0x63], (replicate 256 0)[0x63 := 0]) = (f, r)"
    "length f = 256" "length r = 256" "\<forall>i \<le> n. f ! i = rj_sbox (of_nat i)" "\<forall>i \<le> n. r ! unat (rj_sbox (of_nat i)) = of_nat i"
    by auto
  have ne: "unat (rj_sbox (of_nat (Suc n))) \<noteq> unat (rj_sbox (of_nat i))" if "i \<le> n" for i
  proof
    assume "unat (rj_sbox (of_nat (Suc n))) = unat (rj_sbox (of_nat i))"
    then have "(of_nat (Suc n) :: u8) = of_nat i" by (metis unsigned_word_eqI rj_sbox_inject)
    moreover have "unat (of_nat (Suc n) :: u8) = Suc n" "unat (of_nat i :: u8) = i"
      using that Suc.prems by (simp_all add: unat_of_nat_lt del: of_nat_Suc unat_of_nat)
    ultimately show False using that by simp
  qed
  have e: "fold box_step [1..<Suc (Suc n)] ((replicate 256 0)[0 := 0x63], (replicate 256 0)[0x63 := 0]) =
      (f[Suc n := rj_sbox (of_nat (Suc n))], r[unat (rj_sbox (of_nat (Suc n))) := of_nat (Suc n)])"
    using f(1) box_step_eq [of "Suc n" f r] Suc.prems by (simp del: of_nat_Suc)
  show ?case
    unfolding e using f(2-5) ne Suc.prems less_256
    by (auto simp: nth_list_update le_Suc_eq simp del: of_nat_Suc)
qed

lemma boxes_nth:
  shows FSb_nth: "aes_FSb ! unat x = rj_sbox x" and RSb_nth: "aes_RSb ! unat x = rj_sbox_inv x"
    and length_boxes: "length aes_FSb = 256" "length aes_RSb = 256"
proof -
  obtain f r where f: "aes_boxes = (f, r)" "length f = 256" "length r = 256"
    "\<forall>i \<le> 255. f ! i = rj_sbox (of_nat i)" "\<forall>i \<le> 255. r ! unat (rj_sbox (of_nat i)) = of_nat i"
    using boxes_fold [of 255] by (auto simp: aes_boxes_def box_step_def [abs_def] Let_def)
  have u: "unat x \<le> 255" for x :: u8 using less_256 [of x] by simp
  show "aes_FSb ! unat x = rj_sbox x" using f(4) u [of x] by (simp add: aes_FSb_def f(1))
  have "r ! unat (rj_sbox (of_nat (unat (rj_sbox_inv x)))) = of_nat (unat (rj_sbox_inv x))" using f(5) u by blast
  then show "aes_RSb ! unat x = rj_sbox_inv x" by (simp add: aes_RSb_def f(1) rj_sbox_sbox_inv)
  show "length aes_FSb = 256" "length aes_RSb = 256" using f(2,3) by (simp_all add: aes_FSb_def aes_RSb_def f(1))
qed


lemma ucast_32_64: "ucast (ucast (x :: u8) :: u32) = (ucast x :: u64)"
  by (rule bit_word_eqI) (auto simp: bit_ucast_iff dest: bit_imp_le_length)

lemma FT_nth:
  fixes x :: u8
  defines "s \<equiv> rj_sbox x"
  shows "aes_FT0 ! unat x = w4 (rj_xtime s) s s (rj_xtime s XOR s)"
    and "aes_FT1 ! unat x = w4 (rj_xtime s XOR s) (rj_xtime s) s s"
    and "aes_FT2 ! unat x = w4 s (rj_xtime s XOR s) (rj_xtime s) s"
    and "aes_FT3 ! unat x = w4 s s (rj_xtime s XOR s) (rj_xtime s)"
proof -
  have l: "length aes_FT0 = 256" "length aes_FT1 = 256" "length aes_FT2 = 256"
    by (simp_all add: aes_FT0_def aes_FT1_def aes_FT2_def length_boxes)
  have n: "aes_FT1 ! unat x = ROTL8 (aes_FT0 ! unat x)" "aes_FT2 ! unat x = ROTL8 (aes_FT1 ! unat x)"
    "aes_FT3 ! unat x = ROTL8 (aes_FT2 ! unat x)"
    using l less_256 [of x] unfolding aes_FT1_def aes_FT2_def aes_FT3_def by simp_all
  show t0: "aes_FT0 ! unat x = w4 (rj_xtime s) s s (rj_xtime s XOR s)"
    using less_256 [of x] length_boxes
    by (simp add: aes_FT0_def Let_def FSb_nth s_def [symmetric] XTIME_ucast unsigned_xor_eq [symmetric] mask_ucast ucast_32_64 w4_eq_xor)
  show t1: "aes_FT1 ! unat x = w4 (rj_xtime s XOR s) (rj_xtime s) s s" by (simp add: n t0 ROTL8_w4)
  show t2: "aes_FT2 ! unat x = w4 s (rj_xtime s XOR s) (rj_xtime s) s" by (simp add: n(2) t1 ROTL8_w4)
  show "aes_FT3 ! unat x = w4 s s (rj_xtime s XOR s) (rj_xtime s)" by (simp add: n(3) t2 ROTL8_w4)
qed

lemma gf_pow_mod: "gf_pow (n mod 255) = gf_pow n"
proof (induction n rule: less_induct)
  case (less n)
  show ?case
  proof (cases "n < 255")
    case False
    then obtain k where k: "n = 255 + k" using le_Suc_ex not_less by metis
    have "gf_pow (255 + k) = gf_pow k"
    proof (induction k)
      case (Suc k)
      then show ?case using gf_pow_Suc [of "255 + k"] by (simp add: gf_pow_Suc)
    qed (simp add: gf_pow_255)
    then show ?thesis using less [of k] k by simp
  qed simp
qed

lemma MUL_pow: "i < 255 \<Longrightarrow> j < 255 \<Longrightarrow> aes_MUL aes_pow_log (unat (gf_pow i)) (unat (gf_pow j)) = unat (gf_pow (i + j))"
proof -
  assume b: "i < 255" "j < 255"
  have l: "snd aes_pow_log ! unat (gf_pow k) mod 255 = k" if "k < 255" for k
    using that aes_log_nth [of k] aes_log_nth [of 255] by (cases "k = 0") (simp_all add: gf_pow_255)
  have "unat (gf_pow k) \<noteq> 0" for k using gf_pow_not_0 [of k] unat_eq_zero by blast
  moreover have "(snd aes_pow_log ! unat (gf_pow i) + snd aes_pow_log ! unat (gf_pow j)) mod 255 = (i + j) mod 255"
    using l [OF b(1)] l [OF b(2)] by (metis mod_add_eq)
  ultimately show ?thesis
    by (simp add: aes_MUL_def aes_pow_nth gf_pow_mod less_imp_le mod_less_divisor [THEN less_trans])
qed

lemma MUL_linear:
  assumes "\<And>v. M (gf_step v) = gf_step (M v)" and "M 0 = 0" and "M 1 \<noteq> (0 :: u8)"
  shows "aes_MUL aes_pow_log (unat (M 1)) (unat x) = unat (M x)"
proof (cases "x = 0")
  case True
  then show ?thesis using assms(2) by (simp add: aes_MUL_def)
next
  case False
  then obtain j where j: "j < 255" "x = gf_pow j" by (rule gf_pow_onto)
  obtain i where i: "i < 255" "M 1 = gf_pow i" using assms(3) by (rule gf_pow_onto)
  have "M (gf_pow k) = gf_pow (i + k)" for k
    by (induction k) (simp_all add: i(2) gf_pow_Suc assms(1))
  then show ?thesis using MUL_pow [OF i(1) j(1)] by (simp add: i(2) j(2))
qed

text \<open>Multiplication by 9, 11, 13 and 14.\<close>

definition mul9 :: "u8 \<Rightarrow> u8" where "mul9 v = rj_xtime (rj_xtime (rj_xtime v)) XOR v"
definition mul11 :: "u8 \<Rightarrow> u8" where "mul11 v = rj_xtime (rj_xtime (rj_xtime v)) XOR rj_xtime v XOR v"
definition mul13 :: "u8 \<Rightarrow> u8" where "mul13 v = rj_xtime (rj_xtime (rj_xtime v)) XOR rj_xtime (rj_xtime v) XOR v"
definition mul14 :: "u8 \<Rightarrow> u8" where "mul14 v = rj_xtime (rj_xtime (rj_xtime v)) XOR rj_xtime (rj_xtime v) XOR rj_xtime v"

lemmas mul_defs = mul9_def mul11_def mul13_def mul14_def

lemma rj_xtime_0 [simp]: "rj_xtime 0 = 0"
  by (simp add: rj_xtime_def)

lemma MUL_consts:
  "aes_MUL aes_pow_log 9 (unat x) = unat (mul9 x)" "aes_MUL aes_pow_log 11 (unat x) = unat (mul11 x)"
  "aes_MUL aes_pow_log 13 (unat x) = unat (mul13 x)" "aes_MUL aes_pow_log 14 (unat x) = unat (mul14 x)"
proof -
  have one: "unat (mul9 1) = 9" "unat (mul11 1) = 11" "unat (mul13 1) = 13" "unat (mul14 1) = 14"
    by (simp_all add: mul_defs rj_xtime_def)
  have nz: "mul9 1 \<noteq> 0" "mul11 1 \<noteq> 0" "mul13 1 \<noteq> 0" "mul14 1 \<noteq> 0" "mul9 0 = 0" "mul11 0 = 0" "mul13 0 = 0" "mul14 0 = 0"
    using one by (auto simp: mul_defs)
  have c: "mul9 (gf_step v) = gf_step (mul9 v)" "mul11 (gf_step v) = gf_step (mul11 v)"
    "mul13 (gf_step v) = gf_step (mul13 v)" "mul14 (gf_step v) = gf_step (mul14 v)" for v
    by (simp_all add: mul_defs gf_step_eq rj_xtime_xor ac_simps)
  show "aes_MUL aes_pow_log 9 (unat x) = unat (mul9 x)" using MUL_linear [of mul9 x] one nz c by simp
  show "aes_MUL aes_pow_log 11 (unat x) = unat (mul11 x)" using MUL_linear [of mul11 x] one nz c by simp
  show "aes_MUL aes_pow_log 13 (unat x) = unat (mul13 x)" using MUL_linear [of mul13 x] one nz c by simp
  show "aes_MUL aes_pow_log 14 (unat x) = unat (mul14 x)" using MUL_linear [of mul14 x] one nz c by simp
qed

lemma RT_nth:
  fixes x :: u8
  defines "s \<equiv> rj_sbox_inv x"
  shows "aes_RT0 ! unat x = w4 (mul14 s) (mul9 s) (mul13 s) (mul11 s)"
    and "aes_RT1 ! unat x = w4 (mul11 s) (mul14 s) (mul9 s) (mul13 s)"
    and "aes_RT2 ! unat x = w4 (mul13 s) (mul11 s) (mul14 s) (mul9 s)"
    and "aes_RT3 ! unat x = w4 (mul9 s) (mul13 s) (mul11 s) (mul14 s)"
proof -
  have l: "length aes_RT0 = 256" "length aes_RT1 = 256" "length aes_RT2 = 256"
    by (simp_all add: aes_RT0_def aes_RT1_def aes_RT2_def length_boxes Let_def)
  have n: "aes_RT1 ! unat x = ROTL8 (aes_RT0 ! unat x)" "aes_RT2 ! unat x = ROTL8 (aes_RT1 ! unat x)"
    "aes_RT3 ! unat x = ROTL8 (aes_RT2 ! unat x)"
    using l less_256 [of x] unfolding aes_RT1_def aes_RT2_def aes_RT3_def by simp_all
  have u: "of_nat (unat y) = (ucast y :: u64)" for y :: u8 by simp
  show t0: "aes_RT0 ! unat x = w4 (mul14 s) (mul9 s) (mul13 s) (mul11 s)"
    using less_256 [of x] length_boxes
    by (simp add: aes_RT0_def Let_def RSb_nth s_def [symmetric] MUL_consts u w4_eq_xor del: of_nat_unat)
  show t1: "aes_RT1 ! unat x = w4 (mul11 s) (mul14 s) (mul9 s) (mul13 s)" by (simp add: n t0 ROTL8_w4)
  show t2: "aes_RT2 ! unat x = w4 (mul13 s) (mul11 s) (mul14 s) (mul9 s)" by (simp add: n(2) t1 ROTL8_w4)
  show "aes_RT3 ! unat x = w4 (mul9 s) (mul13 s) (mul11 s) (mul14 s)" by (simp add: n(3) t2 ROTL8_w4)
qed

end
