(* ===== verification/Aes_Equiv.thy ===== *)
theory Aes_Equiv
  imports Aes_Field
begin

text \<open>
  The two implementations of AES agree: the rounds with tables over words and the rounds over bytes,
  the key schedule made in advance and the one made on the way, for both directions; and decryption
  undoes encryption.
\<close>

subsection \<open>The steps of a round\<close>

lemma list_update_numeral [simp]: "(x # xs)[numeral n := y] = x # xs[pred_numeral n := y]"
  by (simp add: numeral_eq_Suc)

lemma list16:
  assumes "length xs = 16"
  obtains a0 a1 a2 a3 a4 a5 a6 a7 a8 a9 a10 a11 a12 a13 a14 a15
  where "xs = [a0, a1, a2, a3, a4, a5, a6, a7, a8, a9, a10, a11, a12, a13, a14, a15]"
  using assms by (auto simp: length_Suc_conv numeral_eq_Suc)

lemma shiftRows_list:
  "aes_shiftRows [a0, a1, a2, a3, a4, a5, a6, a7, a8, a9, a10, a11, a12, a13, a14, a15] =
     [a0, a5, a10, a15, a4, a9, a14, a3, a8, a13, a2, a7, a12, a1, a6, a11]"
  by (simp add: aes_shiftRows_def Let_def)

lemma shiftRows_inv_list:
  "aes_shiftRows_inv [a0, a1, a2, a3, a4, a5, a6, a7, a8, a9, a10, a11, a12, a13, a14, a15] =
     [a0, a13, a10, a7, a4, a1, a14, a11, a8, a5, a2, a15, a12, a9, a6, a3]"
  by (simp add: aes_shiftRows_inv_def Let_def)

definition mul3 :: "u8 \<Rightarrow> u8" where "mul3 v = rj_xtime v XOR v"

definition mix4 :: "u8 \<Rightarrow> u8 \<Rightarrow> u8 \<Rightarrow> u8 \<Rightarrow> u8" where
  "mix4 a b c d = rj_xtime a XOR mul3 b XOR c XOR d"

definition imix4 :: "u8 \<Rightarrow> u8 \<Rightarrow> u8 \<Rightarrow> u8 \<Rightarrow> u8" where
  "imix4 a b c d = mul14 a XOR mul11 b XOR mul13 c XOR mul9 d"

lemma mixColumns_list:
  "aes_mixColumns [a0, a1, a2, a3, a4, a5, a6, a7, a8, a9, a10, a11, a12, a13, a14, a15] =
     [mix4 a0 a1 a2 a3, mix4 a1 a2 a3 a0, mix4 a2 a3 a0 a1, mix4 a3 a0 a1 a2,
      mix4 a4 a5 a6 a7, mix4 a5 a6 a7 a4, mix4 a6 a7 a4 a5, mix4 a7 a4 a5 a6,
      mix4 a8 a9 a10 a11, mix4 a9 a10 a11 a8, mix4 a10 a11 a8 a9, mix4 a11 a8 a9 a10,
      mix4 a12 a13 a14 a15, mix4 a13 a14 a15 a12, mix4 a14 a15 a12 a13, mix4 a15 a12 a13 a14]"
  by (simp add: aes_mixColumns_def mix_column_def Let_def)
    (simp add: mix4_def mul3_def rj_xtime_xor ac_simps)

lemma mixColumns_inv_list:
  "aes_mixColumns_inv [a0, a1, a2, a3, a4, a5, a6, a7, a8, a9, a10, a11, a12, a13, a14, a15] =
     [imix4 a0 a1 a2 a3, imix4 a1 a2 a3 a0, imix4 a2 a3 a0 a1, imix4 a3 a0 a1 a2,
      imix4 a4 a5 a6 a7, imix4 a5 a6 a7 a4, imix4 a6 a7 a4 a5, imix4 a7 a4 a5 a6,
      imix4 a8 a9 a10 a11, imix4 a9 a10 a11 a8, imix4 a10 a11 a8 a9, imix4 a11 a8 a9 a10,
      imix4 a12 a13 a14 a15, imix4 a13 a14 a15 a12, imix4 a14 a15 a12 a13, imix4 a15 a12 a13 a14]"
  by (simp add: aes_mixColumns_inv_def mix_column_inv_def Let_def)
    (simp add: imix4_def mul_defs rj_xtime_xor ac_simps)

lemma upt_16: "[0..<16] = [0, 1, 2, 3, 4, 5, 6, 7, 8, 9, 10, 11, 12, 13, 14, 15 :: nat]"
  by (simp add: upt_conv_Cons)

lemma upt_32:
  "[0..<32] = [0, 1, 2, 3, 4, 5, 6, 7, 8, 9, 10, 11, 12, 13, 14, 15,
     16, 17, 18, 19, 20, 21, 22, 23, 24, 25, 26, 27, 28, 29, 30, 31 :: nat]"
  by (simp add: upt_conv_Cons)

lemma addRoundKey_list:
  "aes_addRoundKey [a0, a1, a2, a3, a4, a5, a6, a7, a8, a9, a10, a11, a12, a13, a14, a15] k =
     [a0 XOR k ! 0, a1 XOR k ! 1, a2 XOR k ! 2, a3 XOR k ! 3, a4 XOR k ! 4, a5 XOR k ! 5, a6 XOR k ! 6, a7 XOR k ! 7, a8 XOR k ! 8, a9 XOR k ! 9, a10 XOR k ! 10, a11 XOR k ! 11, a12 XOR k ! 12, a13 XOR k ! 13, a14 XOR k ! 14, a15 XOR k ! 15]"
  by (simp add: aes_addRoundKey_def upt_16)

lemma list32:
  assumes "length xs = 32"
  obtains a0 a1 a2 a3 a4 a5 a6 a7 a8 a9 a10 a11 a12 a13 a14 a15 b0 b1 b2 b3 b4 b5 b6 b7 b8 b9 b10 b11 b12 b13 b14 b15
  where "xs = [a0, a1, a2, a3, a4, a5, a6, a7, a8, a9, a10, a11, a12, a13, a14, a15,
    b0, b1, b2, b3, b4, b5, b6, b7, b8, b9, b10, b11, b12, b13, b14, b15]"
proof -
  have "length (take 16 xs) = 16" "length (drop 16 xs) = 16" "xs = take 16 xs @ drop 16 xs" using assms by simp_all
  then show ?thesis by (elim list16) (metis that append_Cons append_Nil)
qed

lemma addRoundKey_cpy_eq:
  assumes "length buf = 16" "length c = 32" "length k = 32"
  shows "aes_addRoundKey_cpy buf k c = (aes_addRoundKey buf k, k)"
proof -
  have "aes_addRoundKey_cpy buf k c = (aes_addRoundKey buf k, map ((!) k) [0..<32])"
    using assms(1,2) by (elim list16 list32) (simp add: aes_addRoundKey_cpy_def aes_addRoundKey_def upt_16 upt_32)
  then show ?thesis using map_nth [of k] assms(3) by simp
qed

lemma get_ws:
  "get_ulong_le k 0 = w4 (k ! 0) (k ! 1) (k ! 2) (k ! 3)" "get_ulong_le k 4 = w4 (k ! 4) (k ! 5) (k ! 6) (k ! 7)"
  "get_ulong_le k 8 = w4 (k ! 8) (k ! 9) (k ! 10) (k ! 11)" "get_ulong_le k 12 = w4 (k ! 12) (k ! 13) (k ! 14) (k ! 15)"
  by (simp_all add: get_w4 numeral_2_eq_2 numeral_3_eq_3)

definition blk :: "bytes \<Rightarrow> aes_block" where
  "blk b = (get_ulong_le b 0, get_ulong_le b 4, get_ulong_le b 8, get_ulong_le b 12)"

text \<open>The next four words of a list of round keys are the first sixteen bytes of a key.\<close>

definition key_words :: "u64 list \<Rightarrow> bytes \<Rightarrow> bool" where
  "key_words rk k \<longleftrightarrow> rk ! 0 = get_ulong_le k 0 \<and> rk ! 1 = get_ulong_le k 4 \<and> rk ! 2 = get_ulong_le k 8 \<and> rk ! 3 = get_ulong_le k 12"

lemma FROUND_blk:
  assumes "length buf = 16" and "key_words rk k"
  shows "aes_FROUND rk (blk buf) = blk (aes_addRoundKey (aes_mixColumns (aes_shiftRows (aes_subBytes buf))) k)"
proof -
  have u: "ucast (x :: u64) = x" for x by simp
  show ?thesis
    using assms
    by (elim list16) (simp add: aes_subBytes_def shiftRows_list mixColumns_list addRoundKey_list
      blk_def key_words_def aes_FROUND_def get_ws FT_nth w4_xor u mix4_def mul3_def ac_simps)
qed

lemma FLAST_blk:
  assumes "length buf = 16" and "key_words rk k"
  shows "aes_FLAST rk (blk buf) = blk (aes_addRoundKey (aes_shiftRows (aes_subBytes buf)) k)"
  using assms
  by (elim list16) (simp add: aes_subBytes_def shiftRows_list addRoundKey_list
    blk_def key_words_def aes_FLAST_def get_ws FSb_nth w4_eq_xor w4_xor xor.commute)

lemma RROUND_blk:
  assumes "length buf = 16" and "length k = 16" and "key_words rk (aes_mixColumns_inv k)"
  shows "aes_RROUND rk (blk buf) =
    blk (aes_mixColumns_inv (aes_addRoundKey (aes_subBytes_inv (aes_shiftRows_inv buf)) k))"
  using assms
  by (elim list16) (simp add: aes_subBytes_inv_def shiftRows_inv_list mixColumns_inv_list addRoundKey_list
      blk_def key_words_def aes_RROUND_def get_ws RT_nth w4_xor imix4_def mul_defs rj_xtime_xor ac_simps)

lemma RLAST_blk:
  assumes "length buf = 16" and "key_words rk k"
  shows "aes_RLAST rk (blk buf) = blk (aes_addRoundKey (aes_subBytes_inv (aes_shiftRows_inv buf)) k)"
  using assms
  by (elim list16) (simp add: aes_subBytes_inv_def shiftRows_inv_list addRoundKey_list
    blk_def key_words_def aes_RLAST_def get_ws RSb_nth w4_eq_xor w4_xor xor.commute)

subsection \<open>The key schedule\<close>

lemma xor_word_list:
  "xor_word 4 [k0, k1, k2, k3, k4, k5, k6, k7, k8, k9, k10, k11, k12, k13, k14, k15,
      k16, k17, k18, k19, k20, k21, k22, k23, k24, k25, k26, k27, k28, k29, k30, k31] =
     [k0, k1, k2, k3, k4 XOR k0, k5 XOR k1, k6 XOR k2, k7 XOR k3, k8, k9, k10, k11, k12, k13, k14, k15,
      k16, k17, k18, k19, k20, k21, k22, k23, k24, k25, k26, k27, k28, k29, k30, k31]"
  "xor_word 8 [k0, k1, k2, k3, k4, k5, k6, k7, k8, k9, k10, k11, k12, k13, k14, k15,
      k16, k17, k18, k19, k20, k21, k22, k23, k24, k25, k26, k27, k28, k29, k30, k31] =
     [k0, k1, k2, k3, k4, k5, k6, k7, k8 XOR k4, k9 XOR k5, k10 XOR k6, k11 XOR k7, k12, k13, k14, k15,
      k16, k17, k18, k19, k20, k21, k22, k23, k24, k25, k26, k27, k28, k29, k30, k31]"
  "xor_word 12 [k0, k1, k2, k3, k4, k5, k6, k7, k8, k9, k10, k11, k12, k13, k14, k15,
      k16, k17, k18, k19, k20, k21, k22, k23, k24, k25, k26, k27, k28, k29, k30, k31] =
     [k0, k1, k2, k3, k4, k5, k6, k7, k8, k9, k10, k11, k12 XOR k8, k13 XOR k9, k14 XOR k10, k15 XOR k11,
      k16, k17, k18, k19, k20, k21, k22, k23, k24, k25, k26, k27, k28, k29, k30, k31]"
  "xor_word 20 [k0, k1, k2, k3, k4, k5, k6, k7, k8, k9, k10, k11, k12, k13, k14, k15,
      k16, k17, k18, k19, k20, k21, k22, k23, k24, k25, k26, k27, k28, k29, k30, k31] =
     [k0, k1, k2, k3, k4, k5, k6, k7, k8, k9, k10, k11, k12, k13, k14, k15,
      k16, k17, k18, k19, k20 XOR k16, k21 XOR k17, k22 XOR k18, k23 XOR k19, k24, k25, k26, k27, k28, k29, k30, k31]"
  "xor_word 24 [k0, k1, k2, k3, k4, k5, k6, k7, k8, k9, k10, k11, k12, k13, k14, k15,
      k16, k17, k18, k19, k20, k21, k22, k23, k24, k25, k26, k27, k28, k29, k30, k31] =
     [k0, k1, k2, k3, k4, k5, k6, k7, k8, k9, k10, k11, k12, k13, k14, k15,
      k16, k17, k18, k19, k20, k21, k22, k23, k24 XOR k20, k25 XOR k21, k26 XOR k22, k27 XOR k23, k28, k29, k30, k31]"
  "xor_word 28 [k0, k1, k2, k3, k4, k5, k6, k7, k8, k9, k10, k11, k12, k13, k14, k15,
      k16, k17, k18, k19, k20, k21, k22, k23, k24, k25, k26, k27, k28, k29, k30, k31] =
     [k0, k1, k2, k3, k4, k5, k6, k7, k8, k9, k10, k11, k12, k13, k14, k15,
      k16, k17, k18, k19, k20, k21, k22, k23, k24, k25, k26, k27, k28 XOR k24, k29 XOR k25, k30 XOR k26, k31 XOR k27]"
  by (simp_all add: xor_word_def xor_at_def Let_def)

lemma xor_head_list:
  "xor_head rc [k0, k1, k2, k3, k4, k5, k6, k7, k8, k9, k10, k11, k12, k13, k14, k15,
      k16, k17, k18, k19, k20, k21, k22, k23, k24, k25, k26, k27, k28, k29, k30, k31] =
     [k0 XOR (rj_sbox k29 XOR rc), k1 XOR rj_sbox k30, k2 XOR rj_sbox k31, k3 XOR rj_sbox k28, k4, k5, k6, k7, k8, k9, k10, k11, k12, k13, k14, k15,
      k16, k17, k18, k19, k20, k21, k22, k23, k24, k25, k26, k27, k28, k29, k30, k31]"
  by (simp add: xor_head_def xor_at_def Let_def)

lemma xor_middle_list:
  "xor_middle [k0, k1, k2, k3, k4, k5, k6, k7, k8, k9, k10, k11, k12, k13, k14, k15,
      k16, k17, k18, k19, k20, k21, k22, k23, k24, k25, k26, k27, k28, k29, k30, k31] =
     [k0, k1, k2, k3, k4, k5, k6, k7, k8, k9, k10, k11, k12, k13, k14, k15,
      k16 XOR rj_sbox k12, k17 XOR rj_sbox k13, k18 XOR rj_sbox k14, k19 XOR rj_sbox k15, k20, k21, k22, k23, k24, k25, k26, k27, k28, k29, k30, k31]"
  by (simp add: xor_middle_def xor_at_def Let_def)

lemma expandEncKey_list:
  assumes "c0 = k0 XOR (rj_sbox k29 XOR rc)" "c1 = k1 XOR rj_sbox k30" "c2 = k2 XOR rj_sbox k31" "c3 = k3 XOR rj_sbox k28"
    and "c4 = k4 XOR c0" "c5 = k5 XOR c1" "c6 = k6 XOR c2" "c7 = k7 XOR c3"
    and "c8 = k8 XOR c4" "c9 = k9 XOR c5" "c10 = k10 XOR c6" "c11 = k11 XOR c7"
    and "c12 = k12 XOR c8" "c13 = k13 XOR c9" "c14 = k14 XOR c10" "c15 = k15 XOR c11"
    and "c16 = k16 XOR rj_sbox c12" "c17 = k17 XOR rj_sbox c13" "c18 = k18 XOR rj_sbox c14" "c19 = k19 XOR rj_sbox c15"
    and "c20 = k20 XOR c16" "c21 = k21 XOR c17" "c22 = k22 XOR c18" "c23 = k23 XOR c19"
    and "c24 = k24 XOR c20" "c25 = k25 XOR c21" "c26 = k26 XOR c22" "c27 = k27 XOR c23"
    and "c28 = k28 XOR c24" "c29 = k29 XOR c25" "c30 = k30 XOR c26" "c31 = k31 XOR c27"
  shows "aes_expandEncKey ([k0, k1, k2, k3, k4, k5, k6, k7, k8, k9, k10, k11, k12, k13, k14, k15,
      k16, k17, k18, k19, k20, k21, k22, k23, k24, k25, k26, k27, k28, k29, k30, k31], rc) =
     ([c0, c1, c2, c3, c4, c5, c6, c7, c8, c9, c10, c11, c12, c13, c14, c15,
      c16, c17, c18, c19, c20, c21, c22, c23, c24, c25, c26, c27, c28, c29, c30, c31], rcon_F rc)"
  by (simp only: aes_expandEncKey_def Let_def prod.case fold_simps fold.simps id_def comp_def xor_head_list xor_middle_list
      xor_word_list assms [symmetric])

lemma rot_sub_w4: "rot_sub aes_FSb (w4 a b c d) = w4 (rj_sbox b) (rj_sbox c) (rj_sbox d) (rj_sbox a)"
  by (simp add: rot_sub_def FSb_nth w4_eq_xor)

lemma sub_word_w4: "sub_word aes_FSb (w4 a b c d) = w4 (rj_sbox a) (rj_sbox b) (rj_sbox c) (rj_sbox d)"
  by (simp add: sub_word_def FSb_nth w4_eq_xor)

definition words8 :: "bytes \<Rightarrow> u64 list" where
  "words8 k = map (\<lambda>i. get_ulong_le k (4 * i)) [0..<8]"

lemma words8_list:
  "words8 [k0, k1, k2, k3, k4, k5, k6, k7, k8, k9, k10, k11, k12, k13, k14, k15,
      k16, k17, k18, k19, k20, k21, k22, k23, k24, k25, k26, k27, k28, k29, k30, k31] =
     [w4 k0 k1 k2 k3, w4 k4 k5 k6 k7, w4 k8 k9 k10 k11, w4 k12 k13 k14 k15, w4 k16 k17 k18 k19, w4 k20 k21 k22 k23, w4 k24 k25 k26 k27, w4 k28 k29 k30 k31]"
  by (simp add: words8_def get_w4 upt_conv_Cons)

lemma expand_256:
  assumes "length k = 32" and "length rk = 8 * i + 8" and "drop (8 * i) rk = words8 k" and "aes_RCON ! i = w4 rc 0 0 0"
  shows "aes_expand_256 i rk = rk @ words8 (fst (aes_expandEncKey (k, rc)))"
proof -
  have n: "rk ! (8 * i) = words8 k ! 0" "rk ! (8 * i + 1) = words8 k ! 1" "rk ! (8 * i + 2) = words8 k ! 2"
    "rk ! (8 * i + 3) = words8 k ! 3" "rk ! (8 * i + 4) = words8 k ! 4" "rk ! (8 * i + 5) = words8 k ! 5"
    "rk ! (8 * i + 6) = words8 k ! 6" "rk ! (8 * i + 7) = words8 k ! 7"
    using assms(2) by (simp_all add: assms(3) [symmetric])
  show ?thesis
    using assms(1) unfolding aes_expand_256_def n assms(4) Let_def
    by (elim list32) (simp add: words8_list expandEncKey_list [OF refl refl refl refl refl refl refl refl refl refl refl refl refl refl refl refl
          refl refl refl refl refl refl refl refl refl refl refl refl refl refl refl refl] xor.commute [of _ rc] rot_sub_w4 sub_word_w4 w4_xor Let_def xor.assoc)
qed

lemma expandDecKey_list:
  assumes "k28 = c28 XOR c24" "k29 = c29 XOR c25" "k30 = c30 XOR c26" "k31 = c31 XOR c27"
    and "k24 = c24 XOR c20" "k25 = c25 XOR c21" "k26 = c26 XOR c22" "k27 = c27 XOR c23"
    and "k20 = c20 XOR c16" "k21 = c21 XOR c17" "k22 = c22 XOR c18" "k23 = c23 XOR c19"
    and "k16 = c16 XOR rj_sbox c12" "k17 = c17 XOR rj_sbox c13" "k18 = c18 XOR rj_sbox c14" "k19 = c19 XOR rj_sbox c15"
    and "k12 = c12 XOR c8" "k13 = c13 XOR c9" "k14 = c14 XOR c10" "k15 = c15 XOR c11"
    and "k8 = c8 XOR c4" "k9 = c9 XOR c5" "k10 = c10 XOR c6" "k11 = c11 XOR c7"
    and "k4 = c4 XOR c0" "k5 = c5 XOR c1" "k6 = c6 XOR c2" "k7 = c7 XOR c3"
    and "k0 = c0 XOR (rj_sbox k29 XOR rcon_FD rc)" "k1 = c1 XOR rj_sbox k30" "k2 = c2 XOR rj_sbox k31" "k3 = c3 XOR rj_sbox k28"
  shows "aes_expandDecKey ([c0, c1, c2, c3, c4, c5, c6, c7, c8, c9, c10, c11, c12, c13, c14, c15,
      c16, c17, c18, c19, c20, c21, c22, c23, c24, c25, c26, c27, c28, c29, c30, c31], rc) =
     ([k0, k1, k2, k3, k4, k5, k6, k7, k8, k9, k10, k11, k12, k13, k14, k15,
      k16, k17, k18, k19, k20, k21, k22, k23, k24, k25, k26, k27, k28, k29, k30, k31], rcon_FD rc)"
  by (simp only: aes_expandDecKey_def Let_def prod.case fold_simps fold.simps id_def comp_def xor_head_list xor_middle_list
      xor_word_list assms [symmetric])

lemma rcon_FD_F: "rcon_FD (rcon_F rc) = rc"
proof -
  have one: "bit (1 :: u8) m \<longleftrightarrow> m = 0" for m by (simp add: bit_1_iff)
  have F: "rcon_F rc = push_bit 1 rc XOR (if bit rc 7 then 27 else 0)"
  proof -
    have "drop_bit 7 rc AND 1 = (if bit rc 7 then 1 else 0)"
      by (rule bit_word_eqI, rename_tac n, case_tac n) (auto simp: bit_and_iff bit_drop_bit_eq one)
    then show ?thesis by (simp add: rcon_F_def)
  qed
  have z: "bit (rcon_F rc) 0 \<longleftrightarrow> bit rc 7" by (simp add: F bit_xor_iff bit_push_bit_iff del: One_nat_def push_bit_Suc)
  have a: "rcon_F rc AND 1 \<noteq> 0 \<longleftrightarrow> bit rc 7" using z by (simp add: and_one_eq odd_iff_mod_2_eq_one [symmetric] bit_0)
  have c: "drop_bit 1 (27 :: u8) XOR 141 = 128" by simp
  have d: "drop_bit 1 (push_bit 1 rc) = rc AND mask 7"
    by (rule bit_word_eqI) (auto simp: bit_and_iff bit_drop_bit_eq bit_push_bit_iff bit_mask_iff simp del: One_nat_def push_bit_Suc drop_bit_Suc)
  have m: "rc AND mask 7 XOR (if bit rc 7 then 128 else 0) = rc"
  proof (rule bit_word_eqI)
    fix n assume "n < LENGTH(8)"
    then have n: "n < 8" by simp
    have "bit (128 :: u8) n \<longleftrightarrow> n = 7" using less_8 [OF n] by auto
    then show "bit (rc AND mask 7 XOR (if bit rc 7 then 128 else 0)) n = bit rc n"
      using n by (auto simp: bit_xor_iff bit_and_iff bit_mask_iff less_Suc_eq_le dest: le_neq_implies_less)
  qed
  show ?thesis
    unfolding rcon_FD_def a unfolding F drop_bit_xor d
    using m c by (auto simp: xor.assoc)
qed

lemma expandDec_Enc: "length k = 32 \<Longrightarrow> aes_expandDecKey (aes_expandEncKey (k, rc)) = (k, rc)"
  by (elim list32)
    (simp only: expandEncKey_list [OF refl refl refl refl refl refl refl refl refl refl refl refl refl refl refl refl
       refl refl refl refl refl refl refl refl refl refl refl refl refl refl refl refl], subst expandDecKey_list,
     simp_all only: rcon_FD_F xor.assoc xor_self_eq xor.right_neutral refl)

lemma length_expandEncKey: "length k = 32 \<Longrightarrow> length (fst (aes_expandEncKey (k, rc))) = 32"
  by (elim list32)
    (simp add: expandEncKey_list [OF refl refl refl refl refl refl refl refl refl refl refl refl refl refl refl refl
       refl refl refl refl refl refl refl refl refl refl refl refl refl refl refl refl])

lemma snd_expandEncKey: "snd (aes_expandEncKey kr) = rcon_F (snd kr)"
  by (simp add: aes_expandEncKey_def Let_def split: prod.split)


subsection \<open>The key at every round\<close>

definition key_rc :: "bytes \<Rightarrow> nat \<Rightarrow> bytes \<times> u8" where
  "key_rc k n = (aes_expandEncKey ^^ n) (k, 1)"

abbreviation (input) key_at :: "bytes \<Rightarrow> nat \<Rightarrow> bytes" where
  "key_at k n \<equiv> fst (key_rc k n)"

abbreviation (input) rc_at :: "nat \<Rightarrow> u8" where
  "rc_at n \<equiv> (rcon_F ^^ n) 1"

lemma key_rc_0 [simp]: "key_rc k 0 = (k, 1)"
  by (simp add: key_rc_def)

lemma key_rc_Suc: "key_rc k (Suc n) = aes_expandEncKey (key_rc k n)"
  by (simp add: key_rc_def)

lemma key_rc_facts:
  assumes "length k = 32"
  shows length_key_at: "length (key_at k n) = 32" and key_rc_eq: "key_rc k n = (key_at k n, rc_at n)"
proof -
  have "length (key_at k n) = 32 \<and> snd (key_rc k n) = rc_at n"
  proof (induction n)
    case (Suc n)
    obtain kk rc where "key_rc k n = (kk, rc)" by (cases "key_rc k n")
    then show ?case using Suc length_expandEncKey [of kk rc] by (simp add: key_rc_Suc snd_expandEncKey)
  qed (simp add: assms)
  then show "length (key_at k n) = 32" "key_rc k n = (key_at k n, rc_at n)" by (simp_all add: prod_eq_iff)
qed

lemma rc_values:
  "rc_at 0 = 1" "rc_at 1 = 2" "rc_at 2 = 4" "rc_at 3 = 8" "rc_at 4 = 16" "rc_at 5 = 32" "rc_at 6 = 64" "rc_at 7 = 128"
proof -
  have s: "rc_at (Suc n) = rcon_F (rc_at n)" for n by simp
  show r0: "rc_at 0 = 1" by simp
  show r1: "rc_at 1 = 2" using s [of 0] by (simp add: rcon_F_def)
  show r2: "rc_at 2 = 4" using s [of 1] unfolding r1 by (simp add: rcon_F_def numeral_2_eq_2)
  show r3: "rc_at 3 = 8" using s [of 2] unfolding r2 by (simp add: rcon_F_def)
  show r4: "rc_at 4 = 16" using s [of 3] unfolding r3 by (simp add: rcon_F_def)
  show r5: "rc_at 5 = 32" using s [of 4] unfolding r4 by (simp add: rcon_F_def)
  show r6: "rc_at 6 = 64" using s [of 5] unfolding r5 by (simp add: rcon_F_def)
  show "rc_at 7 = 128" using s [of 6] unfolding r6 by (simp add: rcon_F_def)
qed

lemma RCON_list: "aes_RCON = [1, 2, 4, 8, 16, 32, 64, 128, 27, 54]"
proof -
  have r: "replicate 10 (0 :: u64) = [0, 0, 0, 0, 0, 0, 0, 0, 0, 0]" by (simp add: eval_nat_numeral)
  have u: "[0..<10] = [0, 1, 2, 3, 4, 5, 6, 7, 8, 9 :: nat]" by (simp add: upt_conv_Cons)
  show ?thesis unfolding aes_RCON_def r u by (simp add: XTIME_def)
qed

lemma less_7: "(n :: nat) < 7 \<Longrightarrow> n \<in> {0, 1, 2, 3, 4, 5, 6}"
  by auto

lemma RCON_nth: "n < 7 \<Longrightarrow> aes_RCON ! n = w4 (rc_at n) 0 0 0"
  using less_7 [of n] rc_values by (auto simp: RCON_list w4_def)

definition sched :: "bytes \<Rightarrow> nat \<Rightarrow> u64 list" where
  "sched k n = map (\<lambda>i. get_ulong_le (key_at k (i div 8)) (4 * (i mod 8))) [0..<8 * n + 8]"

lemma sched_Suc: "sched k (Suc n) = sched k n @ words8 (key_at k (Suc n))"
proof (rule nth_equalityI)
  fix i assume "i < length (sched k (Suc n))"
  then have i: "i < 8 * n + 16" by (simp add: sched_def)
  show "sched k (Suc n) ! i = (sched k n @ words8 (key_at k (Suc n))) ! i"
  proof (cases "i < 8 * n + 8")
    case True
    then show ?thesis by (simp add: sched_def nth_append del: upt_Suc)
  next
    case False
    then obtain j where j: "i = 8 * Suc n + j" using le_Suc_ex [of "8 * Suc n" i] by auto
    have j8: "j < 8" using i j by simp
    have "i div 8 = Suc n" "i mod 8 = j" using j8 unfolding j by (simp_all only: div_mult_self4 mod_mult_self4) simp_all
    then show ?thesis using i j j8 by (simp add: sched_def words8_def nth_append del: upt_Suc)
  qed
qed (simp add: sched_def words8_def)

lemma drop_sched: "drop (8 * n) (sched k n) = words8 (key_at k n)"
proof (cases n)
  case 0
  then show ?thesis by (simp add: sched_def words8_def)
next
  case (Suc m)
  then show ?thesis by (simp add: sched_Suc) (simp add: sched_def)
qed

lemma sched_fold:
  assumes "length k = 32"
  shows "n \<le> 7 \<Longrightarrow> fold aes_expand_256 [0..<n] (words8 k) = sched k n"
proof (induction n)
  case 0
  then show ?case using drop_sched [of 0 k] by simp
next
  case (Suc n)
  have "aes_expand_256 n (sched k n) = sched k n @ words8 (fst (aes_expandEncKey (key_at k n, rc_at n)))"
    by (rule expand_256) (use Suc.prems in \<open>simp_all add: length_key_at [OF assms] drop_sched RCON_nth\<close>, simp add: sched_def)
  then show ?case using Suc by (simp add: sched_Suc key_rc_Suc key_rc_eq [OF assms, of n, symmetric])
qed

text \<open>The sixteen bytes that round \<open>r\<close> adds.\<close>

definition round_key :: "bytes \<Rightarrow> nat \<Rightarrow> bytes" where
  "round_key k r = (if odd r then drop 16 (key_at k (r div 2)) else key_at k (r div 2))"

lemma key_words_sched:
  assumes "length k = 32" and "r < 15"
  shows "key_words (drop (4 * r) (sched k 7)) (round_key k r)"
proof -
  have l: "length (sched k 7) = 64" by (simp add: sched_def)
  have n: "drop (4 * r) (sched k 7) ! j = get_ulong_le (key_at k (r div 2)) (16 * (r mod 2) + 4 * j)" if "j < 4" for j
  proof -
    have "(4 * r + j) div 8 = r div 2" "(4 * r + j) mod 8 = 4 * (r mod 2) + j"
    proof -
      have "4 * r + j = 8 * (r div 2) + (4 * (r mod 2) + j)" using mult_div_mod_eq [of 2 r] by linarith
      moreover have "4 * (r mod 2) + j < 8" using that by (simp add: mod_2_eq_odd)
      ultimately show "(4 * r + j) div 8 = r div 2" "(4 * r + j) mod 8 = 4 * (r mod 2) + j"
        by (simp_all only: div_mult_self4 mod_mult_self4) simp_all
    qed
    then show ?thesis using that assms(2) l by (simp add: sched_def)
  qed
  show ?thesis
    unfolding key_words_def n [of 0, simplified] n [of 1, simplified] n [of 2, simplified] n [of 3, simplified]
    using n [of 0] n [of 1] n [of 2] n [of 3] length_key_at [OF assms(1), of "r div 2"]
    by (auto simp: round_key_def get_w4 mod_2_eq_odd)
qed


subsection \<open>Encryption\<close>

lemma length_steps [simp]:
  "length (aes_subBytes b) = length b" "length (aes_subBytes_inv b) = length b"
  "length (aes_shiftRows b) = length b" "length (aes_shiftRows_inv b) = length b"
  "length (aes_mixColumns b) = length b" "length (aes_mixColumns_inv b) = length b"
  "length (aes_addRoundKey b k) = length b"
proof -
  have "length (fold (\<lambda>i buf. buf[i := buf ! i XOR k ! i]) is b) = length b" for "is"
    by (induction "is" arbitrary: b) simp_all
  then show "length (aes_addRoundKey b k) = length b" by (simp add: aes_addRoundKey_def)
qed (simp_all add: aes_subBytes_def aes_subBytes_inv_def aes_shiftRows_def aes_shiftRows_inv_def aes_mixColumns_def
    aes_mixColumns_inv_def mix_column_def mix_column_inv_def Let_def)

primrec enc_buf :: "bytes \<Rightarrow> bytes \<Rightarrow> nat \<Rightarrow> bytes" where
  "enc_buf k b 0 = aes_addRoundKey b (round_key k 0)"
| "enc_buf k b (Suc n) =
     aes_addRoundKey (aes_mixColumns (aes_shiftRows (aes_subBytes (enc_buf k b n)))) (round_key k (Suc n))"

lemma length_enc_buf [simp]: "length (enc_buf k b n) = length b"
  by (induction n) simp_all

lemma enc_rounds_bytes:
  assumes "length k = 32"
  shows "fold enc_round [1..<Suc n] (enc_buf k b 0, k, 1) = (enc_buf k b n, key_at k (n div 2), rc_at (n div 2))"
proof (induction n)
  case (Suc n)
  have "fold enc_round [1..<Suc (Suc n)] (enc_buf k b 0, k, 1) = enc_round (Suc n) (enc_buf k b n, key_at k (n div 2), rc_at (n div 2))"
    using Suc by simp
  also have "\<dots> = (enc_buf k b (Suc n), key_at k (Suc n div 2), rc_at (Suc n div 2))"
  proof (cases "even n")
    case True
    then show ?thesis by (simp add: enc_round_def Let_def round_key_def)
  next
    case False
    then have d: "Suc n div 2 = Suc (n div 2)" by (simp add: odd_Suc_div_two)
    have e: "aes_expandEncKey (key_at k (n div 2), rc_at (n div 2)) = (key_at k (Suc (n div 2)), rc_at (Suc (n div 2)))"
      using key_rc_eq [OF assms, of "n div 2"] key_rc_eq [OF assms, of "Suc (n div 2)"] by (simp add: key_rc_Suc)
    show ?thesis using False by (simp add: enc_round_def Let_def round_key_def d e del: funpow.simps)
  qed
  finally show ?case .
qed simp

lemma enc_rounds_words:
  assumes "length k = 32" and "length b = 16"
  shows "m + n \<le> 13 \<Longrightarrow> aes_rounds aes_FROUND n (drop (4 * Suc m) (sched k 7)) (blk (enc_buf k b m)) =
    (drop (4 * Suc (m + n)) (sched k 7), blk (enc_buf k b (m + n)))"
proof (induction n arbitrary: m)
  case (Suc n)
  have f: "aes_FROUND (drop (4 * Suc m) (sched k 7)) (blk (enc_buf k b m)) = blk (enc_buf k b (Suc m))"
    unfolding enc_buf.simps using Suc.prems assms by (intro FROUND_blk key_words_sched) simp_all
  have d: "drop 4 (drop (4 * Suc m) (sched k 7)) = drop (4 * Suc (Suc m)) (sched k 7)" by simp
  have "Suc m + n \<le> 13" using Suc.prems by simp
  from Suc.IH [OF this] show ?case unfolding aes_rounds.simps f d by simp
qed simp

lemma put_blk:
  assumes "length b = 16"
  shows "(case blk b of (x0, x1, x2, x3) \<Rightarrow> put_ulong_le x0 @ put_ulong_le x1 @ put_ulong_le x2 @ put_ulong_le x3) = b"
  using assms by (elim list16) (simp add: blk_def get_ws)

lemma blk_xor:
  assumes "length b = 16" and "key_words rk k"
  shows "(get_ulong_le b 0 XOR rk ! 0, get_ulong_le b 4 XOR rk ! 1, get_ulong_le b 8 XOR rk ! 2, get_ulong_le b 12 XOR rk ! 3) =
    blk (aes_addRoundKey b k)"
  using assms by (elim list16) (simp add: blk_def key_words_def get_ws w4_xor addRoundKey_list)

lemma setkey_enc_256:
  assumes "length k = 32"
  shows "aes_setkey_enc k 256 = Some \<lparr>aes_nr = 14, aes_rk = sched k 7\<rparr>"
  using sched_fold [OF assms, of 7] by (simp add: aes_setkey_enc_def words8_def)

definition cipher_text :: "bytes \<Rightarrow> bytes \<Rightarrow> bytes" where
  "cipher_text k b = aes_addRoundKey (aes_shiftRows (aes_subBytes (enc_buf k b 13))) (round_key k 14)"

lemma crypto_aes_encrypt_eq:
  assumes "length k = 32" and "length b = 16"
  shows "crypto_aes_encrypt k b = cipher_text k b"
proof -
  have start: "(get_ulong_le b 0 XOR sched k 7 ! 0, get_ulong_le b 4 XOR sched k 7 ! 1, get_ulong_le b 8 XOR sched k 7 ! 2,
      get_ulong_le b 12 XOR sched k 7 ! 3) = blk (enc_buf k b 0)"
    using blk_xor [OF assms(2) key_words_sched [OF assms(1), of 0, simplified]] by simp
  have rounds: "aes_rounds aes_FROUND 13 (drop 4 (sched k 7)) (blk (enc_buf k b 0)) = (drop 56 (sched k 7), blk (enc_buf k b 13))"
    using enc_rounds_words [OF assms, of 0 13] by (simp del: enc_buf.simps)
  have last: "aes_FLAST (drop 56 (sched k 7)) (blk (enc_buf k b 13)) = blk (cipher_text k b)"
    unfolding cipher_text_def using FLAST_blk [OF _ key_words_sched [OF assms(1), of 14]] assms(2) by simp
  have l: "length (cipher_text k b) = 16" using assms(2) by (simp add: cipher_text_def del: enc_buf.simps)
  have n: "2 * ((14 :: nat) div 2 - 1) + 1 = 13" by simp
  show ?thesis
    unfolding crypto_aes_encrypt_def setkey_enc_256 [OF assms(1)] option.case aes_crypt_ecb_def Let_def
      aes_context.select_convs n start aes_mode.case rounds prod.case last
    using put_blk [OF l] by simp
qed

lemma aes256_encrypt_eq:
  assumes "length k = 32" and "length b = 16" and "length (ctx_key c) = 32"
  shows "snd (aes256_encrypt_ecb (aes256_init c k) b) = cipher_text k b"
proof -
  have i: "ctx_enckey (aes256_init c k) = k" "length (ctx_key (aes256_init c k)) = 32"
    using assms by (simp_all add: aes256_init_def)
  have rk: "round_key k 0 = k" "round_key k 14 = fst (aes_expandEncKey (key_at k 6, rc_at 6))"
  proof -
    have "key_rc k 7 = aes_expandEncKey (key_rc k 6)" using key_rc_Suc [of k 6] by simp
    also have "\<dots> = aes_expandEncKey (key_at k 6, rc_at 6)" using key_rc_eq [OF assms(1), of 6] by (rule arg_cong)
    finally show "round_key k 14 = fst (aes_expandEncKey (key_at k 6, rc_at 6))" by (simp add: round_key_def)
  qed (simp add: round_key_def)
  have m: "Suc 13 = 14" "13 div 2 = (6 :: nat)" by simp_all
  note f = enc_rounds_bytes [OF assms(1), of 13 b, unfolded m]
  show ?thesis
    unfolding aes256_encrypt_ecb_def i(1) addRoundKey_cpy_eq [OF assms(2) i(2) assms(1)] Let_def prod.case
      enc_buf.simps(1) [of k b, unfolded rk(1), symmetric] f cipher_text_def rk(2)
    by (cases "aes_expandEncKey (key_at k 6, rc_at 6)") (simp only: prod.case fst_conv snd_conv)
qed


subsection \<open>Decryption\<close>

primrec dec_buf :: "bytes \<Rightarrow> bytes \<Rightarrow> nat \<Rightarrow> bytes" where
  "dec_buf k b 0 = aes_addRoundKey b (round_key k 14)"
| "dec_buf k b (Suc n) =
     aes_mixColumns_inv (aes_addRoundKey (aes_subBytes_inv (aes_shiftRows_inv (dec_buf k b n))) (round_key k (13 - n)))"

lemma length_dec_buf [simp]: "length (dec_buf k b n) = length b"
  by (induction n) simp_all

lemma length_round_key: "length k = 32 \<Longrightarrow> 16 \<le> length (round_key k r)"
  using length_key_at [of k] by (simp add: round_key_def)

lemma addRoundKey_take: "length b = 16 \<Longrightarrow> aes_addRoundKey b (take 16 k) = aes_addRoundKey b k"
  by (elim list16) (simp add: addRoundKey_list)

lemma inv_mix_w4: "inv_mix_word (w4 a b c d) = w4 (imix4 a b c d) (imix4 b c d a) (imix4 c d a b) (imix4 d a b c)"
  by (simp add: inv_mix_word_def Let_def FSb_nth RT_nth rj_sbox_inv_sbox w4_xor imix4_def ac_simps)

lemma key_words_inv_mix:
  assumes "length k = 16" and "key_words rk k" and "4 \<le> length rk"
  shows "key_words (map inv_mix_word (take 4 rk)) (aes_mixColumns_inv k)"
  using assms
  by (elim list16) (simp add: key_words_def mixColumns_inv_list get_ws inv_mix_w4)

lemma key_words_take: "key_words (take 4 rk) k = key_words rk k" "16 \<le> length k \<Longrightarrow> key_words rk (take 16 k) = key_words rk k"
  by (simp_all add: key_words_def get_ws)

definition dec_sched :: "bytes \<Rightarrow> u64 list list" where
  "dec_sched k =
     [take 4 (drop 56 (sched k 7))] @
     map (\<lambda>i. map inv_mix_word (take 4 (drop (4 * i) (sched k 7)))) (rev [1..<14]) @ [take 4 (sched k 7)]"

lemma setkey_dec_256:
  assumes "length k = 32"
  shows "aes_setkey_dec k 256 = Some \<lparr>aes_nr = 14, aes_rk = concat (dec_sched k)\<rparr>"
  by (simp add: aes_setkey_dec_def setkey_enc_256 [OF assms] dec_sched_def Let_def)

lemma key_words_concat:
  "list_all (\<lambda>xs. length xs = 4) xss \<Longrightarrow> r < length xss \<Longrightarrow> key_words (drop (4 * r) (concat xss)) k = key_words (xss ! r) k"
proof (induction xss arbitrary: r)
  case (Cons xs xss)
  then show ?case
    by (cases r) (auto simp: key_words_def nth_append)
qed simp

lemma dec_sched_facts: "list_all (\<lambda>xs. length xs = 4) (dec_sched k)" "length (dec_sched k) = 15"
  by (auto simp: dec_sched_def sched_def list_all_iff)

lemma key_words_dec:
  assumes "length k = 32"
  shows "key_words (concat (dec_sched k)) (round_key k 14)"
    and "n < 13 \<Longrightarrow> key_words (drop (4 * Suc n) (concat (dec_sched k))) (aes_mixColumns_inv (take 16 (round_key k (13 - n))))"
    and "key_words (drop 56 (concat (dec_sched k))) (round_key k 0)"
proof -
  have c: "key_words (drop (4 * r) (concat (dec_sched k))) j = key_words (dec_sched k ! r) j" if "r < 15" for r j
    using key_words_concat [OF dec_sched_facts(1)] that dec_sched_facts(2) by simp
  show "key_words (concat (dec_sched k)) (round_key k 14)"
    using c [of 0] key_words_sched [OF assms, of 14] by (simp add: dec_sched_def key_words_take)
  show "key_words (drop 56 (concat (dec_sched k))) (round_key k 0)"
    using c [of 14] key_words_sched [OF assms, of 0] by (simp add: dec_sched_def nth_append key_words_take)
  assume n: "n < 13"
  have "dec_sched k ! Suc n = map inv_mix_word (take 4 (drop (4 * (13 - n)) (sched k 7)))"
  proof -
    have "4 + 4 * (12 - n) = 4 * (13 - n)" using n by simp
    then show ?thesis using n by (simp add: dec_sched_def nth_append rev_nth)
  qed
  moreover have "key_words (map inv_mix_word (take 4 (drop (4 * (13 - n)) (sched k 7)))) (aes_mixColumns_inv (take 16 (round_key k (13 - n))))"
    using n length_round_key [OF assms] key_words_sched [OF assms, of "13 - n"]
    by (intro key_words_inv_mix) (simp_all add: key_words_take sched_def)
  ultimately show "key_words (drop (4 * Suc n) (concat (dec_sched k))) (aes_mixColumns_inv (take 16 (round_key k (13 - n))))"
    using c [of "Suc n"] n by simp
qed

lemma dec_rounds_words:
  assumes "length k = 32" and "length b = 16"
  shows "m + n \<le> 13 \<Longrightarrow> aes_rounds aes_RROUND n (drop (4 * Suc m) (concat (dec_sched k))) (blk (dec_buf k b m)) =
    (drop (4 * Suc (m + n)) (concat (dec_sched k)), blk (dec_buf k b (m + n)))"
proof (induction n arbitrary: m)
  case (Suc n)
  have "aes_RROUND (drop (4 * Suc m) (concat (dec_sched k))) (blk (dec_buf k b m)) =
      blk (aes_mixColumns_inv (aes_addRoundKey (aes_subBytes_inv (aes_shiftRows_inv (dec_buf k b m))) (take 16 (round_key k (13 - m)))))"
    using Suc.prems assms length_round_key [OF assms(1), of "13 - m"] key_words_dec(2) [OF assms(1), of m]
    by (intro RROUND_blk) simp_all
  then have f: "aes_RROUND (drop (4 * Suc m) (concat (dec_sched k))) (blk (dec_buf k b m)) = blk (dec_buf k b (Suc m))"
    using assms(2) by (simp add: addRoundKey_take)
  have d: "drop 4 (drop (4 * Suc m) (concat (dec_sched k))) = drop (4 * Suc (Suc m)) (concat (dec_sched k))" by simp
  have "Suc m + n \<le> 13" using Suc.prems by simp
  from Suc.IH [OF this] show ?case unfolding aes_rounds.simps f d by simp
qed simp

definition plain_text :: "bytes \<Rightarrow> bytes \<Rightarrow> bytes" where
  "plain_text k b = aes_addRoundKey (aes_subBytes_inv (aes_shiftRows_inv (dec_buf k b 13))) (round_key k 0)"

lemma crypto_aes_decrypt_eq:
  assumes "length k = 32" and "length b = 16"
  shows "crypto_aes_decrypt k b = plain_text k b"
proof -
  let ?rk = "concat (dec_sched k)"
  have start: "(get_ulong_le b 0 XOR ?rk ! 0, get_ulong_le b 4 XOR ?rk ! 1, get_ulong_le b 8 XOR ?rk ! 2,
      get_ulong_le b 12 XOR ?rk ! 3) = blk (dec_buf k b 0)"
    using blk_xor [OF assms(2) key_words_dec(1) [OF assms(1)]] by simp
  have rounds: "aes_rounds aes_RROUND 13 (drop 4 ?rk) (blk (dec_buf k b 0)) = (drop 56 ?rk, blk (dec_buf k b 13))"
    using dec_rounds_words [OF assms, of 0 13] by (simp del: dec_buf.simps)
  have last: "aes_RLAST (drop 56 ?rk) (blk (dec_buf k b 13)) = blk (plain_text k b)"
    unfolding plain_text_def using RLAST_blk [OF _ key_words_dec(3) [OF assms(1)]] assms(2) by simp
  have l: "length (plain_text k b) = 16" using assms(2) by (simp add: plain_text_def del: dec_buf.simps)
  have n: "2 * ((14 :: nat) div 2 - 1) + 1 = 13" by simp
  show ?thesis
    unfolding crypto_aes_decrypt_def setkey_dec_256 [OF assms(1)] option.case aes_crypt_ecb_def Let_def
      aes_context.select_convs n start aes_mode.case rounds prod.case last
    using put_blk [OF l] by simp
qed

lemma dec_rounds_bytes:
  assumes "length k = 32"
  shows "n \<le> 13 \<Longrightarrow> fold dec_round (map (\<lambda>i. 13 - i) [0..<n]) (aes_subBytes_inv (aes_shiftRows_inv (dec_buf k b 0)), key_at k 7, rc_at 7) =
    (aes_subBytes_inv (aes_shiftRows_inv (dec_buf k b n)), key_at k ((14 - n) div 2), rc_at ((14 - n) div 2))"
proof (induction n)
  case (Suc n)
  let ?i = "13 - n"
  have i: "14 - n = Suc ?i" using Suc.prems by simp
  have "fold dec_round (map (\<lambda>i. 13 - i) [0..<Suc n]) (aes_subBytes_inv (aes_shiftRows_inv (dec_buf k b 0)), key_at k 7, rc_at 7) =
      dec_round ?i (aes_subBytes_inv (aes_shiftRows_inv (dec_buf k b n)), key_at k ((14 - n) div 2), rc_at ((14 - n) div 2))"
    using Suc by simp
  also have "\<dots> = (aes_subBytes_inv (aes_shiftRows_inv (dec_buf k b (Suc n))), key_at k (?i div 2), rc_at (?i div 2))"
  proof (cases "odd ?i")
    case True
    then have d: "(14 - n) div 2 = Suc (?i div 2)" unfolding i by (rule odd_Suc_div_two)
    have "aes_expandDecKey (key_rc k (Suc (?i div 2))) = key_rc k (?i div 2)"
      using expandDec_Enc [OF length_key_at [OF assms, of "?i div 2"]] key_rc_eq [OF assms, of "?i div 2"] by (metis key_rc_Suc)
    then have e: "aes_expandDecKey (key_at k (Suc (?i div 2)), rc_at (Suc (?i div 2))) = (key_at k (?i div 2), rc_at (?i div 2))"
      using key_rc_eq [OF assms] by metis
    show ?thesis unfolding d using True by (simp add: dec_round_def Let_def round_key_def e del: funpow.simps)
  next
    case False
    then have d: "(14 - n) div 2 = ?i div 2" unfolding i by (simp add: even_Suc_div_two)
    show ?thesis unfolding d using False by (simp add: dec_round_def Let_def round_key_def)
  qed
  finally show ?case by simp
qed simp


lemma aes256_decrypt_eq:
  assumes "length k = 32" and "length b = 16" and "length (ctx_key c) = 32"
  shows "snd (aes256_decrypt_ecb (aes256_init c k) b) = plain_text k b"
proof -
  have i: "ctx_deckey (aes256_init c k) = key_at k 7" "length (ctx_key (aes256_init c k)) = 32"
    using assms by (simp_all add: aes256_init_def key_rc_def del: funpow.simps)
  have rk: "round_key k 0 = k" "key_at k 7 = round_key k 14" by (simp_all add: round_key_def)
  have start: "aes_subBytes_inv (aes_shiftRows_inv (aes_addRoundKey b (key_at k 7))) = aes_subBytes_inv (aes_shiftRows_inv (dec_buf k b 0))"
    by (simp add: rk(2))
  have r: "rev [1..<14] = map (\<lambda>i. 13 - i) [0..<13]" by (simp add: upt_conv_Cons)
  have e: "(14 - 13) div 2 = (0 :: nat)" by simp
  note f = dec_rounds_bytes [OF assms(1) order_refl, of b, unfolded e key_rc_0 fst_conv]
  show ?thesis
    unfolding aes256_decrypt_ecb_def i(1) addRoundKey_cpy_eq [OF assms(2) i(2) length_key_at [OF assms(1)]] Let_def prod.case
      r start rc_values(8) [symmetric] f plain_text_def rk(1)
    by (simp only: prod.case snd_conv)
qed

subsection \<open>Decryption undoes encryption\<close>

lemma shiftRows_inv_shiftRows: "length b = 16 \<Longrightarrow> aes_shiftRows_inv (aes_shiftRows b) = b"
  by (elim list16) (simp add: shiftRows_list shiftRows_inv_list)

lemma subBytes_inv_subBytes: "aes_subBytes_inv (aes_subBytes b) = b"
  by (simp add: aes_subBytes_def aes_subBytes_inv_def map_idI rj_sbox_inv_sbox)

lemma addRoundKey_twice: "length b = 16 \<Longrightarrow> aes_addRoundKey (aes_addRoundKey b k) k = b"
  by (elim list16) (simp add: addRoundKey_list xor.assoc)

lemma imix4_mix4: "imix4 (mix4 a b c d) (mix4 b c d a) (mix4 c d a b) (mix4 d a b c) = a"
  by (simp add: imix4_def mix4_def mul3_def mul_defs rj_xtime_xor ac_simps)

lemma mixColumns_inv_mixColumns: "length b = 16 \<Longrightarrow> aes_mixColumns_inv (aes_mixColumns b) = b"
  by (elim list16) (simp add: mixColumns_list mixColumns_inv_list imix4_mix4)

lemma dec_enc_buf:
  assumes "length b = 16"
  shows "n \<le> 13 \<Longrightarrow> aes_subBytes_inv (aes_shiftRows_inv (dec_buf k (cipher_text k b) n)) = enc_buf k b (13 - n)"
proof (induction n)
  case 0
  show ?case
    using assms by (simp add: cipher_text_def addRoundKey_twice shiftRows_inv_shiftRows subBytes_inv_subBytes del: enc_buf.simps)
next
  case (Suc n)
  have e: "13 - n = Suc (12 - n)" using Suc.prems by simp
  have "aes_addRoundKey (enc_buf k b (13 - n)) (round_key k (13 - n)) = aes_mixColumns (aes_shiftRows (aes_subBytes (enc_buf k b (12 - n))))"
    unfolding e using assms by (simp add: addRoundKey_twice)
  then show ?case
    using Suc assms by (simp add: mixColumns_inv_mixColumns shiftRows_inv_shiftRows subBytes_inv_subBytes)
qed

lemma plain_cipher: "length b = 16 \<Longrightarrow> plain_text k (cipher_text k b) = b"
  using dec_enc_buf [of b 13 k] by (simp add: plain_text_def addRoundKey_twice del: dec_buf.simps)

lemma length_cipher_text: "length b = 16 \<Longrightarrow> length (cipher_text k b) = 16"
  by (simp add: cipher_text_def del: enc_buf.simps)

subsection \<open>The implementation the program uses\<close>

text \<open>
  C27: The AES the program is built with (tables of words, both key schedules made in advance)
  and the second implementation of the sources (bytes, nothing tabulated, the key expanded on the
  way) give the same result for every key and every block, in both directions, whatever the context
  of the second one held before its initialisation.
\<close>

theorem aes_implementations_agree:
  assumes "length key = 32" and "length block = 16" and "length (ctx_key ctx) = 32"
  shows "crypto_aes_encrypt key block = snd (aes256_encrypt_ecb (aes256_init ctx key) block) \<and>
    crypto_aes_decrypt key block = snd (aes256_decrypt_ecb (aes256_init ctx key) block)"
  using assms by (simp add: crypto_aes_encrypt_eq crypto_aes_decrypt_eq aes256_encrypt_eq aes256_decrypt_eq)

definition sample_ctx :: aes256_context where
  "sample_ctx = \<lparr>ctx_key = replicate 32 0xFF, ctx_enckey = replicate 32 1, ctx_deckey = replicate 32 2\<rparr>"

theorem aes_implementations_agree_witness:
  "crypto_aes_encrypt (map of_nat [0..<32]) (replicate 16 0x11) =
     snd (aes256_encrypt_ecb (aes256_init sample_ctx (map of_nat [0..<32])) (replicate 16 0x11)) \<and>
   crypto_aes_decrypt (map of_nat [0..<32]) (replicate 16 0x11) =
     snd (aes256_decrypt_ecb (aes256_init sample_ctx (map of_nat [0..<32])) (replicate 16 0x11))"
  by (rule aes_implementations_agree) (simp_all add: sample_ctx_def)

text \<open>
  C28: A block that has been encrypted with a key is recovered by decrypting it with the same key,
  for every key and every block.
\<close>

theorem aes_decrypt_encrypt:
  assumes "length key = 32" and "length block = 16"
  shows "crypto_aes_decrypt key (crypto_aes_encrypt key block) = block"
  using assms by (simp add: crypto_aes_encrypt_eq crypto_aes_decrypt_eq length_cipher_text plain_cipher)

theorem aes_decrypt_encrypt_witness:
  "crypto_aes_decrypt (replicate 32 7) (crypto_aes_encrypt (replicate 32 7) (map of_nat [0..<16])) = map of_nat [0..<16]"
  by (rule aes_decrypt_encrypt) simp_all

end
