(* ===== verification/Block_Cipher.thy ===== *)
theory Block_Cipher
  imports Aes_Equiv Ppp_Code
begin

text \<open>
  What the passcodes need of a block cipher, as an interface, and both implementations of AES as its
  instances: enciphering is injective, so that different counters of a key have different ciphers.
\<close>

locale block_cipher =
  fixes enc :: "bytes \<Rightarrow> bytes \<Rightarrow> bytes"
    and dec :: "bytes \<Rightarrow> bytes \<Rightarrow> bytes"
  assumes enc_length: "length k = 32 \<Longrightarrow> length b = 16 \<Longrightarrow> length (enc k b) = 16"
    and dec_enc: "length k = 32 \<Longrightarrow> length b = 16 \<Longrightarrow> dec k (enc k b) = b"
begin

lemma enc_inject: "length k = 32 \<Longrightarrow> length b = 16 \<Longrightarrow> length b' = 16 \<Longrightarrow> enc k b = enc k b' \<longleftrightarrow> b = b'"
  by (metis dec_enc)

lemma number_inject:
  "length k = 32 \<Longrightarrow> num_of_bin (enc k (num_to_bin m)) = num_of_bin (enc k (num_to_bin n)) \<longleftrightarrow> m = n"
  by (metis enc_inject enc_length length_num_to_bin num_to_bin_inject num_to_bin_of_bin)

end

interpretation aes: block_cipher crypto_aes_encrypt crypto_aes_decrypt
  by unfold_locales (simp_all add: crypto_aes_encrypt_eq crypto_aes_decrypt_eq length_cipher_text plain_cipher)

interpretation slow_aes: block_cipher
  "\<lambda>k b. snd (aes256_encrypt_ecb (aes256_init (aes256_done ctx) k) b)"
  "\<lambda>k b. snd (aes256_decrypt_ecb (aes256_init (aes256_done ctx) k) b)" for ctx
  by unfold_locales (simp_all add: aes256_encrypt_eq aes256_decrypt_eq aes256_done_def length_cipher_text plain_cipher)

subsection \<open>Ciphers of counters\<close>

lemma cipher_of_inject:
  "length (sequence_key s) = 32 \<Longrightarrow> cipher_of s m = cipher_of s n \<longleftrightarrow> ppp_add_salt s m = ppp_add_salt s n"
  by (simp add: cipher_of_def nval_inject aes.number_inject)

text \<open>Without a salt no two numbers of a key have the same cipher.\<close>

lemma unsalted_ciphers_differ:
  "length (sequence_key s) = 32 \<Longrightarrow> \<not> salted s \<Longrightarrow> m \<noteq> n \<Longrightarrow> cipher_of s m \<noteq> cipher_of s n"
  by (simp add: cipher_of_inject ppp_add_salt_def)

end
