(* ===== verification/Aes_Eval.thy ===== *)
theory Aes_Eval
  imports Aes_Equiv
begin

text \<open>
  Evaluating AES on concrete keys and blocks by rewriting: the S-box as equations for every byte, and
  the rounds over the list of the round keys.
\<close>

subsection \<open>The S-box\<close>

definition sbox_powers :: "u8 list" where
  "sbox_powers =
     [124, 123, 107, 118, 130, 195, 252, 22, 162, 49, 64, 144, 50, 65, 125, 150, 207, 248, 7, 82, 97, 143, 42, 73, 104, 119, 111, 103,
      114, 147, 51, 172, 217, 24, 74, 105, 154, 203, 233, 247, 2, 174, 53, 81, 96, 98, 142, 199, 237, 230, 242, 254, 250, 235, 27, 75,
      132, 62, 69, 108, 102, 159, 55, 189, 41, 72, 133, 211, 225, 226, 227, 14, 170, 36, 161, 48, 173, 52, 188, 196, 236, 11, 86, 112,
      127, 122, 134, 210, 12, 70, 109, 139, 59, 185, 56, 184, 213, 28, 91, 153, 202, 4, 83, 140, 43, 164, 204, 249, 234, 246, 239, 10,
      187, 212, 241, 255, 23, 79, 149, 206, 21, 163, 220, 228, 30, 183, 208, 224, 15, 71, 128, 47, 181, 60, 169, 37, 76, 148, 35, 177,
      45, 89, 117, 131, 46, 88, 152, 39, 160, 221, 9, 186, 57, 85, 113, 146, 222, 8, 87, 157, 219, 244, 3, 67, 145, 223, 229, 243,
      19, 94, 101, 158, 218, 25, 167, 205, 20, 78, 120, 106, 155, 38, 77, 121, 135, 63, 168, 200, 232, 26, 166, 32, 176, 192, 253, 251,
      6, 191, 197, 1, 175, 216, 245, 238, 231, 31, 90, 116, 110, 138, 214, 29, 182, 61, 68, 129, 194, 17, 178, 44, 180, 209, 13, 171,
      201, 5, 190, 40, 165, 33, 93, 100, 115, 126, 151, 34, 92, 137, 215, 240, 18, 179, 193, 16, 95, 136, 58, 84, 156, 54, 80, 141,
      198, 0, 66, 124]"

lemma sbox_powers_affine: "map affine (rev gf_powers) = sbox_powers"
  unfolding gf_powers_def sbox_powers_def by (simp add: affine_def rot8_def)

lemma sbox_of_power:
  assumes "i < 256"
  shows "rj_sbox (gf_powers ! i) = sbox_powers ! i"
proof -
  have p: "gf_powers ! j = gf_pow j" if "j < 256" for j
    using that step_chain_nth [OF gf_powers_chain, of j] gf_powers_facts(1,2) by (simp add: gf_pow_def)
  have "gf_mulinv (gf_pow i) = gf_pow (255 - i)"
    using assms gf_mulinv_pow [of i] gf_mulinv_pow [of 0] by (cases "i = 255") (simp_all add: gf_pow_255)
  then show ?thesis
    using assms gf_powers_facts(1) by (simp add: sbox_powers_affine [symmetric] rev_nth p rj_sbox_eq)
qed

lemma sbox_table: "list_all (\<lambda>p. rj_sbox (fst p) = snd p) (zip gf_powers sbox_powers)"
  using gf_powers_facts(1) sbox_of_power
  by (auto simp: list_all_length sbox_powers_affine [symmetric])

lemmas sbox_values = sbox_table [unfolded gf_powers_def sbox_powers_def, simplified] rj_sbox_0

subsection \<open>Blocks\<close>

fun key_list :: "nat \<Rightarrow> bytes \<Rightarrow> u8 \<Rightarrow> bytes list" where
  "key_list 0 k rc = []"
| "key_list (Suc n) k rc = take 16 k # drop 16 k # key_list n (fst (aes_expandEncKey (k, rc))) (rcon_F rc)"

fun enc_list :: "bytes \<Rightarrow> bytes list \<Rightarrow> bytes" where
  "enc_list b [] = b"
| "enc_list b [k] = aes_addRoundKey (aes_shiftRows (aes_subBytes b)) k"
| "enc_list b (k # k' # ks) = enc_list (aes_addRoundKey (aes_mixColumns (aes_shiftRows (aes_subBytes b))) k) (k' # ks)"

definition enc_eval :: "bytes list \<Rightarrow> bytes \<Rightarrow> bytes" where
  "enc_eval ks b = enc_list (aes_addRoundKey b (hd ks)) (tl ks)"

lemma key_list_nth:
  assumes "length k = 32"
  shows "r < 2 * n \<Longrightarrow> key_list n (key_at k m) (rc_at m) ! r = take 16 (round_key k (2 * m + r))"
proof (induction n arbitrary: m r)
  case (Suc n)
  have e: "fst (aes_expandEncKey (key_at k m, rc_at m)) = key_at k (Suc m)" "rcon_F (rc_at m) = rc_at (Suc m)"
    using key_rc_eq [OF assms, of m] by (simp_all add: key_rc_Suc)
  have l: "length (key_at k m) = 32" by (rule length_key_at [OF assms])
  show ?case
  proof (cases r)
    case 0
    then show ?thesis by (simp add: round_key_def)
  next
    case (Suc r')
    show ?thesis
    proof (cases r')
      case 0
      then show ?thesis using Suc l by (simp add: round_key_def)
    next
      case (Suc r'')
      then have "key_list (Suc n) (key_at k m) (rc_at m) ! r = key_list n (key_at k (Suc m)) (rc_at (Suc m)) ! r''"
        using \<open>r = Suc r'\<close> e by (simp del: funpow.simps)
      also have "\<dots> = take 16 (round_key k (2 * Suc m + r''))"
        using Suc.IH [of r'' "Suc m"] Suc.prems \<open>r = Suc r'\<close> Suc by simp
      finally show ?thesis using \<open>r = Suc r'\<close> Suc by simp
    qed
  qed
qed simp

lemma length_key_list [simp]: "length (key_list n k rc) = 2 * n"
  by (induction n arbitrary: k rc) simp_all

lemma enc_list_buf:
  assumes "length b = 16" and "m < 14" and "\<And>i. i < 14 - m \<Longrightarrow> ks ! i = take 16 (round_key k (Suc m + i))" and "length ks = 14 - m"
  shows "enc_list (enc_buf k b m) ks = cipher_text k b"
  using assms(2-4)
proof (induction "13 - m" arbitrary: m ks)
  case 0
  then have m: "m = 13" by simp
  then have "length ks = Suc 0" using 0 by simp
  then obtain x where "ks = [x]" by (auto simp: length_Suc_conv)
  moreover note m
  ultimately show ?case using 0(3) [of 0] assms(1) by (simp add: cipher_text_def addRoundKey_take del: enc_buf.simps)
next
  case (Suc d)
  then have "length ks = Suc (Suc (12 - m))" by simp
  then obtain x y zs where ks: "ks = x # y # zs" by (auto simp: length_Suc_conv)
  have x: "x = take 16 (round_key k (Suc m))" using Suc.prems(2) [of 0] Suc.prems(1) by (simp add: ks)
  have "enc_list (enc_buf k b (Suc m)) (y # zs) = cipher_text k b"
  proof (rule Suc.hyps(1))
    show "(y # zs) ! i = take 16 (round_key k (Suc (Suc m) + i))" if "i < 14 - Suc m" for i
      using Suc.prems(2) [of "Suc i"] that by (simp add: ks)
  qed (use Suc ks in simp_all)
  then show ?case using assms(1) by (simp add: ks x addRoundKey_take)
qed

definition all_keys :: "bytes \<Rightarrow> bytes list" where
  "all_keys k = take 15 (key_list 8 k 1)"

lemma encrypt_eval:
  assumes "length k = 32" and "length b = 16"
  shows "crypto_aes_encrypt k b = enc_eval (all_keys k) b"
proof -
  let ?ks = "key_list 8 k 1"
  have n: "?ks ! r = take 16 (round_key k r)" if "r < 16" for r
    using key_list_nth [OF assms(1), of r 8 0] that by simp
  have l: "length ?ks = 16" by simp
  have h: "hd (take 15 ?ks) = take 16 (round_key k 0)" using n [of 0] l by (cases ?ks) auto
  have t: "tl (take 15 ?ks) ! i = take 16 (round_key k (Suc 0 + i))" if "i < 14 - 0" for i
    using n [of "Suc i"] that l by (simp add: nth_tl)
  have "enc_list (enc_buf k b 0) (tl (take 15 ?ks)) = cipher_text k b"
    by (rule enc_list_buf [OF assms(2)]) (use t l in simp_all)
  then show ?thesis
    using assms(2) h by (simp add: enc_eval_def all_keys_def crypto_aes_encrypt_eq [OF assms(1,2)] addRoundKey_take)
qed

lemmas expand_eval = expandEncKey_list
  [OF refl refl refl refl refl refl refl refl refl refl refl refl refl refl refl refl
   refl refl refl refl refl refl refl refl refl refl refl refl refl refl refl refl]

lemma all_keys_Suc: "all_keys k = butlast (key_list (Suc (Suc (Suc (Suc (Suc (Suc (Suc (Suc 0)))))))) k 1)"
proof -
  have e: "8 = Suc (Suc (Suc (Suc (Suc (Suc (Suc (Suc 0)))))))" by simp
  have "all_keys k = butlast (key_list 8 k 1)" by (simp add: all_keys_def butlast_conv_take)
  then show ?thesis unfolding e .
qed

lemmas key_eval = all_keys_Suc key_list.simps expand_eval rcon_F_def sbox_values

text \<open>With the ninth bit of the field polynomial the numeral stays below 256.\<close>

lemma xtime_eval: "rj_xtime x = (if x AND 0x80 \<noteq> 0 then push_bit 1 x XOR 0x11b else push_bit 1 x)"
proof -
  have "(0x11b :: u8) = 0x1b" by simp
  then show ?thesis by (simp only: rj_xtime_def)
qed

lemmas aes_eval = enc_eval_def enc_list.simps aes_subBytes_def shiftRows_list mixColumns_list addRoundKey_list
  mix4_def mul3_def xtime_eval sbox_values

end
