(* ===== verification/Sha256_Eval.thy ===== *)
theory Sha256_Eval
  imports Access_Safe
begin

text \<open>
  Evaluating SHA-256 on a message of one block by rewriting: the rounds over a window of sixteen
  words of the schedule, with every sum and rotation brought back below \<open>2 ^ 32\<close>.
\<close>

definition norm32 :: "u32 \<Rightarrow> u32" where
  "norm32 x = x"

lemma of_nat_mod_32: "of_nat (n mod 4294967296) = (of_nat n :: u32)"
  by (simp add: word_unat_eq_iff unat_of_nat)

lemma norm32_values: "norm32 0 = 0" "norm32 1 = 1" "norm32 (numeral k) = of_nat (numeral k mod 4294967296)"
  by (simp_all only: norm32_def of_nat_mod_32 of_nat_numeral)

fun window_rounds :: "u32 list \<Rightarrow> u32 list \<Rightarrow> sha_vars \<Rightarrow> sha_vars" where
  "window_rounds (k # ks) (w # ws) v =
     window_rounds ks (ws @ [sigma1 (ws ! 13) + ws ! 8 + sigma0 (ws ! 0) + w]) (round_spec k w v)"
| "window_rounds ks ws v = v"

lemma window_rounds_fold:
  "m \<le> 64 \<Longrightarrow> window_rounds (drop m sha256_round_constants) (map (schedule b) [m..<m + 16]) v =
     fold (\<lambda>t. round_spec (sha256_round_constants ! t) (schedule b t)) [m..<64] v"
proof (induction "64 - m" arbitrary: m v)
  case 0
  then show ?case by (simp add: sha256_round_constants_def)
next
  case (Suc d)
  have l: "length sha256_round_constants = 64" by (simp add: sha256_round_constants_def)
  have d: "drop m sha256_round_constants = sha256_round_constants ! m # drop (Suc m) sha256_round_constants"
    using Suc l by (simp add: Cons_nth_drop_Suc)
  have w: "map (schedule b) [m..<m + 16] = schedule b m # map (schedule b) [Suc m..<m + 16]"
    by (simp add: upt_conv_Cons)
  have c: "14 + m = m + 14" "9 + m = m + 9" by simp_all
  have s: "schedule b (m + 16) = sigma1 (schedule b (m + 14)) + schedule b (m + 9) + sigma0 (schedule b (m + 1)) + schedule b m"
    by (subst schedule.simps) (simp add: c)
  have "map (schedule b) [Suc m..<m + 16] @ [schedule b (m + 16)] = map (schedule b) [Suc m..<Suc m + 16]"
    using upt_Suc [of "Suc m" "m + 16"] by (simp del: upt_Suc)
  moreover have "map (schedule b) [Suc m..<m + 16] ! 13 = schedule b (m + 14)" "map (schedule b) [Suc m..<m + 16] ! 8 = schedule b (m + 9)"
    "map (schedule b) [Suc m..<m + 16] ! 0 = schedule b (m + 1)"
    by (simp_all add: c)
  ultimately have "window_rounds (drop m sha256_round_constants) (map (schedule b) [m..<m + 16]) v =
      window_rounds (drop (Suc m) sha256_round_constants) (map (schedule b) [Suc m..<Suc m + 16])
        (round_spec (sha256_round_constants ! m) (schedule b m) v)"
    unfolding d w window_rounds.simps by (simp add: s)
  moreover have "[m..<64] = m # [Suc m..<64]" using Suc by (simp add: upt_conv_Cons)
  ultimately show ?case using Suc.hyps(1) [of "Suc m"] Suc.hyps(2) by simp
qed

text \<open>The functions and the rounds with their results brought back.\<close>

lemma rotr_norm: "rotr n x = norm32 (drop_bit n x OR push_bit (32 - n) x)"
  by (simp add: rotr_def norm32_def)

lemma Ch_norm: "Ch x y z = z XOR (x AND (y XOR z))"
  by (rule bit_word_eqI) (auto simp: Ch_def bit_simps)

lemma round_norm:
  "round_spec k w (a, b, c, d, e, f, g, h) =
     (let t1 = norm32 (h + Sigma1 e + Ch e f g + k + w); t2 = norm32 (Sigma0 a + Maj a b c)
      in (norm32 (t1 + t2), a, b, c, norm32 (d + t1), e, f, g))"
  by (simp add: round_spec_def norm32_def)

lemma window_norm:
  "window_rounds (k # ks) [w0, w1, w2, w3, w4, w5, w6, w7, w8, w9, w10, w11, w12, w13, w14, w15] v =
     window_rounds ks [w1, w2, w3, w4, w5, w6, w7, w8, w9, w10, w11, w12, w13, w14, w15,
       norm32 (sigma1 w14 + w9 + sigma0 w1 + w0)] (round_spec k w0 v)"
  by (simp add: norm32_def)

lemma block_window:
  "block_spec b st =
     (case window_rounds sha256_round_constants (map (schedule b) [0..<16]) (vars_of st) of
        (a, b, c, d, e, f, g, h) \<Rightarrow> map norm32 (map2 (+) st [a, b, c, d, e, f, g, h]))"
  using window_rounds_fold [of 0 b "vars_of st"] by (simp add: block_spec_def norm32_def [abs_def] split: prod.split)

lemma schedule_words: "map (schedule b) [0..<16] =
  [be_word (b ! 0) (b ! 1) (b ! 2) (b ! 3), be_word (b ! 4) (b ! 5) (b ! 6) (b ! 7),
   be_word (b ! 8) (b ! 9) (b ! 10) (b ! 11), be_word (b ! 12) (b ! 13) (b ! 14) (b ! 15),
   be_word (b ! 16) (b ! 17) (b ! 18) (b ! 19), be_word (b ! 20) (b ! 21) (b ! 22) (b ! 23),
   be_word (b ! 24) (b ! 25) (b ! 26) (b ! 27), be_word (b ! 28) (b ! 29) (b ! 30) (b ! 31),
   be_word (b ! 32) (b ! 33) (b ! 34) (b ! 35), be_word (b ! 36) (b ! 37) (b ! 38) (b ! 39),
   be_word (b ! 40) (b ! 41) (b ! 42) (b ! 43), be_word (b ! 44) (b ! 45) (b ! 46) (b ! 47),
   be_word (b ! 48) (b ! 49) (b ! 50) (b ! 51), be_word (b ! 52) (b ! 53) (b ! 54) (b ! 55),
   be_word (b ! 56) (b ! 57) (b ! 58) (b ! 59), be_word (b ! 60) (b ! 61) (b ! 62) (b ! 63)]"
  by (simp add: upt_rec schedule.simps numeral_2_eq_2)

text \<open>A message of less than 56 bytes is one block.\<close>

lemma one_block:
  assumes "length m < 56"
  shows "sha256_spec m = concat (map be_bytes (block_spec (sha256_pad m)
    [0x6a09e667, 0xbb67ae85, 0x3c6ef372, 0xa54ff53a, 0x510e527f, 0x9b05688c, 0x1f83d9ab, 0x5be0cd19]))"
proof -
  have "(119 - length m) mod 64 = 55 - length m" using assms by (simp add: mod_if)
  then have "length (sha256_pad m) = 64" using assms by (simp add: sha256_pad_def Let_def be_bytes_def)
  then show ?thesis by (simp add: sha256_spec_def Let_def)
qed

lemmas sha_eval = block_window schedule_words window_norm round_norm Ch_norm rotr_norm Sigma0_def Sigma1_def sigma0_def sigma1_def
  Maj_def norm32_values be_word_def vars_of_def be_bytes_def

end
