(* ===== verification/Testcases_Safe.thy ===== *)
theory Testcases_Safe
  imports Testcases_Num Block_Cipher Aes_Eval Sha256_Eval Ppp_Safe
begin

text \<open>
  The test suite of the agent evaluated on the model.  The reference values of the sources (a block of
  AES, a digest of SHA-256, eighteen PPPv3 passcodes) are those the model computes; and the
  statistics that the suite also checks cannot be met with the fast option.
\<close>

subsection \<open>The cipher\<close>

definition test_keys :: "bytes list" where
  "test_keys =
   [[84, 104, 105, 115, 32, 105, 115, 32, 116, 104, 101, 32, 107, 101, 121, 0],
    [0, 0, 0, 0, 0, 0, 0, 0, 0, 0, 0, 0, 0, 0, 0, 0],
    [54, 11, 10, 16, 22, 98, 121, 48, 98, 10, 28, 16, 9, 111, 101, 16],
    [1, 168, 77, 202, 1, 168, 77, 202, 1, 168, 77, 202, 1, 168, 77, 202],
    [246, 232, 126, 108, 224, 138, 7, 92, 130, 128, 27, 76, 139, 239, 126, 92],
    [60, 119, 190, 128, 61, 223, 243, 74, 60, 119, 190, 128, 61, 223, 243, 74],
    [108, 229, 168, 75, 140, 111, 175, 23, 14, 239, 180, 91, 133, 0, 202, 7],
    [171, 20, 202, 69, 150, 203, 57, 15, 170, 188, 135, 143, 151, 99, 116, 197],
    [159, 119, 14, 195, 19, 24, 161, 212, 29, 247, 21, 143, 152, 247, 223, 136],
    [237, 124, 84, 129, 123, 183, 109, 142, 209, 11, 234, 1, 70, 104, 158, 196],
    [202, 124, 18, 153, 217, 100, 179, 77, 196, 147, 166, 194, 92, 100, 121, 74],
    [167, 63, 226, 87, 220, 136, 143, 217, 13, 131, 101, 216, 75, 235, 251, 28],
    [3, 115, 142, 42, 218, 23, 61, 103, 30, 132, 155, 165, 66, 224, 226, 239],
    [139, 222, 122, 136, 87, 86, 245, 81, 90, 213, 144, 137, 17, 62, 107, 149],
    [241, 12, 164, 168, 43, 27, 153, 207, 53, 159, 2, 106, 119, 127, 224, 133]]"

definition zero_keys :: "bytes list" where
  "zero_keys =
   [[0, 0, 0, 0, 0, 0, 0, 0, 0, 0, 0, 0, 0, 0, 0, 0],
    [0, 0, 0, 0, 0, 0, 0, 0, 0, 0, 0, 0, 0, 0, 0, 0],
    [98, 99, 99, 99, 98, 99, 99, 99, 98, 99, 99, 99, 98, 99, 99, 99],
    [170, 251, 251, 251, 170, 251, 251, 251, 170, 251, 251, 251, 170, 251, 251, 251],
    [111, 108, 108, 207, 13, 15, 15, 172, 111, 108, 108, 207, 13, 15, 15, 172],
    [125, 141, 141, 106, 215, 118, 118, 145, 125, 141, 141, 106, 215, 118, 118, 145],
    [83, 84, 237, 193, 94, 91, 226, 109, 49, 55, 142, 162, 60, 56, 129, 14],
    [150, 138, 129, 193, 65, 252, 247, 80, 60, 113, 122, 58, 235, 7, 12, 171],
    [158, 170, 143, 40, 192, 241, 109, 69, 241, 198, 227, 231, 205, 254, 98, 233],
    [43, 49, 43, 223, 106, 205, 220, 143, 86, 188, 166, 181, 189, 187, 170, 30],
    [100, 6, 253, 82, 164, 247, 144, 23, 85, 49, 115, 240, 152, 207, 17, 25],
    [109, 187, 169, 11, 7, 118, 117, 132, 81, 202, 211, 49, 236, 113, 121, 47],
    [231, 176, 232, 156, 67, 71, 120, 139, 22, 118, 11, 123, 142, 185, 26, 98],
    [116, 237, 11, 161, 115, 155, 126, 37, 34, 81, 173, 20, 206, 32, 212, 59],
    [16, 248, 10, 23, 83, 191, 114, 156, 69, 201, 121, 231, 203, 112, 99, 133]]"

definition ex2_keys :: "bytes list" where
  "ex2_keys =
   [[128, 69, 50, 34, 16, 255, 238, 0, 0, 0, 0, 0, 0, 0, 0, 0],
    [0, 0, 0, 0, 0, 0, 0, 0, 0, 0, 0, 0, 101, 117, 134, 152],
    [28, 1, 116, 111, 12, 254, 154, 111, 12, 254, 154, 111, 12, 254, 154, 111],
    [254, 187, 184, 168, 254, 187, 184, 168, 254, 187, 184, 168, 155, 206, 62, 48],
    [149, 179, 112, 123, 153, 77, 234, 20, 149, 179, 112, 123, 153, 77, 234, 20],
    [16, 88, 63, 82, 238, 227, 135, 250, 16, 88, 63, 82, 139, 150, 1, 98],
    [1, 207, 218, 70, 152, 130, 48, 82, 13, 49, 64, 41, 148, 124, 170, 61],
    [50, 72, 147, 117, 220, 171, 20, 143, 204, 243, 43, 221, 71, 101, 42, 191],
    [68, 42, 210, 230, 220, 168, 226, 180, 209, 153, 162, 157, 69, 229, 8, 160],
    [92, 145, 163, 149, 128, 58, 183, 26, 76, 201, 156, 199, 11, 172, 182, 120],
    [197, 100, 110, 205, 25, 204, 140, 121, 200, 85, 46, 228, 141, 176, 38, 68],
    [1, 118, 84, 142, 129, 76, 227, 148, 205, 133, 127, 83, 198, 41, 201, 43],
    [64, 185, 159, 121, 89, 117, 19, 0, 145, 32, 61, 228, 28, 144, 27, 160],
    [157, 22, 251, 110, 28, 90, 24, 250, 209, 223, 103, 169, 23, 246, 174, 130],
    [66, 93, 140, 137, 27, 40, 159, 137, 138, 8, 162, 109, 150, 152, 185, 205]]"

lemma replicate_zeros:
  "replicate 17 (0 :: u8) = [0, 0, 0, 0, 0, 0, 0, 0, 0, 0, 0, 0, 0, 0, 0, 0, 0]"
  "replicate 20 (0 :: u8) = [0, 0, 0, 0, 0, 0, 0, 0, 0, 0, 0, 0, 0, 0, 0, 0, 0, 0, 0, 0]"
  "replicate 32 (0 :: u8) = [0, 0, 0, 0, 0, 0, 0, 0, 0, 0, 0, 0, 0, 0, 0, 0, 0, 0, 0, 0, 0, 0, 0, 0, 0, 0, 0, 0, 0, 0, 0, 0]"
  by (simp_all add: numeral_eq_Suc)

lemma key_bytes:
  "test_key = [84, 104, 105, 115, 32, 105, 115, 32, 116, 104, 101, 32, 107, 101, 121, 0, 0, 0, 0, 0, 0, 0, 0, 0, 0, 0, 0, 0, 0, 0, 0, 0]"
  "ex2_bin = [128, 69, 50, 34, 16, 255, 238, 0, 0, 0, 0, 0, 0, 0, 0, 0, 0, 0, 0, 0, 0, 0, 0, 0, 0, 0, 0, 0, 101, 117, 134, 152]"
  by (simp_all add: test_key_def c_bytes_def ex2_bin_def replicate_zeros code_def)

lemma plain_bytes: "c_bytes ''To be encrypted.'' = [84, 111, 32, 98, 101, 32, 101, 110, 99, 114, 121, 112, 116, 101, 100, 46]"
  by (simp add: c_bytes_def code_def)

lemma round_keys: "all_keys test_key = test_keys" "all_keys (replicate 32 0) = zero_keys" "all_keys ex2_bin = ex2_keys"
  unfolding key_bytes replicate_zeros test_keys_def zero_keys_def ex2_keys_def by (simp_all add: key_eval)

lemma key_lengths: "length test_key = 32" "length ex2_bin = 32"
  by (simp_all add: key_bytes)

lemma test_cipher:
  "crypto_aes_encrypt test_key [84, 111, 32, 98, 101, 32, 101, 110, 99, 114, 121, 112, 116, 101, 100, 46] =
     [78, 185, 66, 51, 162, 207, 108, 60, 95, 150, 241, 17, 87, 138, 167, 120]"
  by (simp add: encrypt_eval key_lengths round_keys test_keys_def) (simp add: aes_eval)

lemma zero_ciphers:
  "crypto_aes_encrypt (replicate 32 0) [0, 0, 0, 0, 0, 0, 0, 0, 0, 0, 0, 0, 0, 0, 0, 0] =
     [220, 149, 192, 120, 162, 64, 137, 137, 173, 72, 162, 20, 146, 132, 32, 135]"
  "crypto_aes_encrypt (replicate 32 0) [34, 0, 0, 0, 0, 0, 0, 0, 0, 0, 0, 0, 0, 0, 0, 0] =
     [20, 233, 30, 98, 125, 210, 198, 250, 120, 2, 94, 101, 14, 195, 9, 82]"
  "crypto_aes_encrypt (replicate 32 0) [67, 155, 130, 51, 0, 0, 0, 0, 0, 0, 0, 0, 0, 0, 0, 0] =
     [58, 81, 214, 131, 80, 17, 220, 89, 184, 224, 1, 25, 226, 207, 120, 179]"
  "crypto_aes_encrypt (replicate 32 0) [124, 0, 0, 0, 0, 0, 0, 0, 0, 0, 0, 0, 0, 0, 0, 0] =
     [195, 199, 92, 153, 69, 248, 198, 168, 126, 219, 118, 61, 123, 113, 169, 241]"
  "crypto_aes_encrypt (replicate 32 0) [14, 197, 8, 0, 0, 0, 0, 0, 0, 0, 0, 0, 0, 0, 0, 0] =
     [124, 170, 125, 147, 253, 249, 36, 102, 247, 125, 233, 223, 169, 58, 216, 152]"
  by (simp_all add: encrypt_eval key_lengths round_keys zero_keys_def) (simp_all add: aes_eval)

lemma ex2_ciphers:
  "crypto_aes_encrypt ex2_bin [0, 0, 0, 0, 0, 0, 0, 0, 0, 0, 0, 0, 0, 0, 0, 0] =
     [140, 134, 9, 207, 152, 84, 51, 252, 236, 204, 75, 10, 196, 86, 2, 97]"
  "crypto_aes_encrypt ex2_bin [34, 0, 0, 0, 0, 0, 0, 0, 0, 0, 0, 0, 0, 0, 0, 0] =
     [193, 56, 12, 241, 139, 146, 38, 107, 57, 193, 114, 104, 246, 163, 105, 182]"
  "crypto_aes_encrypt ex2_bin [67, 155, 130, 51, 0, 0, 0, 0, 0, 0, 0, 0, 0, 0, 0, 0] =
     [81, 116, 86, 129, 26, 128, 22, 135, 246, 172, 6, 101, 240, 1, 245, 129]"
  "crypto_aes_encrypt ex2_bin [124, 0, 0, 0, 0, 0, 0, 0, 0, 0, 0, 0, 0, 0, 0, 0] =
     [119, 248, 94, 212, 58, 96, 240, 185, 159, 205, 133, 251, 10, 191, 252, 210]"
  "crypto_aes_encrypt ex2_bin [14, 197, 8, 0, 0, 0, 0, 0, 0, 0, 0, 0, 0, 0, 0, 0] =
     [251, 217, 155, 7, 78, 98, 183, 159, 58, 153, 52, 43, 129, 252, 239, 62]"
  "crypto_aes_encrypt ex2_bin [104, 0, 0, 0, 0, 0, 0, 0, 0, 0, 0, 0, 0, 0, 0, 0] =
     [94, 201, 185, 154, 210, 70, 177, 134, 178, 236, 206, 104, 46, 209, 173, 77]"
  "crypto_aes_encrypt ex2_bin [106, 0, 0, 0, 0, 0, 0, 0, 0, 0, 0, 0, 0, 0, 0, 0] =
     [63, 197, 138, 102, 188, 107, 242, 181, 240, 30, 96, 149, 147, 118, 97, 24]"
  by (simp_all add: encrypt_eval key_lengths round_keys ex2_keys_def) (simp_all add: aes_eval)

lemma counter_bytes:
  "num_to_bin (num_i 0) = [0, 0, 0, 0, 0, 0, 0, 0, 0, 0, 0, 0, 0, 0, 0, 0]"
  "num_to_bin (num_i 34) = [34, 0, 0, 0, 0, 0, 0, 0, 0, 0, 0, 0, 0, 0, 0, 0]"
  "num_to_bin (num_i 864197443) = [67, 155, 130, 51, 0, 0, 0, 0, 0, 0, 0, 0, 0, 0, 0, 0]"
  "num_to_bin (num_i 124) = [124, 0, 0, 0, 0, 0, 0, 0, 0, 0, 0, 0, 0, 0, 0, 0]"
  "num_to_bin (num_i 574734) = [14, 197, 8, 0, 0, 0, 0, 0, 0, 0, 0, 0, 0, 0, 0, 0]"
  "num_to_bin (num_i 104) = [104, 0, 0, 0, 0, 0, 0, 0, 0, 0, 0, 0, 0, 0, 0, 0]"
  "num_to_bin (num_i 106) = [106, 0, 0, 0, 0, 0, 0, 0, 0, 0, 0, 0, 0, 0, 0, 0]"
  by (simp_all add: num_to_bin_def num_ii_def le_bytes_8)

subsection \<open>The hash\<close>

lemma replicate_39: "replicate 39 (0 :: u8) = [0, 0, 0, 0, 0, 0, 0, 0, 0, 0, 0, 0, 0, 0, 0, 0, 0, 0, 0, 0, 0, 0, 0, 0, 0, 0, 0, 0, 0, 0, 0, 0, 0, 0, 0, 0, 0, 0, 0]"
  by (simp add: numeral_eq_Suc)

lemma test_pad: "sha256_pad [84, 111, 32, 98, 101, 32, 101, 110, 99, 114, 121, 112, 116, 101, 100, 46] =
  [84, 111, 32, 98, 101, 32, 101, 110, 99, 114, 121, 112, 116, 101, 100, 46, 0x80, 0, 0, 0, 0, 0, 0, 0, 0, 0, 0, 0, 0, 0, 0, 0, 0, 0, 0, 0, 0, 0, 0, 0, 0, 0, 0, 0, 0, 0, 0, 0, 0, 0, 0, 0, 0, 0, 0, 0, 0, 0, 0, 0, 0, 0, 0, 128]"
  by (simp add: sha256_pad_def be_bytes_def replicate_39)

lemma test_hash: "sha256_spec [84, 111, 32, 98, 101, 32, 101, 110, 99, 114, 121, 112, 116, 101, 100, 46] =
  [0x4f, 0xee, 0xfa, 0x18, 0x7b, 0x71, 0xc8, 0xf1, 0x36, 0xb6, 0xdb, 0xc8, 0x6e, 0xa6, 0x4f, 0x72,
                         0x1f, 0xfa, 0xa6, 0x0c, 0x52, 0x34, 0x96, 0x45, 0xeb, 0x87, 0x82, 0x56, 0x8e, 0x72, 0x17, 0xe1]"
  by (simp add: one_block test_pad) (simp add: sha_eval sha256_round_constants_def)

lemma fgetc_length: "length (fgetc_bytes n bs) = n"
  by (simp add: fgetc_bytes_def)

lemma aes_rounds_ok: "length key = 32 \<Longrightarrow> length pl = 16 \<Longrightarrow> fst (aes_rounds n key pl w) = 0"
proof (induction n arbitrary: pl w)
  case (Suc n)
  obtain r v where r: "crypto_file_rng ''/dev/urandom'' 16 w = (r, v)" by fastforce
  let ?p = "case r of None \<Rightarrow> pl | Some bs \<Rightarrow> bs"
  have "length ?p = 16"
    using r Suc.prems by (auto simp: crypto_file_rng_def Let_def fgetc_length split: option.splits prod.splits if_splits)
  moreover have "crypto_aes_decrypt key (crypto_aes_encrypt key ?p) = ?p"
    using calculation Suc.prems by (simp add: aes.dec_enc)
  ultimately show ?case using Suc.IH [of ?p v] Suc.prems by (simp add: r case_prod_unfold)
qed simp

lemma crypto_testcase_ok: "fst (crypto_testcase w) = 0"
proof -
  have l: "length (c_bytes ''To be encrypted.'') = 16" by (simp add: c_bytes_def)
  have "crypto_aes_decrypt test_key (crypto_aes_encrypt test_key (c_bytes ''To be encrypted.'')) = c_bytes ''To be encrypted.''"
    by (simp add: aes.dec_enc key_lengths l)
  moreover have "crypto_sha256 (c_bytes ''To be encrypted.'') =
      [0x4f, 0xee, 0xfa, 0x18, 0x7b, 0x71, 0xc8, 0xf1, 0x36, 0xb6, 0xdb, 0xc8, 0x6e, 0xa6, 0x4f, 0x72,
       0x1f, 0xfa, 0xa6, 0x0c, 0x52, 0x34, 0x96, 0x45, 0xeb, 0x87, 0x82, 0x56, 0x8e, 0x72, 0x17, 0xe1]"
    using test_hash by (simp add: crypto_sha256_spec plain_bytes)
  moreover have "crypto_aes_encrypt test_key (c_bytes ''To be encrypted.'') =
      [0x4e, 0xb9, 0x42, 0x33, 0xa2, 0xcf, 0x6c, 0x3c, 0x5f, 0x96, 0xf1, 0x11, 0x57, 0x8a, 0xa7, 0x78]"
    using test_cipher by (simp add: plain_bytes)
  ultimately show ?thesis
    using aes_rounds_ok [OF key_lengths(1) l, of 10 w] by (simp add: crypto_testcase_def Let_def case_prod_unfold)
qed

subsection \<open>Passcodes\<close>

definition test_state :: "bytes \<Rightarrow> u32 \<Rightarrow> state \<Rightarrow> bool" where
  "test_state key a s \<longleftrightarrow> sequence_key s = key \<and> alphabet s = a \<and> code_mask s = num_i 0xFFFFFFFF \<and>
     salt_mask s = num_ii 0xFFFFFFFFFFFFFFFF 0xFFFFFFFF00000000"

lemma test_masks:
  fixes c :: u64
  assumes "c < 0x100000000"
  shows "num_and (num_i c) (num_i 0xFFFFFFFF) = num_i c" "num_and (num_i c) (num_ii 0xFFFFFFFFFFFFFFFF 0xFFFFFFFF00000000) = num_zero"
proof -
  have c: "take_bit 32 c = c"
    using assms by (simp add: word_less_nat_alt word_unat_eq_iff unsigned_take_bit_eq take_bit_nat_eq_self)
  have "(0xFFFFFFFF :: u64) = mask 32" by (simp add: mask_eq_exp_minus_1)
  then have l: "c AND 0xFFFFFFFF = c" using c by (simp only: take_bit_eq_mask [symmetric])
  have "c AND 0xFFFFFFFF00000000 = (c AND 0xFFFFFFFF) AND 0xFFFFFFFF00000000" by (simp only: l)
  also have "\<dots> = c AND (0xFFFFFFFF AND 0xFFFFFFFF00000000)" by (simp only: and.assoc)
  also have "\<dots> = 0" by simp
  finally show "num_and (num_i c) (num_i 0xFFFFFFFF) = num_i c" "num_and (num_i c) (num_ii 0xFFFFFFFFFFFFFFFF 0xFFFFFFFF00000000) = num_zero"
    using l by (simp_all add: num_and_def num_ii_def)
qed

lemma unsalted_counter:
  assumes "test_state key a s" "c < 0x100000000"
  shows "ppp_unsalted (s\<lparr>counter := num_i c, code_length := n\<rparr>) = num_i c"
  using assms by (simp add: ppp_unsalted_def test_state_def test_masks)

lemma add_zero: "num_add n num_zero = n"
  by (rule num_eqI) (use nval_less [of n] in \<open>simp add: nval_add nval_num_ii\<close>)

lemma salt_of_counter:
  assumes "test_state key a s" "c < 0x100000000" "counter s = num_i c"
  shows "ppp_add_salt s (num_i c) = num_i c"
  using assms by (simp add: ppp_add_salt_def test_state_def test_masks add_zero)

fun digits :: "nat \<Rightarrow> string \<Rightarrow> nat \<Rightarrow> string" where
  "digits 0 A c = []"
| "digits (Suc n) A c = A ! (c mod length A) # digits n A (c div length A)"

lemma digits_numeral: "digits (numeral k) A c = A ! (c mod length A) # digits (pred_numeral k) A (c div length A)" "digits 1 A c = [A ! (c mod length A)]"
  by (simp_all add: numeral_eq_Suc)

lemma digits_map: "map (\<lambda>i. A ! (c div length A ^ i mod length A)) [0..<n] = digits n A c"
proof (induction n arbitrary: c)
  case (Suc n)
  have "map (\<lambda>i. A ! (c div length A ^ i mod length A)) [0..<Suc n] =
      A ! (c mod length A) # map (\<lambda>i. A ! (c div length A div length A ^ i mod length A)) [0..<n]"
    by (simp add: upt_conv_Cons map_Suc_upt [symmetric] div_mult2_eq del: upt_Suc)
  then show ?case by (simp only: Suc.IH digits.simps)
qed simp

text \<open>A vector is right for a key and an alphabet.\<close>

definition vector_ok :: "bytes \<Rightarrow> string \<Rightarrow> vector \<Rightarrow> bool" where
  "vector_ok key A = (\<lambda>(cnt, len, col, row, expected).
     2 \<le> len \<and> len \<le> 16 \<and> cnt < 0x100000000 \<and>
     unat row = unat cnt mod (10 * per_row (unat len)) div per_row (unat len) + 1 \<and>
     col = ppp_columns ! (unat cnt mod per_row (unat len)) \<and>
     expected = digits (unat len) A (nval (num_of_bin (crypto_aes_encrypt key (num_to_bin (num_i cnt))))))"

lemma ppp_test_passes:
  assumes s: "test_state key a s" and v: "vector_ok key (alphabet_of cfg (sint a)) t"
    and a: "ppp_verify_alphabet cfg (sint a) = 0" "cfg_ok cfg"
  shows "\<exists>s' p'. ppp_test cfg t (s, p, f) = Some (s', p', f) \<and> test_state key a s'"
proof -
  obtain cnt len col row expected where t: "t = (cnt, len, col, row, expected)" by (cases t) auto
  let ?s = "s\<lparr>counter := num_i cnt, code_length := len\<rparr>"
  note v = v [unfolded t vector_ok_def case_prod_conv]
  have big: "110 \<le> counter_range ?s" using s by (simp add: counter_range_def test_state_def nval_num_ii)
  obtain s' where s': "ppp_calculate ?s = Some s'" and c: "calculated ?s s'" using ppp_calculate_ok [OF _ _ big] v by auto
  have fr: "same_entry ?s s'" "same_mem ?s s'" using ppp_calculate_frame [OF s'] by auto
  then have ts: "test_state key a s'" and cs: "counter s' = num_i cnt" "code_length s' = len"
    using s by (simp_all add: test_state_def same_entry_def same_mem_def)
  have u: "nval (ppp_unsalted ?s) = unat cnt" using unsalted_counter [OF s] v by (simp add: nval_num_ii)
  have place: "current_row s' = row" "current_column s' = of_nat (code col)"
    using c v u by (simp_all add: calculated_def Let_def word_unat_eq_iff)
  have "sequence_key s' = key" "alphabet s' = a" using ts by (simp_all add: test_state_def)
  then have "ppp_get_passcode cfg s' (counter s') p = Some (0, expected)"
    using ppp_get_passcode_digits [of s' cfg "counter s'" p] v a salt_of_counter [OF ts _ cs(1)]
    by (simp add: cs passcode_of_def cipher_of_def Let_def digits_map)
  then show ?thesis
    using ts place by (simp add: t ppp_test_def s' num_export_dec fails_def)
qed

lemma ppp_tests_pass:
  assumes "list_all (vector_ok key (alphabet_of cfg (sint a))) ts" "ppp_verify_alphabet cfg (sint a) = 0" "cfg_ok cfg"
  shows "test_state key a s \<Longrightarrow> \<exists>s' p'. ppp_tests cfg ts (s, p, f) = Some (s', p', f) \<and> test_state key a s'"
  using assms(1)
proof (induction ts arbitrary: s p)
  case (Cons t ts)
  then have "test_state key a s" "vector_ok key (alphabet_of cfg (sint a)) t" by simp_all
  from ppp_test_passes [OF this assms(2,3)]
  obtain s1 p1 where 1: "ppp_test cfg t (s, p, f) = Some (s1, p1, f)" "test_state key a s1" by blast
  have "list_all (vector_ok key (alphabet_of cfg (sint a))) ts" using Cons.prems by simp
  with Cons.IH [OF 1(2), of p1] obtain s' p' where "ppp_tests cfg ts (s1, p1, f) = Some (s', p', f)" "test_state key a s'" by blast
  with 1(1) show ?case by simp
qed simp

lemma alphabet_values:
  "alphabet_of cfg 1 = alphabet_simple" "alphabet_of cfg 2 = alphabet_extended"
  by (simp_all add: alphabet_of_def alphabets_def)

lemma alphabet_lengths: "length alphabet_simple = 64" "length alphabet_extended = 88"
  by (simp_all add: alphabet_simple_def alphabet_extended_def)

lemmas vector_eval = vector_ok_def per_row_def ppp_columns_def counter_bytes num_of_bin_def nval_def digits_numeral alphabet_lengths

lemma vectors_zero_ok: "list_all (vector_ok (replicate 32 0) alphabet_simple) vectors_zero"
  by (simp add: vectors_zero_def vector_eval zero_ciphers) (simp add: alphabet_simple_def)

lemma vectors_zero_2_ok: "list_all (vector_ok (replicate 32 0) alphabet_extended) vectors_zero_2"
  by (simp add: vectors_zero_2_def vector_eval zero_ciphers) (simp add: alphabet_extended_def)

lemma vectors_ex2_ok: "list_all (vector_ok ex2_bin alphabet_simple) vectors_ex2"
  by (simp add: vectors_ex2_def vector_eval ex2_ciphers) (simp add: alphabet_simple_def)

lemma vectors_ex2_2_ok: "list_all (vector_ok ex2_bin alphabet_extended) vectors_ex2_2"
  by (simp add: vectors_ex2_2_def vector_eval ex2_ciphers) (simp add: alphabet_extended_def)

subsection \<open>Statistics\<close>

lemma sum_list_count:
  "i < length xs \<Longrightarrow> sum_list (xs[i := Suc (xs ! i)]) = Suc (sum_list xs :: nat)"
  by (induction xs arbitrary: i) (auto split: nat.splits)

lemma take_count: "r < n \<Longrightarrow> take n (xs[r := x]) = (take n xs)[r := x]"
  by (simp add: take_update_swap)

lemma stat2_code_sum:
  assumes "0 < unat (word_of_int len :: u64)" "n = unat (word_of_int len :: u64)" "n \<le> length cs"
  shows "sum_list (take n (stat2_code k len c cs)) = sum_list (take n cs) + k \<and> length (stat2_code k len c cs) = length cs"
  using assms(3)
proof (induction k arbitrary: c cs)
  case (Suc k)
  obtain q r where qr: "num_div_i c (word_of_int len) = (q, r)" by fastforce
  have r: "unat r < n" using num_div_i_val(2) [OF assms(1) qr] assms(1,2) by simp
  let ?cs = "cs[unat r := Suc (cs ! unat r)]"
  have "sum_list (take n ?cs) = Suc (sum_list (take n cs))"
    using sum_list_count [of "unat r" "take n cs"] r Suc.prems by (simp add: take_update_swap)
  then show ?case using Suc.IH [of ?cs q] Suc.prems by (simp add: qr)
qed simp

lemma stat2_loop_sum:
  assumes "0 < unat (word_of_int len :: u64)" "n = unat (word_of_int len :: u64)" "n \<le> length cs"
  shows "sum_list (take n (stat2_loop t s k len c cs)) = sum_list (take n cs) + t * k"
  using assms(3)
proof (induction t arbitrary: c cs)
  case (Suc t)
  show ?case using stat2_code_sum [OF assms(1,2), of cs k] Suc by (simp add: Let_def)
qed simp

text \<open>
  The counts of the characters add up to the number of characters, whatever the key is.  With 500
  passcodes their mean is 8000/88, while the code compares it with the quotient of integers, 90:
  one percent more, where one hundredth of a percent is accepted.
\<close>

lemma fails_nonneg [simp]: "0 \<le> fails b"
  by (simp add: fails_def)

lemma stat_2_mean_fails:
  assumes "n = unat (word_of_int len :: u64)" "0 < n" "n \<le> 130" "nat len = n" "10001 * (n * (t * k div n)) < 10000 * (t * k)"
  shows "1 \<le> ppp_testcase_stat_2 s len k t"
proof -
  have "sum_list (take n (stat2_loop t s k len (num_i 0) (replicate 130 0))) = t * k"
    using stat2_loop_sum [of len n "replicate 130 0" t s k "num_i 0"] assms(1-3) by simp
  then show ?thesis using assms(4,5) by (simp add: ppp_testcase_stat_2_def Let_def fails_def)
qed

lemma stat_2_fast_fails: "1 \<le> ppp_testcase_stat_2 s 88 16 500"
  by (rule stat_2_mean_fails [of 88]) simp_all

lemma statistical_nonneg: "ppp_testcase_statistical s len k t = Some f \<Longrightarrow> 0 \<le> f"
  by (auto simp: ppp_testcase_statistical_def bind_eq_Some_conv Let_def split: prod.splits)

lemma ppp_test_nonneg: "ppp_test cfg t (s, p, f) = Some (s', p', f') \<Longrightarrow> f \<le> f'"
  by (auto simp: ppp_test_def bind_eq_Some_conv split: prod.splits)

lemma ppp_tests_nonneg: "ppp_tests cfg ts (s, p, f) = Some (s', p', f') \<Longrightarrow> f \<le> f'"
proof (induction ts arbitrary: s p f)
  case (Cons t ts)
  then obtain s1 p1 f1 where 1: "ppp_test cfg t (s, p, f) = Some (s1, p1, f1)" and 2: "ppp_tests cfg ts (s1, p1, f1) = Some (s', p', f')"
    by (auto simp: bind_eq_Some_conv)
  show ?case using ppp_test_nonneg [OF 1] Cons.IH [OF 2] by simp
qed simp

lemma ppp_compat_nonneg: "ppp_compat_tests cfg (s, p, f) = Some (s', p', f') \<Longrightarrow> f \<le> f'"
  by (fastforce simp: ppp_compat_tests_def bind_eq_Some_conv Let_def dest!: ppp_tests_nonneg)

lemma ppp_testcase_fast_fails:
  assumes "ppp_testcase cfg sec True mem w = Some (f, w')"
  shows "1 \<le> f"
proof -
  obtain s f1 s' p' f' b1 b2 where "ppp_testcase_statistical s 64 16 500 = Some f1"
    and 1: "ppp_compat_tests cfg (s, [], f1 + ppp_testcase_stat_2 s 88 16 500) = Some (s', p', f')"
    and 2: "f = f' + 1 \<or> f = f' + fails b1 + fails b2"
    using assms by (force simp: ppp_testcase_def bind_eq_Some_conv Let_def split: if_splits)
  then have "0 \<le> f1" by (simp add: statistical_nonneg)
  moreover have "f' \<le> f" using 2 fails_nonneg [of b1] fails_nonneg [of b2] by linarith
  ultimately show ?thesis using ppp_compat_nonneg [OF 1] stat_2_fast_fails [of s] by linarith
qed

lemma aes_rounds_nonneg: "aes_rounds n k p w = (f, w') \<Longrightarrow> 0 \<le> f"
  by (induction n arbitrary: p w f) (auto simp: Let_def split: prod.splits option.splits)

lemma crypto_testcase_nonneg: "crypto_testcase w = (f, w') \<Longrightarrow> 0 \<le> f"
  by (auto simp: crypto_testcase_def Let_def split: prod.splits dest!: aes_rounds_nonneg)

lemma spass_testcase_nonneg: "spass_testcase cfg sec mem buf w = Some (f, w') \<Longrightarrow> 0 \<le> f"
  by (auto simp: spass_testcase_def bind_eq_Some_conv Let_def case_prod_unfold)

lemma state_testcase_nonneg: "state_testcase cfg sec mem1 mem2 w = Some (f, w') \<Longrightarrow> 0 \<le> f"
  by (auto simp: state_testcase_def bind_eq_Some_conv Let_def case_prod_unfold)

lemma do_testcase_fast_fails:
  assumes f: "num_testcase True = Some 0" and "do_testcase cfg sec True mem buf w = Some (r, w')"
  shows "r \<noteq> 0"
proof 
  assume "r = 0"
  then obtain c w1 f3 w2 f4 w3 f6 w5 where "spass_testcase c sec (mem 3) buf w1 = Some (f3, w2)"
    "state_testcase c sec (mem 4) (mem 5) w2 = Some (f4, w3)"
    and 6: "ppp_testcase c sec True mem (snd (crypto_testcase w3)) = Some (f6, w5)"
    and 0: "config_testcase (Some c) + f3 + f4 + fst (crypto_testcase w3) + f6 = 0"
    using assms by (auto simp: do_testcase_def bind_eq_Some_conv Let_def case_prod_unfold split: if_splits)
  then have "0 \<le> f3" "0 \<le> f4" "0 \<le> fst (crypto_testcase w3)"
    using crypto_testcase_nonneg [of w3] by (auto dest: spass_testcase_nonneg state_testcase_nonneg) (metis prod.collapse)
  moreover have "1 \<le> f6" by (rule ppp_testcase_fast_fails [OF 6])
  ultimately show False using 0 by (simp add: config_testcase_def)
qed

subsection \<open>Properties\<close>

lemma ppp_compat_passes:
  assumes "cfg_ok cfg" and "ppp_verify_alphabet cfg 1 = 0" and "ppp_verify_alphabet cfg 2 = 0" and "test_state key 1 s"
  shows "\<exists>s' p'. ppp_compat_tests cfg (s, p, f) = Some (s', p', f)"
proof -
  note pass = ppp_tests_pass [where cfg = cfg]
  have z: "test_state (replicate 32 0) 1 (s\<lparr>sequence_key := replicate 32 0\<rparr>)" using assms(4) by (simp add: test_state_def)
  from pass [OF _ _ assms(1) z, of vectors_zero p f] obtain s1 p1 where
    1: "ppp_tests cfg vectors_zero (s\<lparr>sequence_key := replicate 32 0\<rparr>, p, f) = Some (s1, p1, f)" "test_state (replicate 32 0) 1 s1"
    using assms(2) by (auto simp: alphabet_values vectors_zero_ok)
  have "test_state (replicate 32 0) 2 (s1\<lparr>alphabet := 2\<rparr>)" using 1(2) by (simp add: test_state_def)
  from pass [OF _ _ assms(1) this, of vectors_zero_2 p1 f] obtain s2 p2 where
    2: "ppp_tests cfg vectors_zero_2 (s1\<lparr>alphabet := 2\<rparr>, p1, f) = Some (s2, p2, f)" "test_state (replicate 32 0) 2 s2"
    using assms(3) by (auto simp: alphabet_values vectors_zero_2_ok)
  have "test_state ex2_bin 1 (s2\<lparr>alphabet := 1, sequence_key := ex2_bin\<rparr>)" using 2(2) by (simp add: test_state_def)
  from pass [OF _ _ assms(1) this, of vectors_ex2 p2 f] obtain s3 p3 where
    3: "ppp_tests cfg vectors_ex2 (s2\<lparr>alphabet := 1, sequence_key := ex2_bin\<rparr>, p2, f) = Some (s3, p3, f)" "test_state ex2_bin 1 s3"
    using assms(2) by (auto simp: alphabet_values vectors_ex2_ok)
  have "test_state ex2_bin 2 (s3\<lparr>alphabet := 2\<rparr>)" using 3(2) by (simp add: test_state_def)
  from pass [OF _ _ assms(1) this, of vectors_ex2_2 p3 f] obtain s4 p4 where
    4: "ppp_tests cfg vectors_ex2_2 (s3\<lparr>alphabet := 2\<rparr>, p3, f) = Some (s4, p4, f)"
    using assms(3) by (auto simp: alphabet_values vectors_ex2_2_ok)
  show ?thesis using 1(1) 2(1) 3(1) 4 by (simp add: ppp_compat_tests_def Let_def)
qed

text \<open>
  C18: the model computes every reference value of the sources: the tests of the numbers, of the cipher
  and of the hash have no failures, whatever the random devices give, and for a configuration that
  accepts the first two alphabets and uses the first one, all the PPPv3 passcodes for the zero key
  and for the second key, with their cards, rows and columns, are the expected ones.
\<close>

theorem reference_values:
  assumes "cfg_ok cfg" and "ppp_verify_alphabet cfg 1 = 0" and "ppp_verify_alphabet cfg 2 = 0" and "alphabet_def cfg = 1"
    and "state_init (Some cfg) user mem = Some (r, s)"
  shows "num_testcase True = Some 0 \<and> fst (crypto_testcase w) = 0 \<and>
    (\<exists>s' p. ppp_compat_tests cfg (s, [], 0) = Some (s', p, 0))"
proof -
  have "alphabet s = 1" using assms(4,5) by (auto simp: state_init_def Let_def bind_eq_Some_conv split: prod.splits)
  then have "test_state (sequence_key s) 1 s" using state_init_mem [OF assms(5)] by (simp add: test_state_def)
  with ppp_compat_passes [OF assms(1-3)] num_testcase_fast crypto_testcase_ok show ?thesis by simp
qed

theorem reference_values_witness:
  "\<exists>s s' p. state_init (Some config_defaults) ''ann'' state_zero = Some (0, s) \<and>
     ppp_compat_tests config_defaults (s, [], 0) = Some (s', p, 0)"
proof -
  have d: "alphabet_change config_defaults = 1" "alphabet_min_length config_defaults = 32" "alphabet_def config_defaults = 1"
    "alphabet_max_length config_defaults = 88" "passcode_def_length config_defaults = 4" by (simp_all add: config_defaults_def)
  have v: "ppp_verify_alphabet config_defaults 1 = 0" "ppp_verify_alphabet config_defaults 2 = 0"
    by (simp_all add: ppp_verify_alphabet_def ppp_alphabet_count_def alphabet_values alphabet_lengths d)
  have "\<exists>r s. state_init (Some config_defaults) ''ann'' state_zero = Some (r, s)" by (rule state_init_total) (simp_all add: d)
  then obtain r s where s: "state_init (Some config_defaults) ''ann'' state_zero = Some (r, s)" by blast
  moreover have "r = 0" using state_init_mem [OF s] by simp
  ultimately show ?thesis using reference_values [OF config_defaults_ok v d(3) s] by blast
qed

text \<open>
  C40: with the fast option the suite never reports success: the second statistical test always
  fails, whatever the key is, because it takes 90, the quotient of integers, for the mean of 8000/88.
\<close>

theorem fast_testcases_fail:
  "1 \<le> ppp_testcase_stat_2 s 88 16 500 \<and> do_testcase cfg sec True mem buf w \<noteq> Some (0, w')"
  using stat_2_fast_fails do_testcase_fast_fails [OF num_testcase_fast] by blast

text \<open>Without the option the suite has no result, apart from a failed initialisation: an \<open>int\<close> overflows.\<close>

lemma slow_testcases_undefined: "do_testcase (Some cfg) sec False mem buf w = Some (r, w') \<Longrightarrow> r = 1"
  by (auto simp: do_testcase_def num_testcase_slow bind_eq_Some_conv split: if_splits)

end
