(* ===== verification/Tools.thy ===== *)
theory Tools
  imports Security
begin

text \<open>
  Two small programs of the developers: \<open>src/tools/suid.c\<close>, which tries out how a program installed
  setuid root gives up and takes back its identity, and \<open>src/tools/lock.c\<close>, which holds the lock of
  a state file until a key is pressed.  What they print is left out, and so is the unused function
  \<open>overwrite\<close>.  \<open>None\<close> is \<open>exit(EXIT_FAILURE)\<close>.
\<close>

subsection \<open>Giving up root\<close>

record suid_ids =
  real_uid_of :: u32
  set_uid_of :: u32
  real_gid_of :: u32
  set_gid_of :: u32

definition suid_init :: "creds \<Rightarrow> suid_ids" where
  "suid_init c = \<lparr>real_uid_of = ruid c, set_uid_of = euid c, real_gid_of = rgid c, set_gid_of = egid c\<rparr>"

definition drop_temporarily :: "creds \<Rightarrow> creds option" where
  "drop_temporarily c0 =
     do { c \<leftarrow> setresuid (ruid c0) (ruid c0) (euid c0) c0;
          c \<leftarrow> setresgid (rgid c0) (rgid c0) (egid c0) c;
          if euid c \<noteq> ruid c \<or> egid c \<noteq> rgid c then None else Some c }"

definition drop_pernamently :: "creds \<Rightarrow> creds option" where
  "drop_pernamently c0 =
     do { c \<leftarrow> setresuid (ruid c0) (ruid c0) (ruid c0) c0;
          c \<leftarrow> setresgid (rgid c0) (rgid c0) (rgid c0) c;
          if euid c \<noteq> ruid c \<or> egid c \<noteq> rgid c then None else Some c }"

definition restore_root :: "suid_ids \<Rightarrow> creds \<Rightarrow> creds option" where
  "restore_root i c =
     do { c \<leftarrow> setresuid (real_uid_of i) (set_uid_of i) (set_uid_of i) c;
          c \<leftarrow> setresgid (real_gid_of i) (set_gid_of i) (set_gid_of i) c;
          if euid c \<noteq> set_uid_of i \<or> egid c \<noteq> set_gid_of i then None else Some c }"

definition suid_main :: "creds \<Rightarrow> creds option" where
  "suid_main c =
     do { let i = suid_init c;
          c \<leftarrow> drop_temporarily c;
          c \<leftarrow> restore_root i c;
          c \<leftarrow> drop_pernamently c;
          restore_root i c }"

text \<open>A program of root started by a user.\<close>

definition started_suid :: "u32 \<Rightarrow> u32 \<Rightarrow> creds" where
  "started_suid u g = \<lparr>ruid = u, euid = 0, suid = 0, rgid = g, egid = g, sgid = g\<rparr>"

lemma temporary_drop_restores:
  "\<exists>c. drop_temporarily (started_suid u g) = Some c \<and> ruid c = u \<and> euid c = u \<and>
     restore_root (suid_init (started_suid u g)) c = Some (started_suid u g)"
  by (simp add: drop_temporarily_def restore_root_def suid_init_def started_suid_def cred_defs)

text \<open>The last step of the program is expected to fail, and it does for everybody but root.\<close>

lemma suid_main_result: "suid_main (started_suid u g) = (if u = 0 then Some (started_suid 0 g) else None)"
  by (simp add: suid_main_def drop_temporarily_def drop_pernamently_def restore_root_def suid_init_def started_suid_def cred_defs Let_def)

lemma permanent_drop_final:
  assumes "drop_pernamently (started_suid u g) = Some c" and "u \<noteq> 0" and "cred_step\<^sup>*\<^sup>* c c'"
  shows "powerless u c'"
proof -
  have "powerless u c"
    using assms(1,2) by (auto simp: drop_pernamently_def started_suid_def powerless_def cred_defs bind_eq_Some_conv split: if_splits)
  then show ?thesis by (rule powerless_steps [OF assms(3)])
qed

subsection \<open>Holding a lock\<close>

abbreviation (input) LOCK_FILE :: string where "LOCK_FILE \<equiv> ''.otpasswd.lck''"

text \<open>The result, the descriptor the program remembers, and the world.\<close>

definition tool_lock :: "world \<Rightarrow> int \<times> int \<times> world" where
  "tool_lock w =
     (let (r, w) = os_open_lck LOCK_FILE w
      in case r of
           None \<Rightarrow> (1, -1, w)
         | Some fd \<Rightarrow>
             let (ok, w) = os_setlk fd LOCK_FILE w
             in if ok then (0, fd, w) else (1, fd, os_close fd w))"

definition tool_unlock :: "int \<Rightarrow> world \<Rightarrow> int \<times> int \<times> world" where
  "tool_unlock fd w =
     (if fd < 0 then (1, fd, w)
      else let (ok, w) = os_unlk fd w; w = os_close fd w
           in (if ok then 0 else 1, -1, w))"

definition lock_main :: "world \<Rightarrow> int \<times> world" where
  "lock_main w =
     (let (r, fd, w) = tool_lock w
      in if r \<noteq> 0 then (1, w) else let (_, _, w) = tool_unlock fd w in (0, w))"

lemma lock_main_releases:
  assumes "lock_main w = (r, w')" and "w_locks w = Map.empty" and "0 \<le> w_fd w"
  shows "w_locks w' = Map.empty"
proof -
  obtain b v where f: "fault w = (b, v)" by fastforce
  have v: "w_locks v = Map.empty" "w_fd v = w_fd w" using fault_frame [OF f] assms(2) by (simp_all add: same_env_def)
  show ?thesis
    using assms v f by (auto simp: lock_main_def tool_lock_def tool_unlock_def os_open_lck_def os_setlk_def os_unlk_def os_close_def Let_def
        split: if_splits prod.splits option.splits dest!: fault_frame)
qed

end
