(* ===== verification/Spec2Isabelle.thy ===== *)
theory Spec2Isabelle
  imports Pam_Safe Agent_Safe Db_Safe Access_Safe Sha256_Stream Otpasswd_Safe Logging Testcases_Safe
    Tools
begin

text \<open>
  \<^bold>\<open>otpasswd\<close> logs users in with one-time passwords.  A user has a secret key and a counter; the
  passcode of a counter is its encryption under the key, written with the letters of an alphabet
  and cut to a few characters (PPPv3).  The user carries passcodes on printed cards.  This
  development models the C sources under \<open>src/src/\<close> and proves what makes them correct.

  \<^bold>\<open>The program and its parts.\<close>  Three programs share one library.
  The PAM module (\<open>pam/\<close>) runs inside \<open>login\<close>, \<open>sshd\<close> and the like: it takes the next counter
  out of the database, prompts for its passcode and decides.  The agent (\<open>agent/\<close>) may be installed
  setuid root and is the only program that touches a global database; it serves requests that
  arrive in fixed frames through a pipe and checks each against the policy.  The utility
  (\<open>utility/\<close>) is what a user runs: it parses a command line, starts the agent and sends it
  requests through the client library \<open>agent/agent_interface.c\<close>.  The library (\<open>libotp/\<close>) holds the
  configuration, the state of a user, the database of states and the PPP operations; it rests on
  \<open>common/\<close> (128 bit numbers, crypto, log) and \<open>crypto/\<close> (AES, SHA-256).

  \<^bold>\<open>Conventions.\<close>
  A record models a C structure and keeps the widths of its integers; a C string is the list of its
  characters up to the NUL.  Result codes are integers, as in C.  \<open>None\<close> of an \<open>option\<close> stands for the
  program ending: a failing \<open>assert\<close>, \<open>exit(EXIT_FAILURE)\<close>, undefined behaviour, or (in the three
  functions named below) a loop that does not end.  Uninitialised memory is an argument (\<open>mem\<close>,
  \<open>garbage\<close>, \<open>sha_buf\<close>), so a statement for all arguments covers every content.
  The operating system is the record \<open>world\<close> of \<^theory_text>\<open>Os\<close>: files with owner and mode, the password
  database, random devices, clock, record locks, and a list \<open>w_faults\<close> from which every call that may
  fail takes whether it does; a statement for all worlds covers every pattern of failing calls.
  \<open>cfg_get\<close>, whose C version keeps a static copy, is an argument \<open>cfg\<close>.

  \<^bold>\<open>Theories and sources.\<close>
  \<^item> \<^theory_text>\<open>Prelude\<close> (words, the option monad, the interface \<open>codec\<close>), \<^theory_text>\<open>Libc\<close> (\<open>ctype.h\<close>, \<open>printf\<close> and
    \<open>sscanf\<close> conversions, byte order) and \<^theory_text>\<open>Os\<close> are shared.
  \<^item> \<open>common/num.c\<close>: \<^theory_text>\<open>Num128\<close> (arithmetic) and \<^theory_text>\<open>Num_Conv\<close> (\<open>num_import\<close>, \<open>num_export\<close>).
    \<open>common/crypto.c\<close>: \<^theory_text>\<open>Crypto\<close>.  \<open>common/print.c\<close>: \<^theory_text>\<open>Logging\<close>.
  \<^item> \<open>crypto/coreutils_sha256.c\<close>: \<^theory_text>\<open>Sha256\<close>, \<^theory_text>\<open>Sha256_Stream\<close>.  \<open>crypto/polarssl_aes.c\<close>: \<^theory_text>\<open>Aes\<close>.
    \<open>crypto/slow_aes256.c\<close>: \<^theory_text>\<open>Slow_Aes\<close>.
  \<^item> \<open>libotp/config.c\<close>: \<^theory_text>\<open>Config\<close>.  \<open>libotp/state.c\<close>: \<^theory_text>\<open>State\<close> (the record, initialisation, key
    generation) and \<^theory_text>\<open>State_Db\<close> (the dispatch to the backend).  \<open>libotp/db_file.c\<close>: \<^theory_text>\<open>Db_File\<close>.
  \<^item> \<open>libotp/ppp.c\<close>: \<^theory_text>\<open>Ppp\<close> (alphabets, passcodes, cards, warnings), \<^theory_text>\<open>Ppp_State\<close> (load, release, the
    atomic operations) and \<^theory_text>\<open>Ppp_Access\<close> (accessors, prompt, static passwords).
  \<^item> \<open>pam/pam_helpers.c\<close>, \<open>pam/pam_otpasswd.c\<close>: \<^theory_text>\<open>Pam\<close>.
  \<^item> \<open>agent/security.c\<close>: \<^theory_text>\<open>Security\<close>.  \<open>agent/agent_private.c\<close>: \<^theory_text>\<open>Agent_Hdr\<close>.  \<open>agent/request.c\<close>:
    \<^theory_text>\<open>Request\<close>.  \<open>agent/agent.c\<close>: \<^theory_text>\<open>Agent_Main\<close>.  \<open>agent/agent_interface.c\<close>: \<^theory_text>\<open>Agent_Client\<close>.
    \<open>agent/testcases.c\<close> and \<open>do_testcase\<close> of \<open>agent.c\<close>: \<^theory_text>\<open>Testcases\<close>.
  \<^item> \<open>utility/cards.c\<close>: \<^theory_text>\<open>Cards\<close>.  \<open>utility/actions_helpers.c\<close>: \<^theory_text>\<open>Actions_Helpers\<close>.
    \<open>utility/actions.c\<close>: \<^theory_text>\<open>Actions\<close>.  \<open>utility/otpasswd.c\<close>: \<^theory_text>\<open>Otpasswd\<close>.
  \<^item> \<open>src/tools/suid.c\<close>, \<open>src/tools/lock.c\<close>: \<^theory_text>\<open>Tools\<close>.

  Definitions carry the names of the C functions; where one C function is several definitions
  (a loop, a case of a switch, the part after an early return) they share its prefix.
\<close>

text \<open>
  \<^bold>\<open>What is proved.\<close>

  \<^item> \<^bold>\<open>Numbers\<close> (\<^theory_text>\<open>Num128\<close>, \<^theory_text>\<open>Num_Conv\<close>).  All operations are exact on \<open>nval\<close>, the number
    represented; the long division is right for every divisor but 0.  The decimal parser accepts
    exactly the numbers below \<open>2 ^ 128\<close>; every format is read back, except the one of the PPPv3
    tools, whose import reverses the bytes.
  \<^item> \<^bold>\<open>Crypto.\<close>  \<^theory_text>\<open>Sha256_Spec\<close> states SHA-256 as FIPS 180-4 does and proves that the buffered code
    computes it, for any alignment; \<^theory_text>\<open>Sha256_Stream\<close> extends this to streams.  \<^theory_text>\<open>Aes_Field\<close> derives
    the tables of the fast AES from the byte field, and \<^theory_text>\<open>Aes_Equiv\<close> shows that it and the byte
    oriented AES of the sources are the same function in both directions, and that decryption
    undoes encryption.  \<^theory_text>\<open>Block_Cipher\<close> states what passcodes need of a cipher as an interface.
  \<^item> \<^bold>\<open>Configuration and static passwords\<close> (\<^theory_text>\<open>Config\<close>, \<^theory_text>\<open>Access_Safe\<close>).  Whatever the file contains,
    the accepted options are well formed and consistent (\<open>cfg_ok\<close>).  A static password that was set is
    the one accepted; what a failing hash leaves.
  \<^item> \<^bold>\<open>Database.\<close>  \<^theory_text>\<open>Db_Entry\<close>: an entry is printed and read back with every stored field.
    \<^theory_text>\<open>Db_Store\<close>, \<^theory_text>\<open>Db_Map\<close> and \<^theory_text>\<open>Db_Lock\<close> abstract the file to a map from users to entries; \<^theory_text>\<open>Db_Safe\<close>
    proves that a store is an update of the map and leaves the file as it was, byte for byte,
    unless it reports success, that a load is a lookup, and an invariant of the file and the lock
    for all sequences of operations.  \<^theory_text>\<open>State_Map\<close> states this contract as the locale
    \<open>user_db\<close>, interpreted on the file backend.
  \<^item> \<^bold>\<open>PPP.\<close>  \<^theory_text>\<open>Ppp_Calc\<close> and \<^theory_text>\<open>Ppp_Code\<close>: the place of a passcode on the cards, its characters as
    digits of the cipher, and exactly when authentication succeeds.  \<^theory_text>\<open>Ppp_Txn\<close>, inside the
    locale \<open>entry_change\<close> over \<open>user_db\<close>, and \<^theory_text>\<open>Ppp_Safe\<close>: increment, skip, failure counts and
    out-of-band time each change one entry or nothing, whatever calls fail; no counter is given out
    twice; \<^theory_text>\<open>Ppp_Run\<close> proves that they succeed when nothing fails.
  \<^item> \<^bold>\<open>PAM\<close> (\<^theory_text>\<open>Pam_Safe\<close>).  Success means that the answer was the passcode of a counter just taken out
    of the database, after the static password where one is required; the number of guesses is
    bounded; which answer runs into an assertion.
  \<^item> \<^bold>\<open>Agent.\<close>  \<^theory_text>\<open>Agent_Wire\<close>, \<^theory_text>\<open>Agent_Safe\<close>: a frame arrives as it was sent, however the pipe cuts it;
    what the client library asks is what the agent is asked; the loop ends; a request the policy
    denies changes nothing; requests are served without root's identity, which no sequence of
    calls gives back, unless root started the agent.
  \<^item> \<^bold>\<open>Utility.\<close>  \<^theory_text>\<open>Cards_Text\<close>: the buffer code prints exactly the card as the text of its lines, inside
    its buffers, with the passcode the prompt names at the place it names.  \<^theory_text>\<open>Otpasswd_Safe\<close>:
    accepted command lines are well formed, the place a prompt names is understood as its passcode,
    and without a yes of the user no action stores a state or removes a key.
  \<^item> \<^bold>\<open>Reference values.\<close>  \<^theory_text>\<open>Testcases_Num\<close> and \<^theory_text>\<open>Testcases_Safe\<close> evaluate the test suite of the sources
    on the model, with \<^theory_text>\<open>Aes_Eval\<close> and \<^theory_text>\<open>Sha256_Eval\<close>: the model computes the AES block, the SHA-256
    digest, the conversions and the eighteen PPPv3 passcodes that the sources expect; and the
    suite itself never reports success when it is run with its fast option.

  Theorems that show an error of the code, such as a salt lost by a skip, are stated as the code
  behaves; the text before each says what is wrong.

  \<^bold>\<open>Interfaces.\<close>  \<open>codec\<close> (\<^theory_text>\<open>Prelude\<close>) is interpreted on the three number formats and on database
  entries, \<open>user_db\<close> (\<^theory_text>\<open>State_Map\<close>) on the operations of \<open>state.c\<close>, \<open>entry_change\<close> (\<^theory_text>\<open>Ppp_Txn\<close>) on
  increment, skip, failure counts and out-of-band time, \<open>block_cipher\<close> (\<^theory_text>\<open>Block_Cipher\<close>) on both AES.

  \<^bold>\<open>Termination.\<close>  Loops over data are structural or have a measure: the bytes left of a file or a
  message, the value of the number being printed, the pieces left in a pipe, the tries a login
  has left.  Three loops wait for the user and need not end; they are partial functions with
  \<open>None\<close> for not returning: the two questions that insist on an answer and the table of alphabets
  that a user chooses from.  Nothing depends on fuel.

  \<^bold>\<open>Assumed.\<close>  The rules of \<open>setresuid\<close> and its relatives in \<^theory_text>\<open>Security\<close>; that a rename replaces a file
  at once; the results of \<open>fork\<close>, \<open>exec\<close>, \<open>waitpid\<close>, \<open>getopt_long\<close> and of the PAM library, which are
  arguments of the definitions that use them.  Sessions exclude each other by the record lock; an
  operation is atomic with respect to others while it holds the lock, and theorems about sequences
  are about sessions that follow each other.

  \<^bold>\<open>Not modelled.\<close>  Prompts, hints, error, usage and licence texts; the translation of
  messages.  Code the sources disable: the OpenSSL variants and GMP, CBC, CFB and self tests
  of \<open>polarssl_aes.c\<close>, \<open>BACK_TO_TABLES\<close> in \<open>slow_aes256.c\<close>, \<open>ah_update_flags\<close>, \<open>card_testcase\<close>, and the
  backends \<open>db_mysql.c\<close> and \<open>db_ldap.c\<close>, which hold nothing else.  \<open>src/tools/pam_test.c\<close>, which calls the
  PAM library with fixed answers.  Timing and the wiping of memory after use are not observable in
  the model.
\<close>

end
